(* ===== verification/Prelude.thy ===== *)
theory Prelude
  imports Main "HOL-Library.Word" "HOL-Library.Multiset"
begin

text \<open>
  What every component of the development shares: bytes, the values a Go call can produce
  (a result, an error value, a run-time panic) and generic facts on lists, maps and words.

  A Go function that returns \<open>(x, err)\<close> is modelled by a HOL function into \<open>outcome\<close>:
  \<open>Ok x\<close> for a nil error, \<open>Err e\<close> for a non-nil one and \<open>Panic p\<close> when the Go run time
  stops the goroutine (index out of range, nil dereference, failed type assertion).
  On the error path the other results of the Go call are not modelled: no caller in the
  repository reads them.
\<close>

unbundle bit_operations_syntax

section \<open>Bytes\<close>

type_synonym byte = "8 word"
type_synonym bytes = "byte list"

definition byte_of_char :: "char \<Rightarrow> byte" where
  "byte_of_char c = word_of_nat (of_char c)"

definition char_of_byte :: "byte \<Rightarrow> char" where
  "char_of_byte b = char_of (unat b)"

text \<open>The conversions \<open>[]byte(s)\<close> and \<open>string(b)\<close> of Go.\<close>

definition bytes_of_string :: "string \<Rightarrow> bytes" where
  "bytes_of_string s = map byte_of_char s"

definition string_of_bytes :: "bytes \<Rightarrow> string" where
  "string_of_bytes b = map char_of_byte b"

lemma char_of_byte_of_char [simp]: "char_of_byte (byte_of_char c) = c"
proof -
  have "of_char c < (256 :: nat)" by simp
  then show ?thesis
    by (simp add: char_of_byte_def byte_of_char_def unat_of_nat)
qed

lemma byte_of_char_of_byte [simp]: "byte_of_char (char_of_byte b) = b"
proof -
  have "unat b < 256" using unsigned_less [of b] by simp
  then show ?thesis
    by (simp add: char_of_byte_def byte_of_char_def)
qed

lemma string_of_bytes_of_string [simp]: "string_of_bytes (bytes_of_string s) = s"
  by (simp add: string_of_bytes_def bytes_of_string_def comp_def)

lemma bytes_of_string_of_bytes [simp]: "bytes_of_string (string_of_bytes b) = b"
  by (simp add: string_of_bytes_def bytes_of_string_def comp_def)

lemma length_bytes_of_string [simp]: "length (bytes_of_string s) = length s"
  by (simp add: bytes_of_string_def)

section \<open>Errors and outcomes\<close>

text \<open>
  The error values the modelled code builds or passes on. \<open>SyntaxError\<close> and
  \<open>StructuralError\<close> are those of \<open>encoding/asn1\<close>; \<open>ArgumentError\<close> (with the offending value
  as text), \<open>MessageError\<close> (with its cause) and \<open>NotInTimeWindow\<close> are those of
  \<open>snmpgo/errors.go\<close>; \<open>NetError t s\<close> is a \<open>net.Error\<close> whose \<open>Timeout()\<close> is \<open>t\<close>;
  \<open>PlainError\<close> is an \<open>errors.New\<close> or \<open>fmt.Errorf\<close> value.
\<close>

datatype go_error =
    SyntaxError string
  | StructuralError string
  | PlainError string
  | ArgumentError string string
  | MessageError "go_error option" string
  | NotInTimeWindow go_error
  | NetError bool string

datatype go_panic = IndexOutOfRange | NilDereference | TypeAssertion | SliceBounds | ExplicitPanic string

datatype 'a outcome = Ok 'a | Err go_error | Panic go_panic

fun and_then :: "'a outcome \<Rightarrow> ('a \<Rightarrow> 'b outcome) \<Rightarrow> 'b outcome" where
  "and_then (Ok x) f = f x"
| "and_then (Err e) f = Err e"
| "and_then (Panic p) f = Panic p"

lemma and_then_cong [fundef_cong]:
  assumes "x = y" and "\<And>a. y = Ok a \<Longrightarrow> f a = g a"
  shows "and_then x f = and_then y g"
  using assms by (cases y) auto

named_theorems outcome_simps \<open>rewriting results of sequenced calls\<close>

lemma and_then_Ok_iff [outcome_simps]: "and_then x f = Ok b \<longleftrightarrow> (\<exists>a. x = Ok a \<and> f a = Ok b)"
  by (cases x) auto

lemma and_then_Err_iff [outcome_simps]:
  "and_then x f = Err e \<longleftrightarrow> x = Err e \<or> (\<exists>a. x = Ok a \<and> f a = Err e)"
  by (cases x) auto

lemma and_then_Panic_iff [outcome_simps]:
  "and_then x f = Panic p \<longleftrightarrow> x = Panic p \<or> (\<exists>a. x = Ok a \<and> f a = Panic p)"
  by (cases x) auto

lemma and_then_assoc: "and_then (and_then x f) g = and_then x (\<lambda>a. and_then (f a) g)"
  by (cases x) auto

text \<open>A call that never panics, whatever it returns.\<close>

fun panics :: "'a outcome \<Rightarrow> bool" where
  "panics (Panic _) \<longleftrightarrow> True"
| "panics _ \<longleftrightarrow> False"

lemma panics_and_then [simp]:
  "panics (and_then x f) \<longleftrightarrow> panics x \<or> (\<exists>a. x = Ok a \<and> panics (f a))"
  by (cases x) auto

lemma panics_iff: "panics x \<longleftrightarrow> (\<exists>p. x = Panic p)"
  by (cases x) auto

fun is_ok :: "'a outcome \<Rightarrow> bool" where
  "is_ok (Ok _) \<longleftrightarrow> True"
| "is_ok _ \<longleftrightarrow> False"

lemma is_ok_iff: "is_ok x \<longleftrightarrow> (\<exists>a. x = Ok a)"
  by (cases x) auto

text \<open>Indexing and slicing of a Go slice, with the bounds check of the run time.\<close>

definition idx :: "'a list \<Rightarrow> nat \<Rightarrow> 'a outcome" where
  "idx xs i = (if i < length xs then Ok (xs ! i) else Panic IndexOutOfRange)"

definition slice :: "'a list \<Rightarrow> nat \<Rightarrow> nat \<Rightarrow> 'a list outcome" where
  "slice xs lo hi =
     (if lo \<le> hi \<and> hi \<le> length xs then Ok (take (hi - lo) (drop lo xs)) else Panic SliceBounds)"

lemma idx_in_range [simp]: "i < length xs \<Longrightarrow> idx xs i = Ok (xs ! i)"
  by (simp add: idx_def)

lemma panics_idx [simp]: "panics (idx xs i) \<longleftrightarrow> length xs \<le> i"
  by (auto simp: idx_def)

lemma idx_Ok_iff [outcome_simps]: "idx xs i = Ok x \<longleftrightarrow> i < length xs \<and> xs ! i = x"
  by (auto simp: idx_def)

lemma panics_slice [simp]: "panics (slice xs lo hi) \<longleftrightarrow> \<not> (lo \<le> hi \<and> hi \<le> length xs)"
  by (auto simp: slice_def)

lemma slice_Ok_iff [outcome_simps]:
  "slice xs lo hi = Ok ys \<longleftrightarrow> lo \<le> hi \<and> hi \<le> length xs \<and> ys = take (hi - lo) (drop lo xs)"
  by (auto simp: slice_def)

lemma slice_append [simp]:
  "slice (xs @ ys @ zs) (length xs) (length xs + length ys) = Ok ys"
  by (simp add: slice_def)

lemma idx_append [simp]: "idx (xs @ y # ys) (length xs) = Ok y"
  by (simp add: idx_def)

section \<open>Go integers\<close>

text \<open>
  Go's \<open>int\<close> and \<open>int64\<close> are 64 bits wide on the platforms the program is built for. They are
  HOL integers here; \<open>wrap64\<close> is applied wherever the code can leave the range.
\<close>

definition wrap64 :: "int \<Rightarrow> int" where
  "wrap64 x = (x + 2 ^ 63) mod 2 ^ 64 - 2 ^ 63"

definition in_int64 :: "int \<Rightarrow> bool" where
  "in_int64 x \<longleftrightarrow> - (2 ^ 63) \<le> x \<and> x < 2 ^ 63"

definition in_int32 :: "int \<Rightarrow> bool" where
  "in_int32 x \<longleftrightarrow> - (2 ^ 31) \<le> x \<and> x < 2 ^ 31"

lemma wrap64_id [simp]: "in_int64 x \<Longrightarrow> wrap64 x = x"
  by (simp add: wrap64_def in_int64_def)

lemma in_int64_wrap64 [simp]: "in_int64 (wrap64 x)"
  using pos_mod_bound [of "2 ^ 64" "x + 2 ^ 63"] pos_mod_sign [of "2 ^ 64" "x + 2 ^ 63"]
  by (simp add: wrap64_def in_int64_def)

lemma in_int32_int64 [simp]: "in_int32 x \<Longrightarrow> in_int64 x"
  by (simp add: in_int32_def in_int64_def)

lemma sint64_wrap: "sint (word_of_int x :: 64 word) = wrap64 x"
proof -
  have "signed_take_bit 63 x = wrap64 x"
    by (simp add: wrap64_def signed_take_bit_eq_take_bit_shift take_bit_eq_mod)
  then show ?thesis by (simp add: sint_sbintrunc')
qed

section \<open>Lists\<close>

lemma take_length_append [simp]: "take (length xs) (xs @ ys) = xs"
  by simp

lemma drop_length_append [simp]: "drop (length xs) (xs @ ys) = ys"
  by simp

lemma map_list_update_id: "i < length xs \<Longrightarrow> f y = f (xs ! i) \<Longrightarrow> map f (xs[i := y]) = map f xs"
  by (metis list_update_id map_update)

lemma distinct_map_filter: "distinct (map f xs) \<Longrightarrow> distinct (map f (filter P xs))"
  by (induction xs) auto

end
