(* ===== verification/RouteCommon.thy ===== *)
theory RouteCommon
  imports GoLib
begin

text \<open>
  \<open>httpagent/route/common.go\<close>: the request parameters that override a system setting. Durations are
  \<open>time.Duration\<close> values, that is \<open>int64\<close> nanoseconds: the product with \<open>time.Second\<close> wraps around.
\<close>

definition seconds :: "int \<Rightarrow> int" where
  "seconds t = wrap64 (t * Second)"

definition GetparaStrtoInt :: "string \<Rightarrow> int \<Rightarrow> int" where
  "GetparaStrtoInt s t =
     (if s = [] then t
      else (case atoi s of None \<Rightarrow> t | Some m \<Rightarrow> m))"

definition Gettimeout :: "string \<Rightarrow> int \<Rightarrow> int" where
  "Gettimeout tu ts =
     (if tu = [] then ts
      else (case atoi tu of None \<Rightarrow> ts | Some t \<Rightarrow> seconds t))"

definition Getretry :: "string \<Rightarrow> int \<Rightarrow> int" where
  "Getretry ru rs =
     (if ru = [] then rs
      else (case atoi ru of None \<Rightarrow> rs | Some r \<Rightarrow> r))"

lemma seconds_exact: "\<bar>t\<bar> \<le> 9223372036 \<Longrightarrow> seconds t = t * Second"
  by (simp add: seconds_def Second_def wrap64_id in_int64_def abs_le_iff)

lemma GetparaStrtoInt_itoa: "in_int64 n \<Longrightarrow> GetparaStrtoInt (itoa n) t = n"
  by (auto simp: GetparaStrtoInt_def atoi_itoa split: option.splits)

lemma Getretry_itoa: "in_int64 n \<Longrightarrow> Getretry (itoa n) t = n"
  by (auto simp: Getretry_def atoi_itoa)

lemma Gettimeout_in_int64: "in_int64 ts \<Longrightarrow> in_int64 (Gettimeout tu ts)"
  by (auto simp: Gettimeout_def seconds_def split: option.splits)

end
