(* ===== verification/Config.thy ===== *)
theory Config
  imports RouteCommon
begin

text \<open>
  \<open>config/config.go\<close>: the process-wide settings, how a decoded YAML document is searched for a
  dotted key, how \<open>Loadconfig\<close> installs what it finds and how the command line overrides it.
  Reading the file and decoding YAML are parameters of \<open>GetConfig\<close>; \<open>YamlUnmarshal\<close> puts the decoder in.
\<close>

section \<open>Decoded YAML values\<close>

text \<open>
  The dynamic types that occur in a decoded document: \<open>string\<close>, another scalar (with its \<open>fmt.Sprint\<close>
  text), \<open>nil\<close>, \<open>map[interface{}]interface{}\<close> and \<open>[]interface{}\<close>. A map lists its entries in the
  order \<open>fmt.Sprint\<close> prints them; keys are distinct.
\<close>

datatype yaml =
    YStr string
  | YScalar string
  | YNil
  | YMap "(yaml \<times> yaml) list"
  | YSeq "yaml list"

function Sprint :: "yaml \<Rightarrow> string"
and Sprint_seq :: "yaml list \<Rightarrow> string list"
and Sprint_map :: "(yaml \<times> yaml) list \<Rightarrow> string list" where
  "Sprint (YStr s) = s"
| "Sprint (YScalar s) = s"
| "Sprint YNil = ''<nil>''"
| "Sprint (YMap kvs) = ''map['' @ join '' '' (Sprint_map kvs) @ '']''"
| "Sprint (YSeq ys) = ''['' @ join '' '' (Sprint_seq ys) @ '']''"
| "Sprint_seq [] = []"
| "Sprint_seq (y # ys) = Sprint y # Sprint_seq ys"
| "Sprint_map [] = []"
| "Sprint_map ((k, v) # kvs) = (Sprint k @ '':'' @ Sprint v) # Sprint_map kvs"
  by pat_completeness auto
termination
  by (relation "measure (case_sum size (case_sum (size_list size) (size_list (size_prod size size))))")
     auto

lemma size_map_of: "map_of kvs k = Some v \<Longrightarrow> size v < size (YMap kvs)"
  by (induction kvs) (auto split: if_splits)

text \<open>
  \<open>GetValue\<close>: descend along the keys; a sequence is searched element by element for the first
  non-empty answer. \<open>keys[0]\<close> of an empty key list is a run-time panic.
\<close>

function (sequential) GetValue :: "string list \<Rightarrow> yaml \<Rightarrow> string outcome"
and GetValue_any :: "string list \<Rightarrow> yaml list \<Rightarrow> string outcome" where
  "GetValue keys (YStr t) = Ok t"
| "GetValue keys YNil = Ok []"
| "GetValue [] (YMap v) = Panic IndexOutOfRange"
| "GetValue [k] (YMap v) =
     (case map_of v (YStr k) of Some r \<Rightarrow> Ok (Sprint r) | None \<Rightarrow> Ok [])"
| "GetValue (k # k' # ks) (YMap v) =
     (case map_of v (YStr k) of Some r \<Rightarrow> GetValue (k' # ks) r | None \<Rightarrow> Ok [])"
| "GetValue keys (YSeq v) = GetValue_any keys v"
| "GetValue keys (YScalar t) = Ok []"
| "GetValue_any keys [] = Ok []"
| "GetValue_any keys (i # v) =
     and_then (GetValue keys i) (\<lambda>r. if r \<noteq> [] then Ok r else GetValue_any keys v)"
  by pat_completeness auto
termination
  by (relation "measure (case_sum (\<lambda>(_, y). size y) (\<lambda>(_, ys). size_list size ys))")
     (auto dest: size_map_of)

definition GetKey :: "string \<Rightarrow> (yaml \<times> yaml) list \<Rightarrow> string outcome" where
  "GetKey key cfgmap =
     (let keys = split_on CHR ''.'' key in
      case map_of cfgmap (YStr (hd keys)) of
        None \<Rightarrow> Ok []
      | Some (YStr v) \<Rightarrow> Ok v
      | Some YNil \<Rightarrow> Ok []
      | Some t \<Rightarrow> GetValue (tl keys) t)"

lemma GetValue_total:
  "keys \<noteq> [] \<Longrightarrow> \<exists>s. GetValue keys y = Ok s"
  "keys \<noteq> [] \<Longrightarrow> \<exists>s. GetValue_any keys ys = Ok s"
proof (induction keys y and keys ys rule: GetValue_GetValue_any.induct)
  case (9 keys i v)
  from "9.IH"(1) "9.prems" obtain s where s: "GetValue keys i = Ok s" by blast
  show ?case
    by (cases "s = []") (use "9.IH"(2) [OF s] "9.prems" s in auto)
qed (auto split: option.splits)

section \<open>The configuration and Loadconfig\<close>

record config =
  Maxsesspool :: int
  Maxlifetime :: int
  Timeout :: int
  Retry :: int
  Debug :: bool
  Port :: string
  Maxconcurrency :: int
  Logarchsize :: int
  Pingretry :: int
  Daemon :: bool
  Signal :: "string option"

definition Cfg :: config where
  "Cfg = \<lparr>Maxsesspool = 1000, Maxlifetime = seconds 30, Timeout = seconds 2, Retry = 1, Debug = False,
     Port = ''1216'', Maxconcurrency = 100, Logarchsize = 104857600, Pingretry = 0, Daemon = False,
     Signal = None\<rparr>"

definition GetConfig ::
  "bytes outcome \<Rightarrow> (bytes \<Rightarrow> (yaml \<times> yaml) list outcome) \<Rightarrow> (yaml \<times> yaml) list outcome" where
  "GetConfig data unmarshal = and_then data unmarshal"

text \<open>The repeated block of \<open>Loadconfig\<close>: an integer setting, kept when absent or malformed.\<close>

definition set_int :: "string \<Rightarrow> (int \<Rightarrow> config \<Rightarrow> config) \<Rightarrow> config \<Rightarrow> config" where
  "set_int s upd c =
     (if s \<noteq> [] then (case atoi s of Some t \<Rightarrow> upd t c | None \<Rightarrow> c) else c)"

definition Loadconfig :: "(yaml \<times> yaml) list outcome \<Rightarrow> config \<Rightarrow> config outcome" where
  "Loadconfig cfg c =
     (case cfg of
        Panic p \<Rightarrow> Panic p
      | Err e \<Rightarrow> Ok c
      | Ok configmap \<Rightarrow>
          and_then (GetKey ''http.port'' configmap) (\<lambda>port.
          let c1 = (if port \<noteq> [] then c\<lparr>Port := port\<rparr> else c) in
          and_then (GetKey ''snmp.timeout'' configmap) (\<lambda>timeout.
          let c2 = set_int timeout (\<lambda>t c. c\<lparr>Timeout := seconds t\<rparr>) c1 in
          and_then (GetKey ''snmp.retry'' configmap) (\<lambda>retry.
          let c3 = set_int retry (\<lambda>r c. c\<lparr>Retry := r\<rparr>) c2 in
          and_then (GetKey ''log.debug'' configmap) (\<lambda>debug.
          let c4 = (if debug = ''true'' \<or> debug = ''yes'' then c3\<lparr>Debug := True\<rparr> else c3\<lparr>Debug := False\<rparr>) in
          and_then (GetKey ''snmp.maxsesspool'' configmap) (\<lambda>maxsesspool.
          let c5 = set_int maxsesspool (\<lambda>m c. c\<lparr>Maxsesspool := m\<rparr>) c4 in
          and_then (GetKey ''snmp.maxlifetime'' configmap) (\<lambda>maxlifetime.
          let c6 = set_int maxlifetime (\<lambda>t c. c\<lparr>Maxlifetime := seconds t\<rparr>) c5 in
          and_then (GetKey ''ping.maxconcurrency'' configmap) (\<lambda>maxconcurrency.
          let c7 = set_int maxconcurrency (\<lambda>m c. c\<lparr>Maxconcurrency := m\<rparr>) c6 in
          and_then (GetKey ''log.logarchsize'' configmap) (\<lambda>logarchsize.
          Ok (set_int logarchsize (\<lambda>las c. c\<lparr>Logarchsize := las\<rparr>) c7))))))))))"

section \<open>init: the command line\<close>

text \<open>The flags given on the command line; \<open>flag\<close> keeps the configured default for the others.\<close>

record flags =
  f_port :: "string option"
  f_retry :: "int option"
  f_debug :: "bool option"
  f_maxsesspool :: "int option"
  f_logarchsize :: "int option"
  f_maxlifetime :: "int option"
  f_timeout :: "int option"
  f_s :: "string option"
  f_daemon :: "bool option"

fun flag_or :: "'a option \<Rightarrow> 'a \<Rightarrow> 'a" where
  "flag_or None d = d"
| "flag_or (Some x) d = x"

definition init :: "(yaml \<times> yaml) list outcome \<Rightarrow> flags \<Rightarrow> config outcome" where
  "init cfg fl =
     and_then (Loadconfig cfg Cfg) (\<lambda>c.
       Ok (c\<lparr>Signal := Some (flag_or (f_s fl) []),
             Port := flag_or (f_port fl) (Port c),
             Retry := flag_or (f_retry fl) (Retry c),
             Debug := flag_or (f_debug fl) (Debug c),
             Maxsesspool := flag_or (f_maxsesspool fl) (Maxsesspool c),
             Logarchsize := flag_or (f_logarchsize fl) (Logarchsize c),
             Maxlifetime := flag_or (f_maxlifetime fl) (Maxlifetime c),
             Timeout := flag_or (f_timeout fl) (Timeout c),
             Daemon := flag_or (f_daemon fl) (Daemon c)\<rparr>))"

section \<open>Properties\<close>

lemma split_on_dotted [simp]:
  "split_on CHR ''.'' ''http.port'' = [''http'', ''port'']"
  "split_on CHR ''.'' ''snmp.timeout'' = [''snmp'', ''timeout'']"
  "split_on CHR ''.'' ''snmp.retry'' = [''snmp'', ''retry'']"
  "split_on CHR ''.'' ''log.debug'' = [''log'', ''debug'']"
  "split_on CHR ''.'' ''snmp.maxsesspool'' = [''snmp'', ''maxsesspool'']"
  "split_on CHR ''.'' ''snmp.maxlifetime'' = [''snmp'', ''maxlifetime'']"
  "split_on CHR ''.'' ''ping.maxconcurrency'' = [''ping'', ''maxconcurrency'']"
  "split_on CHR ''.'' ''log.logarchsize'' = [''log'', ''logarchsize'']"
  by simp_all

lemma GetKey_total: "tl (split_on CHR ''.'' key) \<noteq> [] \<Longrightarrow> \<exists>s. GetKey key m = Ok s"
  by (auto simp: GetKey_def Let_def GetValue_total split: option.splits yaml.splits
      simp del: GetValue.simps)

text \<open>A setting seen from the field it sets: the new value or the old one.\<close>

definition setting :: "string \<Rightarrow> (int \<Rightarrow> 'a) \<Rightarrow> 'a \<Rightarrow> 'a" where
  "setting s f d = (if s \<noteq> [] then (case atoi s of Some t \<Rightarrow> f t | None \<Rightarrow> d) else d)"

lemma setting_idem [simp]: "setting s f (setting s f d) = setting s f d"
  by (simp add: setting_def split: option.splits)

lemma set_int_field:
  "set_int s (\<lambda>t c. c\<lparr>Timeout := f t\<rparr>) c = c\<lparr>Timeout := setting s f (Timeout c)\<rparr>"
  "set_int s (\<lambda>t c. c\<lparr>Retry := g t\<rparr>) c = c\<lparr>Retry := setting s g (Retry c)\<rparr>"
  "set_int s (\<lambda>t c. c\<lparr>Maxsesspool := g t\<rparr>) c = c\<lparr>Maxsesspool := setting s g (Maxsesspool c)\<rparr>"
  "set_int s (\<lambda>t c. c\<lparr>Maxlifetime := f t\<rparr>) c = c\<lparr>Maxlifetime := setting s f (Maxlifetime c)\<rparr>"
  "set_int s (\<lambda>t c. c\<lparr>Maxconcurrency := g t\<rparr>) c = c\<lparr>Maxconcurrency := setting s g (Maxconcurrency c)\<rparr>"
  "set_int s (\<lambda>t c. c\<lparr>Logarchsize := g t\<rparr>) c = c\<lparr>Logarchsize := setting s g (Logarchsize c)\<rparr>"
  by (simp_all add: set_int_def setting_def split: option.splits)

text \<open>The answers \<open>GetKey\<close> gives to the eight questions of \<open>Loadconfig\<close>.\<close>

definition key_value :: "string \<Rightarrow> (yaml \<times> yaml) list \<Rightarrow> string" where
  "key_value key m = (case GetKey key m of Ok s \<Rightarrow> s | _ \<Rightarrow> [])"

lemma GetKey_key_value: "tl (split_on CHR ''.'' key) \<noteq> [] \<Longrightarrow> GetKey key m = Ok (key_value key m)"
  using GetKey_total [of key m] by (auto simp: key_value_def)

lemma Loadconfig_eq:
  "Loadconfig (Ok m) c =
     Ok (c\<lparr>Port := (if key_value ''http.port'' m \<noteq> [] then key_value ''http.port'' m else Port c),
           Timeout := setting (key_value ''snmp.timeout'' m) seconds (Timeout c),
           Retry := setting (key_value ''snmp.retry'' m) (\<lambda>r. r) (Retry c),
           Debug := (key_value ''log.debug'' m = ''true'' \<or> key_value ''log.debug'' m = ''yes''),
           Maxsesspool := setting (key_value ''snmp.maxsesspool'' m) (\<lambda>r. r) (Maxsesspool c),
           Maxlifetime := setting (key_value ''snmp.maxlifetime'' m) seconds (Maxlifetime c),
           Maxconcurrency := setting (key_value ''ping.maxconcurrency'' m) (\<lambda>r. r) (Maxconcurrency c),
           Logarchsize := setting (key_value ''log.logarchsize'' m) (\<lambda>r. r) (Logarchsize c)\<rparr>)"
  by (simp add: Loadconfig_def GetKey_key_value Let_def set_int_field
      set_int_field(2,3,5,6) [where g = "\<lambda>r. r"])

text \<open>Loading the configuration always ends with a configuration, whatever the file holds: an
  unreadable or malformed file leaves the settings as they are, and no document makes the key search
  panic.\<close>

theorem Loadconfig_total:
  assumes "\<not> panics cfg"
  shows "\<exists>c'. Loadconfig cfg c = Ok c' \<and> ((\<exists>e. cfg = Err e) \<longrightarrow> c' = c)
    \<and> Signal c' = Signal c \<and> Daemon c' = Daemon c \<and> Pingretry c' = Pingretry c"
proof (cases cfg)
  case (Ok m)
  then show ?thesis by (simp add: Loadconfig_eq)
next
  case (Err e)
  then show ?thesis by (simp add: Loadconfig_def)
qed (use assms in simp)

theorem Loadconfig_total_witness:
  "\<not> panics (Ok [(YStr ''http'', YMap [(YStr ''port'', YScalar ''8080'')])]) \<and>
   (\<exists>c'. Loadconfig (Ok [(YStr ''http'', YMap [(YStr ''port'', YScalar ''8080'')])]) Cfg = Ok c')"
  using Loadconfig_total [of "Ok [(YStr ''http'', YMap [(YStr ''port'', YScalar ''8080'')])]" Cfg]
  by auto

text \<open>A reload is idempotent: loading the same file again changes nothing.\<close>

theorem Loadconfig_idem:
  assumes "Loadconfig cfg c = Ok c'"
  shows "Loadconfig cfg c' = Ok c'"
proof (cases cfg)
  case (Ok m)
  with assms show ?thesis by (auto simp: Loadconfig_eq)
next
  case (Err e)
  with assms show ?thesis by (simp add: Loadconfig_def)
next
  case (Panic p)
  with assms show ?thesis by (simp add: Loadconfig_def)
qed

text \<open>The document shape the shipped \<open>httpagent.yml\<close> has: a section is a sequence of maps.\<close>

definition section_doc :: "(string \<times> yaml) list \<Rightarrow> yaml" where
  "section_doc kvs = YSeq (map (\<lambda>(k, v). YMap [(YStr k, v)]) kvs)"

lemma GetValue_any_section:
  assumes "distinct (map fst kvs)"
  shows "GetValue_any [key] (map (\<lambda>(k, v). YMap [(YStr k, v)]) kvs) =
    Ok (case map_of kvs key of None \<Rightarrow> [] | Some v \<Rightarrow> Sprint v)"
  using assms
proof (induction kvs)
  case (Cons kv kvs)
  obtain k v where kv: "kv = (k, v)" by (cases kv)
  have "map_of kvs k = None" using Cons.prems by (simp add: kv map_of_eq_None_iff)
  with Cons show ?case by (auto simp: kv)
qed simp

text \<open>In a section written as a sequence of one-entry maps, as the shipped configuration file is,
  a dotted key finds the printed form of the entry of that name, and the empty string when there is
  none.\<close>

theorem GetKey_section:
  assumes "map_of cfg (YStr sec) = Some (section_doc kvs)"
    and "distinct (map fst kvs)"
    and "CHR ''.'' \<notin> set sec" and "CHR ''.'' \<notin> set key"
  shows "GetKey (sec @ CHR ''.'' # key) cfg =
    Ok (case map_of kvs key of None \<Rightarrow> [] | Some v \<Rightarrow> Sprint v)"
  using assms
  by (simp add: GetKey_def split_on_append split_on_no_sep section_doc_def GetValue_any_section)

definition shipped_snmp :: "(string \<times> yaml) list" where
  "shipped_snmp = [(''asyncnum'', YScalar ''10''), (''timeout'', YScalar ''2''), (''retry'', YScalar ''1''),
     (''maxsesspool'', YScalar ''1000''), (''maxlifetime'', YScalar ''30'')]"

theorem GetKey_section_witness:
  "GetKey ''snmp.maxlifetime'' [(YStr ''snmp'', section_doc shipped_snmp)] = Ok ''30''"
  using GetKey_section [of "[(YStr ''snmp'', section_doc shipped_snmp)]" "''snmp''" shipped_snmp "''maxlifetime''"]
  by (simp add: shipped_snmp_def)

theorem Loadconfig_idem_witness:
  "\<exists>c'. Loadconfig (Ok [(YStr ''snmp'', section_doc shipped_snmp)]) Cfg = Ok c' \<and>
     Loadconfig (Ok [(YStr ''snmp'', section_doc shipped_snmp)]) c' = Ok c' \<and> Timeout c' = seconds 2"
proof -
  let ?m = "[(YStr ''snmp'', section_doc shipped_snmp)]"
  obtain c' where c': "Loadconfig (Ok ?m) Cfg = Ok c'" by (simp add: Loadconfig_eq)
  have "key_value ''snmp.timeout'' ?m = ''2''" "atoi ''2'' = Some 2"
    by (simp_all add: key_value_def GetKey_def section_doc_def shipped_snmp_def atoi_def parse_nat_def
        is_digit_def digit_val_def in_int64_def)
  with c' have "Timeout c' = seconds 2" by (auto simp: Loadconfig_eq setting_def)
  with Loadconfig_idem [OF c'] c' show ?thesis by blast
qed

end
