(* ===== verification/PingAgent.thy ===== *)
theory PingAgent
  imports Config "HOL-Library.AList"
begin

text \<open>
  \<open>httpagent/route/pingagent.go\<close>: the batch ping request. The first half models the goroutines of
  \<open>doping\<close> and the two channels they use, as a step relation; the second half is the request itself,
  where the order in which results arrive is given.
\<close>

section \<open>The goroutines of doping\<close>

text \<open>
  \<open>doping\<close> starts one goroutine per address and receives as many results. \<open>PingAddr\<close> first sends on the
  channel \<open>async_c\<close> of capacity \<open>Maxconcurrency\<close>, pings, sends its result on \<open>data_c\<close> and, on return,
  receives from \<open>async_c\<close>. Tasks are numbered: \<open>waiting\<close> at \<open>async_c <- 1\<close>, \<open>pinging\<close> with a place in
  \<open>async_c\<close>, received in this order by the main goroutine (\<open>got\<close>); \<open>leaving\<close> counts the goroutines whose
  result was received and which still occupy a place.
\<close>

record pings =
  waiting :: "nat list"
  pinging :: "nat list"
  leaving :: nat
  got :: "nat list"

definition pings_start :: "nat \<Rightarrow> pings" where
  "pings_start n = \<lparr>waiting = [0..<n], pinging = [], leaving = 0, got = []\<rparr>"

inductive ping_step :: "nat \<Rightarrow> pings \<Rightarrow> pings \<Rightarrow> bool" for cap :: nat where
  acquire: "i \<in> set (waiting s) \<Longrightarrow> length (pinging s) + leaving s < cap \<Longrightarrow>
    ping_step cap s (s\<lparr>waiting := remove1 i (waiting s), pinging := i # pinging s\<rparr>)"
| deliver: "i \<in> set (pinging s) \<Longrightarrow>
    ping_step cap s (s\<lparr>pinging := remove1 i (pinging s), leaving := Suc (leaving s), got := got s @ [i]\<rparr>)"
| release: "0 < leaving s \<Longrightarrow> ping_step cap s (s\<lparr>leaving := leaving s - 1\<rparr>)"

inductive_cases ping_stepE: "ping_step cap s s'"

inductive ping_reach :: "nat \<Rightarrow> nat \<Rightarrow> pings \<Rightarrow> bool" for cap n :: nat where
  init: "ping_reach cap n (pings_start n)"
| step: "ping_reach cap n s \<Longrightarrow> ping_step cap s s' \<Longrightarrow> ping_reach cap n s'"

definition pings_inv :: "nat \<Rightarrow> nat \<Rightarrow> pings \<Rightarrow> bool" where
  "pings_inv cap n s \<longleftrightarrow>
     mset (waiting s) + mset (pinging s) + mset (got s) = mset [0..<n] \<and> length (pinging s) + leaving s \<le> cap"

definition pings_measure :: "pings \<Rightarrow> nat" where
  "pings_measure s = 3 * length (waiting s) + 2 * length (pinging s) + leaving s"

lemma length_remove1_Suc: "i \<in> set xs \<Longrightarrow> length xs = Suc (length (remove1 i xs))"
  by (induction xs) auto

lemma ping_step_inv: "ping_step cap s s' \<Longrightarrow> pings_inv cap n s \<Longrightarrow> pings_inv cap n s'"
proof (induction rule: ping_step.induct)
  case (acquire i s)
  then obtain M where "mset (waiting s) = add_mset i M"
    by (metis multi_member_split set_mset_mset)
  with acquire show ?case by (simp add: pings_inv_def)
next
  case (deliver i s)
  then obtain M where M: "mset (pinging s) = add_mset i M"
    by (metis multi_member_split set_mset_mset)
  with deliver length_remove1_Suc [OF deliver.hyps] show ?case by (simp add: pings_inv_def)
qed (auto simp: pings_inv_def)

lemma ping_reach_inv: "ping_reach cap n s \<Longrightarrow> pings_inv cap n s"
  by (induction rule: ping_reach.induct) (simp_all add: pings_start_def ping_step_inv, simp add: pings_inv_def)

lemma ping_step_decreases: "ping_step cap s s' \<Longrightarrow> pings_measure s' < pings_measure s"
  by (induction rule: ping_step.induct)
     (auto simp: pings_measure_def dest: length_remove1_Suc)

lemma ping_progress:
  assumes "0 < cap" and "pings_inv cap n s" and "length (got s) < n"
  shows "\<exists>s'. ping_step cap s s'"
proof (cases "pinging s = [] \<and> leaving s = 0")
  case True
  have "size (mset (waiting s) + mset (pinging s) + mset (got s)) = n"
    using assms(2) by (simp add: pings_inv_def)
  with True assms(3) have "waiting s \<noteq> []" by auto
  then obtain i where "i \<in> set (waiting s)" by (meson list.set_sel(1))
  with True assms(1) ping_step.acquire [of i s cap] show ?thesis by auto
next
  case False
  then show ?thesis
    using ping_step.deliver [of "hd (pinging s)" s cap] ping_step.release [of s cap] by (cases "pinging s") auto
qed



text \<open>With \<open>Maxconcurrency\<close> zero the first send on \<open>async_c\<close> blocks for ever: no goroutine of a
  non-empty batch can move and \<open>doping\<close> never gets a result.\<close>

theorem pings_stuck:
  assumes "ping_reach 0 n s" and "0 < n"
  shows "(\<nexists>s'. ping_step 0 s s') \<and> length (got s) < n"
proof -
  have "s = pings_start n"
    using assms(1)
  proof (induction rule: ping_reach.induct)
    case (step s s')
    then show ?case by (auto simp: pings_start_def elim!: ping_stepE)
  qed simp
  with assms(2) show ?thesis by (auto simp: pings_start_def elim!: ping_stepE)
qed

theorem pings_stuck_witness: "ping_reach 0 1 (pings_start 1) \<and> (\<nexists>s'. ping_step 0 (pings_start 1) s')"
  using pings_stuck [OF ping_reach.init [of 0 1]] ping_reach.init [of 0 1] by simp

section \<open>The request\<close>

record PingUnit =
  IP :: string
  Status :: int
  Lag :: string

record PingResult =
  p_Data :: "PingUnit list"
  p_Starttime :: string
  p_Endtime :: string
  p_Error :: string

text \<open>
  The parameter map is given in the order the \<open>range\<close> statement visits it, which Go leaves open.
\<close>

fun ParameterCheckPing :: "(string \<times> string) list \<Rightarrow> string" where
  "ParameterCheckPing [] = []"
| "ParameterCheckPing ((k, v) # m) =
     (if v = [] then ''parameter error: '' @ [CHR 0x27] @ k @ [CHR 0x27] @ '' is null''
      else if k = ''ip'' then
        (if length (split_on CHR '','' v) < 1 then ''parameter error: ip is null'' else ParameterCheckPing m)
      else ParameterCheckPing m)"

text \<open>
  \<open>ping\<close>: resolving the address (\<open>None\<close> is an error) under the protocol its text asks for, then one
  run of the pinger, which calls \<open>OnRecv\<close> with the round-trip times listed (as \<open>rtt.String()\<close> prints
  them) and ends with or without an error.
\<close>

record 'a netenv =
  ResolveIPAddr :: "string \<Rightarrow> string \<Rightarrow> 'a option"
  Run :: "'a \<Rightarrow> string list \<times> bool"

definition ping :: "'a netenv \<Rightarrow> string \<Rightarrow> int \<times> string" where
  "ping env ip =
     (let netProto = (if CHR '':'' \<in> set ip then ''ip6:ipv6-icmp'' else ''ip4:icmp'') in
      case ResolveIPAddr env netProto ip of
        None \<Rightarrow> (0, ''-1'')
      | Some ra \<Rightarrow>
          (let (rtts, failed) = Run env ra;
               (alive, lag) = foldl (\<lambda>_ rtt. (1, rtt)) (0, ''-1'') rtts
           in if failed then (0, lag) else (alive, lag)))"

text \<open>
  What one request meets: the network at each ping (by round and task number), the order in which the
  results of a round of \<open>n\<close> tasks arrive, and the order in which \<open>ipjoin\<close> visits its map.
\<close>

record 'a ping_env =
  net :: "nat \<Rightarrow> nat \<Rightarrow> 'a netenv"
  arrival :: "nat \<Rightarrow> nat \<Rightarrow> nat list"
  keyorder :: "nat \<Rightarrow> string list \<Rightarrow> string list"

definition PingAddr :: "'a ping_env \<Rightarrow> nat \<Rightarrow> nat \<Rightarrow> string \<Rightarrow> PingUnit list" where
  "PingAddr env round task addr =
     (let (status, lag) = ping (net env round task) addr
      in [\<lparr>IP = addr, Status = status, Lag = lag\<rparr>])"

definition doping :: "'a ping_env \<Rightarrow> nat \<Rightarrow> string \<Rightarrow> PingResult" where
  "doping env round ips =
     (let addrs = split_on CHR '','' ips;
          tasks = length addrs
      in \<lparr>p_Data = concat (map (\<lambda>i. PingAddr env round i (addrs ! i)) (arrival env round tasks)),
          p_Starttime = [], p_Endtime = [], p_Error = []\<rparr>)"

text \<open>\<open>unreachableip\<close>: the map from an unreachable address to its last position.\<close>

fun unreachableip_from :: "nat \<Rightarrow> PingUnit list \<Rightarrow> (string \<times> nat) list \<Rightarrow> (string \<times> nat) list" where
  "unreachableip_from p [] ippos = ippos"
| "unreachableip_from p (pu # pulist) ippos =
     unreachableip_from (Suc p) pulist (if Status pu = 0 then AList.update (IP pu) p ippos else ippos)"

definition unreachableip :: "PingUnit list \<Rightarrow> (string \<times> nat) list" where
  "unreachableip pulist = unreachableip_from 0 pulist []"

definition ipjoin :: "(string list \<Rightarrow> string list) \<Rightarrow> (string \<times> nat) list \<Rightarrow> string" where
  "ipjoin visit ippos = join '','' (visit (map fst ippos))"

fun merge_retry :: "(string \<times> nat) list \<Rightarrow> PingUnit list \<Rightarrow> PingUnit list \<Rightarrow> PingUnit list" where
  "merge_retry ippos [] data = data"
| "merge_retry ippos (pu # pus) data =
     merge_retry ippos pus
       (if Status pu = 1 then
          (case map_of ippos (IP pu) of
             None \<Rightarrow> data
           | Some pos \<Rightarrow> data[pos := (data ! pos)\<lparr>Status := Status pu, Lag := Lag pu\<rparr>])
        else data)"

fun retry_rounds :: "'a ping_env \<Rightarrow> nat \<Rightarrow> nat \<Rightarrow> PingUnit list \<Rightarrow> PingUnit list" where
  "retry_rounds env 0 round data = data"
| "retry_rounds env (Suc k) round data =
     (let ippos = unreachableip data in
      retry_rounds env k (Suc round)
        (if length ippos > 0
         then merge_retry ippos (p_Data (doping env round (ipjoin (keyorder env round) ippos))) data
         else data))"

definition batchping :: "'a ping_env \<Rightarrow> string \<Rightarrow> string \<Rightarrow> string \<Rightarrow> int \<Rightarrow> PingResult" where
  "batchping env started ended ip pingretry =
     (let pingresulttmp = doping env 0 ip in
      \<lparr>p_Data = retry_rounds env (nat pingretry) 1 (p_Data pingresulttmp),
       p_Starttime = started, p_Endtime = ended, p_Error = p_Error pingresulttmp\<rparr>)"

text \<open>
  The handler: the form values, the order in which the check visits the parameter map, and the result
  handed to \<open>RouteJson\<close>.
\<close>

definition PingAgent ::
  "config \<Rightarrow> 'a ping_env \<Rightarrow> ((string \<times> string) list \<Rightarrow> (string \<times> string) list) \<Rightarrow> string \<Rightarrow> string
   \<Rightarrow> string \<Rightarrow> string \<Rightarrow> string \<Rightarrow> PingResult" where
  "PingAgent cfg env visit started ended seq ip retryu =
     (let paramap = [(''seq'', seq), (''ip'', ip)];
          err = ParameterCheckPing (visit paramap);
          retry = Getretry retryu (Pingretry cfg)
      in if err = [] then batchping env started ended ip retry
         else \<lparr>p_Data = [], p_Starttime = [], p_Endtime = [], p_Error = err\<rparr>)"

section \<open>Properties of the request\<close>

text \<open>The parameter check accepts a request exactly when every parameter is non-empty, whatever
  order the map is visited in.\<close>

theorem ParameterCheckPing_iff: "ParameterCheckPing m = [] \<longleftrightarrow> list_all (\<lambda>(k, v). v \<noteq> []) m"
  by (induction m) (auto split: if_splits)

definition fair :: "'a ping_env \<Rightarrow> bool" where
  "fair env \<longleftrightarrow> (\<forall>r n. mset (arrival env r n) = mset [0..<n]) \<and> (\<forall>r ks. mset (keyorder env r ks) = mset ks)"

lemma PingAddr_eq:
  "PingAddr env r i a = [\<lparr>IP = a, Status = fst (ping (net env r i) a), Lag = snd (ping (net env r i) a)\<rparr>]"
  by (simp add: PingAddr_def case_prod_unfold Let_def)

lemma doping_units:
  "p_Data (doping env r ips) =
     map (\<lambda>i. hd (PingAddr env r i (split_on CHR '','' ips ! i))) (arrival env r (length (split_on CHR '','' ips)))"
  by (simp add: doping_def Let_def PingAddr_eq)

lemma doping_ips:
  assumes "fair env"
  shows "mset (map IP (p_Data (doping env r ips))) = mset (split_on CHR '','' ips)"
proof -
  let ?as = "split_on CHR '','' ips"
  have "mset (map IP (p_Data (doping env r ips))) = image_mset (\<lambda>i. ?as ! i) (mset (arrival env r (length ?as)))"
    by (simp add: doping_units PingAddr_eq comp_def)
  also have "\<dots> = mset (map (\<lambda>i. ?as ! i) [0..<length ?as])"
    using assms by (simp add: fair_def del: mset_upt)
  finally show ?thesis by (simp add: map_nth)
qed

lemma doping_sound:
  assumes "pu \<in> set (p_Data (doping env r ips))"
  shows "\<exists>i. ping (net env r i) (IP pu) = (Status pu, Lag pu)"
  using assms by (auto simp: doping_units PingAddr_eq)

lemma unreachableip_from_lookup:
  "map_of (unreachableip_from p pus m) a = Some q \<Longrightarrow>
   map_of m a = Some q \<or> (p \<le> q \<and> q < p + length pus \<and> IP (pus ! (q - p)) = a \<and> Status (pus ! (q - p)) = 0)"
proof (induction pus arbitrary: p m)
  case (Cons pu pus)
  from Cons.IH [of "Suc p" "if Status pu = 0 then AList.update (IP pu) p m else m"] Cons.prems
  show ?case
    by (cases "Status pu = 0") (auto simp: update_conv' Suc_diff_Suc split: if_splits)
qed simp

lemma unreachableip_lookup:
  "map_of (unreachableip data) a = Some q \<Longrightarrow> q < length data \<and> IP (data ! q) = a \<and> Status (data ! q) = 0"
  using unreachableip_from_lookup [of 0 data "[]" a q] by (simp add: unreachableip_def)

text \<open>
  What the merge of a retry does to a result list: positions and addresses stay, an entry only ever
  changes from unreachable to reachable, and then it carries the answer of one of the new pings.
\<close>

definition improves :: "PingUnit list \<Rightarrow> PingUnit list \<Rightarrow> PingUnit list \<Rightarrow> bool" where
  "improves pus data data' \<longleftrightarrow> map IP data' = map IP data \<and>
     (\<forall>q < length data. data' ! q = data ! q \<or>
        (Status (data' ! q) = 1 \<and> (\<exists>pu \<in> set pus. pu = data' ! q)))"

lemma improves_refl [simp]: "improves pus data data"
  by (simp add: improves_def)

lemma improves_trans: "improves pus d1 d2 \<Longrightarrow> improves pus d2 d3 \<Longrightarrow> improves pus d1 d3"
  unfolding improves_def by (metis length_map)

lemma merge_retry_improves:
  assumes "\<And>a q. map_of ippos a = Some q \<Longrightarrow> q < length data \<and> IP (data ! q) = a"
    and "set pus \<subseteq> set all"
  shows "improves all data (merge_retry ippos pus data)"
  using assms
proof (induction pus arbitrary: data)
  case (Cons pu pus)
  show ?case
  proof (cases "Status pu = 1 \<and> map_of ippos (IP pu) \<noteq> None")
    case True
    then obtain q where q: "Status pu = 1" "map_of ippos (IP pu) = Some q" by auto
    let ?d = "data[q := (data ! q)\<lparr>Status := Status pu, Lag := Lag pu\<rparr>]"
    have lt: "q < length data" "IP (data ! q) = IP pu" using Cons.prems(1) [OF q(2)] by auto
    have "(data ! q)\<lparr>Status := Status pu, Lag := Lag pu\<rparr> = pu" using lt(2) by (cases pu; cases "data ! q") auto
    then have d: "?d = data[q := pu]" by (rule arg_cong)
    have "improves all data ?d"
      using lt q(1) Cons.prems(2) unfolding d by (auto simp: improves_def nth_list_update map_list_update_id)
    moreover have "improves all ?d (merge_retry ippos pus ?d)"
    proof (rule Cons.IH)
      show "map_of ippos a = Some q' \<Longrightarrow> q' < length ?d \<and> IP (?d ! q') = a" for a q'
        using Cons.prems(1) [of a q'] lt by (auto simp: nth_list_update)
    qed (use Cons.prems(2) in auto)
    ultimately show ?thesis using q by (auto intro: improves_trans)
  next
    case False
    then show ?thesis using Cons by (auto split: option.splits)
  qed
qed simp

lemma retry_rounds_correct:
  "map IP (retry_rounds env k r data) = map IP data \<and>
   (\<forall>q < length data. retry_rounds env k r data ! q = data ! q \<or>
      (Status (retry_rounds env k r data ! q) = 1 \<and>
       (\<exists>r' i. r \<le> r' \<and> ping (net env r' i) (IP (data ! q)) = (1, Lag (retry_rounds env k r data ! q)))))"
proof (induction k arbitrary: r data)
  case (Suc k)
  let ?ippos = "unreachableip data"
  let ?pus = "p_Data (doping env r (ipjoin (keyorder env r) ?ippos))"
  let ?d = "if length ?ippos > 0 then merge_retry ?ippos ?pus data else data"
  have imp: "improves ?pus data ?d"
    using merge_retry_improves [of ?ippos data ?pus ?pus] unreachableip_lookup by auto
  then have len: "length ?d = length data" and ip: "map IP ?d = map IP data"
    by (auto simp: improves_def dest: map_eq_imp_length_eq)
  have step: "retry_rounds env (Suc k) r data = retry_rounds env k (Suc r) ?d" by (simp add: Let_def)
  have one: "?d ! q = data ! q \<or> Status (?d ! q) = 1 \<and> (\<exists>i. ping (net env r i) (IP (data ! q)) = (1, Lag (?d ! q)))"
    if q: "q < length data" for q
  proof -
    have "IP (?d ! q) = IP (data ! q)" using ip q len by (metis nth_map)
    then show ?thesis using imp q doping_sound unfolding improves_def by metis
  qed
  have ipq: "IP (?d ! q) = IP (data ! q)" if "q < length data" for q
    using ip that len by (metis nth_map)
  show ?case
  proof (intro conjI allI impI)
    show "map IP (retry_rounds env (Suc k) r data) = map IP data" using Suc.IH [of "Suc r" ?d] ip step by simp
    fix q assume q: "q < length data"
    with Suc.IH [of "Suc r" ?d] len have "retry_rounds env k (Suc r) ?d ! q = ?d ! q \<or>
      (Status (retry_rounds env k (Suc r) ?d ! q) = 1 \<and>
       (\<exists>r' i. Suc r \<le> r' \<and> ping (net env r' i) (IP (?d ! q)) = (1, Lag (retry_rounds env k (Suc r) ?d ! q))))"
      by metis
    with one [OF q] ipq [OF q] show "retry_rounds env (Suc k) r data ! q = data ! q \<or>
      (Status (retry_rounds env (Suc k) r data ! q) = 1 \<and>
       (\<exists>r' i. r \<le> r' \<and> ping (net env r' i) (IP (data ! q)) = (1, Lag (retry_rounds env (Suc k) r data ! q))))"
      unfolding step by (metis Suc_leD order_refl)
  qed
qed simp

text \<open>C27: A batch ping reports every requested address exactly as often as it was asked for, whatever the
  order of arrivals and however many retries are made; the reports carry no error; and every report is
  the outcome of an actual ping of that address.\<close>

theorem batchping_reports:
  assumes "fair env"
  shows "mset (map IP (p_Data (batchping env st en ips retries))) = mset (split_on CHR '','' ips)
    \<and> p_Error (batchping env st en ips retries) = []
    \<and> (\<forall>pu \<in> set (p_Data (batchping env st en ips retries)).
         \<exists>r i. ping (net env r i) (IP pu) = (Status pu, Lag pu))"
proof -
  let ?d = "p_Data (doping env 0 ips)" and ?r = "p_Data (batchping env st en ips retries)"
  have r: "?r = retry_rounds env (nat retries) 1 ?d" by (simp add: batchping_def Let_def)
  note rc = retry_rounds_correct [of env "nat retries" 1 ?d, folded r]
  then have len: "length ?r = length ?d" by (metis length_map)
  have "\<exists>r i. ping (net env r i) (IP pu) = (Status pu, Lag pu)" if "pu \<in> set ?r" for pu
  proof -
    obtain q where q: "q < length ?r" "pu = ?r ! q" using \<open>pu \<in> set ?r\<close> by (auto simp: in_set_conv_nth)
    then have ip: "IP pu = IP (?d ! q)" using rc len by (metis nth_map)
    have "?d ! q \<in> set ?d" using q len by simp
    then show ?thesis using rc q len ip doping_sound by metis
  qed
  moreover have "mset (map IP ?r) = mset (split_on CHR '','' ips)"
    using rc doping_ips [OF assms] by simp
  ultimately show ?thesis by (simp add: batchping_def doping_def Let_def)
qed

text \<open>A network in which \<open>b\<close> answers only the retry.\<close>

definition demo_env :: "string ping_env" where
  "demo_env = \<lparr>net = (\<lambda>r i. \<lparr>ResolveIPAddr = (\<lambda>_ ip. Some ip),
       Run = (\<lambda>ra. if ra = ''b'' \<and> r = 0 then ([], False) else ([''1ms''], False))\<rparr>),
     arrival = (\<lambda>r n. rev [0..<n]), keyorder = (\<lambda>r ks. ks)\<rparr>"

lemma fair_demo_env: "fair demo_env"
  by (simp add: fair_def demo_env_def)

theorem batchping_reports_witness:
  "fair demo_env \<and> mset (map IP (p_Data (batchping demo_env ''s'' ''e'' ''a,b'' 1))) = {#''a'', ''b''#}"
  using batchping_reports [OF fair_demo_env, of "''s''" "''e''" "''a,b''" 1] fair_demo_env by simp

text \<open>Retrying never loses an answer: an address reachable in the first round keeps that report, and a
  report changed by the retries is reachable, with the lag of a ping made in a later round.\<close>

theorem batchping_retries_monotone:
  assumes "q < length (p_Data (doping env 0 ips))"
  shows "let first = p_Data (doping env 0 ips) ! q; final = p_Data (batchping env st en ips retries) ! q
    in IP final = IP first \<and> (final = first \<or>
       (Status final = 1 \<and> (\<exists>r i. 1 \<le> r \<and> ping (net env r i) (IP first) = (1, Lag final))))"
  using retry_rounds_correct [of env "nat retries" 1 "p_Data (doping env 0 ips)"] assms
  by (auto simp: batchping_def Let_def) (metis length_map nth_map)

theorem batchping_retries_monotone_witness:
  "0 < length (p_Data (doping demo_env 0 ''a,b''))
   \<and> Status (p_Data (doping demo_env 0 ''a,b'') ! 0) = 0
   \<and> IP (p_Data (batchping demo_env ''s'' ''e'' ''a,b'' 1) ! 0) = ''b''"
proof -
  have l: "0 < length (p_Data (doping demo_env 0 ''a,b''))"
    and f: "IP (p_Data (doping demo_env 0 ''a,b'') ! 0) = ''b''" "Status (p_Data (doping demo_env 0 ''a,b'') ! 0) = 0"
    by (simp_all add: doping_def Let_def demo_env_def PingAddr_def ping_def upt_rec)
  show ?thesis
    using batchping_retries_monotone [OF l, of "''s''" "''e''" 1] l f by (simp add: Let_def)
qed

end
