(* ===== verification/SessionPool.thy ===== *)
theory SessionPool
  imports GoLib "HOL-Library.AList"
begin

text \<open>
  \<open>httpagent/util/pool.go\<close>: the cache of open SNMP sessions, at most \<open>MaxIdleSess\<close> of them per
  address. \<open>'s\<close> is the type of session pointers (\<open>*snmpgo.SNMP\<close>). A pool is the map
  \<open>sp.Sessions\<close> as an association list with distinct keys, from an address to its array of slots. Every
  operation holds \<open>sp.mLock\<close>, so each is one atomic step; \<open>time.Now()\<close> is the argument \<open>now\<close>.
  \<open>Get\<close> takes the lock several times and is their sequential composition; how the steps of several
  requests interleave is the subject of the second half.
\<close>

section \<open>The pool and its operations\<close>

definition MaxIdleSess :: nat where
  "MaxIdleSess = 5"

record 's session =
  Sess :: 's
  Idle :: bool
  Atime :: int

type_synonym 's slots = "'s session option list"
type_synonym 's pool = "(string \<times> 's slots) list"

definition errReachMaxconn :: go_error where
  "errReachMaxconn = PlainError ''snmpagent: reach max snmp connections''"

definition PoolLen :: "'s pool \<Rightarrow> nat" where
  "PoolLen sp = length sp"

fun find_slot :: "('s session option \<Rightarrow> bool) \<Rightarrow> 's slots \<Rightarrow> nat option" where
  "find_slot P [] = None"
| "find_slot P (x # xs) = (if P x then Some 0 else map_option Suc (find_slot P xs))"

definition is_idle :: "'s session option \<Rightarrow> bool" where
  "is_idle x = (case x of None \<Rightarrow> False | Some s \<Rightarrow> Idle s)"

definition is_nil :: "'s session option \<Rightarrow> bool" where
  "is_nil x = (case x of None \<Rightarrow> True | Some s \<Rightarrow> False)"

definition GetCacheSess :: "'s pool \<Rightarrow> string \<Rightarrow> int \<Rightarrow> 's pool \<times> 's session option \<times> int" where
  "GetCacheSess sp ip now =
     (case map_of sp ip of
        None \<Rightarrow> (sp, None, - 1)
      | Some sesslist \<Rightarrow>
          (case find_slot is_idle sesslist of
             None \<Rightarrow> (sp, None, - 1)
           | Some i \<Rightarrow>
               (case sesslist ! i of
                  None \<Rightarrow> (sp, None, - 1)
                | Some s \<Rightarrow>
                    (let s' = s\<lparr>Atime := now, Idle := False\<rparr>
                     in (AList.update ip (sesslist[i := Some s']) sp, Some s', int i)))))"

definition Save :: "'s pool \<Rightarrow> string \<Rightarrow> 's session \<Rightarrow> int \<Rightarrow> 's pool \<times> int" where
  "Save sp ip sess now =
     (let sess' = sess\<lparr>Atime := now, Idle := False\<rparr>;
          fresh = (AList.update ip (Some sess' # replicate (MaxIdleSess - 1) None) sp, 0)
      in case map_of sp ip of
           None \<Rightarrow> fresh
         | Some sesslist \<Rightarrow>
             (case find_slot is_nil sesslist of
                None \<Rightarrow> fresh
              | Some i \<Rightarrow> (AList.update ip (sesslist[i := Some sess']) sp, int i)))"

definition Free :: "'s pool \<Rightarrow> string \<Rightarrow> int \<Rightarrow> int \<Rightarrow> 's pool outcome" where
  "Free sp ip c now =
     (if c \<ge> 0 then
        (case map_of sp ip of
           None \<Rightarrow> Ok sp
         | Some sesslist \<Rightarrow>
             and_then (idx sesslist (nat c)) (\<lambda>x.
               case x of
                 None \<Rightarrow> Ok sp
               | Some s \<Rightarrow>
                   Ok (AList.update ip (sesslist[nat c := Some (s\<lparr>Atime := now, Idle := True\<rparr>)]) sp)))
      else Ok sp)"

definition Unavailable :: "'s pool \<Rightarrow> string \<Rightarrow> int \<Rightarrow> 's pool outcome" where
  "Unavailable sp ip c =
     (if c \<ge> 0 then
        (case map_of sp ip of
           None \<Rightarrow> Ok sp
         | Some sesslist \<Rightarrow>
             and_then (idx sesslist (nat c)) (\<lambda>x.
               case x of
                 None \<Rightarrow> Ok sp
               | Some s \<Rightarrow> Ok (AList.update ip (sesslist[nat c := Some (s\<lparr>Idle := False\<rparr>)]) sp)))
      else Ok sp)"

text \<open>\<open>Kick\<close> also returns the session pointers it called \<open>Close\<close> on. An empty slot is dereferenced.\<close>

definition Kick :: "'s pool \<Rightarrow> string \<Rightarrow> int \<Rightarrow> ('s pool \<times> 's list) outcome" where
  "Kick sp ip c =
     (if c \<ge> 0 then
        (case map_of sp ip of
           None \<Rightarrow> Ok (sp, [])
         | Some sesslist \<Rightarrow>
             and_then (idx sesslist (nat c)) (\<lambda>x.
               case x of
                 None \<Rightarrow> Panic NilDereference
               | Some s \<Rightarrow> Ok (AList.update ip (sesslist[nat c := None]) sp, [Sess s])))
      else Ok (sp, []))"

text \<open>
  \<open>Get\<close>: \<open>newsnmp\<close> is the result of \<open>snmpgo.NewSNMP(args)\<close> and \<open>open_sess\<close> that of \<open>Open\<close> on the
  new session; no other request runs in between.
\<close>

definition Get ::
  "int \<Rightarrow> 's outcome \<Rightarrow> ('s \<Rightarrow> unit outcome) \<Rightarrow> int \<Rightarrow> string \<Rightarrow> 's pool \<Rightarrow> 's pool \<times> ('s \<times> int) outcome"
where
  "Get maxsesspool newsnmp open_sess now ip sp =
     (if int (PoolLen sp) \<ge> maxsesspool then (sp, Err errReachMaxconn)
      else (case GetCacheSess sp ip now of
              (sp1, Some s, c) \<Rightarrow> (sp1, Ok (Sess s, c))
            | (sp1, None, c) \<Rightarrow>
                (case newsnmp of
                   Panic p \<Rightarrow> (sp1, Panic p)
                 | Err e \<Rightarrow> (sp1, Err e)
                 | Ok snmpsess \<Rightarrow>
                     if int (PoolLen sp1) < maxsesspool then
                       (case open_sess snmpsess of
                          Panic p \<Rightarrow> (sp1, Panic p)
                        | Err sesserr \<Rightarrow> (sp1, Err sesserr)
                        | Ok _ \<Rightarrow>
                            (case Save sp1 ip \<lparr>Sess = snmpsess, Idle = False, Atime = 0\<rparr> now of
                               (sp2, c2) \<Rightarrow> (sp2, Ok (snmpsess, c2))))
                     else (sp1, Ok (snmpsess, c)))))"

text \<open>
  One round of \<open>cleaner\<close>: every slot of every address is looked at. \<open>alive\<close> is the answer of
  \<open>snmptest\<close> for an idle session; \<open>now\<close> is the clock reading at that slot. \<open>remove\<close> empties the slot
  (and closes the session, which is not part of the pool's state).
\<close>

definition expired :: "int \<Rightarrow> int \<Rightarrow> 's session \<Rightarrow> bool" where
  "expired maxlifetime now s \<longleftrightarrow> Atime s < now - maxlifetime"

fun clean_slot :: "int \<Rightarrow> int \<Rightarrow> ('s \<Rightarrow> bool) \<Rightarrow> 's session option \<Rightarrow> 's session option" where
  "clean_slot maxlifetime now alive None = None"
| "clean_slot maxlifetime now alive (Some s) =
     (if expired maxlifetime now s then None
      else if Idle s \<and> \<not> alive (Sess s) then None
      else Some s)"

definition cleaner :: "int \<Rightarrow> (string \<Rightarrow> nat \<Rightarrow> int) \<Rightarrow> ('s \<Rightarrow> bool) \<Rightarrow> 's pool \<Rightarrow> 's pool" where
  "cleaner maxlifetime now alive sp =
     map (\<lambda>(ip, sesslist). (ip, map2 (\<lambda>i x. clean_slot maxlifetime (now ip i) alive x) [0..<length sesslist] sesslist)) sp"

section \<open>The pool as a store of slots\<close>

definition slot :: "'s pool \<Rightarrow> string \<Rightarrow> nat \<Rightarrow> 's session option" where
  "slot sp ip i =
     (case map_of sp ip of None \<Rightarrow> None | Some l \<Rightarrow> if i < length l then l ! i else None)"

definition set_slot ::
  "(string \<Rightarrow> nat \<Rightarrow> 's session option) \<Rightarrow> string \<Rightarrow> nat \<Rightarrow> 's session option \<Rightarrow> string \<Rightarrow> nat \<Rightarrow> 's session option"
where
  "set_slot f ip i x = f(ip := (f ip)(i := x))"

definition pool_ok :: "'s pool \<Rightarrow> bool" where
  "pool_ok sp \<longleftrightarrow> distinct (map fst sp) \<and> (\<forall>(ip, l) \<in> set sp. length l = MaxIdleSess)"

definition has_room :: "'s pool \<Rightarrow> string \<Rightarrow> bool" where
  "has_room sp ip \<longleftrightarrow> (case map_of sp ip of None \<Rightarrow> True | Some l \<Rightarrow> None \<in> set l)"

lemma set_slot_apply [simp]:
  "set_slot f ip i x jp j = (if jp = ip \<and> j = i then x else f jp j)"
  by (simp add: set_slot_def)

lemma find_slot_Some: "find_slot P xs = Some i \<Longrightarrow> i < length xs \<and> P (xs ! i) \<and> (\<forall>j < i. \<not> P (xs ! j))"
proof (induction xs arbitrary: i)
  case (Cons x xs)
  show ?case
  proof (cases "P x")
    case False
    with Cons.prems obtain k where "find_slot P xs = Some k" "i = Suc k" by auto
    with Cons.IH [of k] False show ?thesis by (auto simp: less_Suc_eq_0_disj)
  qed (use Cons.prems in auto)
qed simp

lemma find_slot_None: "find_slot P xs = None \<longleftrightarrow> (\<forall>x \<in> set xs. \<not> P x)"
  by (induction xs) auto

lemma pool_ok_length: "pool_ok sp \<Longrightarrow> map_of sp ip = Some l \<Longrightarrow> length l = MaxIdleSess"
  by (fastforce simp: pool_ok_def dest: map_of_SomeD)

lemma pool_ok_update: "pool_ok sp \<Longrightarrow> length l = MaxIdleSess \<Longrightarrow> pool_ok (AList.update ip l sp)"
proof -
  assume ok: "pool_ok sp" and l: "length l = MaxIdleSess"
  have "set (AList.update ip l sp) \<subseteq> insert (ip, l) (set sp)"
    by (induction sp) auto
  with ok l show ?thesis
    by (auto simp: pool_ok_def distinct_update)
qed

lemma slot_update:
  "slot (AList.update ip l sp) jp j = (if jp = ip then (if j < length l then l ! j else None) else slot sp jp j)"
  by (simp add: slot_def update_conv')

lemma slot_list_update:
  "map_of sp ip = Some l \<Longrightarrow> i < length l \<Longrightarrow>
   slot (AList.update ip (l[i := x]) sp) = set_slot (slot sp) ip i x"
  by (intro ext) (auto simp: slot_update, auto simp: slot_def nth_list_update)

lemma fst_update_subset: "set (map fst sp) \<subseteq> set (map fst (AList.update ip l sp))"
  by (induction sp) auto

lemma length_update_le: "length (AList.update ip l sp) \<le> Suc (length sp)"
  by (induction sp) auto

lemma length_update_ge: "length sp \<le> length (AList.update ip l sp)"
  by (induction sp) auto

lemma slot_Some_D: "slot sp ip i = Some s \<Longrightarrow> \<exists>l. map_of sp ip = Some l \<and> i < length l \<and> l ! i = Some s"
  by (auto simp: slot_def split: option.splits if_splits)

section \<open>What each operation does to the slots\<close>

lemma GetCacheSess_hit:
  assumes "pool_ok sp" and "GetCacheSess sp ip now = (sp', Some s, c)"
  shows "\<exists>i s0. c = int i \<and> slot sp ip i = Some s0 \<and> Idle s0 \<and> s = s0\<lparr>Atime := now, Idle := False\<rparr>
    \<and> slot sp' = set_slot (slot sp) ip i (Some s) \<and> pool_ok sp'"
proof -
  from assms(2) obtain l i s0 where l: "map_of sp ip = Some l" "find_slot is_idle l = Some i" "l ! i = Some s0"
    and s: "s = s0\<lparr>Atime := now, Idle := False\<rparr>" "c = int i" "sp' = AList.update ip (l[i := Some s]) sp"
    by (auto simp: GetCacheSess_def Let_def split: option.splits)
  from find_slot_Some [OF l(2)] l(3) have i: "i < length l" "Idle s0"
    by (auto simp: is_idle_def)
  have "slot sp ip i = Some s0" using l i by (simp add: slot_def)
  moreover have "pool_ok sp'"
    using assms(1) l s by (simp add: pool_ok_update pool_ok_length)
  ultimately show ?thesis
    using s i slot_list_update [OF l(1) i(1)] by auto
qed

lemma GetCacheSess_miss: "GetCacheSess sp ip now = (sp', None, c) \<Longrightarrow> sp' = sp \<and> c = - 1"
  by (auto simp: GetCacheSess_def Let_def split: option.splits)

lemma GetCacheSess_miss_no_idle:
  "GetCacheSess sp ip now = (sp', None, c) \<Longrightarrow> slot sp ip i = Some s \<Longrightarrow> \<not> Idle s"
proof
  assume m: "GetCacheSess sp ip now = (sp', None, c)" and s: "slot sp ip i = Some s" and "Idle s"
  obtain l where l: "map_of sp ip = Some l" "i < length l" "l ! i = Some s"
    using slot_Some_D [OF s] by auto
  then have "is_idle (l ! i)" using \<open>Idle s\<close> by (simp add: is_idle_def)
  then have "find_slot is_idle l \<noteq> None" using l(2) by (auto simp: find_slot_None)
  then obtain k where k: "find_slot is_idle l = Some k" by blast
  with find_slot_Some [OF k] have "\<exists>x. l ! k = Some x" by (auto simp: is_idle_def split: option.splits)
  with m l k show False by (auto simp: GetCacheSess_def Let_def)
qed

lemma Save_room:
  assumes "pool_ok sp" and "has_room sp ip" and "Save sp ip s now = (sp', c)"
  shows "\<exists>i. c = int i \<and> slot sp ip i = None
    \<and> slot sp' = set_slot (slot sp) ip i (Some (s\<lparr>Atime := now, Idle := False\<rparr>)) \<and> pool_ok sp'"
proof (cases "map_of sp ip")
  case None
  let ?l = "Some (s\<lparr>Atime := now, Idle := False\<rparr>) # replicate (MaxIdleSess - 1) None"
  from None assms(3) have sp': "sp' = AList.update ip ?l sp" "c = 0"
    by (auto simp: Save_def Let_def)
  have "slot sp' = set_slot (slot sp) ip 0 (Some (s\<lparr>Atime := now, Idle := False\<rparr>))"
    by (intro ext) (auto simp: sp' slot_update nth_Cons' MaxIdleSess_def, auto simp: slot_def None)
  moreover have "pool_ok sp'"
    using assms(1) by (simp add: sp' pool_ok_update MaxIdleSess_def)
  ultimately show ?thesis using sp' None by (auto simp: slot_def)
next
  case (Some l)
  with assms(2) have "None \<in> set l" by (simp add: has_room_def)
  then have "find_slot is_nil l \<noteq> None"
    unfolding find_slot_None is_nil_def by force
  then obtain i where i: "find_slot is_nil l = Some i" by blast
  from find_slot_Some [OF i] have il: "i < length l" "l ! i = None"
    by (auto simp: is_nil_def split: option.splits)
  from Some i assms(3)
  have sp': "sp' = AList.update ip (l[i := Some (s\<lparr>Atime := now, Idle := False\<rparr>)]) sp" "c = int i"
    by (auto simp: Save_def Let_def)
  have "pool_ok sp'" using assms(1) Some by (simp add: sp' pool_ok_update pool_ok_length)
  then show ?thesis
    using sp' il Some slot_list_update [OF Some il(1)] by (auto simp: slot_def)
qed

lemma Free_slot:
  assumes "pool_ok sp" and "slot sp ip i = Some s"
  shows "\<exists>sp'. Free sp ip (int i) now = Ok sp' \<and> pool_ok sp'
    \<and> slot sp' = set_slot (slot sp) ip i (Some (s\<lparr>Atime := now, Idle := True\<rparr>))"
proof -
  from slot_Some_D [OF assms(2)] obtain l where l: "map_of sp ip = Some l" "i < length l" "l ! i = Some s"
    by auto
  then show ?thesis
    using assms(1) by (simp add: Free_def pool_ok_update pool_ok_length slot_list_update)
qed

lemma Kick_slot:
  assumes "pool_ok sp" and "slot sp ip i = Some s"
  shows "\<exists>sp'. Kick sp ip (int i) = Ok (sp', [Sess s]) \<and> pool_ok sp' \<and> slot sp' = set_slot (slot sp) ip i None"
proof -
  from slot_Some_D [OF assms(2)] obtain l where l: "map_of sp ip = Some l" "i < length l" "l ! i = Some s"
    by auto
  then show ?thesis
    using assms(1) by (simp add: Kick_def pool_ok_update pool_ok_length slot_list_update)
qed

lemma map_of_map_key: "map_of (map (\<lambda>(k, v). (k, f k v)) xs) k = map_option (f k) (map_of xs k)"
  by (induction xs) auto

lemma cleaner_slot: "slot (cleaner ml now alive sp) ip i = clean_slot ml (now ip i) alive (slot sp ip i)"
  by (auto simp: slot_def cleaner_def map_of_map_key split: option.splits)

lemma cleaner_keys: "map fst (cleaner ml now alive sp) = map fst sp"
  by (simp add: cleaner_def case_prod_unfold comp_def)

lemma cleaner_pool_ok: "pool_ok sp \<Longrightarrow> pool_ok (cleaner ml now alive sp)"
  by (auto simp: pool_ok_def cleaner_keys) (auto simp: cleaner_def)

section \<open>The contract of a session store\<close>

text \<open>
  Requests hold sessions: \<open>H t = Some (ip, c, h)\<close> when request \<open>t\<close> got the session pointer \<open>h\<close> with the
  slot number \<open>c\<close> for address \<open>ip\<close>. \<open>owned\<close> is the contract between the slots and the holders: what is
  held sits busy in its slot, no slot is held twice and no session sits in two slots.
\<close>

definition owned ::
  "(string \<Rightarrow> nat \<Rightarrow> 's session option) \<Rightarrow> (nat \<rightharpoonup> string \<times> int \<times> 's) \<Rightarrow> bool" where
  "owned f H \<longleftrightarrow>
     (\<forall>t ip c h. H t = Some (ip, c, h) \<longrightarrow>
        (\<exists>i s. c = int i \<and> f ip i = Some s \<and> Sess s = h \<and> \<not> Idle s)) \<and>
     (\<forall>t t' ip c h h'. H t = Some (ip, c, h) \<longrightarrow> H t' = Some (ip, c, h') \<longrightarrow> t = t') \<and>
     (\<forall>ip i s jp j s'. f ip i = Some s \<longrightarrow> f jp j = Some s' \<longrightarrow> Sess s = Sess s' \<longrightarrow> ip = jp \<and> i = j)"

lemma owned_holder:
  "owned f H \<Longrightarrow> H t = Some (ip, c, h) \<Longrightarrow> \<exists>i s. c = int i \<and> f ip i = Some s \<and> Sess s = h \<and> \<not> Idle s"
  by (simp add: owned_def)

lemma owned_slot_once: "owned f H \<Longrightarrow> H t = Some (ip, c, h) \<Longrightarrow> H t' = Some (ip, c, h') \<Longrightarrow> t = t'"
  unfolding owned_def by blast

lemma owned_sess_once:
  "owned f H \<Longrightarrow> f ip i = Some s \<Longrightarrow> f jp j = Some s' \<Longrightarrow> Sess s = Sess s' \<Longrightarrow> ip = jp \<and> i = j"
  unfolding owned_def by blast

lemma ownedI:
  assumes "\<And>t ip c h. H t = Some (ip, c, h) \<Longrightarrow> \<exists>i s. c = int i \<and> f ip i = Some s \<and> Sess s = h \<and> \<not> Idle s"
    and "\<And>t t' ip c h h'. H t = Some (ip, c, h) \<Longrightarrow> H t' = Some (ip, c, h') \<Longrightarrow> t = t'"
    and "\<And>ip i s jp j s'. f ip i = Some s \<Longrightarrow> f jp j = Some s' \<Longrightarrow> Sess s = Sess s' \<Longrightarrow> ip = jp \<and> i = j"
  shows "owned f H"
  using assms unfolding owned_def by blast

lemma owned_exclusive:
  assumes "owned f H" and "H t = Some (ip, c, h)" and "H t' = Some (jp, d, h)"
  shows "t = t'"
proof -
  obtain i s where i: "c = int i" "f ip i = Some s" "Sess s = h" using owned_holder [OF assms(1,2)] by auto
  obtain j s' where j: "d = int j" "f jp j = Some s'" "Sess s' = h" using owned_holder [OF assms(1,3)] by auto
  from owned_sess_once [OF assms(1) i(2) j(2)] i j have "ip = jp" "c = d" by auto
  with owned_slot_once [OF assms(1,2)] assms(3) show ?thesis by simp
qed

text \<open>
  What a provider of cached sessions promises, and what follows for its clients: taking, saving and
  returning sessions keeps the contract. The pool of \<open>pool.go\<close> is such a provider (below).
\<close>

locale session_store =
  fixes ok :: "'p \<Rightarrow> bool"
    and slots_of :: "'p \<Rightarrow> string \<Rightarrow> nat \<Rightarrow> 's session option"
    and room :: "'p \<Rightarrow> string \<Rightarrow> bool"
    and acquire :: "'p \<Rightarrow> string \<Rightarrow> int \<Rightarrow> 'p \<times> 's session option \<times> int"
    and save :: "'p \<Rightarrow> string \<Rightarrow> 's session \<Rightarrow> int \<Rightarrow> 'p \<times> int"
    and release :: "'p \<Rightarrow> string \<Rightarrow> int \<Rightarrow> int \<Rightarrow> 'p outcome"
    and sweep :: "int \<Rightarrow> (string \<Rightarrow> nat \<Rightarrow> int) \<Rightarrow> ('s \<Rightarrow> bool) \<Rightarrow> 'p \<Rightarrow> 'p"
  assumes acquire_hit: "ok p \<Longrightarrow> acquire p ip now = (p', Some s, c) \<Longrightarrow>
      \<exists>i s0. c = int i \<and> slots_of p ip i = Some s0 \<and> Idle s0 \<and> s = s0\<lparr>Atime := now, Idle := False\<rparr>
        \<and> slots_of p' = set_slot (slots_of p) ip i (Some s) \<and> ok p'"
    and save_room: "ok p \<Longrightarrow> room p ip \<Longrightarrow> save p ip s now = (p', c) \<Longrightarrow>
      \<exists>i. c = int i \<and> slots_of p ip i = None
        \<and> slots_of p' = set_slot (slots_of p) ip i (Some (s\<lparr>Atime := now, Idle := False\<rparr>)) \<and> ok p'"
    and release_slot: "ok p \<Longrightarrow> slots_of p ip i = Some s \<Longrightarrow>
      \<exists>p'. release p ip (int i) now = Ok p' \<and> ok p'
        \<and> slots_of p' = set_slot (slots_of p) ip i (Some (s\<lparr>Atime := now, Idle := True\<rparr>))"
    and sweep_slot: "slots_of (sweep ml clock alive p) ip i = clean_slot ml (clock ip i) alive (slots_of p ip i)"
    and sweep_ok: "ok p \<Longrightarrow> ok (sweep ml clock alive p)"
begin

lemma acquire_owned:
  assumes ok: "ok p" and own: "owned (slots_of p) H" and hit: "acquire p ip now = (p', Some s, c)"
  shows "owned (slots_of p') (H(t \<mapsto> (ip, c, Sess s)))"
proof -
  obtain i s0 where i: "c = int i" "slots_of p ip i = Some s0" "Idle s0"
      "s = s0\<lparr>Atime := now, Idle := False\<rparr>" "slots_of p' = set_slot (slots_of p) ip i (Some s)"
    using acquire_hit [OF ok hit] by blast
  have s: "Sess s = Sess s0" "\<not> Idle s" by (simp_all add: i(4))
  have free: "H t' \<noteq> Some (ip, c, h)" for t' h
    using owned_holder [OF own, of t' ip c h] i(1-3) by auto
  show ?thesis
  proof (rule ownedI)
    fix t' jp d h assume h: "(H(t \<mapsto> (ip, c, Sess s))) t' = Some (jp, d, h)"
    show "\<exists>k u. d = int k \<and> slots_of p' jp k = Some u \<and> Sess u = h \<and> \<not> Idle u"
    proof (cases "t' = t")
      case False
      with h have h': "H t' = Some (jp, d, h)" by simp
      then obtain k u where "d = int k" "slots_of p jp k = Some u" "Sess u = h" "\<not> Idle u"
        using owned_holder [OF own] by blast
      then show ?thesis using h' free i(1) by (auto simp: i(5))
    qed (use h i(1) s in \<open>auto simp: i(5)\<close>)
  next
    fix t1 t2 jp d h1 h2
    assume "(H(t \<mapsto> (ip, c, Sess s))) t1 = Some (jp, d, h1)" "(H(t \<mapsto> (ip, c, Sess s))) t2 = Some (jp, d, h2)"
    then show "t1 = t2" using owned_slot_once [OF own] free by (auto split: if_splits)
  next
    fix jp j u kp k v
    assume "slots_of p' jp j = Some u" "slots_of p' kp k = Some v" "Sess u = Sess v"
    then show "jp = kp \<and> j = k"
      using owned_sess_once [OF own] i(2) s(1) by (auto simp: i(5) split: if_splits)
  qed
qed

lemma save_owned:
  assumes ok: "ok p" and own: "owned (slots_of p) H" and rm: "room p ip"
    and sv: "save p ip s now = (p', c)" and fresh: "\<And>jp j u. slots_of p jp j = Some u \<Longrightarrow> Sess u \<noteq> Sess s"
  shows "owned (slots_of p') (H(t \<mapsto> (ip, c, Sess s)))"
proof -
  obtain i where i: "c = int i" "slots_of p ip i = None"
      "slots_of p' = set_slot (slots_of p) ip i (Some (s\<lparr>Atime := now, Idle := False\<rparr>))"
    using save_room [OF ok rm sv] by blast
  have free: "H t' \<noteq> Some (ip, c, h)" for t' h
    using owned_holder [OF own, of t' ip c h] i(1,2) by auto
  show ?thesis
  proof (rule ownedI)
    fix t' jp d h assume h: "(H(t \<mapsto> (ip, c, Sess s))) t' = Some (jp, d, h)"
    show "\<exists>k u. d = int k \<and> slots_of p' jp k = Some u \<and> Sess u = h \<and> \<not> Idle u"
    proof (cases "t' = t")
      case False
      with h have h': "H t' = Some (jp, d, h)" by simp
      then obtain k u where "d = int k" "slots_of p jp k = Some u" "Sess u = h" "\<not> Idle u"
        using owned_holder [OF own] by blast
      then show ?thesis using h' free i(1) by (auto simp: i(3))
    qed (use h i(1) in \<open>auto simp: i(3)\<close>)
  next
    fix t1 t2 jp d h1 h2
    assume "(H(t \<mapsto> (ip, c, Sess s))) t1 = Some (jp, d, h1)" "(H(t \<mapsto> (ip, c, Sess s))) t2 = Some (jp, d, h2)"
    then show "t1 = t2" using owned_slot_once [OF own] free by (auto split: if_splits)
  next
    fix jp j u kp k v
    assume "slots_of p' jp j = Some u" "slots_of p' kp k = Some v" "Sess u = Sess v"
    then show "jp = kp \<and> j = k"
      using owned_sess_once [OF own] fresh by (auto simp: i(3) split: if_splits) metis+
  qed
qed

lemma release_owned:
  assumes ok: "ok p" and own: "owned (slots_of p) H" and h: "H t = Some (ip, c, h)"
  shows "\<exists>p'. release p ip c now = Ok p' \<and> ok p' \<and> owned (slots_of p') (H(t := None))
    \<and> (\<forall>jp j u. slots_of p' jp j = Some u \<longrightarrow> (\<exists>u0. slots_of p jp j = Some u0 \<and> Sess u0 = Sess u))"
proof -
  obtain i s where i: "c = int i" "slots_of p ip i = Some s" "Sess s = h" using owned_holder [OF own h] by blast
  obtain p' where p': "release p ip c now = Ok p'" "ok p'"
      "slots_of p' = set_slot (slots_of p) ip i (Some (s\<lparr>Atime := now, Idle := True\<rparr>))"
    using release_slot [OF ok i(2)] i(1) by blast
  have other: "H t' = Some (ip, int i, h') \<Longrightarrow> t' = t" for t' h'
    using owned_slot_once [OF own h] i(1) by blast
  have "owned (slots_of p') (H(t := None))"
  proof (rule ownedI)
    fix t' jp d h' assume "(H(t := None)) t' = Some (jp, d, h')"
    then have h': "H t' = Some (jp, d, h')" "t' \<noteq> t" by (auto split: if_splits)
    then show "\<exists>k u. d = int k \<and> slots_of p' jp k = Some u \<and> Sess u = h' \<and> \<not> Idle u"
      using owned_holder [OF own h'(1)] other by (fastforce simp: p'(3))
  next
    fix t1 t2 jp d h1 h2
    assume "(H(t := None)) t1 = Some (jp, d, h1)" "(H(t := None)) t2 = Some (jp, d, h2)"
    then show "t1 = t2" using owned_slot_once [OF own] by (auto split: if_splits)
  next
    fix jp j u kp k v
    assume "slots_of p' jp j = Some u" "slots_of p' kp k = Some v" "Sess u = Sess v"
    then show "jp = kp \<and> j = k"
      using owned_sess_once [OF own] i(2) by (auto simp: p'(3) split: if_splits)
  qed
  then show ?thesis using p' i by auto
qed

lemma sweep_owned:
  assumes own: "owned (slots_of p) H"
    and busy: "\<And>ip i s. slots_of p ip i = Some s \<Longrightarrow> \<not> Idle s \<Longrightarrow> \<not> expired ml (clock ip i) s"
  shows "owned (slots_of (sweep ml clock alive p)) H"
proof (rule ownedI)
  fix t ip c h assume "H t = Some (ip, c, h)"
  then obtain i s where "c = int i" "slots_of p ip i = Some s" "Sess s = h" "\<not> Idle s"
    using owned_holder [OF own] by blast
  with busy show "\<exists>i s. c = int i \<and> slots_of (sweep ml clock alive p) ip i = Some s \<and> Sess s = h \<and> \<not> Idle s"
    by (intro exI [of _ i] exI [of _ s]) (simp add: sweep_slot)
next
  fix t t' ip c h h' assume "H t = Some (ip, c, h)" "H t' = Some (ip, c, h')"
  then show "t = t'" by (rule owned_slot_once [OF own])
next
  fix ip i s jp j s'
  assume a: "slots_of (sweep ml clock alive p) ip i = Some s" "slots_of (sweep ml clock alive p) jp j = Some s'"
    and eq: "Sess s = Sess s'"
  then have "slots_of p ip i = Some s" "slots_of p jp j = Some s'"
    by (simp_all add: sweep_slot) (cases "slots_of p ip i"; cases "slots_of p jp j"; simp split: if_splits)+
  then show "ip = jp \<and> i = j" using eq owned_sess_once [OF own] by blast
qed

end

interpretation sp: session_store pool_ok slot has_room GetCacheSess Save Free cleaner
proof
  show "pool_ok p \<Longrightarrow> GetCacheSess p ip now = (p', Some s, c) \<Longrightarrow>
      \<exists>i s0. c = int i \<and> slot p ip i = Some s0 \<and> Idle s0 \<and> s = s0\<lparr>Atime := now, Idle := False\<rparr>
        \<and> slot p' = set_slot (slot p) ip i (Some s) \<and> pool_ok p'"
    for p :: "'a pool" and ip now p' s c
    by (rule GetCacheSess_hit)
qed (use Save_room Free_slot in \<open>simp_all add: cleaner_slot cleaner_pool_ok\<close>)

section \<open>Interleaved requests\<close>

text \<open>
  The shared pool with the sessions the running requests hold, and the steps requests and the cleaner
  make on it. A request \<open>t\<close> gets a cached session (\<open>Hit\<close>) or saves the new session \<open>h\<close> it has opened
  (\<open>SaveNew\<close>); it kicks a session whose connection failed (\<open>KickL\<close>); its deferred \<open>Free\<close> ends it
  (\<open>FreeL\<close>). The arguments of that \<open>Free\<close> are those of the \<open>defer\<close> statement, so a kick does not change
  them. \<open>None\<close>: the step is not possible in this state, or the operation panics.
\<close>

record 's sys =
  pool :: "'s pool"
  holds :: "nat \<rightharpoonup> string \<times> int \<times> 's"
  opened :: "'s list"

datatype 's event =
    Hit nat string int
  | SaveNew nat string 's int
  | KickL nat
  | FreeL nat int
  | Clean int int "'s \<Rightarrow> bool"

definition start :: "'s sys" where
  "start = \<lparr>pool = [], holds = Map.empty, opened = []\<rparr>"

fun exec :: "'s sys \<Rightarrow> 's event \<Rightarrow> 's sys option" where
  "exec s (Hit t ip now) =
     (if holds s t \<noteq> None then None
      else (case GetCacheSess (pool s) ip now of
              (p, Some ss, c) \<Rightarrow> Some (s\<lparr>pool := p, holds := (holds s)(t \<mapsto> (ip, c, Sess ss))\<rparr>)
            | (p, None, c) \<Rightarrow> None))"
| "exec s (SaveNew t ip h now) =
     (if holds s t \<noteq> None \<or> h \<in> set (opened s) then None
      else (case Save (pool s) ip \<lparr>Sess = h, Idle = False, Atime = 0\<rparr> now of
              (p, c) \<Rightarrow> Some (s\<lparr>pool := p, holds := (holds s)(t \<mapsto> (ip, c, h)), opened := h # opened s\<rparr>)))"
| "exec s (KickL t) =
     (case holds s t of
        None \<Rightarrow> None
      | Some (ip, c, h) \<Rightarrow>
          (case Kick (pool s) ip c of Ok (p, _) \<Rightarrow> Some (s\<lparr>pool := p\<rparr>) | _ \<Rightarrow> None))"
| "exec s (FreeL t now) =
     (case holds s t of
        None \<Rightarrow> None
      | Some (ip, c, h) \<Rightarrow>
          (case Free (pool s) ip c now of
             Ok p \<Rightarrow> Some (s\<lparr>pool := p, holds := (holds s)(t := None)\<rparr>)
           | _ \<Rightarrow> None))"
| "exec s (Clean maxlifetime now alive) =
     Some (s\<lparr>pool := cleaner maxlifetime (\<lambda>_ _. now) alive (pool s)\<rparr>)"

fun run :: "'s sys \<Rightarrow> 's event list \<Rightarrow> 's sys option" where
  "run s [] = Some s"
| "run s (e # es) = (case exec s e of None \<Rightarrow> None | Some s' \<Rightarrow> run s' es)"

text \<open>
  The three situations in which the code gives a session away twice: saving a sixth session for an
  address, kicking before the deferred \<open>Free\<close>, and cleaning away a session that a request still uses.
\<close>

definition busy_fresh :: "int \<Rightarrow> int \<Rightarrow> 's pool \<Rightarrow> bool" where
  "busy_fresh maxlifetime now sp =
     list_all (\<lambda>(ip, l). list_all (\<lambda>x. case x of None \<Rightarrow> True | Some s \<Rightarrow> Idle s \<or> \<not> expired maxlifetime now s) l) sp"

fun regular :: "'s sys \<Rightarrow> 's event \<Rightarrow> bool" where
  "regular s (SaveNew t ip h now) = has_room (pool s) ip"
| "regular s (KickL t) = False"
| "regular s (Clean maxlifetime now alive) = busy_fresh maxlifetime now (pool s)"
| "regular s _ = True"

fun regular_run :: "'s sys \<Rightarrow> 's event list \<Rightarrow> bool" where
  "regular_run s [] = True"
| "regular_run s (e # es) =
     (regular s e \<and> (case exec s e of None \<Rightarrow> True | Some s' \<Rightarrow> regular_run s' es))"

definition sys_inv :: "'s sys \<Rightarrow> bool" where
  "sys_inv s \<longleftrightarrow> pool_ok (pool s) \<and> owned (slot (pool s)) (holds s)
     \<and> (\<forall>ip i u. slot (pool s) ip i = Some u \<longrightarrow> Sess u \<in> set (opened s))"

lemma sys_inv_start: "sys_inv start"
  by (simp add: sys_inv_def start_def pool_ok_def owned_def slot_def)

lemma busy_freshD:
  "busy_fresh ml now sp \<Longrightarrow> slot sp ip i = Some u \<Longrightarrow> \<not> Idle u \<Longrightarrow> \<not> expired ml now u"
  by (drule slot_Some_D) (fastforce simp: busy_fresh_def list_all_iff dest: map_of_SomeD nth_mem)

lemma exec_sys_inv:
  assumes inv: "sys_inv s" and e: "exec s e = Some s'" and reg: "regular s e"
  shows "sys_inv s'"
proof -
  have ok: "pool_ok (pool s)" and own: "owned (slot (pool s)) (holds s)"
    and op: "slot (pool s) ip i = Some u \<Longrightarrow> Sess u \<in> set (opened s)" for ip i u
    using inv by (auto simp: sys_inv_def)
  show ?thesis
  proof (cases e)
    case (Hit t ip now)
    with e obtain p ss c where hit: "GetCacheSess (pool s) ip now = (p, Some ss, c)" "holds s t = None"
      and s': "s' = s\<lparr>pool := p, holds := (holds s)(t \<mapsto> (ip, c, Sess ss))\<rparr>"
      by (cases "holds s t = None") (auto split: prod.splits option.splits)
    have "Sess u \<in> set (opened s)" if "slot p jp j = Some u" for jp j u
      using GetCacheSess_hit [OF ok hit(1)] op that by (fastforce split: if_splits)
    then show ?thesis
      using GetCacheSess_hit [OF ok hit(1)] sp.acquire_owned [OF ok own hit(1), of t] s'
      by (auto simp: sys_inv_def)
  next
    case (SaveNew t ip h now)
    with e obtain p c where sv: "Save (pool s) ip \<lparr>Sess = h, Idle = False, Atime = 0\<rparr> now = (p, c)"
      and t: "holds s t = None" "h \<notin> set (opened s)"
      and s': "s' = s\<lparr>pool := p, holds := (holds s)(t \<mapsto> (ip, c, h)), opened := h # opened s\<rparr>"
      by (cases "holds s t = None") (auto split: if_splits prod.splits)
    from reg SaveNew have rm: "has_room (pool s) ip" by simp
    have "owned (slot p) ((holds s)(t \<mapsto> (ip, c, h)))"
      using sp.save_owned [OF ok own rm sv, of t] op t by fastforce
    moreover have "Sess u \<in> set (h # opened s)" if "slot p jp j = Some u" for jp j u
      using Save_room [OF ok rm sv] op that by (fastforce split: if_splits)
    ultimately show ?thesis
      using Save_room [OF ok rm sv] s' by (auto simp: sys_inv_def)
  next
    case (FreeL t now)
    with e obtain ip c h p where h: "holds s t = Some (ip, c, h)" "Free (pool s) ip c now = Ok p"
      and s': "s' = s\<lparr>pool := p, holds := (holds s)(t := None)\<rparr>"
      by (auto split: option.splits prod.splits outcome.splits)
    with sp.release_owned [OF ok own h(1), of now] op show ?thesis
      by (fastforce simp: sys_inv_def)
  next
    case (Clean ml now alive)
    with e have s': "s' = s\<lparr>pool := cleaner ml (\<lambda>_ _. now) alive (pool s)\<rparr>" by simp
    have "owned (slot (pool s')) (holds s)"
      using sp.sweep_owned [OF own, of ml "\<lambda>_ _. now" alive] busy_freshD reg Clean s' by fastforce
    moreover have "Sess u \<in> set (opened s)" if "slot (pool s') jp j = Some u" for jp j u
      using that op s' by (cases "slot (pool s) jp j") (fastforce simp: cleaner_slot split: if_splits)+
    ultimately show ?thesis using s' ok by (simp add: sys_inv_def cleaner_pool_ok)
  qed (use reg in simp)
qed

lemma run_sys_inv: "sys_inv s \<Longrightarrow> run s es = Some s' \<Longrightarrow> regular_run s es \<Longrightarrow> sys_inv s'"
  by (induction es arbitrary: s) (auto split: option.splits dest: exec_sys_inv)

text \<open>C9: No session is ever used by two requests at once, and every held session sits busy in its own
  slot, in any interleaving of requests and cleaner rounds in which no address needs a sixth session,
  no session is kicked and no session in use has expired.\<close>

theorem exclusive_use:
  assumes "run start es = Some s" and "regular_run start es"
    and "holds s t = Some (ip, c, h)"
  shows "(\<forall>t' jp d. holds s t' = Some (jp, d, h) \<longrightarrow> t' = t)
    \<and> (\<exists>u. slot (pool s) ip (nat c) = Some u \<and> Sess u = h \<and> \<not> Idle u)"
proof -
  from run_sys_inv [OF sys_inv_start assms(1,2)] have own: "owned (slot (pool s)) (holds s)"
    by (simp add: sys_inv_def)
  show ?thesis
    using owned_exclusive [OF own assms(3)] owned_holder [OF own assms(3)] by fastforce
qed

text \<open>A run of two requests for one address: the second reuses the session the first has returned.\<close>

definition reuse_run :: "nat event list" where
  "reuse_run = [SaveNew 1 ''h'' 7 0, FreeL 1 1, Clean 30 2 (\<lambda>_. True), Hit 2 ''h'' 3]"

lemma replicate_MaxIdleSess: "replicate (MaxIdleSess - Suc 0) x = [x, x, x, x]"
  by (simp add: MaxIdleSess_def numeral_eq_Suc)

lemmas pool_eval = start_def GetCacheSess_def Save_def Free_def Kick_def cleaner_def expired_def
  is_idle_def is_nil_def replicate_MaxIdleSess idx_def Let_def upt_rec has_room_def busy_fresh_def

theorem exclusive_use_witness:
  "\<exists>s. run start reuse_run = Some s \<and> holds s 2 = Some (''h'', 0, 7)
     \<and> (\<exists>u. slot (pool s) ''h'' 0 = Some u \<and> Sess u = 7)"
proof -
  have r: "regular_run start reuse_run" by (simp add: reuse_run_def pool_eval)
  obtain s where s: "run start reuse_run = Some s" "holds s 2 = Some (''h'', 0, 7)"
    by (simp add: reuse_run_def pool_eval)
  from exclusive_use [OF s(1) r s(2)] s show ?thesis by auto
qed

text \<open>What requests \<open>t\<close> and \<open>t'\<close> hold at the end of a run.\<close>

definition held_after :: "nat event list \<Rightarrow> nat \<Rightarrow> nat \<Rightarrow> ((string \<times> int \<times> nat) option \<times> (string \<times> int \<times> nat) option) option" where
  "held_after es t t' = map_option (\<lambda>s. (holds s t, holds s t')) (run start es)"

lemma held_afterD:
  "held_after es t t' = Some (x, y) \<Longrightarrow> \<exists>s. run start es = Some s \<and> holds s t = x \<and> holds s t' = y"
  by (auto simp: held_after_def)

lemma double_use_overflow:
  "held_after [SaveNew 1 ''h'' 11 0, SaveNew 2 ''h'' 12 0, SaveNew 3 ''h'' 13 0, SaveNew 4 ''h'' 14 0,
     SaveNew 5 ''h'' 15 0, SaveNew 6 ''h'' 16 0, FreeL 1 1, Hit 7 ''h'' 1] 6 7
   = Some (Some (''h'', 0, 16), Some (''h'', 0, 16))"
  by code_simp

lemma double_use_kick:
  "held_after [SaveNew 1 ''h'' 11 0, KickL 1, SaveNew 2 ''h'' 12 1, FreeL 1 2, Hit 3 ''h'' 2] 2 3
   = Some (Some (''h'', 0, 12), Some (''h'', 0, 12))"
  by code_simp

lemma double_use_expired:
  "held_after [SaveNew 1 ''h'' 11 0, Clean 30 40 (\<lambda>_. True), SaveNew 2 ''h'' 12 41, FreeL 1 42, Hit 3 ''h'' 43] 2 3
   = Some (Some (''h'', 0, 12), Some (''h'', 0, 12))"
  by code_simp

text \<open>Each of the three conditions is needed: after a sixth session for one address, after a kick,
  and after the cleaner removed an expired session that was in use, a deferred \<open>Free\<close> marks a slot idle
  that another request is using, and a third request is handed the same session.\<close>

theorem session_double_use:
  "(\<exists>s. run start [SaveNew 1 ''h'' (11::nat) 0, SaveNew 2 ''h'' 12 0, SaveNew 3 ''h'' 13 0, SaveNew 4 ''h'' 14 0,
       SaveNew 5 ''h'' 15 0, SaveNew 6 ''h'' 16 0, FreeL 1 1, Hit 7 ''h'' 1] = Some s
     \<and> holds s 6 = Some (''h'', 0, 16) \<and> holds s 7 = Some (''h'', 0, 16))
   \<and> (\<exists>s. run start [SaveNew 1 ''h'' (11::nat) 0, KickL 1, SaveNew 2 ''h'' 12 1, FreeL 1 2, Hit 3 ''h'' 2] = Some s
     \<and> holds s 2 = Some (''h'', 0, 12) \<and> holds s 3 = Some (''h'', 0, 12))
   \<and> (\<exists>s. run start [SaveNew 1 ''h'' (11::nat) 0, Clean 30 40 (\<lambda>_. True), SaveNew 2 ''h'' 12 41, FreeL 1 42,
       Hit 3 ''h'' 43] = Some s
     \<and> holds s 2 = Some (''h'', 0, 12) \<and> holds s 3 = Some (''h'', 0, 12))"
  by (intro conjI held_afterD double_use_overflow double_use_kick double_use_expired)

section \<open>Get\<close>

lemma Save_slot:
  assumes "pool_ok sp" and "Save sp ip s now = (sp', c)"
  shows "0 \<le> c \<and> pool_ok sp' \<and> slot sp' ip (nat c) = Some (s\<lparr>Atime := now, Idle := False\<rparr>)"
proof (cases "has_room sp ip")
  case True
  with Save_room [OF assms(1) True assms(2)] show ?thesis by auto
next
  case False
  then obtain l where l: "map_of sp ip = Some l" "None \<notin> set l"
    by (auto simp: has_room_def split: option.splits)
  then have "find_slot is_nil l = None"
    unfolding find_slot_None by (auto simp: is_nil_def split: option.splits) (metis not_Some_eq)
  with l assms(2) have sp': "c = 0"
      "sp' = AList.update ip (Some (s\<lparr>Atime := now, Idle := False\<rparr>) # replicate (MaxIdleSess - 1) None) sp"
    by (auto simp: Save_def Let_def)
  then show ?thesis
    using assms(1) by (simp add: slot_update pool_ok_update MaxIdleSess_def)
qed

text \<open>A session \<open>Get\<close> returns sits busy in the pool slot it reports, stamped with the current time; it
  is either the session of a slot that was idle, or the new session, opened without error, and then no
  idle session was cached for the address.\<close>

theorem Get_result:
  assumes ok: "pool_ok sp" and get: "Get maxsess newsnmp open_sess now ip sp = (sp', Ok (h, c))"
    and room: "int (PoolLen sp) < maxsess"
  shows "0 \<le> c \<and> (\<exists>u. slot sp' ip (nat c) = Some u \<and> Sess u = h \<and> \<not> Idle u \<and> Atime u = now)
    \<and> ((\<exists>u. slot sp ip (nat c) = Some u \<and> Sess u = h \<and> Idle u)
       \<or> newsnmp = Ok h \<and> open_sess h = Ok () \<and> (\<nexists>i u. slot sp ip i = Some u \<and> Idle u))"
proof -
  obtain sp1 x c1 where g: "GetCacheSess sp ip now = (sp1, x, c1)" by (cases "GetCacheSess sp ip now")
  show ?thesis
  proof (cases x)
    case (Some s)
    with get g room have "sp' = sp1" "h = Sess s" "c = c1" by (auto simp: Get_def)
    then show ?thesis using GetCacheSess_hit [OF ok] g Some by fastforce
  next
    case None
    with g have sp1: "sp1 = sp" using GetCacheSess_miss by blast
    have idle: "\<nexists>i u. slot sp ip i = Some u \<and> Idle u"
      using GetCacheSess_miss_no_idle g None by blast
    from get g None room sp1 obtain sp2 c2 where r: "newsnmp = Ok h" "open_sess h = Ok ()" "sp' = sp2" "c = c2"
      "Save sp ip \<lparr>Sess = h, Idle = False, Atime = 0\<rparr> now = (sp2, c2)"
      by (auto simp: Get_def split: outcome.splits prod.splits)
    show ?thesis using Save_slot [OF ok r(5)] r idle by simp
  qed
qed

theorem Get_result_witness:
  "\<exists>sp'. Get 2 (Ok (7::nat)) (\<lambda>_. Ok ()) 5 ''h'' [] = (sp', Ok (7, 0))
    \<and> (\<exists>u. slot sp' ''h'' 0 = Some u \<and> Sess u = 7 \<and> \<not> Idle u \<and> Atime u = 5)"
proof -
  obtain sp' where g: "Get 2 (Ok (7::nat)) (\<lambda>_. Ok ()) 5 ''h'' [] = (sp', Ok (7, 0))"
    by (simp add: Get_def pool_eval PoolLen_def)
  from Get_result [OF _ g] have "\<exists>u. slot sp' ''h'' 0 = Some u \<and> Sess u = 7 \<and> \<not> Idle u \<and> Atime u = 5"
    by (simp add: pool_ok_def PoolLen_def)
  with g show ?thesis by blast
qed

lemma GetCacheSess_PoolLen: "GetCacheSess sp ip now = (sp', r) \<Longrightarrow> PoolLen sp \<le> PoolLen sp'"
  by (auto simp: GetCacheSess_def PoolLen_def Let_def length_update_ge split: option.splits)

lemma Save_PoolLen: "Save sp ip s now = (sp', c) \<Longrightarrow> PoolLen sp \<le> PoolLen sp'"
  by (auto simp: Save_def PoolLen_def Let_def length_update_ge split: option.splits)

lemma Free_PoolLen: "Free sp ip c now = Ok sp' \<Longrightarrow> PoolLen sp \<le> PoolLen sp'"
  by (auto simp: Free_def PoolLen_def length_update_ge outcome_simps split: option.splits if_splits)

lemma Kick_PoolLen: "Kick sp ip c = Ok (sp', l) \<Longrightarrow> PoolLen sp \<le> PoolLen sp'"
  by (auto simp: Kick_def PoolLen_def length_update_ge outcome_simps split: option.splits if_splits)

lemma exec_PoolLen: "exec s e = Some s' \<Longrightarrow> PoolLen (pool s) \<le> PoolLen (pool s')"
  by (cases e)
     (auto split: option.splits prod.splits if_splits outcome.splits
        dest: GetCacheSess_PoolLen Save_PoolLen Free_PoolLen Kick_PoolLen simp: cleaner_def PoolLen_def)

lemma run_PoolLen: "run s es = Some s' \<Longrightarrow> PoolLen (pool s) \<le> PoolLen (pool s')"
  by (induction es arbitrary: s) (auto split: option.splits dest: exec_PoolLen intro: le_trans)

text \<open>The pool never forgets an address: whatever requests and the cleaner do, it does not shrink, so
  once it lists \<open>Maxsesspool\<close> addresses every later \<open>Get\<close> is refused, even for an address whose idle
  session is cached and even when every session has been closed and removed.\<close>

theorem pool_full_forever:
  assumes "run s es = Some s'" and "maxsess \<le> int (PoolLen (pool s))"
  shows "Get maxsess newsnmp open_sess now ip (pool s') = (pool s', Err errReachMaxconn)"
  using run_PoolLen [OF assms(1)] assms(2) by (simp add: Get_def)

theorem pool_full_forever_witness:
  "\<exists>s. run start [SaveNew 1 ''h'' (7::nat) 0, FreeL 1 1, Clean 30 50 (\<lambda>_. True)] = Some s
     \<and> slot (pool s) ''h'' 0 = None
     \<and> Get 1 (Ok 8) (\<lambda>_. Ok ()) 60 ''h'' (pool s) = (pool s, Err errReachMaxconn)"
proof -
  obtain s where s: "run start [SaveNew 1 ''h'' (7::nat) 0, FreeL 1 1, Clean 30 50 (\<lambda>_. True)] = Some s"
      "slot (pool s) ''h'' 0 = None"
    by (simp add: pool_eval slot_def)
  obtain s1 where s1: "run start [SaveNew 1 ''h'' (7::nat) 0] = Some s1" "PoolLen (pool s1) = 1"
      "run s1 [FreeL 1 1, Clean 30 50 (\<lambda>_. True)] = Some s"
    using s(1) by (simp add: pool_eval PoolLen_def)
  show ?thesis using s pool_full_forever [OF s1(3), of 1 "Ok 8" "\<lambda>_. Ok ()" 60 "''h''"] s1(2) by simp
qed



end
