(* ===== verification/SnmpConst.thy ===== *)
theory SnmpConst
  imports GoLib
begin

text \<open>
  \<open>snmpgo/constants.go\<close> and \<open>snmpgo/errors.go\<close>. The Go enumerations are integer types that take
  any value, received ones included, so they are HOL integers with named constants; every \<open>String\<close>
  method has a default branch.
\<close>

section \<open>Versions, PDU types, error states, security levels\<close>

definition V1 :: int where "V1 = 0"
definition V2c :: int where "V2c = 1"
definition V3 :: int where "V3 = 3"

lemmas version_defs = V1_def V2c_def V3_def

definition SNMPVersion_String :: "int \<Rightarrow> string" where
  "SNMPVersion_String x =
     (if x = V1 then ''1''
      else if x = V2c then ''2c''
      else if x = V3 then ''3''
      else ''Unknown'')"

definition GetRequest :: int where "GetRequest = 0"
definition GetNextRequest :: int where "GetNextRequest = 1"
definition GetResponse :: int where "GetResponse = 2"
definition SetRequest :: int where "SetRequest = 3"
definition Trap :: int where "Trap = 4"
definition GetBulkRequest :: int where "GetBulkRequest = 5"
definition InformRequest :: int where "InformRequest = 6"
definition SNMPTrapV2 :: int where "SNMPTrapV2 = 7"
definition Report :: int where "Report = 8"

lemmas pdu_type_defs = GetRequest_def GetNextRequest_def GetResponse_def SetRequest_def Trap_def GetBulkRequest_def InformRequest_def SNMPTrapV2_def Report_def

definition PduType_String :: "int \<Rightarrow> string" where
  "PduType_String x =
     (if x = GetRequest then ''GetRequest''
      else if x = GetNextRequest then ''GetNextRequest''
      else if x = GetResponse then ''GetResponse''
      else if x = SetRequest then ''SetRequest''
      else if x = Trap then ''Trap''
      else if x = GetBulkRequest then ''GetBulkRequest''
      else if x = InformRequest then ''InformRequest''
      else if x = SNMPTrapV2 then ''SNMPTrapV2''
      else if x = Report then ''Report''
      else ''Unknown'')"

definition NoError :: int where "NoError = 0"
definition TooBig :: int where "TooBig = 1"
definition NoSuchName :: int where "NoSuchName = 2"
definition BadValue :: int where "BadValue = 3"
definition ReadOnly :: int where "ReadOnly = 4"
definition GenError :: int where "GenError = 5"
definition NoAccess :: int where "NoAccess = 6"
definition WrongType :: int where "WrongType = 7"
definition WrongLength :: int where "WrongLength = 8"
definition WrongEncoding :: int where "WrongEncoding = 9"
definition WrongValue :: int where "WrongValue = 10"
definition NoCreation :: int where "NoCreation = 11"
definition InconsistentValue :: int where "InconsistentValue = 12"
definition ResourceUnavailable :: int where "ResourceUnavailable = 13"
definition CommitFailed :: int where "CommitFailed = 14"
definition UndoFailed :: int where "UndoFailed = 15"
definition AuthorizationError :: int where "AuthorizationError = 16"
definition NotWritable :: int where "NotWritable = 17"
definition InconsistentName :: int where "InconsistentName = 18"

lemmas error_status_defs = NoError_def TooBig_def NoSuchName_def BadValue_def ReadOnly_def GenError_def NoAccess_def WrongType_def WrongLength_def WrongEncoding_def WrongValue_def NoCreation_def InconsistentValue_def ResourceUnavailable_def CommitFailed_def UndoFailed_def AuthorizationError_def NotWritable_def InconsistentName_def

definition ErrorStatus_String :: "int \<Rightarrow> string" where
  "ErrorStatus_String x =
     (if x = NoError then ''NoError''
      else if x = TooBig then ''TooBig''
      else if x = NoSuchName then ''NoSuchName''
      else if x = BadValue then ''BadValue''
      else if x = ReadOnly then ''ReadOnly''
      else if x = GenError then ''GenError''
      else if x = NoAccess then ''NoAccess''
      else if x = WrongType then ''WrongType''
      else if x = WrongLength then ''WrongLength''
      else if x = WrongEncoding then ''WrongEncoding''
      else if x = WrongValue then ''WrongValue''
      else if x = NoCreation then ''NoCreation''
      else if x = InconsistentValue then ''InconsistentValue''
      else if x = ResourceUnavailable then ''ResourceUnavailable''
      else if x = CommitFailed then ''CommitFailed''
      else if x = UndoFailed then ''UndoFailed''
      else if x = AuthorizationError then ''AuthorizationError''
      else if x = NotWritable then ''NotWritable''
      else if x = InconsistentName then ''InconsistentName''
      else ''Unknown'')"

definition NoAuthNoPriv :: int where "NoAuthNoPriv = 0"
definition AuthNoPriv :: int where "AuthNoPriv = 1"
definition AuthPriv :: int where "AuthPriv = 2"

lemmas security_level_defs = NoAuthNoPriv_def AuthNoPriv_def AuthPriv_def

definition SecurityLevel_String :: "int \<Rightarrow> string" where
  "SecurityLevel_String x =
     (if x = NoAuthNoPriv then ''NoAuthNoPriv''
      else if x = AuthNoPriv then ''AuthNoPriv''
      else if x = AuthPriv then ''AuthPriv''
      else ''Unknown'')"

definition securitySNMPv1 :: int where "securitySNMPv1 = 1"
definition securitySNMPv2c :: int where "securitySNMPv2c = 2"
definition securityUsm :: int where "securityUsm = 3"

lemmas security_model_defs = securitySNMPv1_def securitySNMPv2c_def securityUsm_def

definition securityModel_String :: "int \<Rightarrow> string" where
  "securityModel_String x =
     (if x = securitySNMPv1 then ''SNMPv1''
      else if x = securitySNMPv2c then ''SNMPv2c''
      else if x = securityUsm then ''USM''
      else ''Unknown'')"

text \<open>The protocol names are strings in Go too; an argument may hold any other one.\<close>

definition Md5 :: string where "Md5 = ''MD5''"
definition Sha :: string where "Sha = ''SHA''"
definition Des :: string where "Des = ''DES''"
definition Aes :: string where "Aes = ''AES''"

section \<open>Limits and tags\<close>

definition timeoutDefault :: int where "timeoutDefault = 5 * Second"
definition recvBufferSize :: int where "recvBufferSize = 2 ^ 11"
definition msgSizeDefault :: int where "msgSizeDefault = 1400"
definition msgSizeMinimum :: int where "msgSizeMinimum = 484"
definition mega :: nat where "mega = 2 ^ 20"
definition MaxInt32 :: int where "MaxInt32 = 2 ^ 31 - 1"
definition MaxUint32 :: int where "MaxUint32 = 2 ^ 32 - 1"

definition tagNull :: byte where "tagNull = 0x05"
definition tagIpaddress :: byte where "tagIpaddress = 0x40"
definition tagCounter32 :: byte where "tagCounter32 = 0x41"
definition tagGauge32 :: byte where "tagGauge32 = 0x42"
definition tagTimeTicks :: byte where "tagTimeTicks = 0x43"
definition tagOpaque :: byte where "tagOpaque = 0x44"
definition tagCounter64 :: byte where "tagCounter64 = 0x46"
definition tagNoSucheObject :: byte where "tagNoSucheObject = 0x80"
definition tagNoSucheInstance :: byte where "tagNoSucheInstance = 0x81"
definition tagEndOfMibView :: byte where "tagEndOfMibView = 0x82"
definition tagInteger' :: byte where "tagInteger' = 0x02"
definition tagOctetString' :: byte where "tagOctetString' = 0x04"

lemmas tag_defs = tagNull_def tagIpaddress_def tagCounter32_def tagGauge32_def tagTimeTicks_def tagOpaque_def
  tagCounter64_def tagNoSucheObject_def tagNoSucheInstance_def tagEndOfMibView_def tagInteger'_def tagOctetString'_def

definition tagMask :: byte where "tagMask = 0x1f"

section \<open>Report states\<close>

definition snmpUnknownSecurityModels :: string where "snmpUnknownSecurityModels = ''1.3.6.1.6.3.11.2.1.1.0''"
definition snmpInvalidMsgs :: string where "snmpInvalidMsgs = ''1.3.6.1.6.3.11.2.1.2.0''"
definition snmpUnknownPDUHandlers :: string where "snmpUnknownPDUHandlers = ''1.3.6.1.6.3.11.2.1.3.0''"
definition snmpUnavailableContexts :: string where "snmpUnavailableContexts = ''1.3.6.1.6.3.12.1.4.0''"
definition snmpUnknownContexts :: string where "snmpUnknownContexts = ''1.3.6.1.6.3.12.1.5.0''"
definition usmStatsUnsupportedSecLevels :: string where "usmStatsUnsupportedSecLevels = ''1.3.6.1.6.3.15.1.1.1.0''"
definition usmStatsNotInTimeWindows :: string where "usmStatsNotInTimeWindows = ''1.3.6.1.6.3.15.1.1.2.0''"
definition usmStatsUnknownUserNames :: string where "usmStatsUnknownUserNames = ''1.3.6.1.6.3.15.1.1.3.0''"
definition usmStatsUnknownEngineIDs :: string where "usmStatsUnknownEngineIDs = ''1.3.6.1.6.3.15.1.1.4.0''"
definition usmStatsWrongDigests :: string where "usmStatsWrongDigests = ''1.3.6.1.6.3.15.1.1.5.0''"
definition usmStatsDecryptionErrors :: string where "usmStatsDecryptionErrors = ''1.3.6.1.6.3.15.1.1.6.0''"

definition reportStatusOid_String :: "string \<Rightarrow> string" where
  "reportStatusOid_String r =
     (if r = snmpUnknownSecurityModels then ''SnmpUnknownSecurityModels''
      else if r = snmpInvalidMsgs then ''SnmpInvalidMsgs''
      else if r = snmpUnknownPDUHandlers then ''SnmpUnknownPDUHandlers''
      else if r = snmpUnavailableContexts then ''SnmpUnavailableContexts''
      else if r = snmpUnknownContexts then ''SnmpUnknownContexts''
      else if r = usmStatsUnsupportedSecLevels then ''UsmStatsUnsupportedSecLevels''
      else if r = usmStatsNotInTimeWindows then ''UsmStatsNotInTimeWindows''
      else if r = usmStatsUnknownUserNames then ''UsmStatsUnknownUserNames''
      else if r = usmStatsUnknownEngineIDs then ''UsmStatsUnknownEngineIDs''
      else if r = usmStatsWrongDigests then ''UsmStatsWrongDigests''
      else if r = usmStatsDecryptionErrors then ''UsmStatsDecryptionErrors''
      else ''Unknown'')"

section \<open>errors.go\<close>

definition UnsupportedOperation :: go_error where
  "UnsupportedOperation = PlainError ''Unsupported operation''"

text \<open>
  \<open>Error()\<close> of the error values. The text of an \<open>encoding/asn1\<close> error carries the package's
  prefix. A \<open>notInTimeWindowError\<close> embeds the error it wraps.
\<close>

fun Error :: "go_error \<Rightarrow> string" where
  "Error (SyntaxError msg) = ''asn1: syntax error: '' @ msg"
| "Error (StructuralError msg) = ''asn1: structure error: '' @ msg"
| "Error (PlainError msg) = msg"
| "Error (ArgumentError value msg) = msg @ '', value `'' @ value @ ''`''"
| "Error (MessageError None msg) = msg"
| "Error (MessageError (Some cause) msg) = msg @ '', cause `'' @ Error cause @ ''`''"
| "Error (NotInTimeWindow e) = Error e"
| "Error (NetError timeout msg) = msg"

end
