(* ===== verification/SnmpUtil.thy ===== *)
theory SnmpUtil
  imports SnmpConst
begin

text \<open>
  \<open>snmpgo/util.go\<close>: identifiers, retries, engine ids and byte helpers. A random draw is an argument.
\<close>

section \<open>Identifiers\<close>

text \<open>
  \<open>genRequestId\<close>, \<open>genSalt32\<close> and \<open>genSalt64\<close> are one draw of \<open>Int31\<close> or \<open>Int63\<close>. \<open>genMessageId\<close>
  counts up from a package variable and restarts at a random draw: the result is the new value of the
  variable.
\<close>

definition mesId_init :: int where
  "mesId_init = MaxInt32 - 1"

definition genRequestId :: "int \<Rightarrow> int" where
  "genRequestId int31 = int31"

definition genMessageId :: "int \<Rightarrow> int \<Rightarrow> int" where
  "genMessageId int31 mesId = (let mesId' = mesId + 1 in if mesId' = MaxInt32 then int31 else mesId')"

lemma genMessageId_range:
  "0 \<le> int31 \<Longrightarrow> int31 < 2 ^ 31 - 1 \<Longrightarrow> 0 \<le> mesId \<Longrightarrow> mesId < MaxInt32 \<Longrightarrow>
     0 \<le> genMessageId int31 mesId \<and> genMessageId int31 mesId < MaxInt32"
  by (auto simp: genMessageId_def MaxInt32_def Let_def)

lemma genMessageId_fresh: "int31 \<noteq> mesId \<Longrightarrow> genMessageId int31 mesId \<noteq> mesId"
  by (auto simp: genMessageId_def Let_def)

section \<open>retry\<close>

text \<open>
  \<open>retry(retries, f)\<close>: attempt \<open>i\<close> of \<open>f\<close> has the outcome \<open>f i\<close>. A timeout, or a report that
  the message was outside the time window, is tried again while attempts remain; anything else ends the
  loop. With a negative count the loop body never runs and the result is no error at all. The second
  component counts the calls of \<open>f\<close>.
\<close>

fun retryable :: "go_error \<Rightarrow> bool" where
  "retryable (NetError timeout msg) = timeout"
| "retryable (NotInTimeWindow e) = True"
| "retryable _ = False"

fun unwrap :: "go_error \<Rightarrow> go_error" where
  "unwrap (NotInTimeWindow e) = e"
| "unwrap e = e"

fun attempts :: "nat \<Rightarrow> nat \<Rightarrow> (nat \<Rightarrow> 'a outcome) \<Rightarrow> 'a outcome \<Rightarrow> 'a outcome \<times> nat" where
  "attempts i 0 f res = (res, i)"
| "attempts i (Suc n) f res =
     (case f i of
        Ok x \<Rightarrow> (Ok x, Suc i)
      | Panic p \<Rightarrow> (Panic p, Suc i)
      | Err e \<Rightarrow>
          if retryable e then attempts (Suc i) n f (Err (unwrap e)) else (Err e, Suc i))"

definition retry :: "int \<Rightarrow> (nat \<Rightarrow> unit outcome) \<Rightarrow> unit outcome \<times> nat" where
  "retry retries f = attempts 0 (nat (retries + 1)) f (Ok ())"

lemma attempts_count: "i \<le> snd (attempts i n f res) \<and> snd (attempts i n f res) \<le> i + n"
proof (induction n arbitrary: i res)
  case (Suc n)
  have "Suc i \<le> snd (attempts (Suc i) n f l) \<and> snd (attempts (Suc i) n f l) \<le> Suc i + n" for l
    by (rule Suc)
  then show ?case by (simp split: outcome.split) (meson Suc_leD)
qed simp

lemma attempts_success:
  "k < n \<Longrightarrow> f (i + k) = Ok x \<Longrightarrow> \<forall>j < k. \<exists>e. f (i + j) = Err e \<and> retryable e \<Longrightarrow>
     attempts i n f res = (Ok x, i + k + 1)"
proof (induction n arbitrary: i k res)
  case (Suc n)
  show ?case
  proof (cases k)
    case 0
    with Suc.prems show ?thesis by simp
  next
    case (Suc m)
    with Suc.prems obtain e where e: "f i = Err e" "retryable e" by fastforce
    have "f (Suc i + m) = Ok x" "m < n" using Suc.prems Suc by simp_all
    moreover have "\<forall>j < m. \<exists>e. f (Suc i + j) = Err e \<and> retryable e"
      using Suc.prems(3) Suc by (auto dest: spec [of _ "Suc j" for j])
    ultimately show ?thesis using Suc.IH [of m "Suc i" "Err (unwrap e)"] e Suc by simp
  qed
qed simp

lemma attempts_gives_up:
  "\<forall>j < n. \<exists>e. f (i + j) = Err e \<and> retryable e \<Longrightarrow> 0 < n \<Longrightarrow>
     snd (attempts i n f res) = i + n \<and> (\<exists>e. f (i + (n - 1)) = Err e \<and> fst (attempts i n f res) = Err (unwrap e))"
proof (induction n arbitrary: i res)
  case (Suc n)
  then obtain e where e: "f i = Err e" "retryable e" by fastforce
  show ?case
  proof (cases "n = 0")
    case True
    with e show ?thesis by simp
  next
    case False
    have "\<forall>j < n. \<exists>e. f (Suc i + j) = Err e \<and> retryable e"
      using Suc.prems(1) by (auto dest: spec [of _ "Suc j" for j])
    from Suc.IH [OF this] False e show ?thesis by (cases n) simp_all
  qed
qed simp

section \<open>confirmedType\<close>

definition confirmedType :: "int \<Rightarrow> bool" where
  "confirmedType t \<longleftrightarrow>
     t = GetRequest \<or> t = GetNextRequest \<or> t = SetRequest \<or> t = GetBulkRequest \<or> t = InformRequest"

section \<open>Engine ids\<close>

text \<open>On the error path \<open>engineIdToBytes\<close> returns \<open>nil\<close>.\<close>

definition engineIdToBytes :: "string \<Rightarrow> bytes outcome" where
  "engineIdToBytes engineId =
     (case hex_decode engineId of
        Some b \<Rightarrow>
          if length b < 5 \<or> 32 < length b then
            Err (ArgumentError engineId ''EngineId must be a hexadecimal string and length is range 5..32'')
          else Ok b
      | None \<Rightarrow>
          Err (ArgumentError engineId ''EngineId must be a hexadecimal string and length is range 5..32''))"

lemma engineIdToBytes_length: "engineIdToBytes s = Ok b \<Longrightarrow> 5 \<le> length b \<and> length b \<le> 32"
  by (auto simp: engineIdToBytes_def split: option.splits if_splits)

lemma engineIdToBytes_no_panic [simp]: "\<not> panics (engineIdToBytes s)"
  by (simp add: engineIdToBytes_def split: option.split)

definition stripHexPrefix :: "string \<Rightarrow> string" where
  "stripHexPrefix s = (if take 2 s = ''0x'' \<or> take 2 s = ''0X'' then drop 2 s else s)"

section \<open>Bytes\<close>

definition toHexStr :: "bytes \<Rightarrow> string \<Rightarrow> string" where
  "toHexStr a sep = join sep (map hex2 a)"

text \<open>\<open>xor\<close> indexes \<open>b\<close> by the positions of \<open>a\<close>.\<close>

definition xor_bytes :: "bytes \<Rightarrow> bytes \<Rightarrow> bytes outcome" where
  "xor_bytes a b = (if length a \<le> length b then Ok (map2 (\<lambda>x y. x XOR y) a b) else Panic IndexOutOfRange)"

lemma xor_bytes_ok [simp]: "length a \<le> length b \<Longrightarrow> xor_bytes a b = Ok (map2 (\<lambda>x y. x XOR y) a b)"
  by (simp add: xor_bytes_def)

text \<open>\<open>padding\<close> always appends: a multiple of the size gets a whole further block.\<close>

definition padding :: "bytes \<Rightarrow> nat \<Rightarrow> bytes" where
  "padding b n = (let pad = n - length b mod n in if pad > 0 then b @ replicate pad 0 else b)"

lemma length_padding: "0 < n \<Longrightarrow> length (padding b n) = (length b div n + 1) * n"
proof -
  assume n: "0 < n"
  have r: "length b mod n < n" using n by simp
  have "length (padding b n) = length b + (n - length b mod n)" using r by (simp add: padding_def Let_def)
  also have "\<dots> = length b div n * n + n" using div_mult_mod_eq [of "length b" n] r by linarith
  finally show ?thesis by simp
qed

lemma padding_prefix: "take (length b) (padding b n) = b"
  by (simp add: padding_def Let_def)

lemma padding_append: "\<exists>zs. padding b n = b @ zs \<and> length zs \<le> n"
  by (auto simp: padding_def Let_def)

end
