(* ===== verification/Oid.thy ===== *)
theory Oid
  imports SnmpUtil "HOL-Library.Multiset" "HOL-Library.List_Lexorder" "HOL-Library.Sublist"
begin

text \<open>
  The object identifiers of \<open>snmpgo/variables.go\<close> and lists of them. \<open>*Oid\<close> is an \<open>oid option\<close> where
  the code lets it be nil.
\<close>

section \<open>Object identifiers\<close>

type_synonym oid = "int list"

text \<open>\<open>asn1.ObjectIdentifier.String\<close>\<close>

definition Oid_String :: "oid \<Rightarrow> string" where
  "Oid_String v = join ''.'' (map itoa v)"

definition Contains :: "oid \<Rightarrow> oid option \<Rightarrow> bool" where
  "Contains v x =
     (case x of
        None \<Rightarrow> False
      | Some p \<Rightarrow> \<not> length v < length p \<and> take (length p) v = p)"

fun compare_ids :: "int list \<Rightarrow> int list \<Rightarrow> int" where
  "compare_ids [] [] = 0"
| "compare_ids [] (y # ys) = - 1"
| "compare_ids (x # xs) [] = 1"
| "compare_ids (x # xs) (y # ys) = (if x > y then 1 else if x < y then - 1 else compare_ids xs ys)"

definition Compare :: "oid \<Rightarrow> oid option \<Rightarrow> int" where
  "Compare v x = (case x of None \<Rightarrow> - 1 | Some p \<Rightarrow> compare_ids v p)"

definition Equal :: "oid \<Rightarrow> oid option \<Rightarrow> bool" where
  "Equal v x = (case x of None \<Rightarrow> False | Some p \<Rightarrow> v = p)"

text \<open>\<open>NewOid\<close>: the conversion stops at the first sub-identifier that is no number in the range.\<close>

fun parse_subids :: "string list \<Rightarrow> int list option" where
  "parse_subids [] = Some []"
| "parse_subids (v # vs) =
     (case atoi v of
        None \<Rightarrow> None
      | Some i \<Rightarrow>
          if i < 0 \<or> i > MaxUint32 then None
          else (case parse_subids vs of None \<Rightarrow> None | Some is \<Rightarrow> Some (i # is)))"

definition NewOid :: "string \<Rightarrow> oid outcome" where
  "NewOid s =
     (let subids = split_on CHR ''.'' s;
          subids = (if hd subids = [] then tl subids else subids)
      in if length subids > 128 then
           Err (ArgumentError s ''The sub-identifiers in an OID is up to 128'')
         else (case parse_subids subids of
                 None \<Rightarrow> Err (ArgumentError s ''The sub-identifiers is range 0..4294967295'')
               | Some oid \<Rightarrow>
                   if length oid > 0 \<and> hd oid > 2 then
                     Err (ArgumentError s ''The first sub-identifier is range 0..2'')
                   else if length oid < 2 then
                     Err (ArgumentError s ''The first and second sub-identifier is required'')
                   else if hd oid < 2 \<and> oid ! 1 \<ge> 40 then
                     Err (ArgumentError s ''The second sub-identifier is range 0..39'')
                   else Ok oid))"

definition MustNewOid :: "string \<Rightarrow> oid outcome" where
  "MustNewOid s =
     (case NewOid s of
        Err e \<Rightarrow> Panic (ExplicitPanic (''snmpgo.MustNewOid: '' @ Error e))
      | Ok oid \<Rightarrow> Ok oid
      | Panic p \<Rightarrow> Panic p)"

definition AppendSubIds :: "oid \<Rightarrow> int list \<Rightarrow> oid outcome" where
  "AppendSubIds v subs = NewOid (Oid_String v @ concat (map (\<lambda>i. ''.'' @ itoa i) subs))"

fun NewOids :: "string list \<Rightarrow> oid list outcome" where
  "NewOids [] = Ok []"
| "NewOids (l # s) = and_then (NewOid l) (\<lambda>oid. and_then (NewOids s) (\<lambda>oids. Ok (oid # oids)))"

section \<open>Lists of object identifiers\<close>

text \<open>
  \<open>sort.Sort\<close> on at most six elements is an insertion sort in every release of Go: element \<open>i\<close> moves left
  while it is less than its left neighbour. Above that size the library's order of equal elements differs. The
  properties rely on the contract \<open>oid_sorter\<close> only, which any sort meets; the one that does not
  (\<open>GetBulkWalk_loses_last\<close>) is bounded to six elements.
\<close>

fun move_left :: "('a \<Rightarrow> 'a \<Rightarrow> bool) \<Rightarrow> 'a \<Rightarrow> 'a list \<Rightarrow> 'a list" where
  "move_left lt x [] = [x]"
| "move_left lt x (y # ys) = (if lt x y then y # move_left lt x ys else x # y # ys)"

definition go_sort :: "('a \<Rightarrow> 'a \<Rightarrow> bool) \<Rightarrow> 'a list \<Rightarrow> 'a list" where
  "go_sort lt xs = rev (foldl (\<lambda>acc x. move_left lt x acc) [] xs)"

definition Oids_Less :: "oid option \<Rightarrow> oid option \<Rightarrow> bool" where
  "Oids_Less x y = (case x of None \<Rightarrow> False | Some v \<Rightarrow> Compare v y < 1)"

definition Oids_Sort :: "oid option list \<Rightarrow> oid option list" where
  "Oids_Sort xs = go_sort Oids_Less xs"

text \<open>\<open>uniq\<close>: \<open>before\<close> is the last element kept, nil at the start.\<close>

fun uniq_from :: "('a option \<Rightarrow> 'a option \<Rightarrow> bool) \<Rightarrow> 'a option \<Rightarrow> 'a option list \<Rightarrow> 'a option list" where
  "uniq_from same before [] = []"
| "uniq_from same before (x # xs) =
     (if \<not> same before x then x # uniq_from same x xs else uniq_from same before xs)"

definition uniq :: "('a option \<Rightarrow> 'a option \<Rightarrow> bool) \<Rightarrow> 'a option list \<Rightarrow> 'a option list" where
  "uniq same xs = uniq_from same None xs"

definition same_oid :: "oid option \<Rightarrow> oid option \<Rightarrow> bool" where
  "same_oid a b = (case b of None \<Rightarrow> a = None | Some v \<Rightarrow> Equal v a)"

definition under_oid :: "oid option \<Rightarrow> oid option \<Rightarrow> bool" where
  "under_oid a b = (case b of None \<Rightarrow> a = None | Some v \<Rightarrow> Contains v a)"

definition Oids_Uniq :: "oid option list \<Rightarrow> oid option list" where
  "Oids_Uniq xs = uniq same_oid xs"

definition Oids_UniqBase :: "oid option list \<Rightarrow> oid option list" where
  "Oids_UniqBase xs = uniq under_oid xs"

section \<open>Compare is the lexicographic order\<close>

lemma compare_ids_eq: "compare_ids xs ys = (if xs < ys then - 1 else if xs = ys then 0 else 1)"
  by (induction xs ys rule: compare_ids.induct) auto

lemma Compare_le_iff: "Compare v (Some w) < 1 \<longleftrightarrow> v \<le> w"
  by (auto simp: Compare_def compare_ids_eq)

lemma Contains_prefix: "Contains v (Some p) \<longleftrightarrow> prefix p v"
  by (auto simp: Contains_def not_less prefix_def min_def) (metis append_take_drop_id)

text \<open>The identifiers below a common prefix are an interval of the order.\<close>

lemma prefix_le: "prefix (p :: int list) x \<Longrightarrow> p \<le> x"
proof (induction p arbitrary: x)
  case (Cons a p)
  then show ?case by (cases x) auto
qed simp

lemma prefix_convex:
  fixes p :: "int list"
  shows "p \<le> x \<Longrightarrow> x \<le> y \<Longrightarrow> prefix p y \<Longrightarrow> prefix p x"
proof (induction p arbitrary: x y)
  case (Cons a p)
  from Cons.prems obtain y' where y: "y = a # y'" "prefix p y'" by (cases y) auto
  from Cons.prems obtain b x' where x: "x = b # x'" by (cases x) auto
  with y Cons.prems have "a = b" "p \<le> x'" "x' \<le> y'" by auto
  with Cons.IH y x show ?case by auto
qed simp

section \<open>Sorting\<close>

lemma mset_move_left [simp]: "mset (move_left lt x ys) = add_mset x (mset ys)"
  by (induction ys) auto

lemma mset_fold_move_left: "mset (foldl (\<lambda>acc x. move_left lt x acc) acc xs) = mset acc + mset xs"
  by (induction xs arbitrary: acc) auto

lemma mset_go_sort [simp]: "mset (go_sort lt xs) = mset xs"
  by (simp add: go_sort_def mset_fold_move_left)

lemma set_move_left [simp]: "set (move_left lt x ys) = insert x (set ys)"
  by (metis mset_move_left set_mset_add_mset_insert set_mset_mset)

lemma sorted_move_left:
  assumes "\<And>y. y \<in> set ys \<Longrightarrow> lt x y \<longleftrightarrow> le x y" and "\<And>y. y \<in> set ys \<Longrightarrow> le x y \<or> le y x"
    and "\<And>a b c. le a b \<Longrightarrow> le b c \<Longrightarrow> le a c"
    and "sorted_wrt (\<lambda>a b. le b a) ys"
  shows "sorted_wrt (\<lambda>a b. le b a) (move_left lt x ys)"
  using assms(1,2,4)
proof (induction ys)
  case (Cons y ys)
  then show ?case by auto (metis assms(3))
qed simp

lemma sorted_go_sort:
  assumes "\<And>x y. x \<in> set xs \<Longrightarrow> y \<in> set xs \<Longrightarrow> lt x y \<longleftrightarrow> le x y"
    and "\<And>x y. x \<in> set xs \<Longrightarrow> y \<in> set xs \<Longrightarrow> le x y \<or> le y x"
    and trans: "\<And>a b c. le a b \<Longrightarrow> le b c \<Longrightarrow> le a c"
  shows "sorted_wrt le (go_sort lt xs)"
proof -
  have "sorted_wrt (\<lambda>a b. le b a) (foldl (\<lambda>acc x. move_left lt x acc) acc zs)"
    if "set acc \<subseteq> set xs" "set zs \<subseteq> set xs" "sorted_wrt (\<lambda>a b. le b a) acc" for acc zs
    using that
  proof (induction zs arbitrary: acc)
    case (Cons z zs)
    have "sorted_wrt (\<lambda>a b. le b a) (move_left lt z acc)"
    proof (rule sorted_move_left)
      show "le a c" if "le a b" "le b c" for a b c using that by (rule trans)
      show "lt z y \<longleftrightarrow> le z y" "le z y \<or> le y z" if "y \<in> set acc" for y
        using that Cons.prems assms(1,2) [of z y] by auto
    qed (use Cons.prems in simp)
    with Cons show ?case by simp
  qed simp
  from this [of "[]" xs] show ?thesis by (simp add: go_sort_def sorted_wrt_rev)
qed

text \<open>
  What the clients use of a sort: a permutation, ordered by the identifier \<open>key\<close> reads off an element
  if every element has one.
\<close>

section \<open>Uniq and UniqBase\<close>

lemma adjacent_simps [simp]:
  "under_oid (Some p) (Some x) \<longleftrightarrow> prefix p x" "under_oid None (Some x) \<longleftrightarrow> False"
  "same_oid (Some y) (Some x) \<longleftrightarrow> x = y" "same_oid None (Some x) \<longleftrightarrow> False"
  by (simp_all add: under_oid_def same_oid_def Equal_def Contains_prefix) (simp add: Contains_def)

text \<open>On a sorted list without nil.\<close>

lemma uniq_from_same:
  fixes xs :: "oid list"
  shows "sorted (b # xs) \<Longrightarrow>
     Some b # uniq_from same_oid (Some b) (map Some xs) = map Some (remdups_adj (b # xs))"
proof (induction xs arbitrary: b)
  case (Cons x xs)
  then have "sorted (x # xs)" by simp
  from Cons.IH [OF this] Cons.prems Cons.IH [of b] show ?case
    by auto
qed simp

lemma uniq_under:
  fixes xs :: "oid list"
  assumes "sorted xs" and "\<forall>x \<in> set xs. b \<le> x"
  obtains ys where "uniq_from under_oid (Some b) (map Some xs) = map Some ys" "set ys \<subseteq> set xs"
    "\<forall>x \<in> set xs. prefix b x \<or> (\<exists>y \<in> set ys. prefix y x)"
    "\<forall>y \<in> set ys. \<not> prefix b y \<and> \<not> prefix y b" "sorted_wrt (\<lambda>x y. \<not> prefix x y \<and> \<not> prefix y x) ys"
  using assms
proof (induction xs arbitrary: b thesis)
  case (Cons x xs)
  show ?case
  proof (cases "prefix b x")
    case True
    obtain ys where "uniq_from under_oid (Some b) (map Some xs) = map Some ys" "set ys \<subseteq> set xs"
      "\<forall>x \<in> set xs. prefix b x \<or> (\<exists>y \<in> set ys. prefix y x)"
      "\<forall>y \<in> set ys. \<not> prefix b y \<and> \<not> prefix y b" "sorted_wrt (\<lambda>x y. \<not> prefix x y \<and> \<not> prefix y x) ys"
      using Cons.IH [of b] Cons.prems by auto
    with True show ?thesis by (intro Cons.prems(1) [of ys]) auto
  next
    case False
    obtain ys where ys: "uniq_from under_oid (Some x) (map Some xs) = map Some ys" "set ys \<subseteq> set xs"
      "\<forall>z \<in> set xs. prefix x z \<or> (\<exists>y \<in> set ys. prefix y z)"
      "\<forall>y \<in> set ys. \<not> prefix x y \<and> \<not> prefix y x" "sorted_wrt (\<lambda>x y. \<not> prefix x y \<and> \<not> prefix y x) ys"
      using Cons.IH [of x] Cons.prems by auto
    have nb: "\<not> prefix b y" if "y \<in> set (x # ys)" for y
    proof
      assume "prefix b y"
      moreover have "b \<le> x" "x \<le> y" using Cons.prems that ys(2) by auto
      ultimately show False using False prefix_convex by blast
    qed
    have nb': "\<not> prefix y b" if "y \<in> set (x # ys)" for y
    proof
      assume "prefix y b"
      then have "y \<le> b" by (rule prefix_le)
      moreover have "b \<le> y" using Cons.prems that ys(2) by auto
      ultimately have "y = b" by auto
      with nb [OF that] show False by simp
    qed
    have "uniq_from under_oid (Some b) (map Some (x # xs)) = map Some (x # ys)"
      using False ys(1) by simp
    then show ?thesis
      using ys nb nb' by (intro Cons.prems(1) [of "x # ys"]) auto
  qed
qed simp

lemma uniq_same: "sorted xs \<Longrightarrow> uniq same_oid (map Some xs) = map Some (remdups_adj (xs :: oid list))"
  by (cases xs) (use uniq_from_same in \<open>auto simp: uniq_def\<close>)

lemma uniq_base:
  fixes xs :: "oid list"
  assumes "sorted xs"
  obtains ys where "uniq under_oid (map Some xs) = map Some ys" "set ys \<subseteq> set xs"
    "\<forall>x \<in> set xs. \<exists>y \<in> set ys. prefix y x" "sorted_wrt (\<lambda>x y. \<not> prefix x y \<and> \<not> prefix y x) ys"
proof (cases xs)
  case Nil
  then show ?thesis by (intro that [of "[]"]) (simp_all add: uniq_def)
next
  case (Cons x zs)
  with assms have "sorted zs" "\<forall>y \<in> set zs. x \<le> y" by auto
  then obtain ys where ys: "uniq_from under_oid (Some x) (map Some zs) = map Some ys" "set ys \<subseteq> set zs"
    "\<forall>z \<in> set zs. prefix x z \<or> (\<exists>y \<in> set ys. prefix y z)"
    "\<forall>y \<in> set ys. \<not> prefix x y \<and> \<not> prefix y x" "sorted_wrt (\<lambda>x y. \<not> prefix x y \<and> \<not> prefix y x) ys"
    by (rule uniq_under)
  show ?thesis
    using ys Cons by (intro that [of "x # ys"]) (auto simp: uniq_def)
qed

lemma sorted_remdups_adj_distinct: "sorted xs \<Longrightarrow> distinct (remdups_adj xs)"
  by (induction xs rule: remdups_adj.induct) auto

locale oid_sorter =
  fixes srt :: "'a list \<Rightarrow> 'a list" and key :: "'a \<Rightarrow> oid option"
  assumes perm: "mset (srt xs) = mset xs"
    and ordered: "None \<notin> key ` set xs \<Longrightarrow> sorted_wrt (\<lambda>a b. the (key a) \<le> the (key b)) (srt xs)"
begin

lemma set_srt [simp]: "set (srt xs) = set xs"
  using perm [of xs] by (metis set_mset_mset)

lemma length_srt [simp]: "length (srt xs) = length xs"
  using perm [of xs] by (metis size_mset)

lemma sorted_keys: "None \<notin> key ` set xs \<Longrightarrow> sorted (map (\<lambda>a. the (key a)) (srt xs))"
  using ordered [of xs] by (simp add: sorted_map)

lemma count_keys: "mset (map key (srt xs)) = mset (map key xs)"
  using perm [of xs] by simp

text \<open>Equal identifiers stand together, so removing adjacent repetitions leaves each once.\<close>

lemma keys_distinct:
  assumes "None \<notin> key ` set xs"
  shows "remdups_adj (map (\<lambda>a. the (key a)) (srt xs)) = sorted_list_of_set ((\<lambda>a. the (key a)) ` set xs)"
proof (rule sorted_distinct_set_unique)
  show "sorted (remdups_adj (map (\<lambda>a. the (key a)) (srt xs)))"
    by (rule sorted_remdups_adj [OF sorted_keys [OF assms]])
  show "distinct (remdups_adj (map (\<lambda>a. the (key a)) (srt xs)))"
    by (rule sorted_remdups_adj_distinct [OF sorted_keys [OF assms]])
qed simp_all

lemma uniq_keys:
  assumes "None \<notin> key ` set xs"
  shows "uniq same_oid (map key (srt xs)) = map Some (sorted_list_of_set ((\<lambda>a. the (key a)) ` set xs))"
proof -
  let ?ks = "map (\<lambda>a. the (key a)) (srt xs)"
  have ks: "map key (srt xs) = map Some ?ks" using assms by (force simp: image_iff)
  show ?thesis
    unfolding ks uniq_same [OF sorted_keys [OF assms]] keys_distinct [OF assms] ..
qed

text \<open>After sorting, \<open>UniqBase\<close> keeps identifiers none of which lies below another, and every given
  identifier lies below one that is kept.\<close>

lemma base_keys:
  assumes "None \<notin> key ` set xs"
  obtains ys where "uniq under_oid (map key (srt xs)) = map Some ys" "set ys \<subseteq> (\<lambda>a. the (key a)) ` set xs"
    "\<forall>x \<in> set xs. \<exists>y \<in> set ys. prefix y (the (key x))" "sorted_wrt (\<lambda>x y. \<not> prefix x y \<and> \<not> prefix y x) ys"
proof -
  let ?ks = "map (\<lambda>a. the (key a)) (srt xs)"
  have ks: "map key (srt xs) = map Some ?ks" using assms by (force simp: image_iff)
  obtain ys where "uniq under_oid (map Some ?ks) = map Some ys" "set ys \<subseteq> set ?ks"
    "\<forall>x \<in> set ?ks. \<exists>y \<in> set ys. prefix y x" "sorted_wrt (\<lambda>x y. \<not> prefix x y \<and> \<not> prefix y x) ys"
    using uniq_base [OF sorted_keys [OF assms]] by blast
  then show ?thesis by (intro that [of ys]) (auto simp: ks)
qed

end

lemma Oids_Less_Some: "Oids_Less (Some v) (Some w) \<longleftrightarrow> v \<le> w"
  by (simp add: Oids_Less_def Compare_le_iff)

interpretation oids: oid_sorter Oids_Sort "\<lambda>x. x"
proof unfold_locales
  show "mset (Oids_Sort xs) = mset xs" for xs by (simp add: Oids_Sort_def)
  show "sorted_wrt (\<lambda>a b. the a \<le> the b) (Oids_Sort xs)" if "None \<notin> (\<lambda>x. x) ` set xs" for xs
    unfolding Oids_Sort_def
  proof (rule sorted_go_sort)
    show "Oids_Less x y \<longleftrightarrow> the x \<le> the y" if "x \<in> set xs" "y \<in> set xs" for x y
    proof -
      have "x \<noteq> None" "y \<noteq> None" using that \<open>None \<notin> (\<lambda>x. x) ` set xs\<close> by (metis image_ident)+
      then show ?thesis by (auto simp: Oids_Less_Some)
    qed
  qed auto
qed

section \<open>Parsing and printing\<close>

definition oid_wf :: "oid \<Rightarrow> bool" where
  "oid_wf v \<longleftrightarrow> 2 \<le> length v \<and> length v \<le> 128 \<and> list_all (\<lambda>i. 0 \<le> i \<and> i \<le> MaxUint32) v
     \<and> hd v \<le> 2 \<and> (hd v < 2 \<longrightarrow> v ! 1 < 40)"

lemma atoi_itoa_subid: "0 \<le> i \<Longrightarrow> i \<le> MaxUint32 \<Longrightarrow> atoi (itoa i) = Some i"
  by (rule atoi_itoa) (simp add: MaxUint32_def in_int64_def)

lemma parse_subids_itoa: "list_all (\<lambda>i. 0 \<le> i \<and> i \<le> MaxUint32) v \<Longrightarrow> parse_subids (map itoa v) = Some v"
  by (induction v) (auto simp: atoi_itoa_subid)

lemma parse_subids_range: "parse_subids vs = Some is \<Longrightarrow> length is = length vs \<and> list_all (\<lambda>i. 0 \<le> i \<and> i \<le> MaxUint32) is"
  by (induction vs arbitrary: "is") (auto split: option.splits if_splits)

lemma dot_itoa: "CHR ''.'' \<notin> set (itoa i)"
  using show_nat_digits [of "CHR ''.''"] by (auto simp: itoa_def)

lemma split_Oid_String: "v \<noteq> [] \<Longrightarrow> split_on CHR ''.'' (Oid_String v) = map itoa v"
  unfolding Oid_String_def by (rule split_on_join) (auto simp: dot_itoa)

lemma NewOid_wf: "NewOid s = Ok v \<Longrightarrow> oid_wf v"
  by (auto simp: NewOid_def Let_def oid_wf_def split: if_splits option.splits dest!: parse_subids_range)

lemma NewOid_no_panic [simp]: "\<not> panics (NewOid s)"
  by (auto simp: NewOid_def Let_def split: option.splits)

lemma NewOid_Oid_String: "oid_wf v \<Longrightarrow> NewOid (Oid_String v) = Ok v"
proof -
  assume v: "oid_wf v"
  then obtain a b w where eq: "v = a # b # w" by (cases v; cases "tl v") (auto simp: oid_wf_def)
  then have "split_on CHR ''.'' (Oid_String v) = map itoa v" by (intro split_Oid_String) simp
  moreover have "parse_subids (map itoa v) = Some v" using v by (intro parse_subids_itoa) (simp add: oid_wf_def)
  ultimately show ?thesis using v eq by (auto simp: NewOid_def oid_wf_def)
qed

lemma NewOid_dot: "oid_wf v \<Longrightarrow> NewOid (CHR ''.'' # Oid_String v) = Ok v"
proof -
  assume v: "oid_wf v"
  then obtain a b w where eq: "v = a # b # w" by (cases v; cases "tl v") (auto simp: oid_wf_def)
  then have "split_on CHR ''.'' (CHR ''.'' # Oid_String v) = [] # map itoa v" by (simp add: split_Oid_String)
  moreover have "parse_subids (map itoa v) = Some v" using v by (intro parse_subids_itoa) (simp add: oid_wf_def)
  ultimately show ?thesis using v eq by (auto simp: NewOid_def oid_wf_def)
qed

lemma Oid_String_append:
  "Oid_String v @ concat (map (\<lambda>i. ''.'' @ itoa i) subs) =
     (if v = [] then (if subs = [] then [] else CHR ''.'' # Oid_String subs) else Oid_String (v @ subs))"
proof -
  have cons: "Oid_String (i # w) = itoa i @ concat (map (\<lambda>i. ''.'' @ itoa i) w)" for i w
    by (induction w arbitrary: i) (auto simp: Oid_String_def)
  show ?thesis by (cases v; cases subs) (simp_all add: cons Oid_String_def [of "[]"])
qed

text \<open>C36: An identifier prints to a text that \<open>NewOid\<close> reads back, with and without the leading dot,
  exactly when it obeys the limits the parser states: two to 128 sub-identifiers of 32 bits, the first at
  most 2 and the second below 40 under the roots 0 and 1. Appending sub-identifiers goes through the text
  and succeeds exactly when the longer identifier obeys them.\<close>

theorem NewOid_roundtrip:
  "(NewOid (Oid_String v) = Ok v \<longleftrightarrow> oid_wf v) \<and> (NewOid (CHR ''.'' # Oid_String v) = Ok v \<longleftrightarrow> oid_wf v) \<and>
   (AppendSubIds v subs = Ok (v @ subs) \<longleftrightarrow> oid_wf (v @ subs))"
proof -
  have "AppendSubIds v subs = Ok (v @ subs)" if "oid_wf (v @ subs)"
  proof (cases "v = []")
    case True
    with that have "subs \<noteq> []" by (auto simp: oid_wf_def)
    with True that NewOid_dot [of subs] show ?thesis
      by (simp add: AppendSubIds_def Oid_String_append del: append_Cons)
  next
    case False
    with that NewOid_Oid_String [of "v @ subs"] show ?thesis
      unfolding AppendSubIds_def Oid_String_append by simp
  qed
  then show ?thesis
    using NewOid_wf NewOid_Oid_String NewOid_dot by (auto simp: AppendSubIds_def)
qed

text \<open>\<open>Compare\<close> is the lexicographic order of the sub-identifiers, and \<open>Contains\<close> its
  prefix order; a nil identifier is above every other one.\<close>

theorem Compare_lexicographic:
  "Compare v (Some w) = (if v < w then - 1 else if v = w then 0 else 1) \<and>
   Contains v (Some w) = prefix w v \<and> Compare v None = - 1"
  by (auto simp: Compare_def compare_ids_eq Contains_prefix)

text \<open>Sorting and removing adjacent repetitions leaves every identifier of the list exactly
  once, in increasing order.\<close>

theorem Sort_Uniq:
  "Oids_Uniq (Oids_Sort (map Some vs)) = map Some (sorted_list_of_set (set vs))"
  using oids.uniq_keys [of "map Some vs"] by (simp add: Oids_Uniq_def image_image)

text \<open>Sorting and \<open>UniqBase\<close> leave the roots of the requested subtrees: no one lies below
  another, and every requested identifier lies below one of them.\<close>

theorem Sort_UniqBase:
  "\<exists>ys. Oids_UniqBase (Oids_Sort (map Some vs)) = map Some ys \<and> set ys \<subseteq> set vs \<and>
     (\<forall>v \<in> set vs. \<exists>y \<in> set ys. prefix y v) \<and> sorted_wrt (\<lambda>x y. \<not> prefix x y \<and> \<not> prefix y x) ys"
proof -
  have "None \<notin> (\<lambda>x. x) ` set (map Some vs)" by auto
  then show ?thesis by (rule oids.base_keys) (auto simp: Oids_UniqBase_def image_image)
qed

theorem Sort_UniqBase_witness:
  "\<exists>ys. Oids_UniqBase (Oids_Sort (map Some [[1, 3, 6], [1, 3], [2, 0, 1], [1, 3, 6, 1]])) = map Some ys \<and>
     set ys \<subseteq> set [[1, 3, 6], [1, 3], [2, 0, 1], [1, 3, 6, 1 :: int]] \<and>
     (\<exists>y \<in> set ys. prefix y [1, 3, 6, 1]) \<and> sorted_wrt (\<lambda>x y. \<not> prefix x y \<and> \<not> prefix y x) ys"
  using Sort_UniqBase [of "[[1, 3, 6], [1, 3], [2, 0, 1], [1, 3, 6, 1]]"] by auto

end
