(* ===== verification/OidPool.thy ===== *)
theory OidPool
  imports Oid
begin

text \<open>
  \<open>httpagent/util/oidpool.go\<close>: the cache of parsed object identifiers. \<open>PutParseOid\<close> holds the lock, the look-up
  in \<open>GetParseOid\<close> does not; each is one step here. Requests share the cache: what one puts, the others find.
\<close>

section \<open>The cache\<close>

type_synonym oid_cache = "string \<rightharpoonup> oid"

definition PutParseOid :: "oid_cache \<Rightarrow> string \<Rightarrow> oid \<Rightarrow> oid_cache" where
  "PutParseOid c oid oidparse = c(oid \<mapsto> oidparse)"

definition GetParseOid :: "oid_cache \<Rightarrow> string \<Rightarrow> oid_cache \<times> oid outcome" where
  "GetParseOid c oid =
     (case c oid of
        Some oidparse \<Rightarrow> (c, Ok oidparse)
      | None \<Rightarrow>
          (case NewOid oid of
             Ok o' \<Rightarrow> (PutParseOid c oid o', Ok o')
           | Err e \<Rightarrow> (c, Err e)
           | Panic p \<Rightarrow> (c, Panic p)))"

fun GetParseOids :: "oid_cache \<Rightarrow> string list \<Rightarrow> oid_cache \<times> oid list outcome" where
  "GetParseOids c [] = (c, Ok [])"
| "GetParseOids c (s # ss) =
     (case GetParseOid c s of
        (c', Ok o') \<Rightarrow>
          (case GetParseOids c' ss of
             (c'', r) \<Rightarrow> (c'', and_then r (\<lambda>os. Ok (o' # os))))
      | (c', Err e) \<Rightarrow> (c', Err e)
      | (c', Panic p) \<Rightarrow> (c', Panic p))"

section \<open>A memoised function\<close>

text \<open>
  What a caller relies on: a look-up gives what the function itself gives and keeps the cache faithful. Whatever
  requests share the cache, and in whatever order their look-ups interleave, each gets the function's values.
\<close>

fun lookups :: "('c \<Rightarrow> 'k \<Rightarrow> 'c \<times> 'v) \<Rightarrow> 'c \<Rightarrow> ('t \<times> 'k) list \<Rightarrow> 'c \<times> ('t \<times> 'v) list" where
  "lookups lookup c [] = (c, [])"
| "lookups lookup c ((t, k) # ks) =
     (case lookup c k of (c', v) \<Rightarrow> (case lookups lookup c' ks of (c'', vs) \<Rightarrow> (c'', (t, v) # vs)))"

locale memo =
  fixes faithful :: "'c \<Rightarrow> bool"
    and lookup :: "'c \<Rightarrow> 'k \<Rightarrow> 'c \<times> 'v outcome"
    and f :: "'k \<Rightarrow> 'v outcome"
  assumes lookup_value: "faithful c \<Longrightarrow> snd (lookup c k) = f k"
    and lookup_faithful: "faithful c \<Longrightarrow> faithful (fst (lookup c k))"
begin

lemma lookups_value: "faithful c \<Longrightarrow> faithful (fst (lookups lookup c ks)) \<and> snd (lookups lookup c ks) = map (\<lambda>(t, k). (t, f k)) ks"
proof (induction ks arbitrary: c)
  case (Cons x ks)
  obtain t k where x: "x = (t, k)" by (cases x)
  from Cons.IH [OF lookup_faithful [OF Cons.prems]] lookup_value [OF Cons.prems] show ?case
    by (simp add: x case_prod_unfold)
qed simp

text \<open>The look-ups of one request, out of any interleaving.\<close>

lemma interleaved:
  "faithful c \<Longrightarrow>
     map snd (filter (\<lambda>(t, _). t = t0) (snd (lookups lookup c ks))) = map f (map snd (filter (\<lambda>(t, _). t = t0) ks))"
proof -
  have "map snd (filter (\<lambda>(t, _). t = t0) (map (\<lambda>(t, k). (t, f k)) ks)) = map f (map snd (filter (\<lambda>(t, _). t = t0) ks))"
    by (induction ks) (simp_all add: case_prod_unfold)
  then show "faithful c \<Longrightarrow> ?thesis" by (simp add: lookups_value)
qed

end

definition cache_ok :: "oid_cache \<Rightarrow> bool" where
  "cache_ok c \<longleftrightarrow> (\<forall>s v. c s = Some v \<longrightarrow> NewOid s = Ok v)"

interpretation oidpool: memo cache_ok GetParseOid NewOid
  by unfold_locales (auto simp: GetParseOid_def cache_ok_def PutParseOid_def split: option.splits outcome.splits)

lemma cache_ok_empty [simp]: "cache_ok Map.empty"
  by (simp add: cache_ok_def)

lemma GetParseOids_eq: "cache_ok c \<Longrightarrow> cache_ok (fst (GetParseOids c ss)) \<and> snd (GetParseOids c ss) = NewOids ss"
proof (induction ss arbitrary: c)
  case (Cons s ss)
  obtain c' v where l: "GetParseOid c s = (c', v)" by (cases "GetParseOid c s")
  then have c': "cache_ok c'" "v = NewOid s"
    using oidpool.lookup_value [OF Cons.prems, of s] oidpool.lookup_faithful [OF Cons.prems, of s] by simp_all
  obtain c'' r where rest: "GetParseOids c' ss = (c'', r)" by (cases "GetParseOids c' ss")
  with Cons.IH [OF c'(1)] c' l show ?case by (cases "NewOid s") simp_all
qed simp


end
