(* ===== verification/Asn1.thy ===== *)
theory Asn1
  imports GoLib
begin

text \<open>
  What the program uses of Go's \<open>encoding/asn1\<close>: \<open>asn1.Marshal\<close> on integers, byte slices, object
  identifiers, raw values and structs of these. Encodings are distinguished encodings: minimal
  two's complement integers, minimal lengths.
\<close>

section \<open>Integers\<close>

text \<open>\<open>int64Encoder\<close>: big-endian two's complement, as few bytes as the value needs.\<close>

function int_bytes :: "int \<Rightarrow> bytes" where
  "int_bytes i =
     (if - 128 \<le> i \<and> i \<le> 127 then [word_of_int i] else int_bytes (i div 256) @ [word_of_int i])"
  by pat_completeness auto
termination
  by (relation "measure (\<lambda>i. nat \<bar>i\<bar>)") (auto simp: nat_less_iff abs_if split: if_splits)

declare int_bytes.simps [simp del]

text \<open>\<open>n.Bytes()\<close> of a natural number: big endian, empty for zero. Lengths are written with it.\<close>

fun nat_bytes :: "nat \<Rightarrow> bytes" where
  "nat_bytes n = (if n = 0 then [] else nat_bytes (n div 256) @ [word_of_nat n])"

declare nat_bytes.simps [simp del]

definition makeBigInt :: "int \<Rightarrow> bytes" where
  "makeBigInt n =
     (if n < 0 then
        (let bs = map (\<lambda>b. b XOR 0xff) (nat_bytes (nat (- n - 1)))
         in if bs = [] \<or> hd bs AND 0x80 = 0 then 0xff # bs else bs)
      else if n = 0 then [0]
      else (let bs = nat_bytes (nat n) in if hd bs AND 0x80 \<noteq> 0 then 0 # bs else bs))"

section \<open>Tag, length and contents\<close>

text \<open>\<open>appendBase128Int\<close>; a negative number gets no byte at all.\<close>

fun base128_high :: "nat \<Rightarrow> bytes" where
  "base128_high n = (if n = 0 then [] else base128_high (n div 128) @ [word_of_nat (128 + n mod 128)])"

declare base128_high.simps [simp del]

definition base128 :: "int \<Rightarrow> bytes" where
  "base128 n = (if n < 0 then [] else base128_high (nat n div 128) @ [word_of_nat (nat n mod 128)])"

definition tag_octets :: "nat \<Rightarrow> bool \<Rightarrow> nat \<Rightarrow> bytes" where
  "tag_octets class compound tag =
     (let b = word_of_nat (64 * (class mod 4) + (if compound then 32 else 0)) :: byte
      in if tag \<ge> 31 then (b + 31) # base128 (int tag) else [b + word_of_nat tag])"

definition length_octets :: "nat \<Rightarrow> bytes" where
  "length_octets n =
     (if n \<ge> 128 then (let l = nat_bytes n in word_of_nat (128 + length l) # l) else [word_of_nat n])"

definition tlv :: "nat \<Rightarrow> bool \<Rightarrow> nat \<Rightarrow> bytes \<Rightarrow> bytes" where
  "tlv class compound tag content = tag_octets class compound tag @ length_octets (length content) @ content"

section \<open>asn1.Marshal\<close>

definition marshal_int :: "int \<Rightarrow> bytes" where
  "marshal_int i = tlv 0 False 2 (int_bytes i)"

definition marshal_big :: "int \<Rightarrow> bytes" where
  "marshal_big i = tlv 0 False 2 (makeBigInt i)"

definition marshal_octets :: "bytes \<Rightarrow> bytes" where
  "marshal_octets b = tlv 0 False 4 b"

definition makeObjectIdentifier :: "int list \<Rightarrow> bytes outcome" where
  "makeObjectIdentifier oid =
     (case oid of
        a # b # rest \<Rightarrow>
          if a > 2 \<or> (a < 2 \<and> b \<ge> 40) then Err (StructuralError ''invalid object identifier'')
          else Ok (base128 (wrap64 (a * 40 + b)) @ concat (map base128 rest))
      | _ \<Rightarrow> Err (StructuralError ''invalid object identifier''))"

definition marshal_oid :: "int list \<Rightarrow> bytes outcome" where
  "marshal_oid oid = and_then (makeObjectIdentifier oid) (\<lambda>c. Ok (tlv 0 False 6 c))"

text \<open>A raw value without \<open>FullBytes\<close>.\<close>

definition marshal_raw :: "nat \<Rightarrow> nat \<Rightarrow> bool \<Rightarrow> bytes \<Rightarrow> bytes" where
  "marshal_raw class tag compound b = tlv class compound tag b"

text \<open>A struct without tags: its marshalled fields in a SEQUENCE.\<close>

definition marshal_struct :: "bytes list \<Rightarrow> bytes" where
  "marshal_struct fields = tlv 0 True 16 (concat fields)"

section \<open>Sizes and values\<close>

text \<open>The unsigned big-endian value of a byte string.\<close>

definition be_val :: "bytes \<Rightarrow> int" where
  "be_val bs = foldl (\<lambda>acc b. 256 * acc + uint b) 0 bs"

lemma be_val_snoc [simp]: "be_val (bs @ [b]) = 256 * be_val bs + uint b"
  by (simp add: be_val_def)

lemma be_val_Nil [simp]: "be_val [] = 0"
  by (simp add: be_val_def)

lemma be_val_nonneg: "0 \<le> be_val bs"
  by (induction bs rule: rev_induct) auto

lemma int_bytes_not_Nil [simp]: "int_bytes i \<noteq> []"
  by (subst int_bytes.simps) simp

lemma int_bytes_small: "- 128 \<le> i \<and> i \<le> 127 \<Longrightarrow> int_bytes i = [word_of_int i]"
  by (subst int_bytes.simps) simp

lemma int_bytes_big: "\<not> (- 128 \<le> i \<and> i \<le> 127) \<Longrightarrow> int_bytes i = int_bytes (i div 256) @ [word_of_int i]"
  by (subst int_bytes.simps) (simp only: if_False)

lemma uint_byte_of_nat: "uint (word_of_nat n :: byte) = int n mod 256"
  by (simp add: unsigned_of_nat take_bit_eq_mod zmod_int)

lemma div_256_range: "- p \<le> i div 256 \<and> i div 256 < p \<longleftrightarrow> - (256 * p) \<le> i \<and> i < 256 * (p :: int)"
  by (auto; presburger)

lemma pow_byte: "0 < k \<Longrightarrow> (2::int) ^ (8 * Suc k - 1) = 256 * 2 ^ (8 * k - 1)"
  by (cases k) (simp_all add: power_add)

lemma uint_byte: "uint (word_of_int i :: byte) = i mod 256"
  by (simp add: uint_word_of_int)

lemma be_val_int_bytes: "be_val (int_bytes i) = i mod 256 ^ length (int_bytes i)"
proof (induction i rule: int_bytes.induct)
  case (1 i)
  show ?case
  proof (cases "- 128 \<le> i \<and> i \<le> 127")
    case True
    then show ?thesis by (simp add: int_bytes.simps [of i] be_val_def uint_byte)
  next
    case False
    let ?n = "length (int_bytes (i div 256))"
    have "be_val (int_bytes i) = 256 * ((i div 256) mod 256 ^ ?n) + i mod 256"
      using "1.IH" [OF False] by (simp add: int_bytes_big [OF False] uint_byte)
    also have "\<dots> = i mod (256 * 256 ^ ?n)"
      by (simp add: mod_mult2_eq zmod_zmult2_eq)
    finally show ?thesis by (simp add: int_bytes_big [OF False])
  qed
qed

text \<open>The length is minimal: the value needs all the bytes.\<close>

lemma int_bytes_range: "- (2 ^ (8 * length (int_bytes i) - 1)) \<le> i \<and> i < 2 ^ (8 * length (int_bytes i) - 1)"
proof (induction i rule: int_bytes.induct)
  case (1 i)
  show ?case
  proof (cases "- 128 \<le> i \<and> i \<le> 127")
    case True
    then show ?thesis by (simp add: int_bytes.simps [of i])
  next
    case False
    let ?n = "length (int_bytes (i div 256))"
    have n: "?n > 0" by simp
    have "length (int_bytes i) = Suc ?n" by (simp add: int_bytes_big [OF False])
    with "1.IH" [OF False] pow_byte [OF n] show ?thesis by (simp only: div_256_range)
  qed
qed

lemma int_bytes_length_le: "- (2 ^ (8 * k - 1)) \<le> i \<Longrightarrow> i < 2 ^ (8 * k - 1) \<Longrightarrow> 0 < k \<Longrightarrow> length (int_bytes i) \<le> k"
proof (induction k arbitrary: i)
  case (Suc k)
  show ?case
  proof (cases "- 128 \<le> i \<and> i \<le> 127")
    case True
    then show ?thesis by (simp add: int_bytes.simps [of i])
  next
    case False
    with Suc.prems have k: "0 < k" by (cases k) auto
    then have "(2::int) ^ (8 * Suc k - 1) = 256 * 2 ^ (8 * k - 1)"
      by (rule pow_byte)
    with Suc.prems have "- (2 ^ (8 * k - 1)) \<le> i div 256" "i div 256 < 2 ^ (8 * k - 1)" by auto
    with Suc.IH [OF _ _ k] show ?thesis by (simp add: int_bytes_big [OF False])
  qed
qed simp

lemma be_val_nat_bytes: "be_val (nat_bytes n) = int n"
proof (induction n rule: nat_bytes.induct)
  case (1 n)
  then show ?case
    by (cases "n = 0") (simp_all add: nat_bytes.simps [of n] nat_bytes.simps [of 0] uint_byte_of_nat zdiv_int)
qed

lemma nat_bytes_length: "n < 256 ^ k \<Longrightarrow> length (nat_bytes n) \<le> k"
proof (induction k arbitrary: n)
  case 0
  then show ?case by (simp add: nat_bytes.simps)
next
  case (Suc k)
  then have "length (nat_bytes (n div 256)) \<le> k" by (intro Suc.IH) (simp add: less_mult_imp_div_less mult.commute)
  then show ?case by (simp add: nat_bytes.simps [of n])
qed

end
