(* ===== verification/Ber.thy ===== *)
theory Ber
  imports Asn1
begin

text \<open>
  \<open>github.com/geoffgarside/ber\<close>: parsing of BER values. A Go slice index or slice expression is \<open>idx\<close>
  or \<open>slice\<close> with its bounds check, so that \<open>no panic\<close> is a theorem and not an assumption. The
  reflection over the Go type of the target is a recursion over a description of that type. Targets of
  type \<open>time.Time\<close> and \<open>interface{}\<close> and a leading \<open>asn1.RawContent\<close> field are not modelled: nothing in
  the program decodes into one.
\<close>

section \<open>Primitive contents\<close>

definition parseBool :: "bytes \<Rightarrow> bool outcome" where
  "parseBool bs =
     (if length bs \<noteq> 1 then Err (SyntaxError ''invalid boolean'')
      else and_then (idx bs 0) (\<lambda>b.
        if b = 0 then Ok False else if b = 0xff then Ok True
        else Err (SyntaxError ''invalid boolean'')))"

definition checkInteger :: "bytes \<Rightarrow> unit outcome" where
  "checkInteger bs =
     (if length bs = 0 then Err (StructuralError ''empty integer'')
      else if length bs = 1 then Ok ()
      else and_then (idx bs 0) (\<lambda>b0. and_then (idx bs 1) (\<lambda>b1.
        if (b0 = 0 \<and> b1 AND 0x80 = 0) \<or> (b0 = 0xff \<and> b1 AND 0x80 = 0x80)
        then Err (StructuralError ''integer not minimally-encoded'')
        else Ok ())))"

definition shift_in :: "bytes \<Rightarrow> 64 word" where
  "shift_in bs = foldl (\<lambda>ret b. push_bit 8 ret OR ucast b) 0 bs"

definition parseInt64 :: "bytes \<Rightarrow> int outcome" where
  "parseInt64 bs =
     and_then (checkInteger bs) (\<lambda>_.
       if length bs > 8 then Err (StructuralError ''integer too large'')
       else (let k = 64 - length bs * 8
             in Ok (sint (signed_drop_bit k (push_bit k (shift_in bs))))))"

definition parseInt32 :: "bytes \<Rightarrow> int outcome" where
  "parseInt32 bs =
     and_then (checkInteger bs) (\<lambda>_. and_then (parseInt64 bs) (\<lambda>ret64.
       if ret64 \<noteq> sint (word_of_int ret64 :: 32 word) then Err (StructuralError ''integer too large'')
       else Ok ret64))"

text \<open>\<open>ret.SetBytes\<close> is the unsigned big-endian value.\<close>

definition parseBigInt :: "bytes \<Rightarrow> int outcome" where
  "parseBigInt bs =
     and_then (checkInteger bs) (\<lambda>_.
       if length bs > 0 \<and> hd bs AND 0x80 = 0x80
       then Ok (- (be_val (map NOT bs) + 1))
       else Ok (be_val bs))"

definition parseBitString :: "bytes \<Rightarrow> (bytes \<times> int) outcome" where
  "parseBitString bs =
     (if length bs = 0 then Err (SyntaxError ''zero length BIT STRING'')
      else and_then (idx bs 0) (\<lambda>b0. and_then (idx bs (length bs - 1)) (\<lambda>bl.
        let paddingBits = uint b0 in
        if paddingBits > 7 \<or> (length bs = 1 \<and> paddingBits > 0) \<or> bl AND (push_bit (unat b0) 1 - 1) \<noteq> 0
        then Err (SyntaxError ''invalid padding bits in BIT STRING'')
        else Ok (drop 1 bs, (int (length bs) - 1) * 8 - paddingBits))))"

text \<open>
  \<open>_parseBase128Int\<close> returns its offset on the error path too, and \<open>parseBase128Int\<close> looks at it.
  The accumulator is a Go \<open>int\<close>.
\<close>

function parseBase128_loop :: "bytes \<Rightarrow> nat \<Rightarrow> 64 word \<Rightarrow> int outcome \<times> nat" where
  "parseBase128_loop bs offset ret =
     (if offset < length bs then
        (let b = bs ! offset;
             ret' = push_bit 7 ret OR ucast (b AND 0x7f)
         in if b AND 0x80 = 0 then (Ok (sint ret'), offset + 1)
            else parseBase128_loop bs (offset + 1) ret')
      else (Err (SyntaxError ''truncated base 128 integer''), offset))"
  by pat_completeness auto
termination
  by (relation "measure (\<lambda>(bs, offset, ret). length bs - offset)") auto

declare parseBase128_loop.simps [simp del]

definition parseBase128Int' :: "bytes \<Rightarrow> nat \<Rightarrow> int outcome \<times> nat" where
  "parseBase128Int' bs initOffset = parseBase128_loop bs initOffset 0"

definition parseBase128Int :: "bytes \<Rightarrow> nat \<Rightarrow> (int \<times> nat) outcome" where
  "parseBase128Int bs initOffset =
     (let (r, offset) = parseBase128Int' bs initOffset in
      if offset - initOffset \<ge> 4 then Err (StructuralError ''base 128 integer too large'')
      else and_then r (\<lambda>ret. Ok (ret, offset)))"

lemma parseBase128_loop_bounds:
  "parseBase128_loop bs offset ret = (r, offset') \<Longrightarrow>
     offset \<le> offset' \<and> (offset \<le> length bs \<longrightarrow> offset' \<le> length bs) \<and> (is_ok r \<longrightarrow> offset < offset') \<and> \<not> panics r"
proof (induction bs offset ret rule: parseBase128_loop.induct)
  case (1 bs offset ret)
  show ?case
  proof (cases "offset < length bs \<and> bs ! offset AND 0x80 \<noteq> 0")
    case True
    with "1.prems" have "parseBase128_loop bs (offset + 1) (push_bit 7 ret OR ucast (bs ! offset AND 0x7f)) = (r, offset')"
      by (subst (asm) parseBase128_loop.simps) (simp add: Let_def)
    with "1.IH" True show ?thesis by fastforce
  next
    case False
    with "1.prems" show ?thesis
      by (subst (asm) parseBase128_loop.simps) (auto simp: Let_def split: if_splits)
  qed
qed

lemma parseBase128Int'_bounds:
  "parseBase128Int' bs offset = (r, offset') \<Longrightarrow>
     offset \<le> offset' \<and> (offset \<le> length bs \<longrightarrow> offset' \<le> length bs) \<and> (is_ok r \<longrightarrow> offset < offset') \<and> \<not> panics r"
  unfolding parseBase128Int'_def by (rule parseBase128_loop_bounds)

text \<open>
  The loop of \<open>parseObjectIdentifier\<close> after the first value; it writes \<open>s[i]\<close> into a slice with one place
  more than there are bytes, and every value takes at least one byte. Go's \<open>/\<close> and \<open>%\<close> truncate to zero.
\<close>

function parse_oid_rest :: "bytes \<Rightarrow> nat \<Rightarrow> int list outcome" where
  "parse_oid_rest bs offset =
     (if offset < length bs then
        (case parseBase128Int' bs offset of
           (Ok v, offset') \<Rightarrow> and_then (parse_oid_rest bs offset') (\<lambda>s. Ok (v # s))
         | (Err e, offset') \<Rightarrow> Err e
         | (Panic p, offset') \<Rightarrow> Panic p)
      else Ok [])"
  by pat_completeness auto
termination
  by (relation "measure (\<lambda>(bs, offset). length bs - offset)") (auto dest!: parseBase128Int'_bounds [OF sym])

declare parse_oid_rest.simps [simp del]

definition go_div :: "int \<Rightarrow> int \<Rightarrow> int" where
  "go_div a b = sgn a * sgn b * (\<bar>a\<bar> div \<bar>b\<bar>)"

definition go_mod :: "int \<Rightarrow> int \<Rightarrow> int" where
  "go_mod a b = a - b * go_div a b"

definition parseObjectIdentifier :: "bytes \<Rightarrow> int list outcome" where
  "parseObjectIdentifier bs =
     (if length bs = 0 then Err (SyntaxError ''zero length OBJECT IDENTIFIER'')
      else (case parseBase128Int' bs 0 of
              (Ok v, offset) \<Rightarrow>
                and_then (parse_oid_rest bs offset) (\<lambda>s.
                  Ok (if v < 80 then go_div v 40 # go_mod v 40 # s else 2 # (v - 80) # s))
            | (Err e, offset) \<Rightarrow> Err e
            | (Panic p, offset) \<Rightarrow> Panic p))"

section \<open>Strings\<close>

definition in_range :: "byte \<Rightarrow> nat \<Rightarrow> nat \<Rightarrow> bool" where
  "in_range b lo hi \<longleftrightarrow> lo \<le> unat b \<and> unat b \<le> hi"

definition isPrintable :: "byte \<Rightarrow> bool" where
  "isPrintable b \<longleftrightarrow>
     in_range b 97 122 \<or> in_range b 65 90 \<or> in_range b 48 57 \<or> in_range b 39 41 \<or> in_range b 43 47 \<or>
     b = 32 \<or> b = 58 \<or> b = 61 \<or> b = 63 \<or> b = 42"

definition parsePrintableString :: "bytes \<Rightarrow> string outcome" where
  "parsePrintableString bs =
     (if list_all isPrintable bs then Ok (string_of_bytes bs)
      else Err (SyntaxError ''PrintableString contains invalid character''))"

definition parseIA5String :: "bytes \<Rightarrow> string outcome" where
  "parseIA5String bs =
     (if list_all (\<lambda>b. unat b < 128) bs then Ok (string_of_bytes bs)
      else Err (SyntaxError ''IA5String contains invalid character''))"

definition parseT61String :: "bytes \<Rightarrow> string outcome" where
  "parseT61String bs = Ok (string_of_bytes bs)"

text \<open>\<open>utf8.Valid\<close>: no overlong form, no surrogate, nothing above U+10FFFF.\<close>

definition cont :: "byte \<Rightarrow> bool" where
  "cont b \<longleftrightarrow> in_range b 128 191"

fun utf8_valid :: "bytes \<Rightarrow> bool" where
  "utf8_valid [] = True"
| "utf8_valid (a # bs) =
     (if unat a < 128 then utf8_valid bs
      else if in_range a 194 223 then
        (case bs of b # r \<Rightarrow> cont b \<and> utf8_valid r | _ \<Rightarrow> False)
      else if in_range a 224 239 then
        (case bs of b # c # r \<Rightarrow>
           (if a = 224 then in_range b 160 191 else if a = 237 then in_range b 128 159 else cont b) \<and> cont c \<and> utf8_valid r
         | _ \<Rightarrow> False)
      else if in_range a 240 244 then
        (case bs of b # c # d # r \<Rightarrow>
           (if a = 240 then in_range b 144 191 else if a = 244 then in_range b 128 143 else cont b)
             \<and> cont c \<and> cont d \<and> utf8_valid r
         | _ \<Rightarrow> False)
      else False)"

definition parseUTF8String :: "bytes \<Rightarrow> string outcome" where
  "parseUTF8String bs =
     (if \<not> utf8_valid bs then Err (PlainError ''asn1: invalid UTF-8 string'') else Ok (string_of_bytes bs))"

section \<open>Tag and length\<close>

record tagAndLength =
  tl_class :: nat
  tl_tag :: int
  tl_length :: nat
  tl_isCompound :: bool

fun parse_length :: "bytes \<Rightarrow> nat \<Rightarrow> nat \<Rightarrow> nat \<Rightarrow> (nat \<times> nat) outcome" where
  "parse_length bs offset 0 len = Ok (len, offset)"
| "parse_length bs offset (Suc n) len =
     (if offset \<ge> length bs then Err (SyntaxError ''truncated tag or length'')
      else and_then (idx bs offset) (\<lambda>b.
        if len \<ge> 2 ^ 23 then Err (StructuralError ''length too large'')
        else parse_length bs (offset + 1) n (256 * len + unat b)))"

definition parseTagAndLength :: "bytes \<Rightarrow> nat \<Rightarrow> (tagAndLength \<times> nat) outcome" where
  "parseTagAndLength bs initOffset =
     (if initOffset \<ge> length bs then Err (PlainError ''asn1: internal error in parseTagAndLength'')
      else and_then (idx bs initOffset) (\<lambda>b.
        let class = unat (drop_bit 6 b);
            compound = (b AND 0x20 = 0x20);
            tag = uint (b AND 0x1f)
        in and_then
             (if tag = 0x1f then
                and_then (parseBase128Int bs (initOffset + 1)) (\<lambda>(tag', offset).
                  if tag' < 0x1f then Err (SyntaxError ''non-minimal tag'') else Ok (tag', offset))
              else Ok (tag, initOffset + 1))
             (\<lambda>(tag, offset).
                if offset \<ge> length bs then Err (SyntaxError ''truncated tag or length'')
                else and_then (idx bs offset) (\<lambda>b.
                  if b AND 0x80 = 0 then
                    Ok (\<lparr>tl_class = class, tl_tag = tag, tl_length = unat (b AND 0x7f), tl_isCompound = compound\<rparr>,
                        offset + 1)
                  else if unat (b AND 0x7f) = 0 then
                    Err (SyntaxError ''indefinite length found (not DER)'')
                  else
                    and_then (parse_length bs (offset + 1) (unat (b AND 0x7f)) 0) (\<lambda>(len, offset).
                      Ok (\<lparr>tl_class = class, tl_tag = tag, tl_length = len, tl_isCompound = compound\<rparr>,
                          offset))))))"

text \<open>On the 64-bit platforms \<open>offset + length\<close> cannot wrap: both are below \<open>2 ^ 31\<close> or slice lengths.\<close>

definition invalidLength :: "nat \<Rightarrow> nat \<Rightarrow> nat \<Rightarrow> bool" where
  "invalidLength offset len sliceLength \<longleftrightarrow> offset + len > sliceLength"

section \<open>Field parameters and Go types\<close>

definition tagBoolean :: nat where "tagBoolean = 1"
definition tagInteger :: nat where "tagInteger = 2"
definition tagBitString :: nat where "tagBitString = 3"
definition tagOctetString :: nat where "tagOctetString = 4"
definition tagOID :: nat where "tagOID = 6"
definition tagEnum :: nat where "tagEnum = 10"
definition tagUTF8String :: nat where "tagUTF8String = 12"
definition tagSequence :: nat where "tagSequence = 16"
definition tagSet :: nat where "tagSet = 17"
definition tagPrintableString :: nat where "tagPrintableString = 19"
definition tagT61String :: nat where "tagT61String = 20"
definition tagIA5String :: nat where "tagIA5String = 22"
definition tagUTCTime :: nat where "tagUTCTime = 23"
definition tagGeneralizedTime :: nat where "tagGeneralizedTime = 24"
definition tagGeneralString :: nat where "tagGeneralString = 27"

definition classUniversal :: nat where "classUniversal = 0"
definition classApplication :: nat where "classApplication = 1"
definition classContextSpecific :: nat where "classContextSpecific = 2"
definition classPrivate :: nat where "classPrivate = 3"

lemmas ber_consts = tagBoolean_def tagInteger_def tagBitString_def tagOctetString_def tagOID_def tagEnum_def
  tagUTF8String_def tagSequence_def tagSet_def tagPrintableString_def tagT61String_def tagIA5String_def
  tagUTCTime_def tagGeneralizedTime_def tagGeneralString_def
  classUniversal_def classApplication_def classContextSpecific_def classPrivate_def

record fieldParameters =
  fp_optional :: bool
  fp_explicit :: bool
  fp_application :: bool
  fp_defaultValue :: "int option"
  fp_tag :: "int option"
  fp_stringType :: nat
  fp_timeType :: nat
  fp_set :: bool
  fp_omitEmpty :: bool

definition no_params :: fieldParameters where
  "no_params = \<lparr>fp_optional = False, fp_explicit = False, fp_application = False, fp_defaultValue = None,
     fp_tag = None, fp_stringType = 0, fp_timeType = 0, fp_set = False, fp_omitEmpty = False\<rparr>"

definition has_prefix :: "string \<Rightarrow> string \<Rightarrow> bool" where
  "has_prefix s p \<longleftrightarrow> take (length p) s = p"

definition zero_tag :: "fieldParameters \<Rightarrow> fieldParameters" where
  "zero_tag p = (if fp_tag p = None then p\<lparr>fp_tag := Some 0\<rparr> else p)"

definition parse_part :: "string \<Rightarrow> fieldParameters \<Rightarrow> fieldParameters" where
  "parse_part part ret =
     (if part = ''optional'' then ret\<lparr>fp_optional := True\<rparr>
      else if part = ''explicit'' then zero_tag (ret\<lparr>fp_explicit := True\<rparr>)
      else if part = ''generalized'' then ret\<lparr>fp_timeType := tagGeneralizedTime\<rparr>
      else if part = ''utc'' then ret\<lparr>fp_timeType := tagUTCTime\<rparr>
      else if part = ''ia5'' then ret\<lparr>fp_stringType := tagIA5String\<rparr>
      else if part = ''printable'' then ret\<lparr>fp_stringType := tagPrintableString\<rparr>
      else if part = ''utf8'' then ret\<lparr>fp_stringType := tagUTF8String\<rparr>
      else if has_prefix part ''default:'' then
        (case atoi (drop 8 part) of Some i \<Rightarrow> ret\<lparr>fp_defaultValue := Some i\<rparr> | None \<Rightarrow> ret)
      else if has_prefix part ''tag:'' then
        (case atoi (drop 4 part) of Some i \<Rightarrow> ret\<lparr>fp_tag := Some i\<rparr> | None \<Rightarrow> ret)
      else if part = ''set'' then ret\<lparr>fp_set := True\<rparr>
      else if part = ''application'' then zero_tag (ret\<lparr>fp_application := True\<rparr>)
      else if part = ''omitempty'' then ret\<lparr>fp_omitEmpty := True\<rparr>
      else ret)"

definition parseFieldParameters :: "string \<Rightarrow> fieldParameters" where
  "parseFieldParameters str = foldl (\<lambda>ret part. parse_part part ret) no_params (split_on CHR '','' str)"

lemma parseFieldParameters_Nil [simp]: "parseFieldParameters [] = no_params"
  by (simp add: parseFieldParameters_def parse_part_def has_prefix_def)

text \<open>
  The types a target can have. A struct says whether it has an unexported field and lists its fields
  with their \<open>asn1\<close> tag; a slice says whether its type name ends in SET. \<open>T_Other\<close> is any type
  \<open>getUniversalType\<close> has no tag for.
\<close>

datatype go_type =
    T_Raw
  | T_Int32
  | T_Int64
  | T_BigInt
  | T_Bool
  | T_Octets
  | T_OID
  | T_BitString
  | T_Enum
  | T_Flag
  | T_String
  | T_Struct bool "(string \<times> go_type) list"
  | T_Slice bool go_type
  | T_Other

datatype go_val =
    V_Zero
  | V_Raw nat int bool bytes bytes
  | V_Int int
  | V_Bool bool
  | V_Octets bytes
  | V_OID "int list"
  | V_BitString bytes int
  | V_String string
  | V_Struct "go_val list"
  | V_Slice "go_val list"

fun getUniversalType :: "go_type \<Rightarrow> nat \<times> bool \<times> bool" where
  "getUniversalType T_OID = (tagOID, False, True)"
| "getUniversalType T_BitString = (tagBitString, False, True)"
| "getUniversalType T_Enum = (tagEnum, False, True)"
| "getUniversalType T_BigInt = (tagInteger, False, True)"
| "getUniversalType T_Bool = (tagBoolean, False, True)"
| "getUniversalType T_Flag = (tagBoolean, False, True)"
| "getUniversalType T_Int32 = (tagInteger, False, True)"
| "getUniversalType T_Int64 = (tagInteger, False, True)"
| "getUniversalType (T_Struct unexported fs) = (tagSequence, True, True)"
| "getUniversalType T_Octets = (tagOctetString, False, True)"
| "getUniversalType (T_Slice is_set t) = (if is_set then (tagSet, True, True) else (tagSequence, True, True))"
| "getUniversalType T_String = (tagPrintableString, False, True)"
| "getUniversalType T_Raw = (tagSequence, True, True)"
| "getUniversalType T_Other = (0, False, False)"

fun canHaveDefaultValue :: "go_type \<Rightarrow> bool" where
  "canHaveDefaultValue T_Int32 = True"
| "canHaveDefaultValue T_Int64 = True"
| "canHaveDefaultValue T_Enum = True"
| "canHaveDefaultValue _ = False"

text \<open>\<open>setDefaultValue\<close>: \<open>None\<close> when the field is not optional, else the value the target then has.\<close>

definition setDefaultValue :: "go_type \<Rightarrow> go_val \<Rightarrow> fieldParameters \<Rightarrow> go_val option" where
  "setDefaultValue ty v params =
     (if \<not> fp_optional params then None
      else (case fp_defaultValue params of
              None \<Rightarrow> Some v
            | Some d \<Rightarrow> Some (if canHaveDefaultValue ty then V_Int d else v)))"

section \<open>parseField\<close>

definition parse_raw :: "bytes \<Rightarrow> nat \<Rightarrow> (go_val \<times> nat) outcome" where
  "parse_raw bs initOffset =
     and_then (parseTagAndLength bs initOffset) (\<lambda>(t, offset).
       if invalidLength offset (tl_length t) (length bs) then Err (SyntaxError ''data truncated'')
       else and_then (slice bs offset (offset + tl_length t)) (\<lambda>content.
            and_then (slice bs initOffset (offset + tl_length t)) (\<lambda>full.
              Ok (V_Raw (tl_class t) (tl_tag t) (tl_isCompound t) content full, offset + tl_length t))))"

text \<open>
  The part of \<open>parseField\<close> between the first tag and the contents: explicit tags, the string types that
  share one Go type, the tag expected under the parameters. It either ends the call (\<open>H_Done\<close>: the value
  of the target and the offset) or yields the universal tag, the contents and the offset behind them.
\<close>

datatype header = H_Done go_val nat | H_Content nat bytes nat

definition universal_tag :: "go_type \<Rightarrow> fieldParameters \<Rightarrow> tagAndLength \<Rightarrow> nat" where
  "universal_tag ty params t =
     (let universalTag = fst (getUniversalType ty);
          universalTag =
            (if universalTag = tagPrintableString then
               (if tl_class t = classUniversal then
                  (if tl_tag t \<in> {int tagIA5String, int tagGeneralString, int tagT61String, int tagUTF8String}
                   then nat (tl_tag t) else universalTag)
                else if fp_stringType params \<noteq> 0 then fp_stringType params else universalTag)
             else universalTag)
      in if fp_set params then tagSet else universalTag)"

definition expected_tag :: "fieldParameters \<Rightarrow> nat \<Rightarrow> nat \<times> int" where
  "expected_tag params universalTag =
     (case fp_tag params of
        Some tag \<Rightarrow>
          if \<not> fp_explicit params then
            (if fp_application params then (classApplication, tag) else (classContextSpecific, tag))
          else (classUniversal, int universalTag)
      | None \<Rightarrow> (classUniversal, int universalTag))"

definition expect ::
  "go_type \<Rightarrow> go_val \<Rightarrow> bytes \<Rightarrow> nat \<Rightarrow> fieldParameters \<Rightarrow> tagAndLength \<Rightarrow> nat \<Rightarrow> header outcome" where
  "expect ty v bs initOffset params t offset =
     (let compoundType = fst (snd (getUniversalType ty));
          universalTag = universal_tag ty params t
      in if (tl_class t, tl_tag t) \<noteq> expected_tag params universalTag \<or> tl_isCompound t \<noteq> compoundType then
           (case setDefaultValue ty v params of
              Some v' \<Rightarrow> Ok (H_Done v' initOffset)
            | None \<Rightarrow> Err (StructuralError ''tags don't match''))
         else if invalidLength offset (tl_length t) (length bs) then Err (SyntaxError ''data truncated'')
         else and_then (slice bs offset (offset + tl_length t)) (\<lambda>innerBytes.
           Ok (H_Content universalTag innerBytes (offset + tl_length t))))"

definition parse_header ::
  "go_type \<Rightarrow> go_val \<Rightarrow> bytes \<Rightarrow> nat \<Rightarrow> fieldParameters \<Rightarrow> header outcome" where
  "parse_header ty v bs initOffset params =
     (if \<not> snd (snd (getUniversalType ty)) then Err (StructuralError ''unknown Go type'')
      else and_then (parseTagAndLength bs initOffset) (\<lambda>(t, offset).
        if fp_explicit params then
          (let expectedClass = (if fp_application params then classApplication else classContextSpecific) in
           if offset = length bs then Err (StructuralError ''explicit tag has no child'')
           else (case fp_tag params of
                   None \<Rightarrow> Panic NilDereference
                 | Some ptag \<Rightarrow>
                     if tl_class t = expectedClass \<and> tl_tag t = ptag \<and> (tl_length t = 0 \<or> tl_isCompound t) then
                       (if tl_length t > 0 then
                          and_then (parseTagAndLength bs offset) (\<lambda>(t', offset').
                            expect ty v bs initOffset params t' offset')
                        else if ty \<noteq> T_Flag then
                          Err (StructuralError ''zero length explicit tag was not an asn1.Flag'')
                        else Ok (H_Done (V_Bool True) offset))
                     else
                       (case setDefaultValue ty v params of
                          Some v' \<Rightarrow> Ok (H_Done v' initOffset)
                        | None \<Rightarrow> Err (StructuralError ''explicitly tagged member didn't match''))))
        else expect ty v bs initOffset params t offset))"

lemma parse_length_bounds:
  "parse_length bs offset n len = Ok (r, offset') \<Longrightarrow> offset \<le> length bs \<Longrightarrow> offset' = offset + n \<and> offset' \<le> length bs"
  by (induction bs offset n len arbitrary: offset' rule: parse_length.induct)
     (auto simp: outcome_simps split: if_splits)

lemma parse_length_no_panic [simp]: "\<not> panics (parse_length bs offset n len)"
  by (induction bs offset n len rule: parse_length.induct) auto

lemma parseBase128Int_bounds:
  "parseBase128Int bs offset = Ok (v, offset') \<Longrightarrow> offset \<le> length bs \<Longrightarrow> offset < offset' \<and> offset' \<le> length bs"
  by (auto simp: parseBase128Int_def outcome_simps is_ok_iff split: prod.splits if_splits
      dest!: parseBase128Int'_bounds)

lemma parseBase128Int_no_panic [simp]: "\<not> panics (parseBase128Int bs offset)"
  by (auto simp: parseBase128Int_def split: prod.splits dest: parseBase128Int'_bounds)

lemma parseTagAndLength_bounds:
  "parseTagAndLength bs offset = Ok (t, offset') \<Longrightarrow> offset < offset' \<and> offset' \<le> length bs"
  by (auto simp: parseTagAndLength_def outcome_simps Let_def split: if_splits prod.splits
      dest!: parse_length_bounds parseBase128Int_bounds)

lemma parseTagAndLength_no_panic [simp]: "\<not> panics (parseTagAndLength bs offset)"
  by (auto simp: parseTagAndLength_def Let_def outcome_simps split: prod.splits if_splits
      dest!: parseBase128Int_bounds)

lemma parseTagAndLength_not_Panic [simp]: "parseTagAndLength bs offset \<noteq> Panic p"
  using parseTagAndLength_no_panic [of bs offset] by (auto simp del: parseTagAndLength_no_panic)

text \<open>The first pass of \<open>parseSequenceOf\<close>: check the elements' tags and count them.\<close>

definition merge_tag :: "int \<Rightarrow> int" where
  "merge_tag tag =
     (if tag \<in> {int tagIA5String, int tagGeneralString, int tagT61String, int tagUTF8String}
      then int tagPrintableString
      else if tag \<in> {int tagGeneralizedTime, int tagUTCTime} then int tagUTCTime else tag)"

function count_elements :: "nat \<Rightarrow> bool \<Rightarrow> bytes \<Rightarrow> nat \<Rightarrow> nat outcome" where
  "count_elements expectedTag compoundType bs offset =
     (if offset < length bs then
        (case parseTagAndLength bs offset of
           Ok (t, offset') \<Rightarrow>
             if tl_class t \<noteq> classUniversal \<or> tl_isCompound t \<noteq> compoundType \<or> merge_tag (tl_tag t) \<noteq> int expectedTag
             then Err (StructuralError ''sequence tag mismatch'')
             else if invalidLength offset' (tl_length t) (length bs) then Err (SyntaxError ''truncated sequence'')
             else and_then (count_elements expectedTag compoundType bs (offset' + tl_length t)) (\<lambda>n. Ok (Suc n))
         | Err e \<Rightarrow> Err e
         | Panic p \<Rightarrow> Panic p)
      else Ok 0)"
  by pat_completeness auto
termination
  by (relation "measure (\<lambda>(_, _, bs, offset). length bs - offset)")
     (auto dest!: parseTagAndLength_bounds)

declare count_elements.simps [simp del]

definition parse_string :: "nat \<Rightarrow> bytes \<Rightarrow> string outcome" where
  "parse_string universalTag innerBytes =
     (if universalTag = tagPrintableString then parsePrintableString innerBytes
      else if universalTag = tagIA5String then parseIA5String innerBytes
      else if universalTag = tagT61String then parseT61String innerBytes
      else if universalTag = tagUTF8String then parseUTF8String innerBytes
      else if universalTag = tagGeneralString then parseT61String innerBytes
      else Err (SyntaxError ''internal error: unknown string type''))"

definition val_fields :: "go_val \<Rightarrow> go_val list" where
  "val_fields v = (case v of V_Struct vs \<Rightarrow> vs | _ \<Rightarrow> [])"

definition hd_val :: "go_val list \<Rightarrow> go_val" where
  "hd_val vs = (case vs of [] \<Rightarrow> V_Zero | v # _ \<Rightarrow> v)"

function (sequential) parseField ::
  "go_type \<Rightarrow> go_val \<Rightarrow> bytes \<Rightarrow> nat \<Rightarrow> fieldParameters \<Rightarrow> (go_val \<times> nat) outcome"
and parse_content :: "go_type \<Rightarrow> go_val \<Rightarrow> nat \<Rightarrow> bytes \<Rightarrow> go_val outcome"
and parse_fields :: "(string \<times> go_type) list \<Rightarrow> go_val list \<Rightarrow> bytes \<Rightarrow> nat \<Rightarrow> go_val list outcome"
and parse_elements :: "go_type \<Rightarrow> nat \<Rightarrow> bytes \<Rightarrow> nat \<Rightarrow> go_val list outcome"
where
  "parseField ty v bs initOffset params =
     (if initOffset = length bs then
        (case setDefaultValue ty v params of
           Some v' \<Rightarrow> Ok (v', initOffset)
         | None \<Rightarrow> Err (SyntaxError ''sequence truncated''))
      else if ty = T_Raw then parse_raw bs initOffset
      else and_then (parse_header ty v bs initOffset params) (\<lambda>h.
        case h of
          H_Done v' offset \<Rightarrow> Ok (v', offset)
        | H_Content universalTag innerBytes offset \<Rightarrow>
            and_then (parse_content ty v universalTag innerBytes) (\<lambda>v'. Ok (v', offset))))"
| "parse_content T_OID v universalTag innerBytes =
     and_then (parseObjectIdentifier innerBytes) (\<lambda>newSlice. Ok (V_OID newSlice))"
| "parse_content T_BitString v universalTag innerBytes =
     and_then (parseBitString innerBytes) (\<lambda>(bs, n). Ok (V_BitString bs n))"
| "parse_content T_Enum v universalTag innerBytes =
     and_then (parseInt32 innerBytes) (\<lambda>i. Ok (V_Int i))"
| "parse_content T_Flag v universalTag innerBytes = Ok (V_Bool True)"
| "parse_content T_BigInt v universalTag innerBytes =
     and_then (parseBigInt innerBytes) (\<lambda>i. Ok (V_Int i))"
| "parse_content T_Bool v universalTag innerBytes =
     and_then (parseBool innerBytes) (\<lambda>b. Ok (V_Bool b))"
| "parse_content T_Int32 v universalTag innerBytes =
     and_then (parseInt32 innerBytes) (\<lambda>i. Ok (V_Int i))"
| "parse_content T_Int64 v universalTag innerBytes =
     and_then (parseInt64 innerBytes) (\<lambda>i. Ok (V_Int i))"
| "parse_content (T_Struct unexported fs) v universalTag innerBytes =
     (if unexported then Err (StructuralError ''struct contains unexported fields'')
      else and_then (parse_fields fs (val_fields v) innerBytes 0) (\<lambda>vs. Ok (V_Struct vs)))"
| "parse_content T_Octets v universalTag innerBytes = Ok (V_Octets innerBytes)"
| "parse_content (T_Slice is_set t) v universalTag innerBytes =
     (case getUniversalType t of
        (expectedTag, compoundType, ok) \<Rightarrow>
          if \<not> ok then Err (StructuralError ''unknown Go type for slice'')
          else and_then (count_elements expectedTag compoundType innerBytes 0) (\<lambda>n.
            and_then (parse_elements t n innerBytes 0) (\<lambda>vs. Ok (V_Slice vs))))"
| "parse_content T_String v universalTag innerBytes =
     and_then (parse_string universalTag innerBytes) (\<lambda>s. Ok (V_String s))"
| "parse_content _ v universalTag innerBytes = Err (StructuralError ''unsupported: '')"
| "parse_fields [] vs innerBytes innerOffset = Ok []"
| "parse_fields ((tag, t) # fs) vs innerBytes innerOffset =
     and_then (parseField t (hd_val vs) innerBytes innerOffset (parseFieldParameters tag)) (\<lambda>(v, innerOffset').
       and_then (parse_fields fs (tl vs) innerBytes innerOffset') (\<lambda>rest. Ok (v # rest)))"
| "parse_elements t 0 bs offset = Ok []"
| "parse_elements t (Suc n) bs offset =
     and_then (parseField t V_Zero bs offset no_params) (\<lambda>(v, offset').
       and_then (parse_elements t n bs offset') (\<lambda>rest. Ok (v # rest)))"
  by pat_completeness auto
termination
  by (relation "measures [case_sum (case_sum (\<lambda>(t, _). size t) (\<lambda>(t, _). size t))
         (case_sum (\<lambda>(fs, _). size_list (size_prod (\<lambda>_. 0) size) fs) (\<lambda>(t, _). size t)),
       case_sum (case_sum (\<lambda>_. 1) (\<lambda>_. 0)) (case_sum (\<lambda>_. 0) (\<lambda>(_, n, _). n + 1))]")
     auto

declare parseField.simps [simp del]

text \<open>
  \<open>Unmarshal\<close>: the value of the target and the bytes behind the parsed element. \<open>v\<close> is the value the
  target had.
\<close>

definition UnmarshalWithParams :: "bytes \<Rightarrow> go_type \<Rightarrow> go_val \<Rightarrow> string \<Rightarrow> (go_val \<times> bytes) outcome" where
  "UnmarshalWithParams b ty v params =
     and_then (parseField ty v b 0 (parseFieldParameters params)) (\<lambda>(v', offset).
       and_then (slice b offset (length b)) (\<lambda>rest. Ok (v', rest)))"

definition Unmarshal :: "bytes \<Rightarrow> go_type \<Rightarrow> go_val \<Rightarrow> (go_val \<times> bytes) outcome" where
  "Unmarshal b ty v = UnmarshalWithParams b ty v []"

section \<open>No input makes the parser panic\<close>

definition params_ok :: "fieldParameters \<Rightarrow> bool" where
  "params_ok p \<longleftrightarrow> (fp_explicit p \<longrightarrow> fp_tag p \<noteq> None)"

lemma params_ok_if: "params_ok p \<Longrightarrow> params_ok q \<Longrightarrow> params_ok (if c then p else q)"
  by simp

lemma params_ok_case: "(\<And>i. params_ok (f i)) \<Longrightarrow> params_ok p \<Longrightarrow> params_ok (case x of Some i \<Rightarrow> f i | None \<Rightarrow> p)"
  by (cases x) auto

lemma params_ok_part: "params_ok p \<Longrightarrow> params_ok (parse_part part p)"
  unfolding parse_part_def by (intro params_ok_if params_ok_case) (auto simp: params_ok_def zero_tag_def)

lemma params_ok_parse [simp]: "params_ok (parseFieldParameters str)"
proof -
  have "params_ok p \<Longrightarrow> params_ok (foldl (\<lambda>ret part. parse_part part ret) p parts)" for p parts
    by (induction parts arbitrary: p) (auto simp: params_ok_part)
  then show ?thesis by (simp add: parseFieldParameters_def) (simp add: params_ok_def no_params_def)
qed

lemma params_ok_no_params [simp]: "params_ok no_params"
  by (simp add: params_ok_def no_params_def)

lemma parse_raw_bounds:
  "parse_raw bs offset = Ok (v, offset') \<Longrightarrow> offset < offset' \<and> offset' \<le> length bs"
  by (auto simp: parse_raw_def outcome_simps invalidLength_def split: if_splits dest!: parseTagAndLength_bounds)

lemma parse_raw_no_panic [simp]: "\<not> panics (parse_raw bs offset)"
  by (auto simp: parse_raw_def outcome_simps invalidLength_def dest: parseTagAndLength_bounds)

definition header_end :: "header \<Rightarrow> nat" where
  "header_end h = (case h of H_Done v offset \<Rightarrow> offset | H_Content ut inner offset \<Rightarrow> offset)"

lemma expect_bounds:
  assumes "expect ty v bs initOffset params t offset = Ok h" and "initOffset \<le> offset" and "offset \<le> length bs"
  shows "initOffset \<le> header_end h \<and> header_end h \<le> length bs"
  using assms
  by (auto simp: expect_def Let_def header_end_def outcome_simps invalidLength_def
      split: prod.splits option.splits if_splits)

lemma expect_no_panic: "offset \<le> length bs \<Longrightarrow> \<not> panics (expect ty v bs initOffset params t offset)"
  by (auto simp: expect_def Let_def invalidLength_def split: prod.splits option.splits)

lemma parse_header_bounds:
  "parse_header ty v bs initOffset params = Ok h \<Longrightarrow> initOffset \<le> header_end h \<and> header_end h \<le> length bs"
  by (auto simp: parse_header_def Let_def outcome_simps header_end_def split: if_splits option.splits
      dest!: parseTagAndLength_bounds expect_bounds)

lemma parse_header_no_panic: "params_ok params \<Longrightarrow> \<not> panics (parse_header ty v bs initOffset params)"
  by (auto simp: parse_header_def Let_def params_ok_def expect_no_panic split: option.splits
      dest!: parseTagAndLength_bounds)

lemma checkInteger_no_panic [simp]: "\<not> panics (checkInteger bs)"
  by (cases bs; cases "tl bs") (auto simp: checkInteger_def)

lemma primitive_no_panic [simp]:
  "\<not> panics (parseBool bs)" "\<not> panics (parseInt64 bs)" "\<not> panics (parseInt32 bs)"
  "\<not> panics (parseBigInt bs)" "\<not> panics (parseBitString bs)" "\<not> panics (parse_string ut bs)"
  by (auto simp: parseBool_def parseInt64_def parseInt32_def parseBigInt_def parseBitString_def Let_def
      parse_string_def parsePrintableString_def parseIA5String_def parseT61String_def parseUTF8String_def)

lemma parse_oid_rest_no_panic [simp]: "\<not> panics (parse_oid_rest bs offset)"
  by (induction bs offset rule: parse_oid_rest.induct)
     (subst parse_oid_rest.simps, auto split: prod.splits outcome.splits dest: parseBase128Int'_bounds)

lemma parseObjectIdentifier_no_panic [simp]: "\<not> panics (parseObjectIdentifier bs)"
  by (auto simp: parseObjectIdentifier_def split: prod.splits outcome.splits dest: parseBase128Int'_bounds)

lemma count_elements_no_panic [simp]: "\<not> panics (count_elements t c bs offset)"
proof (induction t c bs offset rule: count_elements.induct)
  case (1 t c bs offset)
  then show ?case
    by (subst count_elements.simps) (auto split: outcome.splits)
qed

lemma parse_total:
  "offset \<le> length bs \<Longrightarrow> params_ok params \<Longrightarrow> \<not> panics (parseField ty v bs offset params) \<and>
     (\<forall>v' offset'. parseField ty v bs offset params = Ok (v', offset') \<longrightarrow> offset \<le> offset' \<and> offset' \<le> length bs)"
  "\<not> panics (parse_content ty v ut inner)"
  "offset \<le> length bs \<Longrightarrow> \<not> panics (parse_fields fs vs bs offset)"
  "offset \<le> length bs \<Longrightarrow> \<not> panics (parse_elements ty n bs offset)"
proof (induction ty v bs offset params and ty v ut inner and fs vs bs offset and ty n bs offset
    rule: parseField_parse_content_parse_fields_parse_elements.induct)
  case (1 ty v bs offset params)
  show ?case
  proof (cases "offset = length bs \<or> ty = T_Raw")
    case True
    then show ?thesis
      using "1.prems" parse_raw_bounds [of bs offset]
      by (auto simp: parseField.simps [of ty v bs offset params] split: option.splits)
  next
    case False
    then have eq: "parseField ty v bs offset params = and_then (parse_header ty v bs offset params) (\<lambda>h.
        case h of H_Done v' offset \<Rightarrow> Ok (v', offset)
        | H_Content universalTag innerBytes offset \<Rightarrow>
            and_then (parse_content ty v universalTag innerBytes) (\<lambda>v'. Ok (v', offset)))"
      by (simp add: parseField.simps [of ty v bs offset params])
    show ?thesis
    proof (cases "parse_header ty v bs offset params")
      case (Ok h)
      with parse_header_bounds [OF Ok] "1.IH" False show ?thesis
        by (cases h) (auto simp: eq header_end_def outcome_simps)
    qed (use parse_header_no_panic [OF "1.prems"(2)] eq in \<open>auto simp: panics_iff\<close>)
  qed
qed (auto split: prod.splits)

text \<open>C15: Decoding is total on arbitrary input: whatever the bytes, the target type and the field
  parameters, no slice index is out of bounds and no nil pointer is followed; and after a success the
  remaining bytes are a suffix of the input.\<close>

theorem Unmarshal_no_panic:
  "\<not> panics (UnmarshalWithParams b ty v params) \<and>
   (UnmarshalWithParams b ty v params = Ok (v', rest) \<longrightarrow> (\<exists>n. rest = drop n b))"
proof -
  note p = parse_total(1) [of 0 b "parseFieldParameters params" ty v, simplified]
  have "rest = drop n b \<or> \<not> n \<le> length b" if "rest = take (length b - n) (drop n b)" for n
    using that by simp
  then show ?thesis using p
    by (auto simp: UnmarshalWithParams_def outcome_simps)
qed

theorem Unmarshal_no_panic_witness:
  "\<not> panics (UnmarshalWithParams [0x02, 0x01, 0x2a, 0xff] T_Int32 V_Zero []) \<and>
   UnmarshalWithParams [0x02, 0x01, 0x2a, 0xff] T_Int32 V_Zero [] = Ok (V_Int 42, [0xff]) \<and>
   (\<exists>n. [0xff] = drop n [0x02, 0x01, 0x2a, 0xff :: byte])"
proof -
  have "UnmarshalWithParams [0x02, 0x01, 0x2a, 0xff] T_Int32 V_Zero [] = Ok (V_Int 42, [0xff])"
    by code_simp
  then show ?thesis
    using Unmarshal_no_panic [of "[0x02, 0x01, 0x2a, 0xff]" T_Int32 V_Zero "[]" "V_Int 42" "[0xff]"] by simp
qed

lemma Unmarshal_total [simp]: "\<not> panics (Unmarshal b ty v)"
proof -
  note p = parse_total(1) [of 0 b "parseFieldParameters []" ty v, simplified]
  then show ?thesis by (auto simp: Unmarshal_def UnmarshalWithParams_def outcome_simps)
qed

end
