(* ===== verification/BerRoundtrip.thy ===== *)
theory BerRoundtrip
  imports Ber
begin

text \<open>
  What \<open>asn1.Marshal\<close> writes, the BER decoder reads back: the lemmas from single bytes up to whole
  elements. Every lemma keeps the bytes before and behind the element, so that the encodings of
  larger structures compose by concatenation. Elements are shorter than \<open>2 ^ 31\<close> bytes, the bound
  \<open>parseTagAndLength\<close> imposes on lengths.
\<close>

section \<open>Bytes and bits\<close>

lemma and_1f: "(b :: byte) AND 0x1f = take_bit 5 b"
  by (simp add: take_bit_eq_mask mask_eq_exp_minus_1)

lemma and_7f: "(b :: byte) AND 0x7f = take_bit 7 b"
  by (simp add: take_bit_eq_mask mask_eq_exp_minus_1)

lemma and_80_eq_0: "(b :: byte) AND 0x80 = 0 \<longleftrightarrow> \<not> bit b 7"
  using and_exp_eq_0_iff_not_bit [of b 7] by simp

lemma and_bit_eq: "n < 8 \<Longrightarrow> (b :: byte) AND 2 ^ n = 2 ^ n \<longleftrightarrow> bit b n"
  by (auto simp: bit_eq_iff [where 'a = byte] bit_and_iff bit_exp_iff)

lemma and_20_eq: "(b :: byte) AND 0x20 = 0x20 \<longleftrightarrow> bit b 5"
  using and_bit_eq [of 5 b] by simp

lemma and_80_eq: "(b :: byte) AND 0x80 = 0x80 \<longleftrightarrow> bit b 7"
  using and_bit_eq [of 7 b] by simp

lemma unat_byte_of_nat: "k < 256 \<Longrightarrow> unat (word_of_nat k :: byte) = k"
  by (simp add: unat_of_nat)

lemma bit_byte_of_nat: "k < 256 \<Longrightarrow> n < 8 \<Longrightarrow> bit (word_of_nat k :: byte) n \<longleftrightarrow> odd (k div 2 ^ n)"
  using bit_unsigned_iff [where 'a=nat, of "word_of_nat k :: byte" n]
  by (simp only: unat_byte_of_nat bit_iff_odd [of k n]) simp

lemma unat_take_bit_byte: "k < 256 \<Longrightarrow> unat (take_bit n (word_of_nat k :: byte)) = k mod 2 ^ n"
  using unsigned_take_bit_eq [where 'a=nat, of n "word_of_nat k :: byte"]
  by (simp only: unat_byte_of_nat take_bit_eq_mod [where 'a = nat])

lemma unat_drop_bit_byte: "k < 256 \<Longrightarrow> unat (drop_bit n (word_of_nat k :: byte)) = k div 2 ^ n"
  by (simp only: unat_drop_bit_eq unat_byte_of_nat drop_bit_eq_div [where 'a = nat])

section \<open>Tag and length\<close>

lemma tag_octet:
  fixes compound :: bool
  assumes "class < 4" and "tag < 31"
  defines "b \<equiv> word_of_nat (64 * class + (if compound then 32 else 0) + tag) :: byte"
  shows "tag_octets class compound tag = [b]" "unat (drop_bit 6 b) = class"
    "b AND 0x20 = 0x20 \<longleftrightarrow> compound" "uint (b AND 0x1f) = int tag"
proof -
  obtain k where k: "k = 64 * class + (if compound then 32 else 0) + tag" by blast
  then have lt: "k < 256" and b: "b = word_of_nat k" using assms(1,2) by (auto simp: b_def)
  show "tag_octets class compound tag = [b]"
    using assms(1,2) by (simp add: tag_octets_def Let_def b_def)
  have "k div 2 ^ 6 = class" using assms(2) by (auto simp: k)
  then show "unat (drop_bit 6 b) = class" by (simp only: b unat_drop_bit_byte [OF lt])
  have "k div 2 ^ 5 = 2 * class + (if compound then 1 else 0)" using assms(2) by (auto simp: k)
  then show "b AND 0x20 = 0x20 \<longleftrightarrow> compound"
    by (simp add: b and_20_eq bit_byte_of_nat [OF lt])
  have "k = tag + (2 * class + (if compound then 1 else 0)) * 2 ^ 5" by (simp add: k)
  then have "k mod 2 ^ 5 = tag" using assms(2) by (simp only: mod_mult_self1) simp
  then show "uint (b AND 0x1f) = int tag"
    using unat_take_bit_byte [OF lt, of 5] by (simp only: b and_1f uint_nat)
qed

lemma parse_length_be:
  assumes "int acc * 256 ^ length l + be_val l < 2 ^ 31"
  shows "parse_length (pre @ l @ rest) (length pre) (length l) acc =
    Ok (nat (int acc * 256 ^ length l + be_val l), length pre + length l)"
  using assms
proof (induction l arbitrary: pre acc)
  case (Cons b l)
  have be: "be_val (b # l) = uint b * 256 ^ length l + be_val l"
    by (induction l rule: rev_induct) (simp_all add: be_val_def algebra_simps)
  have "int acc * 256 \<le> int acc * 256 ^ length (b # l)"
    by (intro mult_left_mono) simp_all
  then have acc: "acc < 2 ^ 23"
    using Cons.prems be_val_nonneg [of "b # l"] by simp
  have eq: "int (256 * acc + unat b) * 256 ^ length l + be_val l = int acc * 256 ^ length (b # l) + be_val (b # l)"
    by (simp add: be algebra_simps)
  with Cons.IH [of "256 * acc + unat b" "pre @ [b]"] Cons.prems acc show ?case
    by simp
qed simp

lemma nat_bytes_less: "n < 2 ^ 31 \<Longrightarrow> length (nat_bytes n) \<le> 4"
  by (rule nat_bytes_length) simp

lemma nat_bytes_Nil_iff: "nat_bytes n = [] \<longleftrightarrow> n = 0"
  by (subst nat_bytes.simps) simp

lemma long_length_octet:
  assumes "n \<le> 4"
  shows "bit (word_of_nat (128 + n) :: byte) 7" "unat (word_of_nat (128 + n) AND 0x7f :: byte) = n"
proof -
  obtain k where k: "128 + n = k" by blast
  have k7: "k div 128 = 1" using assms unfolding k [symmetric] by (intro div_nat_eqI) simp_all
  have "k mod 128 = n" using div_mult_mod_eq [of k 128] k k7 by linarith
  with k k7 assms have lt: "k < 256" "odd (k div 2 ^ 7)" "k mod 2 ^ 7 = n" by simp_all
  show "bit (word_of_nat (128 + n) :: byte) 7"
    unfolding k using lt(2) bit_byte_of_nat [OF lt(1), of 7] by simp
  show "unat (word_of_nat (128 + n) AND 0x7f :: byte) = n"
    unfolding k and_7f unat_take_bit_byte [OF lt(1)] by (rule lt)
qed

lemma parseTagAndLength_tlv:
  assumes "class < 4" and "tag < 31" and len: "length content < 2 ^ 31"
  shows "parseTagAndLength (pre @ tlv class compound tag content @ rest) (length pre) =
    Ok (\<lparr>tl_class = class, tl_tag = int tag, tl_length = length content, tl_isCompound = compound\<rparr>,
        length pre + (length (tlv class compound tag content) - length content))"
proof -
  note t = tag_octet [OF assms(1,2), of compound]
  let ?b = "word_of_nat (64 * class + (if compound then 32 else 0) + tag) :: byte"
  let ?n = "length content"
  have tag31: "int tag \<noteq> 31" using assms(2) by simp
  show ?thesis
  proof (cases "?n \<ge> 128")
    case False
    then have n: "length_octets ?n = [word_of_nat ?n]" by (simp add: length_octets_def)
    have "\<not> bit (word_of_nat ?n :: byte) 7" "unat (word_of_nat ?n AND 0x7f :: byte) = ?n"
      using False by (auto simp: bit_byte_of_nat and_7f unat_take_bit_byte)
    then show ?thesis
      using t tag31 by (simp add: parseTagAndLength_def tlv_def n Let_def nth_append and_80_eq_0)
  next
    case True
    let ?l = "nat_bytes ?n"
    have n: "length_octets ?n = word_of_nat (128 + length ?l) # ?l" using True by (simp add: length_octets_def Let_def)
    have l: "length ?l \<le> 4" "?l \<noteq> []" using nat_bytes_less [OF len] True by (auto simp: nat_bytes_Nil_iff)
    let ?c = "word_of_nat (128 + length ?l) :: byte"
    have c: "bit ?c 7" "unat (?c AND 0x7f) = length ?l"
      using long_length_octet [OF l(1)] by (simp_all only: )
    have "parse_length ((pre @ [?b, ?c]) @ ?l @ content @ rest) (length (pre @ [?b, ?c])) (length ?l) 0
      = Ok (?n, length (pre @ [?b, ?c]) + length ?l)"
      using parse_length_be [of 0 ?l "pre @ [?b, ?c]" "content @ rest"] len by (simp add: be_val_nat_bytes)
    then show ?thesis
      using t tag31 c l by (simp add: parseTagAndLength_def tlv_def n Let_def nth_append and_80_eq_0)
  qed
qed

section \<open>Integers\<close>

lemma push_or_byte: "push_bit 8 (w :: 64 word) OR ucast (b :: byte) = 256 * w + ucast b"
proof -
  have "push_bit 8 w AND (ucast b :: 64 word) = 0"
    by (auto simp: bit_eq_iff [where 'a = "64 word"] bit_and_iff bit_push_bit_iff bit_ucast_iff dest: bit_imp_le_length)
  then show ?thesis
    by (simp add: push_bit_eq_mult mult.commute flip: disjunctive_add_eq_or)
qed

lemma shift_in_be_val: "shift_in bs = word_of_int (be_val bs)"
proof (induction bs rule: rev_induct)
  case (snoc b bs)
  have "shift_in (bs @ [b]) = 256 * shift_in bs + ucast b"
    by (simp add: shift_in_def push_or_byte)
  then show ?case by (simp only: snoc be_val_snoc ucast_eq of_int_add of_int_mult of_int_numeral)
qed (simp add: shift_in_def)

lemma bit7_iff: "bit (b :: byte) 7 \<longleftrightarrow> uint b \<ge> 128"
proof -
  have "bit b 7 \<longleftrightarrow> bit (uint b) 7" by (simp add: bit_uint_iff)
  then have "bit b 7 \<longleftrightarrow> odd (uint b div 128)" by (simp only: bit_iff_odd [of "uint b"]) simp
  moreover have "uint b < 256" "0 \<le> uint b" using uint_lt2p [of b] by simp_all
  then have "odd (uint b div 128) \<longleftrightarrow> uint b \<ge> 128" by presburger
  ultimately show ?thesis by simp
qed

lemma and_80_bit: "(b :: byte) AND 0x80 = 0 \<longleftrightarrow> uint b < 128" "(b :: byte) AND 0x80 = 0x80 \<longleftrightarrow> 128 \<le> uint b"
  by (auto simp: and_80_eq_0 and_80_eq bit7_iff)

lemma checkInteger_two:
  "checkInteger (b0 # b1 # bs) =
     (if (b0 = 0 \<and> uint b1 < 128) \<or> (b0 = 0xff \<and> 128 \<le> uint b1)
      then Err (StructuralError ''integer not minimally-encoded'') else Ok ())"
  by (simp add: checkInteger_def idx_def and_80_bit)

lemma checkInteger_one [simp]: "checkInteger [b] = Ok ()"
  by (simp add: checkInteger_def)

lemma byte_eq_iff: "(a :: byte) = b \<longleftrightarrow> uint a = uint b"
  by (simp add: word_uint_eq_iff)

lemma mod_256: "- 256 \<le> j \<Longrightarrow> j < 256 \<Longrightarrow> j mod 256 = (if j < 0 then j + 256 else (j :: int))"
  using mod_pos_pos_trivial [of "j + 256" 256] by auto

lemma byte_split:
  assumes "- 128 \<le> i div 256 \<and> i div 256 \<le> (127 :: int)"
  shows "(i div 256) mod 256 = 0 \<longleftrightarrow> 0 \<le> i \<and> i < 256" "(i div 256) mod 256 = 255 \<longleftrightarrow> - 256 \<le> i \<and> i < 0"
    "0 \<le> i \<and> i < 256 \<Longrightarrow> i mod 256 = i" "- 256 \<le> i \<and> i < 0 \<Longrightarrow> i mod 256 = i + 256"
proof -
  have "i div 256 = 0 \<longleftrightarrow> 0 \<le> i \<and> i < 256" "i div 256 = - 1 \<longleftrightarrow> - 256 \<le> i \<and> i < 0"
    by linarith+
  then show "(i div 256) mod 256 = 0 \<longleftrightarrow> 0 \<le> i \<and> i < 256" "(i div 256) mod 256 = 255 \<longleftrightarrow> - 256 \<le> i \<and> i < 0"
    using mod_256 [of "i div 256"] assms by auto
qed (simp_all add: mod_256)

lemma checkInteger_int_bytes [simp]: "checkInteger (int_bytes i) = Ok ()"
proof (induction i rule: int_bytes.induct)
  case (1 i)
  show ?case
  proof (cases "- 128 \<le> i \<and> i \<le> 127")
    case True
    then show ?thesis by (simp add: int_bytes_small)
  next
    case False
    note eq = int_bytes_big [OF False]
    show ?thesis
    proof (cases "- 128 \<le> i div 256 \<and> i div 256 \<le> 127")
      case True
      have "\<not> ((i div 256) mod 256 = 0 \<and> i mod 256 < 128)" "\<not> ((i div 256) mod 256 = 255 \<and> 128 \<le> i mod 256)"
        using byte_split [OF True] False by (auto simp: not_less)
      then have "\<not> ((word_of_int (i div 256) :: byte) = 0 \<and> uint (word_of_int i :: byte) < 128)"
        "\<not> ((word_of_int (i div 256) :: byte) = 0xff \<and> 128 \<le> uint (word_of_int i :: byte))"
        by (simp_all only: byte_eq_iff uint_byte) simp_all
      then show ?thesis
        by (simp only: eq int_bytes_small [OF True] append_Cons append_Nil checkInteger_two) simp
    next
      case big: False
      obtain x ys where x: "int_bytes (i div 256 div 256) = x # ys"
        using int_bytes_not_Nil [of "i div 256 div 256"] by (cases "int_bytes (i div 256 div 256)") auto
      obtain y zs where "int_bytes (i div 256) = x # y # zs"
        using int_bytes_big [OF big] x by (cases ys) auto
      with "1.IH" [OF False] show ?thesis by (simp add: eq checkInteger_two)
    qed
  qed
qed

lemma word_of_int_mod: "(2 :: int) ^ k * (i mod 2 ^ n) mod 2 ^ (k + n) = 2 ^ k * i mod 2 ^ (k + n)"
  by (simp add: power_add mod_mult_mult1)

lemma sign_extend:
  assumes "0 < n" and "n \<le> 64" and "- (2 ^ (n - 1)) \<le> i" and "i < 2 ^ (n - 1)"
  shows "sint (signed_drop_bit (64 - n) (push_bit (64 - n) (word_of_int (i mod 2 ^ n) :: 64 word))) = i"
proof -
  let ?k = "64 - n"
  have k: "?k + n = 64" "?k + (n - 1) = 63" using assms(1,2) by auto
  have "(word_of_int (2 ^ ?k * (i mod 2 ^ n)) :: 64 word) = word_of_int (2 ^ ?k * i)"
    using word_of_int_mod [of ?k i n] by (simp only: k word_of_int_eq_iff take_bit_eq_mod len_num0 len_of_numeral_defs) simp
  then have push: "push_bit ?k (word_of_int (i mod 2 ^ n) :: 64 word) = word_of_int (2 ^ ?k * i)"
    by (simp add: push_bit_eq_mult mult.commute)
  have "(2 :: int) ^ ?k * 2 ^ (n - 1) = 2 ^ 63" using k(2) by (simp flip: power_add)
  moreover have "2 ^ ?k * - (2 ^ (n - 1)) \<le> 2 ^ ?k * i" "2 ^ ?k * i < 2 ^ ?k * 2 ^ (n - 1)"
    using assms(3,4) by (simp_all only: mult_le_cancel_left_pos mult_less_cancel_left_pos zero_less_power zero_less_numeral)
  ultimately have r: "- (2 ^ 63) \<le> 2 ^ ?k * i" "2 ^ ?k * i < (2 :: int) ^ 63" by simp_all
  have "sint (word_of_int (2 ^ ?k * i) :: 64 word) = 2 ^ ?k * i"
    using r by (simp only: signed_of_int signed_take_bit_int_eq_self) (simp add: signed_take_bit_int_eq_self)
  then show ?thesis by (simp add: push sint_signed_drop_bit_eq drop_bit_eq_div [where 'a = int])
qed

lemma in_int64_length: "in_int64 i \<Longrightarrow> length (int_bytes i) \<le> 8"
  by (rule int_bytes_length_le) (simp_all add: in_int64_def)

lemma parseInt64_int_bytes: "in_int64 i \<Longrightarrow> parseInt64 (int_bytes i) = Ok i"
proof -
  assume i: "in_int64 i"
  let ?n = "length (int_bytes i)"
  have n: "0 < ?n" "?n \<le> 8" using in_int64_length [OF i] by simp_all
  have "sint (signed_drop_bit (64 - 8 * ?n) (push_bit (64 - 8 * ?n) (word_of_int (i mod 2 ^ (8 * ?n)) :: 64 word))) = i"
    using int_bytes_range [of i] n by (intro sign_extend) auto
  moreover have "(256 :: int) ^ ?n = 2 ^ (8 * ?n)" by (simp add: power_mult)
  ultimately show ?thesis
    using n by (simp add: parseInt64_def shift_in_be_val be_val_int_bytes mult.commute [of _ 8] Let_def)
qed

lemma parseInt32_int_bytes: "in_int32 i \<Longrightarrow> parseInt32 (int_bytes i) = Ok i"
proof -
  assume i: "in_int32 i"
  then have "in_int64 i" by (simp add: in_int32_def in_int64_def)
  moreover have "sint (word_of_int i :: 32 word) = i"
    using i by (simp add: signed_of_int signed_take_bit_int_eq_self in_int32_def)
  ultimately show ?thesis by (simp add: parseInt32_def parseInt64_int_bytes)
qed

lemma nat_bytes_hd: "n \<noteq> 0 \<Longrightarrow> nat_bytes n \<noteq> [] \<and> hd (nat_bytes n) \<noteq> 0"
proof (induction n rule: nat_bytes.induct)
  case (1 n)
  show ?case
  proof (cases "n < 256")
    case True
    with 1 have "nat_bytes n = [word_of_nat n]" by (simp add: nat_bytes.simps [of n] nat_bytes.simps [of 0])
    with True 1 show ?thesis by (simp add: byte_eq_iff uint_byte_of_nat)
  next
    case False
    then have "n div 256 \<noteq> 0" by (simp add: div_eq_0_iff)
    with 1 show ?thesis by (simp add: nat_bytes.simps [of n])
  qed
qed

lemma checkInteger_Cons:
  "bs \<noteq> [] \<Longrightarrow> b \<noteq> 0 \<Longrightarrow> b \<noteq> 0xff \<Longrightarrow> checkInteger (b # bs) = Ok ()"
  "bs \<noteq> [] \<Longrightarrow> 128 \<le> uint (hd bs) \<Longrightarrow> checkInteger (0 # bs) = Ok ()"
  "bs = [] \<or> uint (hd bs) < 128 \<Longrightarrow> checkInteger (0xff # bs) = Ok ()"
  by (cases bs; simp add: checkInteger_two)+

lemma be_val_Cons0 [simp]: "be_val (0 # bs) = be_val bs"
  by (simp add: be_val_def)

lemma xor_ff: "(b :: byte) XOR 0xff = NOT b"
proof -
  have "(0xff :: byte) = - 1" by simp
  then show ?thesis by (simp only: bit.xor_one_right)
qed

lemma minus_256 [simp]: "(- 256 :: byte) = 0"
  by (simp add: word_uint_eq_iff)

lemma not_eq_ff: "NOT (b :: byte) = 0xff \<longleftrightarrow> b = 0"
proof
  assume "NOT b = 0xff"
  then have "NOT (NOT b) = NOT 0xff" by (rule arg_cong)
  then show "b = 0" by simp
qed simp

lemma parseBigInt_makeBigInt: "parseBigInt (makeBigInt n) = Ok n"
proof (cases "n > 0")
  case True
  let ?bs = "nat_bytes (nat n)"
  have bs: "?bs \<noteq> []" "hd ?bs \<noteq> 0" using nat_bytes_hd [of "nat n"] True by auto
  have v: "be_val ?bs = n" using True by (simp add: be_val_nat_bytes)
  obtain b cs where c: "?bs = b # cs" using bs by (cases ?bs) auto
  show ?thesis
  proof (cases "uint b < 128")
    case lt: True
    then have "b \<noteq> 0xff" by auto
    then have "checkInteger ?bs = Ok ()" using bs c by (cases cs) (auto simp: checkInteger_Cons)
    moreover have "makeBigInt n = ?bs" using True lt c by (simp add: makeBigInt_def Let_def and_80_bit)
    ultimately show ?thesis using lt c v by (simp add: parseBigInt_def and_80_bit)
  next
    case False
    then have "checkInteger (0 # ?bs) = Ok ()" using bs c by (intro checkInteger_Cons(2)) auto
    moreover have "makeBigInt n = 0 # ?bs" using True False c by (simp add: makeBigInt_def Let_def and_80_bit)
    ultimately show ?thesis using v by (simp add: parseBigInt_def and_80_bit)
  qed
next
  case False
  show ?thesis
  proof (cases "n = 0")
    case True
    then show ?thesis by (simp add: makeBigInt_def parseBigInt_def be_val_def)
  next
    case neg: False
    let ?bs = "map (\<lambda>b. b XOR 0xff) (nat_bytes (nat (- n - 1)))"
    have not: "map NOT ?bs = nat_bytes (nat (- n - 1))" by (simp add: xor_ff comp_def)
    have v: "be_val (map NOT ?bs) = - n - 1" unfolding not using False neg by (simp add: be_val_nat_bytes)
    show ?thesis
    proof (cases "?bs = [] \<or> uint (hd ?bs) < 128")
      case True
      then have "makeBigInt n = 0xff # ?bs" using False neg by (auto simp: makeBigInt_def Let_def and_80_bit)
      moreover have "checkInteger (0xff # ?bs) = Ok ()" using True by (rule checkInteger_Cons(3))
      ultimately show ?thesis using v by (simp add: parseBigInt_def)
    next
      case ge: False
      then obtain b cs where c: "nat_bytes (nat (- n - 1)) = b # cs" by (cases "nat_bytes (nat (- n - 1))") auto
      then have "b \<noteq> 0" using nat_bytes_hd [of "nat (- n - 1)"] by (cases "nat (- n - 1) = 0") (auto simp: nat_bytes.simps)
      then have ff: "NOT b \<noteq> 0xff" by (simp add: not_eq_ff)
      have ub: "128 \<le> uint (NOT b)" using ge c by (simp add: xor_ff)
      then have "NOT b \<noteq> 0" by auto
      with ff have "checkInteger ?bs = Ok ()" using c by (cases cs) (auto simp: checkInteger_Cons xor_ff)
      moreover have "makeBigInt n = ?bs" using False neg ge by (auto simp: makeBigInt_def Let_def and_80_bit)
      ultimately show ?thesis using v c ub by (simp add: parseBigInt_def and_80_bit xor_ff)
    qed
  qed
qed
end
