(* ===== verification/BerValues.thy ===== *)
theory BerValues
  imports BerRoundtrip
begin

text \<open>
  Whole elements: object identifiers, and \<open>ber.Unmarshal\<close> on what \<open>asn1.Marshal\<close> writes for an integer,
  a byte slice, an object identifier, a raw value and the fields of a struct.
\<close>

section \<open>Object identifiers\<close>

definition in_oid :: "int \<Rightarrow> bool" where
  "in_oid i \<longleftrightarrow> 0 \<le> i \<and> i < 2 ^ 63"

lemma push_or_7: "push_bit 7 (w :: 64 word) OR ucast (take_bit 7 (b :: byte)) = 128 * w + ucast (take_bit 7 b)"
proof -
  have "push_bit 7 w AND (ucast (take_bit 7 b) :: 64 word) = 0"
    by (auto simp: bit_eq_iff [where 'a = "64 word"] bit_and_iff bit_push_bit_iff bit_ucast_iff bit_take_bit_iff)
  then show ?thesis
    by (simp add: push_bit_eq_mult mult.commute flip: disjunctive_add_eq_or)
qed

lemma high_octet:
  assumes "n < 128"
  shows "(word_of_nat (128 + n) :: byte) AND 0x80 \<noteq> 0" "take_bit 7 (word_of_nat (128 + n) :: byte) = word_of_nat n"
    "(word_of_nat n :: byte) AND 0x80 = 0" "take_bit 7 (word_of_nat n :: byte) = word_of_nat n"
proof -
  obtain k where k: "128 + n = k" by blast
  have k7: "k div 128 = 1" using assms unfolding k [symmetric] by (intro div_nat_eqI) simp_all
  have m: "k mod 128 = n" using div_mult_mod_eq [of k 128] k k7 by linarith
  have lt: "k < 256" using k assms by simp
  show "(word_of_nat (128 + n) :: byte) AND 0x80 \<noteq> 0"
    unfolding k using k7 bit_byte_of_nat [OF lt, of 7] by (simp add: and_80_eq_0)
  have "unat (take_bit 7 (word_of_nat k :: byte)) = unat (word_of_nat n :: byte)"
    using assms m by (simp only: unat_take_bit_byte [OF lt] unat_byte_of_nat) simp
  then show "take_bit 7 (word_of_nat (128 + n) :: byte) = word_of_nat n"
    unfolding k by (rule word_unat_eq_iff [THEN iffD2])
  have n: "n < 256" using assms by simp
  show "(word_of_nat n :: byte) AND 0x80 = 0"
    using assms bit_byte_of_nat [OF n, of 7] by (simp add: and_80_eq_0)
  have "unat (take_bit 7 (word_of_nat n :: byte)) = unat (word_of_nat n :: byte)"
    using assms by (simp only: unat_take_bit_byte [OF n] unat_byte_of_nat [OF n]) simp
  then show "take_bit 7 (word_of_nat n :: byte) = word_of_nat n" by (rule word_unat_eq_iff [THEN iffD2])
qed

lemma base128_step:
  assumes "n < 128"
  shows "push_bit 7 (word_of_nat m :: 64 word) OR ucast (word_of_nat n :: byte) = word_of_nat (128 * m + n)"
proof -
  have "(ucast (word_of_nat n :: byte) :: 64 word) = word_of_nat n"
    using assms by (simp add: unsigned_of_nat take_bit_nat_eq_self)
  then show ?thesis
    using push_or_7 [of "word_of_nat m" "word_of_nat n"] assms by (simp add: high_octet(4))
qed

lemma base128_high_loop:
  "parseBase128_loop (pre @ base128_high m @ rest) (length pre) 0 =
     parseBase128_loop (pre @ base128_high m @ rest) (length pre + length (base128_high m)) (word_of_nat m)"
proof (induction m arbitrary: rest rule: base128_high.induct)
  case (1 m)
  show ?case
  proof (cases "m = 0")
    case True
    then show ?thesis by (simp add: base128_high.simps)
  next
    case False
    let ?b = "word_of_nat (128 + m mod 128) :: byte"
    have eq: "base128_high m = base128_high (m div 128) @ [?b]" using False by (subst base128_high.simps) simp
    let ?bs = "pre @ base128_high (m div 128) @ ?b # rest"
    let ?o = "length pre + length (base128_high (m div 128))"
    have "parseBase128_loop ?bs ?o (word_of_nat (m div 128)) = parseBase128_loop ?bs (?o + 1) (word_of_nat m)"
      using high_octet [of "m mod 128"] base128_step [of "m mod 128" "m div 128"]
      by (subst parseBase128_loop.simps) (simp add: nth_append and_7f Let_def del: of_nat_add)
    with "1.IH" [OF False, of "?b # rest"] show ?thesis by (simp add: eq)
  qed
qed

lemma base128_not_Nil: "0 \<le> n \<Longrightarrow> base128 n \<noteq> []"
  by (simp add: base128_def)

lemma parseBase128Int'_base128:
  assumes "in_oid n"
  shows "parseBase128Int' (pre @ base128 n @ rest) (length pre) = (Ok n, length pre + length (base128 n))"
proof -
  let ?m = "nat n div 128" and ?b = "word_of_nat (nat n mod 128) :: byte"
  let ?bs = "pre @ base128_high ?m @ ?b # rest"
  have eq: "base128 n = base128_high ?m @ [?b]" using assms by (simp add: base128_def in_oid_def)
  have n: "128 * ?m + nat n mod 128 = nat n" by simp
  have "sint (word_of_nat (nat n) :: 64 word) = n"
    using assms by (simp add: signed_of_int signed_take_bit_int_eq_self in_oid_def)
  then have "parseBase128_loop ?bs (length pre + length (base128_high ?m)) (word_of_nat ?m) =
      (Ok n, length pre + length (base128_high ?m) + 1)"
    using high_octet [of "nat n mod 128"] base128_step [of "nat n mod 128" ?m] n
    by (subst parseBase128_loop.simps) (simp add: nth_append and_7f Let_def del: of_nat_add of_nat_mult)
  then show ?thesis
    using base128_high_loop [of pre ?m "?b # rest"] by (simp add: parseBase128Int'_def eq)
qed

lemma parse_oid_rest_base128:
  "list_all in_oid ns \<Longrightarrow> parse_oid_rest (pre @ concat (map base128 ns)) (length pre) = Ok ns"
proof (induction ns arbitrary: pre)
  case Nil
  then show ?case by (subst parse_oid_rest.simps) simp
next
  case (Cons n ns)
  have ne: "base128 n \<noteq> []" using Cons.prems base128_not_Nil [of n] by (simp add: in_oid_def)
  have "parse_oid_rest (pre @ base128 n @ concat (map base128 ns)) (length pre + length (base128 n)) = Ok ns"
    using Cons.IH [of "pre @ base128 n"] Cons.prems by simp
  with ne Cons.prems show ?case
    by (subst parse_oid_rest.simps) (simp add: parseBase128Int'_base128)
qed

text \<open>The identifiers DER can encode: at least two arcs, the first of which bounds the second.\<close>

fun oid_ok :: "int list \<Rightarrow> bool" where
  "oid_ok (a # b # rest) \<longleftrightarrow>
     0 \<le> a \<and> a \<le> 2 \<and> 0 \<le> b \<and> (a < 2 \<longrightarrow> b < 40) \<and> in_oid (a * 40 + b) \<and> list_all in_oid rest"
| "oid_ok _ \<longleftrightarrow> False"

lemma oid_ok_cases:
  assumes "oid_ok oid"
  obtains a b rest where "oid = a # b # rest" "0 \<le> a" "a \<le> 2" "0 \<le> b" "a < 2 \<longrightarrow> b < 40"
    "in_oid (a * 40 + b)" "list_all in_oid rest"
  using assms by (cases oid rule: oid_ok.cases) auto

lemma first_arcs:
  assumes "0 \<le> a" and "a \<le> 2" and "0 \<le> b" and "a < 2 \<longrightarrow> b < 40"
  shows "(if a * 40 + b < 80 then go_div (a * 40 + b) 40 # go_mod (a * 40 + b) 40 # s else 2 # (a * 40 + b - 80) # s)
    = a # b # s"
proof (cases "a < 2")
  case True
  then have "(a * 40 + b) div 40 = a" "a * 40 + b < 80" "0 \<le> a * 40 + b" using assms by auto
  then show ?thesis
    by (cases "a * 40 + b = 0") (use assms in \<open>auto simp: go_div_def go_mod_def sgn_if\<close>)
next
  case False
  then show ?thesis using assms by auto
qed

lemma makeObjectIdentifier_ok: "oid_ok oid \<Longrightarrow> \<exists>c. makeObjectIdentifier oid = Ok c \<and> parseObjectIdentifier c = Ok oid"
proof (erule oid_ok_cases)
  fix a b rest
  assume oid: "oid = a # b # rest" and ab: "0 \<le> a" "a \<le> 2" "0 \<le> b" "a < 2 \<longrightarrow> b < 40"
    and v: "in_oid (a * 40 + b)" and rest: "list_all in_oid rest"
  let ?v = "a * 40 + b" and ?t = "concat (map base128 rest)"
  have w: "wrap64 ?v = ?v" using v by (auto simp: in_oid_def wrap64_def)
  have ne: "base128 ?v \<noteq> []" using v base128_not_Nil [of ?v] by (simp add: in_oid_def)
  have p: "parseBase128Int' (base128 ?v @ ?t) 0 = (Ok ?v, length (base128 ?v))"
    using parseBase128Int'_base128 [OF v, of "[]"] by simp
  have r: "parse_oid_rest (base128 ?v @ ?t) (length (base128 ?v)) = Ok rest"
    by (rule parse_oid_rest_base128 [OF rest])
  have "parseObjectIdentifier (base128 ?v @ ?t) = Ok oid"
    using ne first_arcs [OF ab, of rest] by (simp add: parseObjectIdentifier_def p r oid)
  then show ?thesis using ab w by (auto simp: makeObjectIdentifier_def oid)
qed

section \<open>Elements\<close>

lemma tlv_not_Nil [simp]: "tlv cls compound tag content \<noteq> []"
  by (auto simp: tlv_def tag_octets_def Let_def)

lemma length_tlv: "length content \<le> length (tlv cls compound tag content)"
  by (simp add: tlv_def)

lemma slice_at_append [simp]: "slice (pre @ mid @ rest) (length pre) (length pre + length mid) = Ok mid"
  by (simp add: slice_def)

lemma slice_tlv:
  "slice (pre @ tlv cls compound tag content @ rest)
     (length pre + (length (tlv cls compound tag content) - length content))
     (length pre + (length (tlv cls compound tag content) - length content) + length content) = Ok content"
proof -
  obtain h where h: "tlv cls compound tag content = h @ content" by (simp add: tlv_def)
  show ?thesis using slice_at_append [of "pre @ h" content rest] by (simp add: h add.assoc)
qed

definition short :: "bytes \<Rightarrow> bool" where
  "short content \<longleftrightarrow> length content < 2 ^ 31"

lemma parseField_raw:
  assumes "cls < 4" and "tag < 31" and "short content"
  shows "parseField T_Raw v (pre @ tlv cls compound tag content @ rest) (length pre) params =
    Ok (V_Raw cls (int tag) compound content (tlv cls compound tag content),
        length pre + length (tlv cls compound tag content))"
proof -
  let ?t = "tlv cls compound tag content"
  have l: "length pre + (length ?t - length content) + length content = length pre + length ?t"
    using length_tlv [of content cls compound tag] by simp
  note p = parseTagAndLength_tlv [of cls tag content pre compound rest] slice_tlv [of pre cls compound tag content rest]
  show ?thesis
    using assms p
    by (subst parseField.simps) (simp add: parse_raw_def short_def invalidLength_def l)
qed

text \<open>\<open>decodes ty enc x\<close>: wherever \<open>enc\<close> stands in the input, decoding a \<open>ty\<close> there yields \<open>x\<close> and
  consumes exactly \<open>enc\<close>.\<close>

definition decodes :: "go_type \<Rightarrow> bytes \<Rightarrow> go_val \<Rightarrow> bool" where
  "decodes ty enc x \<longleftrightarrow>
     (\<forall>v pre rest. parseField ty v (pre @ enc @ rest) (length pre) no_params = Ok (x, length pre + length enc))"

lemma Unmarshal_decodes: "decodes ty enc x \<Longrightarrow> Unmarshal (enc @ rest) ty v = Ok (x, rest)"
proof -
  assume "decodes ty enc x"
  from this [unfolded decodes_def, rule_format, of v "[]" rest] show ?thesis
    by (simp add: Unmarshal_def UnmarshalWithParams_def slice_def)
qed

lemma Unmarshal_decodes_all: "decodes ty enc x \<Longrightarrow> Unmarshal enc ty v = Ok (x, [])"
  using Unmarshal_decodes [of ty enc x "[]" v] by simp

lemma decodes_raw:
  "cls < 4 \<Longrightarrow> tag < 31 \<Longrightarrow> short content \<Longrightarrow>
     decodes T_Raw (tlv cls compound tag content) (V_Raw cls (int tag) compound content (tlv cls compound tag content))"
  by (simp add: decodes_def parseField_raw)

lemma decodes_tlv:
  assumes ty: "ty \<noteq> T_Raw" "getUniversalType ty = (tag, compound, True)" "tag < 31" "tag \<noteq> tagPrintableString"
    and short: "short content" and content: "\<And>v. parse_content ty v tag content = Ok x"
  shows "decodes ty (tlv 0 compound tag content) x"
  unfolding decodes_def
proof (intro allI)
  fix v and pre rest :: bytes
  let ?t = "tlv 0 compound tag content"
  have l: "length pre + (length ?t - length content) + length content = length pre + length ?t"
    using length_tlv [of content 0 compound tag] by simp
  have p: "parseTagAndLength (pre @ ?t @ rest) (length pre) =
      Ok (\<lparr>tl_class = 0, tl_tag = int tag, tl_length = length content, tl_isCompound = compound\<rparr>,
        length pre + (length ?t - length content))"
    using parseTagAndLength_tlv [of 0 tag content pre compound rest] ty(3) short by (simp add: short_def)
  have "parse_header ty v (pre @ ?t @ rest) (length pre) no_params = Ok (H_Content tag content (length pre + length ?t))"
    using ty slice_tlv [of pre 0 compound tag content rest] l
    by (simp add: parse_header_def p expect_def universal_tag_def expected_tag_def no_params_def Let_def
        classUniversal_def invalidLength_def)
  with ty(1) content show "parseField ty v (pre @ ?t @ rest) (length pre) no_params = Ok (x, length pre + length ?t)"
    by (subst parseField.simps) (simp add: no_params_def)
qed

lemma decodes_int:
  "in_int32 i \<Longrightarrow> decodes T_Int32 (marshal_int i) (V_Int i)"
  "in_int64 i \<Longrightarrow> decodes T_Int64 (marshal_int i) (V_Int i)"
proof -
  have *: "length (int_bytes i) \<le> 8" if "in_int64 i" using that by (rule in_int64_length)
  show "in_int32 i \<Longrightarrow> decodes T_Int32 (marshal_int i) (V_Int i)"
    unfolding marshal_int_def using *
    by (intro decodes_tlv) (auto simp: ber_consts short_def parseInt32_int_bytes)
  show "in_int64 i \<Longrightarrow> decodes T_Int64 (marshal_int i) (V_Int i)"
    unfolding marshal_int_def using *
    by (intro decodes_tlv) (auto simp: ber_consts short_def parseInt64_int_bytes)
qed

lemma decodes_big: "short (makeBigInt i) \<Longrightarrow> decodes T_BigInt (marshal_big i) (V_Int i)"
  unfolding marshal_big_def by (intro decodes_tlv) (auto simp: ber_consts parseBigInt_makeBigInt)

lemma decodes_octets: "short b \<Longrightarrow> decodes T_Octets (marshal_octets b) (V_Octets b)"
  unfolding marshal_octets_def by (intro decodes_tlv) (auto simp: ber_consts)

lemma decodes_oid:
  assumes "oid_ok oid" and "makeObjectIdentifier oid = Ok c" and "short c"
  shows "decodes T_OID (tlv 0 False 6 c) (V_OID oid)"
  using makeObjectIdentifier_ok [OF assms(1)] assms(2,3)
  by (intro decodes_tlv) (auto simp: ber_consts)

inductive decode_fields :: "(string \<times> go_type) list \<Rightarrow> bytes list \<Rightarrow> go_val list \<Rightarrow> bool" where
  "decode_fields [] [] []"
| "decodes ty enc x \<Longrightarrow> decode_fields fs encs xs \<Longrightarrow> decode_fields (([], ty) # fs) (enc # encs) (x # xs)"

lemma parse_fields_decode:
  "decode_fields fs encs xs \<Longrightarrow> parse_fields fs vs (pre @ concat encs @ rest) (length pre) = Ok xs"
proof (induction arbitrary: pre vs rule: decode_fields.induct)
  case (2 ty enc x fs encs xs)
  from 2(1) have "parseField ty (hd_val vs) (pre @ enc @ (concat encs @ rest)) (length pre) no_params
      = Ok (x, length pre + length enc)"
    unfolding decodes_def by blast
  with 2(3) [of "tl vs" "pre @ enc"] show ?case by simp
qed simp

lemma decodes_struct:
  assumes "decode_fields fs encs xs" and "short (concat encs)"
  shows "decodes (T_Struct False fs) (marshal_struct encs) (V_Struct xs)"
  unfolding marshal_struct_def
  by (intro decodes_tlv) (use assms parse_fields_decode [OF assms(1), of _ "[]" "[]"] in \<open>auto simp: ber_consts\<close>)

end
