(* ===== verification/Variables.thy ===== *)
theory Variables
  imports Oid BerValues
begin

text \<open>
  The variables of \<open>snmpgo/variables.go\<close>. A value of the interface \<open>Variable\<close> is a constructor of
  \<open>variable\<close>; the receiver of \<open>Unmarshal\<close> is the zero value of its type, and the result the value it
  then has, with the bytes behind.
\<close>

section \<open>Variables\<close>

datatype variable =
    Integer "32 word"
  | OctetString bytes
  | Null
  | OidVar oid
  | Ipaddress bytes
  | Counter32 "32 word"
  | Gauge32 "32 word"
  | TimeTicks "32 word"
  | Opaque bytes
  | Counter64 "64 word"
  | NoSucheObject
  | NoSucheInstance
  | EndOfMibView

definition printable :: "byte \<Rightarrow> bool" where
  "printable c \<longleftrightarrow> in_range c 0x20 0x7e \<or> in_range c 0x09 0x0d"

definition Integer_String :: "32 word \<Rightarrow> string" where
  [simp]: "Integer_String v = itoa (sint v)"

definition OctetString_String :: "bytes \<Rightarrow> string" where
  [simp]: "OctetString_String v = (if list_all printable v then string_of_bytes v else toHexStr v '':'')"

definition Null_String :: "string" where
  [simp]: "Null_String = []"

definition Ipaddress_String :: "bytes \<Rightarrow> string" where
  [simp]: "Ipaddress_String v = join ''.'' (map (\<lambda>b. itoa (uint b)) v)"

definition Counter32_String :: "32 word \<Rightarrow> string" where
  [simp]: "Counter32_String v = itoa (uint v)"

definition Opaque_String :: "bytes \<Rightarrow> string" where
  [simp]: "Opaque_String v = toHexStr v '':''"

definition Counter64_String :: "64 word \<Rightarrow> string" where
  [simp]: "Counter64_String v = itoa (uint v)"

fun Variable_String :: "variable \<Rightarrow> string" where
  "Variable_String (Integer v) = Integer_String v"
| "Variable_String (OctetString v) = OctetString_String v"
| "Variable_String Null = Null_String"
| "Variable_String (OidVar v) = Oid_String v"
| "Variable_String (Ipaddress v) = Ipaddress_String v"
| "Variable_String (Counter32 v) = Counter32_String v"
| "Variable_String (Gauge32 v) = Counter32_String v"
| "Variable_String (TimeTicks v) = Counter32_String v"
| "Variable_String (Opaque v) = Opaque_String v"
| "Variable_String (Counter64 v) = Counter64_String v"
| "Variable_String NoSucheObject = Null_String"
| "Variable_String NoSucheInstance = Null_String"
| "Variable_String EndOfMibView = Null_String"

definition Integer_Type :: "32 word \<Rightarrow> string" where
  [simp]: "Integer_Type v = ''Integer''"

definition OctetString_Type :: "bytes \<Rightarrow> string" where
  [simp]: "OctetString_Type v = ''OctetString''"

definition Null_Type :: "string" where
  [simp]: "Null_Type = ''Null''"

definition Oid_Type :: "oid \<Rightarrow> string" where
  [simp]: "Oid_Type v = ''Oid''"

definition Ipaddress_Type :: "bytes \<Rightarrow> string" where
  [simp]: "Ipaddress_Type v = ''Ipaddress''"

definition Counter32_Type :: "32 word \<Rightarrow> string" where
  [simp]: "Counter32_Type v = ''Counter32''"

definition Gauge32_Type :: "32 word \<Rightarrow> string" where
  [simp]: "Gauge32_Type v = ''Gauge32''"

definition TimeTicks_Type :: "32 word \<Rightarrow> string" where
  [simp]: "TimeTicks_Type v = ''TimeTicks''"

definition Opaque_Type :: "bytes \<Rightarrow> string" where
  [simp]: "Opaque_Type v = ''Opaque''"

definition Counter64_Type :: "64 word \<Rightarrow> string" where
  [simp]: "Counter64_Type v = ''Counter64''"

definition NoSucheObject_Type :: "string" where
  [simp]: "NoSucheObject_Type = ''NoSucheObject''"

definition NoSucheInstance_Type :: "string" where
  [simp]: "NoSucheInstance_Type = ''NoSucheInstance''"

definition EndOfMibView_Type :: "string" where
  [simp]: "EndOfMibView_Type = ''EndOfMibView''"

fun Variable_Type :: "variable \<Rightarrow> string" where
  "Variable_Type (Integer v) = Integer_Type v"
| "Variable_Type (OctetString v) = OctetString_Type v"
| "Variable_Type Null = Null_Type"
| "Variable_Type (OidVar v) = Oid_Type v"
| "Variable_Type (Ipaddress v) = Ipaddress_Type v"
| "Variable_Type (Counter32 v) = Counter32_Type v"
| "Variable_Type (Gauge32 v) = Gauge32_Type v"
| "Variable_Type (TimeTicks v) = TimeTicks_Type v"
| "Variable_Type (Opaque v) = Opaque_Type v"
| "Variable_Type (Counter64 v) = Counter64_Type v"
| "Variable_Type NoSucheObject = NoSucheObject_Type"
| "Variable_Type NoSucheInstance = NoSucheInstance_Type"
| "Variable_Type EndOfMibView = EndOfMibView_Type"

text \<open>The shift \<open>uint(24-8*i)\<close> is enormous for \<open>i > 3\<close>, and shifts everything out.\<close>

fun ip_word :: "nat \<Rightarrow> bytes \<Rightarrow> 32 word \<Rightarrow> 32 word" where
  "ip_word i [] t = t"
| "ip_word i (b # bs) t = ip_word (Suc i) bs (t + (if i \<le> 3 then push_bit (24 - 8 * i) (ucast b) else 0))"

definition Integer_BigInt :: "32 word \<Rightarrow> int outcome" where
  [simp]: "Integer_BigInt v = Ok (sint v)"

definition OctetString_BigInt :: "bytes \<Rightarrow> int outcome" where
  [simp]: "OctetString_BigInt v = Err UnsupportedOperation"

definition Null_BigInt :: "int outcome" where
  [simp]: "Null_BigInt = Err UnsupportedOperation"

definition Oid_BigInt :: "oid \<Rightarrow> int outcome" where
  [simp]: "Oid_BigInt v = Err UnsupportedOperation"

definition Ipaddress_BigInt :: "bytes \<Rightarrow> int outcome" where
  [simp]: "Ipaddress_BigInt v = Ok (uint (ip_word 0 v 0))"

definition Counter32_BigInt :: "32 word \<Rightarrow> int outcome" where
  [simp]: "Counter32_BigInt v = Ok (uint v)"

definition Counter64_BigInt :: "64 word \<Rightarrow> int outcome" where
  [simp]: "Counter64_BigInt v = Ok (uint v)"

fun Variable_BigInt :: "variable \<Rightarrow> int outcome" where
  "Variable_BigInt (Integer v) = Integer_BigInt v"
| "Variable_BigInt (OctetString v) = OctetString_BigInt v"
| "Variable_BigInt Null = Null_BigInt"
| "Variable_BigInt (OidVar v) = Oid_BigInt v"
| "Variable_BigInt (Ipaddress v) = Ipaddress_BigInt v"
| "Variable_BigInt (Counter32 v) = Counter32_BigInt v"
| "Variable_BigInt (Gauge32 v) = Counter32_BigInt v"
| "Variable_BigInt (TimeTicks v) = Counter32_BigInt v"
| "Variable_BigInt (Opaque v) = OctetString_BigInt v"
| "Variable_BigInt (Counter64 v) = Counter64_BigInt v"
| "Variable_BigInt NoSucheObject = Null_BigInt"
| "Variable_BigInt NoSucheInstance = Null_BigInt"
| "Variable_BigInt EndOfMibView = Null_BigInt"

text \<open>\<open>b[0] = tag\<close> on a successful encoding, which is never empty.\<close>

definition retag :: "byte \<Rightarrow> bytes \<Rightarrow> bytes" where
  "retag tag b = b[0 := tag]"

definition Integer_Marshal :: "32 word \<Rightarrow> bytes outcome" where
  [simp]: "Integer_Marshal v = Ok (marshal_int (sint v))"

definition OctetString_Marshal :: "bytes \<Rightarrow> bytes outcome" where
  [simp]: "OctetString_Marshal v = Ok (marshal_octets v)"

definition Null_Marshal :: "bytes outcome" where
  [simp]: "Null_Marshal = Ok [tagNull, 0]"

definition Oid_Marshal :: "oid \<Rightarrow> bytes outcome" where
  [simp]: "Oid_Marshal v = marshal_oid v"

definition Ipaddress_Marshal :: "bytes \<Rightarrow> bytes outcome" where
  [simp]: "Ipaddress_Marshal v = Ok (retag tagIpaddress (marshal_octets v))"

definition Counter32_Marshal :: "32 word \<Rightarrow> bytes outcome" where
  [simp]: "Counter32_Marshal v = Ok (retag tagCounter32 (marshal_int (uint v)))"

definition Gauge32_Marshal :: "32 word \<Rightarrow> bytes outcome" where
  [simp]: "Gauge32_Marshal v = Ok (retag tagGauge32 (marshal_int (uint v)))"

definition TimeTicks_Marshal :: "32 word \<Rightarrow> bytes outcome" where
  [simp]: "TimeTicks_Marshal v = Ok (retag tagTimeTicks (marshal_int (uint v)))"

definition Opaque_Marshal :: "bytes \<Rightarrow> bytes outcome" where
  [simp]: "Opaque_Marshal v = Ok (retag tagOpaque (marshal_octets v))"

definition Counter64_Marshal :: "64 word \<Rightarrow> bytes outcome" where
  [simp]: "Counter64_Marshal v = Ok (retag tagCounter64 (marshal_big (uint v)))"

definition NoSucheObject_Marshal :: "bytes outcome" where
  [simp]: "NoSucheObject_Marshal = Ok [tagNoSucheObject, 0]"

definition NoSucheInstance_Marshal :: "bytes outcome" where
  [simp]: "NoSucheInstance_Marshal = Ok [tagNoSucheInstance, 0]"

definition EndOfMibView_Marshal :: "bytes outcome" where
  [simp]: "EndOfMibView_Marshal = Ok [tagEndOfMibView, 0]"

fun Variable_Marshal :: "variable \<Rightarrow> bytes outcome" where
  "Variable_Marshal (Integer v) = Integer_Marshal v"
| "Variable_Marshal (OctetString v) = OctetString_Marshal v"
| "Variable_Marshal Null = Null_Marshal"
| "Variable_Marshal (OidVar v) = Oid_Marshal v"
| "Variable_Marshal (Ipaddress v) = Ipaddress_Marshal v"
| "Variable_Marshal (Counter32 v) = Counter32_Marshal v"
| "Variable_Marshal (Gauge32 v) = Gauge32_Marshal v"
| "Variable_Marshal (TimeTicks v) = TimeTicks_Marshal v"
| "Variable_Marshal (Opaque v) = Opaque_Marshal v"
| "Variable_Marshal (Counter64 v) = Counter64_Marshal v"
| "Variable_Marshal NoSucheObject = NoSucheObject_Marshal"
| "Variable_Marshal NoSucheInstance = NoSucheInstance_Marshal"
| "Variable_Marshal EndOfMibView = EndOfMibView_Marshal"

text \<open>The constructor functions of the types.\<close>

definition NewInteger :: "32 word \<Rightarrow> variable" where
  "NewInteger i = Integer i"

definition NewOctetString :: "bytes \<Rightarrow> variable" where
  "NewOctetString b = OctetString b"

definition NewNull :: variable where
  "NewNull = Null"

definition NewIpaddress :: "byte \<Rightarrow> byte \<Rightarrow> byte \<Rightarrow> byte \<Rightarrow> variable" where
  "NewIpaddress a b c d = Ipaddress [a, b, c, d]"

definition NewCounter32 :: "32 word \<Rightarrow> variable" where
  "NewCounter32 i = Counter32 i"

definition NewGauge32 :: "32 word \<Rightarrow> variable" where
  "NewGauge32 i = Gauge32 i"

definition NewTimeTicks :: "32 word \<Rightarrow> variable" where
  "NewTimeTicks i = TimeTicks i"

definition NewOpaque :: "bytes \<Rightarrow> variable" where
  "NewOpaque b = Opaque b"

definition NewCounter64 :: "64 word \<Rightarrow> variable" where
  "NewCounter64 i = Counter64 i"

definition NewNoSucheObject :: variable where
  "NewNoSucheObject = NoSucheObject"

definition NewNoSucheInstance :: variable where
  "NewNoSucheInstance = NoSucheInstance"

definition NewEndOfMibView :: variable where
  "NewEndOfMibView = EndOfMibView"

section \<open>Decoding variables\<close>

fun val_int :: "go_val \<Rightarrow> int" where
  "val_int (V_Int i) = i"
| "val_int _ = 0"

fun val_octets :: "go_val \<Rightarrow> bytes" where
  "val_octets (V_Octets b) = b"
| "val_octets _ = []"

fun val_oid :: "go_val \<Rightarrow> oid" where
  "val_oid (V_OID o') = o'"
| "val_oid _ = []"

definition validateUnmarshal :: "bytes \<Rightarrow> byte \<Rightarrow> unit outcome" where
  "validateUnmarshal b tag =
     (if length b < 1 then Err (StructuralError ''No bytes'')
      else and_then (idx b 0) (\<lambda>b0.
        if b0 \<noteq> tag then
          Err (StructuralError (''Invalid ASN.1 object - expected ['' @ hex2 tag @ ''], actual ['' @ hex2 b0 @
            ''] : '' @ toHexStr b '' ''))
        else Ok ()))"

definition unmarshalEmpty :: "bytes \<Rightarrow> byte \<Rightarrow> bytes outcome" where
  "unmarshalEmpty b tag =
     and_then (validateUnmarshal b tag) (\<lambda>_. and_then (Unmarshal b T_Raw V_Zero) (\<lambda>(raw, rest). Ok rest))"

text \<open>
  \<open>unmarshalInt\<close> and \<open>unmarshalString\<close> overwrite the first byte with the universal tag for the call
  and put the old one back behind it.
\<close>

definition unmarshalInt :: "bytes \<Rightarrow> byte \<Rightarrow> (int \<times> bytes) outcome" where
  "unmarshalInt b tag =
     and_then (validateUnmarshal b tag) (\<lambda>_.
       and_then (Unmarshal (b[0 := tagInteger']) T_BigInt V_Zero) (\<lambda>(i, rest). Ok (val_int i, rest)))"

definition unmarshalString :: "bytes \<Rightarrow> byte \<Rightarrow> (bytes \<times> bytes) outcome" where
  "unmarshalString b tag =
     and_then (validateUnmarshal b tag) (\<lambda>_.
       and_then (Unmarshal (b[0 := tagOctetString']) T_Octets V_Zero) (\<lambda>(s, rest). Ok (val_octets s, rest)))"

definition Oid_Unmarshal :: "bytes \<Rightarrow> (oid \<times> bytes) outcome" where
  "Oid_Unmarshal b = and_then (Unmarshal b T_OID V_Zero) (\<lambda>(i, rest). Ok (val_oid i, rest))"

text \<open>
  \<open>uint32(s.Int64())\<close> keeps the low 32 bits in two's complement; \<open>s.Uint64()\<close> is the low word of the
  magnitude, whatever the sign (\<open>math/big\<close> leaves the result for a negative number open).
\<close>

definition Integer_Unmarshal :: "32 word \<Rightarrow> bytes \<Rightarrow> (variable \<times> bytes) outcome" where
  [simp]: "Integer_Unmarshal v b =
     and_then (Unmarshal b T_Int32 (V_Int (sint v))) (\<lambda>(i, rest). Ok (Integer (word_of_int (val_int i)), rest))"

definition OctetString_Unmarshal :: "bytes \<Rightarrow> bytes \<Rightarrow> (variable \<times> bytes) outcome" where
  [simp]: "OctetString_Unmarshal v b =
     and_then (unmarshalString b tagOctetString') (\<lambda>(s, rest). Ok (OctetString s, rest))"

definition Null_Unmarshal :: "bytes \<Rightarrow> (variable \<times> bytes) outcome" where
  [simp]: "Null_Unmarshal b = and_then (unmarshalEmpty b tagNull) (\<lambda>rest. Ok (Null, rest))"

definition Ipaddress_Unmarshal :: "bytes \<Rightarrow> bytes \<Rightarrow> (variable \<times> bytes) outcome" where
  [simp]: "Ipaddress_Unmarshal v b =
     and_then (unmarshalString b tagIpaddress) (\<lambda>(s, rest). Ok (Ipaddress s, rest))"

definition Counter32_Unmarshal :: "32 word \<Rightarrow> bytes \<Rightarrow> (variable \<times> bytes) outcome" where
  [simp]: "Counter32_Unmarshal v b =
     and_then (unmarshalInt b tagCounter32) (\<lambda>(s, rest). Ok (Counter32 (word_of_int s), rest))"

definition Gauge32_Unmarshal :: "32 word \<Rightarrow> bytes \<Rightarrow> (variable \<times> bytes) outcome" where
  [simp]: "Gauge32_Unmarshal v b =
     and_then (unmarshalInt b tagGauge32) (\<lambda>(s, rest). Ok (Gauge32 (word_of_int s), rest))"

definition TimeTicks_Unmarshal :: "32 word \<Rightarrow> bytes \<Rightarrow> (variable \<times> bytes) outcome" where
  [simp]: "TimeTicks_Unmarshal v b =
     and_then (unmarshalInt b tagTimeTicks) (\<lambda>(s, rest). Ok (TimeTicks (word_of_int s), rest))"

definition Opaque_Unmarshal :: "bytes \<Rightarrow> bytes \<Rightarrow> (variable \<times> bytes) outcome" where
  [simp]: "Opaque_Unmarshal v b =
     and_then (unmarshalString b tagOpaque) (\<lambda>(s, rest). Ok (Opaque s, rest))"

definition Counter64_Unmarshal :: "64 word \<Rightarrow> bytes \<Rightarrow> (variable \<times> bytes) outcome" where
  [simp]: "Counter64_Unmarshal v b =
     and_then (unmarshalInt b tagCounter64) (\<lambda>(s, rest). Ok (Counter64 (word_of_int \<bar>s\<bar>), rest))"

definition NoSucheObject_Unmarshal :: "bytes \<Rightarrow> (variable \<times> bytes) outcome" where
  [simp]: "NoSucheObject_Unmarshal b =
     and_then (unmarshalEmpty b tagNoSucheObject) (\<lambda>rest. Ok (NoSucheObject, rest))"

definition NoSucheInstance_Unmarshal :: "bytes \<Rightarrow> (variable \<times> bytes) outcome" where
  [simp]: "NoSucheInstance_Unmarshal b =
     and_then (unmarshalEmpty b tagNoSucheInstance) (\<lambda>rest. Ok (NoSucheInstance, rest))"

definition EndOfMibView_Unmarshal :: "bytes \<Rightarrow> (variable \<times> bytes) outcome" where
  [simp]: "EndOfMibView_Unmarshal b =
     and_then (unmarshalEmpty b tagEndOfMibView) (\<lambda>rest. Ok (EndOfMibView, rest))"

fun Variable_Unmarshal :: "variable \<Rightarrow> bytes \<Rightarrow> (variable \<times> bytes) outcome" where
  "Variable_Unmarshal (Integer v) b = Integer_Unmarshal v b"
| "Variable_Unmarshal (OctetString v) b = OctetString_Unmarshal v b"
| "Variable_Unmarshal Null b = Null_Unmarshal b"
| "Variable_Unmarshal (OidVar v) b = and_then (Oid_Unmarshal b) (\<lambda>(i, rest). Ok (OidVar i, rest))"
| "Variable_Unmarshal (Ipaddress v) b = Ipaddress_Unmarshal v b"
| "Variable_Unmarshal (Counter32 v) b = Counter32_Unmarshal v b"
| "Variable_Unmarshal (Gauge32 v) b = Gauge32_Unmarshal v b"
| "Variable_Unmarshal (TimeTicks v) b = TimeTicks_Unmarshal v b"
| "Variable_Unmarshal (Opaque v) b = Opaque_Unmarshal v b"
| "Variable_Unmarshal (Counter64 v) b = Counter64_Unmarshal v b"
| "Variable_Unmarshal NoSucheObject b = NoSucheObject_Unmarshal b"
| "Variable_Unmarshal NoSucheInstance b = NoSucheInstance_Unmarshal b"
| "Variable_Unmarshal EndOfMibView b = EndOfMibView_Unmarshal b"

text \<open>The switch of \<open>unmarshalVariable\<close> over class and tag; the zero value of the chosen type.\<close>

definition masked :: "byte \<Rightarrow> int" where
  "masked tag = uint (tag AND tagMask)"

definition variable_of_tag :: "nat \<Rightarrow> int \<Rightarrow> variable option" where
  "variable_of_tag cls tag =
     (if cls = classUniversal then
        (if tag = uint tagInteger' then Some (Integer 0)
         else if tag = uint tagOctetString' then Some (OctetString [])
         else if tag = uint tagNull then Some Null
         else if tag = int tagOID then Some (OidVar [])
         else None)
      else if cls = classApplication then
        (if tag = masked tagIpaddress then Some (Ipaddress [])
         else if tag = masked tagCounter32 then Some (Counter32 0)
         else if tag = masked tagGauge32 then Some (Gauge32 0)
         else if tag = masked tagTimeTicks then Some (TimeTicks 0)
         else if tag = masked tagOpaque then Some (Opaque [])
         else if tag = masked tagCounter64 then Some (Counter64 0)
         else None)
      else if cls = classContextSpecific then
        (if tag = masked tagNoSucheObject then Some NoSucheObject
         else if tag = masked tagNoSucheInstance then Some NoSucheInstance
         else if tag = masked tagEndOfMibView then Some EndOfMibView
         else None)
      else None)"

record raw_value =
  Class :: nat
  Tag :: int
  IsCompound :: bool
  Bytes :: bytes

fun val_raw :: "go_val \<Rightarrow> raw_value" where
  "val_raw (V_Raw cls tag compound b full) = \<lparr>Class = cls, Tag = tag, IsCompound = compound, Bytes = b\<rparr>"
| "val_raw _ = \<lparr>Class = 0, Tag = 0, IsCompound = False, Bytes = []\<rparr>"

definition unmarshal_raw :: "bytes \<Rightarrow> (raw_value \<times> bytes) outcome" where
  "unmarshal_raw b = and_then (Unmarshal b T_Raw V_Zero) (\<lambda>(v, rest). Ok (val_raw v, rest))"

definition unmarshalVariable :: "bytes \<Rightarrow> (variable \<times> bytes) outcome" where
  "unmarshalVariable b =
     and_then (unmarshal_raw b) (\<lambda>(raw, rest).
       case variable_of_tag (Class raw) (Tag raw) of
         Some v \<Rightarrow> Variable_Unmarshal v b
       | None \<Rightarrow> Err (StructuralError (''Unknown ASN.1 object : '' @ toHexStr b '' '')))"

end
