(* ===== verification/VariableRoundtrip.thy ===== *)
theory VariableRoundtrip
  imports Variables
begin

text \<open>
  Decoding what the encoder wrote, for every kind of variable, and decoding arbitrary bytes.
\<close>

section \<open>Tags\<close>

lemma tlv_low:
  "cls < 4 \<Longrightarrow> tag < 31 \<Longrightarrow> tlv cls False tag c = word_of_nat (64 * cls + tag) # length_octets (length c) @ c"
  using tag_octet(1) [of cls tag False] by (simp add: tlv_def)

lemma retag_tlv:
  assumes "cls < 4" "tag < 31" "cls' < 4" "tag' < 31" "b = word_of_nat (64 * cls' + tag')"
  shows "retag b (tlv cls False tag c) = tlv cls' False tag' c"
    "(tlv cls False tag c @ rest)[0 := b] = tlv cls' False tag' c @ rest"
  using assms by (simp_all add: retag_def tlv_low)

lemma Unmarshal_raw_tlv:
  assumes "cls < 4" "tag < 31" "short c"
  shows "unmarshal_raw (tlv cls compound tag c @ rest) =
    Ok (\<lparr>Class = cls, Tag = int tag, IsCompound = compound, Bytes = c\<rparr>, rest)"
  using Unmarshal_decodes [OF decodes_raw [OF assms, of compound], of rest V_Zero] by (simp add: unmarshal_raw_def)

lemma hd_tlv [simp]: "cls < 4 \<Longrightarrow> tag < 31 \<Longrightarrow> (tlv cls False tag c @ rest) ! 0 = word_of_nat (64 * cls + tag)"
  by (simp add: tlv_low)

lemma validate_tlv:
  "cls < 4 \<Longrightarrow> tag < 31 \<Longrightarrow> b = word_of_nat (64 * cls + tag) \<Longrightarrow>
     validateUnmarshal (tlv cls False tag c @ rest) b = Ok ()"
  by (simp add: validateUnmarshal_def tlv_low)

lemma unmarshalString_tlv:
  assumes "cls < 4" "tag < 31" "b = word_of_nat (64 * cls + tag)" "short c"
  shows "unmarshalString (tlv cls False tag c @ rest) b = Ok (c, rest)"
proof -
  have "(tlv cls False tag c @ rest)[0 := tagOctetString'] = marshal_octets c @ rest"
    unfolding marshal_octets_def using assms by (intro retag_tlv(2)) (simp_all add: tag_defs)
  then show ?thesis
    using assms validate_tlv [of cls tag b c rest] Unmarshal_decodes [OF decodes_octets [OF assms(4)], of rest V_Zero]
    by (simp add: unmarshalString_def)
qed

lemma unmarshalInt_tlv:
  assumes "cls < 4" "tag < 31" "b = word_of_nat (64 * cls + tag)" "short c" "parseBigInt c = Ok i"
  shows "unmarshalInt (tlv cls False tag c @ rest) b = Ok (i, rest)"
proof -
  have "(tlv cls False tag c @ rest)[0 := tagInteger'] = tlv 0 False 2 c @ rest"
    using assms by (intro retag_tlv(2)) (simp_all add: tag_defs)
  moreover have "decodes T_BigInt (tlv 0 False 2 c) (V_Int i)"
    using assms by (intro decodes_tlv) (auto simp: ber_consts)
  ultimately show ?thesis
    using assms validate_tlv [of cls tag b c rest] Unmarshal_decodes [of T_BigInt _ "V_Int i" rest V_Zero]
    by (simp add: unmarshalInt_def)
qed

lemma unmarshalEmpty_tlv:
  assumes "cls < 4" "tag < 31" "b = word_of_nat (64 * cls + tag)"
  shows "unmarshalEmpty (tlv cls False tag [] @ rest) b = Ok rest"
  using assms validate_tlv [of cls tag b "[]" rest] Unmarshal_decodes [OF decodes_raw [of cls tag "[]" False], of rest V_Zero]
  by (simp add: unmarshalEmpty_def short_def)

section \<open>Sizes\<close>

lemma be_val_Cons: "be_val (b # bs) = uint b * 256 ^ length bs + be_val bs"
  by (induction bs rule: rev_induct) (simp_all add: be_val_def algebra_simps)

text \<open>A natural number in \<open>int64\<close> form is read back as a big integer.\<close>

lemma parseBigInt_int_bytes:
  assumes "0 \<le> i"
  shows "parseBigInt (int_bytes i) = Ok i"
proof -
  obtain b bs where eq: "int_bytes i = b # bs" using int_bytes_not_Nil [of i] by (cases "int_bytes i") auto
  have p: "(2::int) ^ (8 * length (int_bytes i) - 1) = 128 * 256 ^ length bs"
    by (simp add: eq power_add power_mult [of 2 8] flip: power_mult)
  have lt: "i < 128 * 256 ^ length bs" using int_bytes_range [of i] p by simp
  also have "\<dots> \<le> 256 ^ length (int_bytes i)" by (simp add: eq)
  finally have "i < 256 ^ length (int_bytes i)" .
  then have v: "be_val (int_bytes i) = i" using assms be_val_int_bytes [of i] by simp
  have "uint b < 128"
  proof (rule ccontr)
    assume "\<not> uint b < 128"
    then have "128 * 256 ^ length bs \<le> uint b * (256 :: int) ^ length bs" by (intro mult_right_mono) auto
    with lt v eq be_val_Cons [of b bs] be_val_nonneg [of bs] show False by simp
  qed
  then have "b AND 0x80 \<noteq> 0x80" by (simp add: and_80_bit)
  then show ?thesis using v checkInteger_int_bytes [of i] by (simp add: parseBigInt_def eq)
qed

lemma length_base128_high: "m < 128 ^ k \<Longrightarrow> length (base128_high m) \<le> k"
proof (induction k arbitrary: m)
  case 0
  then show ?case by (simp add: base128_high.simps)
next
  case (Suc k)
  then have "length (base128_high (m div 128)) \<le> k"
    by (intro Suc.IH) (simp add: less_mult_imp_div_less mult.commute)
  then show ?case by (simp add: base128_high.simps [of m])
qed

lemma length_base128: "in_oid n \<Longrightarrow> length (base128 n) \<le> 10"
proof -
  assume n: "in_oid n"
  then have "nat n < 2 ^ 63" by (simp add: in_oid_def nat_less_iff)
  then have "nat n div 128 < 128 ^ 9" by (simp add: div_less_iff_less_mult)
  from length_base128_high [OF this] n show ?thesis by (simp add: base128_def in_oid_def)
qed

lemma length_base128_list: "list_all in_oid ns \<Longrightarrow> length (concat (map base128 ns)) \<le> 10 * length ns"
proof (induction ns)
  case (Cons n ns)
  then show ?case using length_base128 [of n] by simp
qed simp

text \<open>The identifiers a message carries: those DER encodes, of reasonable length.\<close>

definition oid_fits :: "oid \<Rightarrow> bool" where
  "oid_fits v \<longleftrightarrow> oid_ok v \<and> length v \<le> 2 ^ 20"

lemma oid_wf_fits: "oid_wf v \<Longrightarrow> oid_fits v"
proof -
  assume v: "oid_wf v"
  then obtain a b w where eq: "v = a # b # w" by (cases v; cases "tl v") (auto simp: oid_wf_def)
  have "list_all in_oid w" using v by (auto simp: eq oid_wf_def in_oid_def MaxUint32_def list_all_iff)
  then show ?thesis using v by (auto simp: oid_fits_def oid_wf_def eq in_oid_def MaxUint32_def)
qed

lemma oid_encoding:
  assumes "oid_fits v"
  obtains c where "marshal_oid v = Ok (tlv 0 False 6 c)" "short c" "decodes T_OID (tlv 0 False 6 c) (V_OID v)"
    "length c \<le> 10 * 2 ^ 20" "makeObjectIdentifier v = Ok c"
proof -
  from assms have ok: "oid_ok v" and len: "length v \<le> 2 ^ 20" by (simp_all add: oid_fits_def)
  from makeObjectIdentifier_ok [OF ok] obtain c where c: "makeObjectIdentifier v = Ok c" by blast
  from ok obtain a b w where v: "v = a # b # w" "in_oid (a * 40 + b)" "list_all in_oid w" by (rule oid_ok_cases)
  have "wrap64 (a * 40 + b) = a * 40 + b" using v(2) by (intro wrap64_id) (simp add: in_oid_def in_int64_def)
  then have "c = base128 (a * 40 + b) @ concat (map base128 w)"
    using c v(1) by (simp add: makeObjectIdentifier_def split: if_splits)
  then have l: "length c \<le> 10 * 2 ^ 20"
    using length_base128 [OF v(2)] length_base128_list [OF v(3)] len v(1) by simp
  then have s: "short c" by (simp add: short_def)
  show ?thesis
    using c s l decodes_oid [OF ok c s] by (intro that [of c]) (simp_all add: marshal_oid_def)
qed

lemma short_small: "length c \<le> 10000 \<Longrightarrow> short c"
  by (simp add: short_def)

lemma length_makeBigInt: "0 \<le> i \<Longrightarrow> i < 2 ^ 64 \<Longrightarrow> length (makeBigInt i) \<le> 9"
proof -
  assume "0 \<le> i" "i < 2 ^ 64"
  then have "length (nat_bytes (nat i)) \<le> 8" by (intro nat_bytes_length) (simp add: nat_less_iff)
  with \<open>0 \<le> i\<close> show ?thesis by (simp add: makeBigInt_def Let_def)
qed

section \<open>The round trip\<close>

fun variable_fits :: "variable \<Rightarrow> bool" where
  "variable_fits (OctetString v) \<longleftrightarrow> length v \<le> 2 ^ 24"
| "variable_fits (Ipaddress v) \<longleftrightarrow> length v \<le> 2 ^ 24"
| "variable_fits (Opaque v) \<longleftrightarrow> length v \<le> 2 ^ 24"
| "variable_fits (OidVar v) \<longleftrightarrow> oid_fits v"
| "variable_fits _ \<longleftrightarrow> True"

lemma short_24: "length c \<le> 2 ^ 24 \<Longrightarrow> short c"
  by (simp add: short_def)

lemma uint32_in: "in_int64 (uint (v :: 32 word))"
proof -
  have "0 \<le> uint v" "uint v < 2 ^ 32" using uint_lt2p [of v] by simp_all
  then show ?thesis by (simp add: in_int64_def order_trans [of _ 0 "uint v"] del: unsigned_greater_eq)
qed

lemma uint32_bytes: "parseBigInt (int_bytes (uint (v :: 32 word))) = Ok (uint v)" "short (int_bytes (uint (v :: 32 word)))"
proof -
  show "parseBigInt (int_bytes (uint v)) = Ok (uint v)" by (rule parseBigInt_int_bytes) simp
  have "in_int64 (uint v)" by (rule uint32_in)
  then show "short (int_bytes (uint v))" using in_int64_length [of "uint v"] by (intro short_small) simp
qed

lemma uint64_bytes: "short (makeBigInt (uint (v :: 64 word)))"
  using length_makeBigInt [of "uint v"] uint_lt2p [of v] by (intro short_small) simp

text \<open>The bytes of each variable as one element.\<close>

lemma empty_tlv: "cls < 4 \<Longrightarrow> tag < 31 \<Longrightarrow> [word_of_nat (64 * cls + tag), 0] = tlv cls False tag []"
  by (simp add: tlv_low length_octets_def)

fun variable_class :: "variable \<Rightarrow> nat \<times> nat" where
  "variable_class (Integer v) = (0, 2)"
| "variable_class (OctetString v) = (0, 4)"
| "variable_class Null = (0, 5)"
| "variable_class (OidVar v) = (0, 6)"
| "variable_class (Ipaddress v) = (1, 0)"
| "variable_class (Counter32 v) = (1, 1)"
| "variable_class (Gauge32 v) = (1, 2)"
| "variable_class (TimeTicks v) = (1, 3)"
| "variable_class (Opaque v) = (1, 4)"
| "variable_class (Counter64 v) = (1, 6)"
| "variable_class NoSucheObject = (2, 0)"
| "variable_class NoSucheInstance = (2, 1)"
| "variable_class EndOfMibView = (2, 2)"

fun variable_zero :: "variable \<Rightarrow> variable" where
  "variable_zero (Integer v) = Integer 0"
| "variable_zero (OctetString v) = OctetString []"
| "variable_zero (OidVar v) = OidVar []"
| "variable_zero (Ipaddress v) = Ipaddress []"
| "variable_zero (Counter32 v) = Counter32 0"
| "variable_zero (Gauge32 v) = Gauge32 0"
| "variable_zero (TimeTicks v) = TimeTicks 0"
| "variable_zero (Opaque v) = Opaque []"
| "variable_zero (Counter64 v) = Counter64 0"
| "variable_zero v = v"

lemma masked_tags:
  "masked tagIpaddress = 0" "masked tagCounter32 = 1" "masked tagGauge32 = 2" "masked tagTimeTicks = 3"
  "masked tagOpaque = 4" "masked tagCounter64 = 6" "masked tagNoSucheObject = 0" "masked tagNoSucheInstance = 1"
  "masked tagEndOfMibView = 2"
  by (simp_all add: masked_def tagMask_def tag_defs)

lemma tag_octets_u: "uint tagInteger' = 2" "uint tagOctetString' = 4" "uint tagNull = 5"
  by (simp_all add: tag_defs)

lemma variable_of_tag_class:
  "variable_of_tag (fst (variable_class v)) (int (snd (variable_class v))) = Some (variable_zero v)"
  by (cases v) (simp_all add: variable_of_tag_def masked_tags ber_consts tag_octets_u)

definition oid_content :: "oid \<Rightarrow> bytes" where
  "oid_content v = (case makeObjectIdentifier v of Ok c \<Rightarrow> c | _ \<Rightarrow> [])"

lemma oid_content:
  assumes "oid_fits v"
  shows "marshal_oid v = Ok (tlv 0 False 6 (oid_content v))" "short (oid_content v)"
    "decodes T_OID (tlv 0 False 6 (oid_content v)) (V_OID v)" "length (oid_content v) \<le> 10 * 2 ^ 20"
proof -
  obtain c where c: "marshal_oid v = Ok (tlv 0 False 6 c)" "short c" "decodes T_OID (tlv 0 False 6 c) (V_OID v)"
    "length c \<le> 10 * 2 ^ 20" "makeObjectIdentifier v = Ok c" using oid_encoding [OF assms] .
  moreover have "oid_content v = c"
    using c(5) by (simp add: oid_content_def)
  ultimately show "marshal_oid v = Ok (tlv 0 False 6 (oid_content v))" "short (oid_content v)"
    "decodes T_OID (tlv 0 False 6 (oid_content v)) (V_OID v)" "length (oid_content v) \<le> 10 * 2 ^ 20"
    by simp_all
qed

fun variable_content :: "variable \<Rightarrow> bytes" where
  "variable_content (Integer v) = int_bytes (sint v)"
| "variable_content (OctetString v) = v"
| "variable_content (OidVar v) = oid_content v"
| "variable_content (Ipaddress v) = v"
| "variable_content (Counter32 v) = int_bytes (uint v)"
| "variable_content (Gauge32 v) = int_bytes (uint v)"
| "variable_content (TimeTicks v) = int_bytes (uint v)"
| "variable_content (Opaque v) = v"
| "variable_content (Counter64 v) = makeBigInt (uint v)"
| "variable_content v = []"

definition variable_bytes :: "variable \<Rightarrow> bytes" where
  "variable_bytes v = tlv (fst (variable_class v)) False (snd (variable_class v)) (variable_content v)"

lemma sint32_in: "in_int32 (sint (v :: 32 word))"
  using sint_ge [of v] sint_lt [of v] by (simp add: in_int32_def)

lemma Variable_Marshal_bytes:
  "variable_fits v \<Longrightarrow> Variable_Marshal v = Ok (variable_bytes v)"
  by (cases v)
     (simp_all add: variable_bytes_def marshal_int_def marshal_octets_def marshal_big_def oid_content
        retag_tlv [of 0 _ 1] tag_defs tlv_low length_octets_def retag_def)

lemma variable_content_length: "variable_fits v \<Longrightarrow> length (variable_content v) \<le> 2 ^ 24"
proof (cases v)
  case (Integer w)
  then show ?thesis using in_int64_length [of "sint w"] sint32_in [of w] by simp
next
  case (OidVar w)
  moreover assume "variable_fits v"
  ultimately show ?thesis using oid_content(4) [of w] by simp
next
  case (Counter64 w)
  then show ?thesis using length_makeBigInt [of "uint w"] uint_lt2p [of w] by simp
qed (use in_int64_length uint32_in in \<open>auto intro: le_trans [of _ 8]\<close>)

lemma Variable_Unmarshal_bytes:
  "variable_fits v \<Longrightarrow> Variable_Unmarshal (variable_zero v) (variable_bytes v @ rest) = Ok (v, rest)"
proof (cases v)
  case (Integer w)
  have "Unmarshal (marshal_int (sint w) @ rest) T_Int32 (V_Int 0) = Ok (V_Int (sint w), rest)"
    by (rule Unmarshal_decodes [OF decodes_int(1) [OF sint32_in]])
  with Integer show ?thesis by (simp add: variable_bytes_def marshal_int_def)
next
  case (OidVar w)
  moreover assume "variable_fits v"
  ultimately have "Unmarshal (tlv 0 False 6 (oid_content w) @ rest) T_OID V_Zero = Ok (V_OID w, rest)"
    by (intro Unmarshal_decodes oid_content) simp
  with OidVar show ?thesis by (simp add: variable_bytes_def Oid_Unmarshal_def)
qed (simp_all add: variable_bytes_def unmarshalString_tlv unmarshalInt_tlv unmarshalEmpty_tlv tag_defs short_24
       uint32_bytes uint64_bytes parseBigInt_makeBigInt)

lemma unmarshalVariable_bytes:
  assumes "variable_fits v"
  shows "unmarshalVariable (variable_bytes v @ rest) = Ok (v, rest)"
proof -
  have "short (variable_content v)" using variable_content_length [OF assms] by (rule short_24)
  moreover have "fst (variable_class v) < 4" "snd (variable_class v) < 31" by (cases v; simp)+
  ultimately show ?thesis
    using Variable_Unmarshal_bytes [OF assms, of rest]
    by (simp add: unmarshalVariable_def variable_bytes_def Unmarshal_raw_tlv variable_of_tag_class)
qed

text \<open>C14: Decoding inverts encoding for every kind of variable: the decoder finds the type from the tag,
  reproduces the value and consumes exactly its bytes, whatever follows.\<close>

theorem unmarshalVariable_roundtrip:
  assumes "variable_fits v"
  shows "\<exists>b. Variable_Marshal v = Ok b \<and> unmarshalVariable (b @ rest) = Ok (v, rest)"
  using Variable_Marshal_bytes [OF assms] unmarshalVariable_bytes [OF assms] by blast

theorem unmarshalVariable_roundtrip_witness:
  "\<exists>b. Variable_Marshal (OidVar [1, 3, 6, 1, 4, 1, 99999]) = Ok b \<and>
     unmarshalVariable (b @ [0x05, 0x00]) = Ok (OidVar [1, 3, 6, 1, 4, 1, 99999], [0x05, 0x00])"
  by (rule unmarshalVariable_roundtrip) (simp add: oid_fits_def in_oid_def)

section \<open>Arbitrary input\<close>

lemma unmarshal_raw_no_panic [simp]: "\<not> panics (unmarshal_raw b)"
  by (auto simp: unmarshal_raw_def)

lemma validateUnmarshal_no_panic [simp]: "\<not> panics (validateUnmarshal b tag)"
  by (auto simp: validateUnmarshal_def)

lemma Variable_Unmarshal_no_panic [simp]: "\<not> panics (Variable_Unmarshal v b)"
  by (cases v) (auto simp: unmarshalString_def unmarshalInt_def unmarshalEmpty_def Oid_Unmarshal_def)

lemma unmarshalVariable_no_panic [simp]: "\<not> panics (unmarshalVariable b)"
  by (auto simp: unmarshalVariable_def split: option.splits)

end
