(* ===== verification/Pdu.thy ===== *)
theory Pdu
  imports VariableRoundtrip
begin

text \<open>
  \<open>snmpgo/pdu.go\<close>: variable bindings and protocol data units. \<open>*VarBind\<close> is never nil in the lists the
  program builds; its fields may be. A \<open>Pdu\<close> is a \<open>PduV1\<close> or a \<open>ScopedPdu\<close>, which embeds one. PDU types
  are the constants of the code or a received tag, hence not negative. The \<open>String\<close> methods, which only
  feed debugging output, are left out.
\<close>

section \<open>Variable bindings\<close>

record varbind =
  vb_Oid :: "oid option"
  vb_Variable :: "variable option"

text \<open>The \<open>%02x\<close> verb on an \<open>int\<close> that is not negative.\<close>

fun show_hex :: "nat \<Rightarrow> string" where
  "show_hex n = (if n < 16 then [hex_char n] else show_hex (n div 16) @ [hex_char (n mod 16)])"

declare show_hex.simps [simp del]

definition hex02 :: "nat \<Rightarrow> string" where
  "hex02 n = (if n < 16 then ''0'' @ show_hex n else show_hex n)"

definition invalid_object :: "string \<Rightarrow> raw_value \<Rightarrow> bytes \<Rightarrow> go_error" where
  "invalid_object what raw b =
     StructuralError (''Invalid '' @ what @ '' object - Class ['' @ hex02 (Class raw) @ ''], Tag ['' @
       hex02 (nat (Tag raw)) @ ''] : ['' @ toHexStr b '' '' @ '']'')"

definition is_sequence :: "raw_value \<Rightarrow> bool" where
  "is_sequence raw \<longleftrightarrow> \<not> (Class raw \<noteq> classUniversal \<or> Tag raw \<noteq> int tagSequence \<or> \<not> IsCompound raw)"

definition VarBind_Marshal :: "varbind \<Rightarrow> bytes outcome" where
  "VarBind_Marshal v =
     (case (vb_Oid v, vb_Variable v) of
        (Some oid, Some variable) \<Rightarrow>
          and_then (marshal_oid oid) (\<lambda>buf.
            and_then (Variable_Marshal variable) (\<lambda>buf'.
              Ok (marshal_raw classUniversal tagSequence True (buf @ buf'))))
      | _ \<Rightarrow> Ok (marshal_raw classUniversal tagSequence True []))"

definition VarBind_Unmarshal :: "bytes \<Rightarrow> (varbind \<times> bytes) outcome" where
  "VarBind_Unmarshal b =
     and_then (unmarshal_raw b) (\<lambda>(raw, rest).
       if \<not> is_sequence raw then Err (invalid_object ''VarBind'' raw b)
       else and_then (Oid_Unmarshal (Bytes raw)) (\<lambda>(oid, next).
            and_then (unmarshalVariable next) (\<lambda>(variable, _).
              Ok (\<lparr>vb_Oid = Some oid, vb_Variable = Some variable\<rparr>, rest))))"

text \<open>Lists of bindings.\<close>

definition MatchOid :: "varbind list \<Rightarrow> oid option \<Rightarrow> varbind option" where
  "MatchOid v oid = find (\<lambda>x. case vb_Oid x of None \<Rightarrow> False | Some y \<Rightarrow> Equal y oid) v"

definition MatchBaseOids :: "varbind list \<Rightarrow> oid option \<Rightarrow> varbind list" where
  "MatchBaseOids v base = filter (\<lambda>x. case vb_Oid x of None \<Rightarrow> False | Some y \<Rightarrow> Contains y base) v"

definition VarBinds_Less :: "varbind \<Rightarrow> varbind \<Rightarrow> bool" where
  "VarBinds_Less t u = (case vb_Oid t of None \<Rightarrow> False | Some y \<Rightarrow> Compare y (vb_Oid u) < 1)"

definition VarBinds_Sort :: "varbind list \<Rightarrow> varbind list" where
  "VarBinds_Sort v = go_sort VarBinds_Less v"

definition same_varbind :: "varbind option \<Rightarrow> varbind option \<Rightarrow> bool" where
  "same_varbind a b =
     (case b of
        None \<Rightarrow> a = None
      | Some y \<Rightarrow>
          (case a of
             None \<Rightarrow> False
           | Some x \<Rightarrow>
               (case vb_Oid y of None \<Rightarrow> vb_Oid x = None | Some oid \<Rightarrow> Equal oid (vb_Oid x))))"

definition VarBinds_Uniq :: "varbind list \<Rightarrow> varbind list" where
  "VarBinds_Uniq v = map the (uniq same_varbind (map Some v))"

section \<open>Protocol data units\<close>

record pduV1 =
  pduType :: int
  requestId :: int
  errorStatus :: int
  errorIndex :: int
  varBinds :: "varbind list"

datatype pdu = PduV1 pduV1 | ScopedPdu bytes bytes pduV1

fun inner_pdu :: "pdu \<Rightarrow> pduV1" where
  "inner_pdu (PduV1 p) = p"
| "inner_pdu (ScopedPdu engineId name p) = p"

fun map_pdu :: "(pduV1 \<Rightarrow> pduV1) \<Rightarrow> pdu \<Rightarrow> pdu" where
  "map_pdu f (PduV1 p) = PduV1 (f p)"
| "map_pdu f (ScopedPdu engineId name p) = ScopedPdu engineId name (f p)"

definition PduType :: "pdu \<Rightarrow> int" where
  "PduType p = pduType (inner_pdu p)"

definition RequestId :: "pdu \<Rightarrow> int" where
  "RequestId p = requestId (inner_pdu p)"

definition SetRequestId :: "int \<Rightarrow> pdu \<Rightarrow> pdu" where
  "SetRequestId i = map_pdu (\<lambda>p. p\<lparr>requestId := i\<rparr>)"

definition ErrorStatus :: "pdu \<Rightarrow> int" where
  "ErrorStatus p = errorStatus (inner_pdu p)"

definition SetErrorStatus :: "int \<Rightarrow> pdu \<Rightarrow> pdu" where
  "SetErrorStatus i = map_pdu (\<lambda>p. p\<lparr>errorStatus := i\<rparr>)"

definition ErrorIndex :: "pdu \<Rightarrow> int" where
  "ErrorIndex p = errorIndex (inner_pdu p)"

definition SetErrorIndex :: "int \<Rightarrow> pdu \<Rightarrow> pdu" where
  "SetErrorIndex i = map_pdu (\<lambda>p. p\<lparr>errorIndex := i\<rparr>)"

text \<open>A GetBulk request has its two parameters in the places of the error status and index.\<close>

definition SetNonrepeaters :: "int \<Rightarrow> pdu \<Rightarrow> pdu" where
  "SetNonrepeaters i = map_pdu (\<lambda>p. p\<lparr>errorStatus := i\<rparr>)"

definition SetMaxRepetitions :: "int \<Rightarrow> pdu \<Rightarrow> pdu" where
  "SetMaxRepetitions i = map_pdu (\<lambda>p. p\<lparr>errorIndex := i\<rparr>)"

definition AppendVarBind :: "oid option \<Rightarrow> variable option \<Rightarrow> pdu \<Rightarrow> pdu" where
  "AppendVarBind oid variable =
     map_pdu (\<lambda>p. p\<lparr>varBinds := varBinds p @ [\<lparr>vb_Oid = oid, vb_Variable = variable\<rparr>]\<rparr>)"

definition VarBinds :: "pdu \<Rightarrow> varbind list" where
  "VarBinds p = varBinds (inner_pdu p)"

lemmas pdu_accessors = PduType_def RequestId_def SetRequestId_def ErrorStatus_def SetErrorStatus_def ErrorIndex_def
  SetErrorIndex_def SetNonrepeaters_def SetMaxRepetitions_def AppendVarBind_def VarBinds_def

fun marshal_varbinds :: "varbind list \<Rightarrow> bytes outcome" where
  "marshal_varbinds [] = Ok []"
| "marshal_varbinds (v # vs) =
     and_then (VarBind_Marshal v) (\<lambda>buf. and_then (marshal_varbinds vs) (\<lambda>bufs. Ok (buf @ bufs)))"

definition PduV1_Marshal :: "pduV1 \<Rightarrow> bytes outcome" where
  "PduV1_Marshal p =
     and_then (marshal_varbinds (varBinds p)) (\<lambda>vbs.
       Ok (marshal_raw classContextSpecific (nat (pduType p)) True
         (marshal_int (requestId p) @ marshal_int (errorStatus p) @ marshal_int (errorIndex p) @
          marshal_raw classUniversal tagSequence True vbs)))"

definition unmarshal_int :: "bytes \<Rightarrow> (int \<times> bytes) outcome" where
  "unmarshal_int b = and_then (Unmarshal b T_Int64 (V_Int 0)) (\<lambda>(i, rest). Ok (val_int i, rest))"

definition unmarshal_octets :: "bytes \<Rightarrow> (bytes \<times> bytes) outcome" where
  "unmarshal_octets b = and_then (Unmarshal b T_Octets V_Zero) (\<lambda>(v, rest). Ok (val_octets v, rest))"

lemma unmarshal_raw_shorter: "unmarshal_raw b = Ok (raw, rest) \<Longrightarrow> length rest < length b"
proof -
  assume "unmarshal_raw b = Ok (raw, rest)"
  then obtain v offset where p: "parseField T_Raw V_Zero b 0 no_params = Ok (v, offset)"
    and r: "slice b offset (length b) = Ok rest"
    by (auto simp: unmarshal_raw_def Unmarshal_def UnmarshalWithParams_def outcome_simps)
  from p have "0 < offset \<and> offset \<le> length b"
    using parse_raw_bounds [of b 0 v offset]
    by (subst (asm) parseField.simps) (auto simp: no_params_def setDefaultValue_def split: if_splits)
  with r show ?thesis by (auto simp: slice_Ok_iff)
qed

lemma VarBind_Unmarshal_shorter: "VarBind_Unmarshal b = Ok (v, rest) \<Longrightarrow> length rest < length b"
  by (auto simp: VarBind_Unmarshal_def outcome_simps split: if_splits dest: unmarshal_raw_shorter)

text \<open>The loop over the bindings ends because each takes at least one byte.\<close>

function unmarshal_varbinds :: "bytes \<Rightarrow> varbind list outcome" where
  "unmarshal_varbinds next =
     (if length next > 0 then
        (case VarBind_Unmarshal next of
           Ok (v, next') \<Rightarrow> and_then (unmarshal_varbinds next') (\<lambda>vs. Ok (v # vs))
         | Err e \<Rightarrow> Err e
         | Panic p \<Rightarrow> Panic p)
      else Ok [])"
  by pat_completeness auto
termination
  by (relation "measure length") (auto dest: VarBind_Unmarshal_shorter)

declare unmarshal_varbinds.simps [simp del]

text \<open>The receiver's bindings are kept and the decoded ones appended.\<close>

definition PduV1_Unmarshal :: "pduV1 \<Rightarrow> bytes \<Rightarrow> (pduV1 \<times> bytes) outcome" where
  "PduV1_Unmarshal p b =
     and_then (unmarshal_raw b) (\<lambda>(raw, rest).
       if Class raw \<noteq> classContextSpecific \<or> \<not> IsCompound raw then Err (invalid_object ''Pdu'' raw b)
       else
         and_then (unmarshal_int (Bytes raw)) (\<lambda>(rid, next).
         and_then (unmarshal_int next) (\<lambda>(status, next).
         and_then (unmarshal_int next) (\<lambda>(index, next).
         and_then (unmarshal_raw next) (\<lambda>(vbs, _).
           if \<not> is_sequence vbs then Err (invalid_object ''VarBinds'' vbs next)
           else and_then (unmarshal_varbinds (Bytes vbs)) (\<lambda>vs.
             Ok (\<lparr>pduType = Tag raw, requestId = rid, errorStatus = status, errorIndex = index,
                  varBinds = varBinds p @ vs\<rparr>, rest)))))))"

definition zero_pduV1 :: pduV1 where
  "zero_pduV1 = \<lparr>pduType = 0, requestId = 0, errorStatus = 0, errorIndex = 0, varBinds = []\<rparr>"

fun Pdu_Marshal :: "pdu \<Rightarrow> bytes outcome" where
  "Pdu_Marshal (PduV1 p) = PduV1_Marshal p"
| "Pdu_Marshal (ScopedPdu engineId name p) =
     and_then (PduV1_Marshal p) (\<lambda>buf.
       Ok (marshal_raw classUniversal tagSequence True (marshal_octets engineId @ marshal_octets name @ buf)))"

fun Pdu_Unmarshal :: "pdu \<Rightarrow> bytes \<Rightarrow> (pdu \<times> bytes) outcome" where
  "Pdu_Unmarshal (PduV1 p) b = and_then (PduV1_Unmarshal p b) (\<lambda>(p', rest). Ok (PduV1 p', rest))"
| "Pdu_Unmarshal (ScopedPdu engineId name p) b =
     and_then (unmarshal_raw b) (\<lambda>(raw, rest).
       if \<not> is_sequence raw then Err (invalid_object ''ScopedPud'' raw b)
       else
         and_then (unmarshal_octets (Bytes raw)) (\<lambda>(engineId', next).
         and_then (unmarshal_octets next) (\<lambda>(name', next).
         and_then (PduV1_Unmarshal zero_pduV1 next) (\<lambda>(p', _).
           Ok (ScopedPdu engineId' name' p', rest)))))"

text \<open>\<open>NewPdu\<close> leaves its result nil for an unknown version; a method call on nil panics.\<close>

definition NewPdu :: "int \<Rightarrow> int \<Rightarrow> pdu option" where
  "NewPdu ver t =
     (let p = zero_pduV1\<lparr>pduType := t\<rparr>
      in if ver = V1 \<or> ver = V2c then Some (PduV1 p)
         else if ver = V3 then Some (ScopedPdu [] [] p)
         else None)"

fun append_all :: "(oid option \<times> variable option) list \<Rightarrow> pdu option \<Rightarrow> pdu option outcome" where
  "append_all [] p = Ok p"
| "append_all ((oid, variable) # vs) p =
     (case p of None \<Rightarrow> Panic NilDereference | Some p' \<Rightarrow> append_all vs (Some (AppendVarBind oid variable p')))"

definition NewPduWithOids :: "int \<Rightarrow> int \<Rightarrow> oid option list \<Rightarrow> pdu option outcome" where
  "NewPduWithOids ver t oids = append_all (map (\<lambda>x. (x, Some Null)) oids) (NewPdu ver t)"

definition NewPduWithVarBinds :: "int \<Rightarrow> int \<Rightarrow> varbind list \<Rightarrow> pdu option outcome" where
  "NewPduWithVarBinds ver t vs = append_all (map (\<lambda>v. (vb_Oid v, vb_Variable v)) vs) (NewPdu ver t)"

lemma VarBinds_append: "VarBinds (AppendVarBind oid variable p) = VarBinds p @ [\<lparr>vb_Oid = oid, vb_Variable = variable\<rparr>]"
  "PduType (AppendVarBind oid variable p) = PduType p" "ErrorStatus (AppendVarBind oid variable p) = ErrorStatus p"
  by (cases p; simp add: pdu_accessors)+

lemma append_all_Some:
  "\<exists>q. append_all vs (Some p) = Ok (Some q) \<and> VarBinds q = VarBinds p @ map (\<lambda>(oid, v). \<lparr>vb_Oid = oid, vb_Variable = v\<rparr>) vs
     \<and> PduType q = PduType p \<and> ErrorStatus q = ErrorStatus p"
  by (induction vs arbitrary: p) (fastforce simp: VarBinds_append)+

section \<open>Sorting bindings\<close>

lemma VarBinds_Less_iff:
  "vb_Oid x \<noteq> None \<Longrightarrow> vb_Oid y \<noteq> None \<Longrightarrow> VarBinds_Less x y \<longleftrightarrow> the (vb_Oid x) \<le> the (vb_Oid y)"
  by (auto simp: VarBinds_Less_def Compare_le_iff)

interpretation vbs: oid_sorter VarBinds_Sort vb_Oid
proof unfold_locales
  show "mset (VarBinds_Sort xs) = mset xs" for xs by (simp add: VarBinds_Sort_def)
  show "sorted_wrt (\<lambda>a b. the (vb_Oid a) \<le> the (vb_Oid b)) (VarBinds_Sort xs)" if "None \<notin> vb_Oid ` set xs" for xs
    unfolding VarBinds_Sort_def
  proof (rule sorted_go_sort)
    show "VarBinds_Less x y \<longleftrightarrow> the (vb_Oid x) \<le> the (vb_Oid y)" if "x \<in> set xs" "y \<in> set xs" for x y
      using that \<open>None \<notin> vb_Oid ` set xs\<close> by (intro VarBinds_Less_iff) (metis imageI)+
  qed auto
qed

lemma uniq_varbind_keys:
  "None \<notin> vb_Oid ` set xs \<Longrightarrow>
     \<exists>ys. uniq_from same_varbind b (map Some xs) = map Some ys \<and> set ys \<subseteq> set xs \<and>
       map vb_Oid ys = uniq_from same_oid (case b of None \<Rightarrow> None | Some y \<Rightarrow> vb_Oid y) (map vb_Oid xs)"
proof (induction xs arbitrary: b)
  case (Cons x xs)
  then have x: "vb_Oid x \<noteq> None" "None \<notin> vb_Oid ` set xs" by (metis image_eqI list.set_intros(1), auto)
  then have same: "same_varbind b (Some x) \<longleftrightarrow> same_oid (case b of None \<Rightarrow> None | Some y \<Rightarrow> vb_Oid y) (vb_Oid x)"
    by (auto simp: same_varbind_def same_oid_def Equal_def split: option.splits)
  show ?case
    using Cons.IH [OF x(2), of "if same_varbind b (Some x) then b else Some x"]
    by (cases "same_varbind b (Some x)") (force simp: same [symmetric] intro: exI [of _ "x # ys" for ys])+
qed simp

text \<open>Each identifier of the list is left with exactly one binding, in increasing order.\<close>

lemma Sort_Uniq_varbinds:
  assumes "None \<notin> vb_Oid ` set vs"
  shows "map vb_Oid (VarBinds_Uniq (VarBinds_Sort vs)) = map Some (sorted_list_of_set ((\<lambda>v. the (vb_Oid v)) ` set vs))"
    "set (VarBinds_Uniq (VarBinds_Sort vs)) \<subseteq> set vs"
proof -
  have none: "None \<notin> vb_Oid ` set (VarBinds_Sort vs)" using assms by simp
  obtain ys where ys: "uniq same_varbind (map Some (VarBinds_Sort vs)) = map Some ys" "set ys \<subseteq> set (VarBinds_Sort vs)"
    "map vb_Oid ys = uniq same_oid (map vb_Oid (VarBinds_Sort vs))"
    using uniq_varbind_keys [OF none, of None] by (auto simp: uniq_def)
  then have eq: "VarBinds_Uniq (VarBinds_Sort vs) = ys" by (simp add: VarBinds_Uniq_def comp_def)
  show "map vb_Oid (VarBinds_Uniq (VarBinds_Sort vs)) = map Some (sorted_list_of_set ((\<lambda>v. the (vb_Oid v)) ` set vs))"
    unfolding eq ys(3) by (rule vbs.uniq_keys [OF assms])
  show "set (VarBinds_Uniq (VarBinds_Sort vs)) \<subseteq> set vs"
    using ys(2) by (simp add: eq)
qed

section \<open>Arbitrary input\<close>

lemma Unmarshal_pdu_no_panic [simp]:
  "\<not> panics (unmarshal_int b)" "\<not> panics (unmarshal_octets b)" "\<not> panics (VarBind_Unmarshal b)"
  by (auto simp: unmarshal_int_def unmarshal_octets_def VarBind_Unmarshal_def Oid_Unmarshal_def)

lemma unmarshal_varbinds_no_panic [simp]: "\<not> panics (unmarshal_varbinds b)"
proof (induction b rule: unmarshal_varbinds.induct)
  case (1 b)
  have "VarBind_Unmarshal b \<noteq> Panic p" for p
    using Unmarshal_pdu_no_panic(3) [of b] by (auto simp: panics_iff)
  with 1 show ?case
    by (subst unmarshal_varbinds.simps) (auto split: outcome.splits)
qed

lemma PduV1_Unmarshal_no_panic [simp]: "\<not> panics (PduV1_Unmarshal p b)"
  by (auto simp: PduV1_Unmarshal_def)

lemma Pdu_Unmarshal_no_panic [simp]: "\<not> panics (Pdu_Unmarshal p b)"
  by (cases p) auto

end
