(* ===== verification/PduRoundtrip.thy ===== *)
theory PduRoundtrip
  imports Pdu
begin

text \<open>
  Round trips of bindings and PDUs, and the contract of sorting on lists of bindings.
\<close>

section \<open>Bindings\<close>

definition varbind_fits :: "varbind \<Rightarrow> bool" where
  "varbind_fits v =
     (case (vb_Oid v, vb_Variable v) of
        (Some oid, Some variable) \<Rightarrow> oid_fits oid \<and> variable_fits variable
      | _ \<Rightarrow> False)"

definition varbind_content :: "varbind \<Rightarrow> bytes" where
  "varbind_content v = tlv 0 False 6 (oid_content (the (vb_Oid v))) @ variable_bytes (the (vb_Variable v))"

definition varbind_bytes :: "varbind \<Rightarrow> bytes" where
  "varbind_bytes v = tlv 0 True 16 (varbind_content v)"

lemma length_tlv_le: "cls < 4 \<Longrightarrow> tag < 31 \<Longrightarrow> short c \<Longrightarrow> length (tlv cls compound tag c) \<le> length c + 6"
proof -
  assume "cls < 4" "tag < 31" "short c"
  then have "length (nat_bytes (length c)) \<le> 4" by (intro nat_bytes_less) (simp add: short_def)
  moreover have "length (tag_octets cls compound tag) = 1"
    using \<open>tag < 31\<close> by (simp add: tag_octets_def Let_def)
  ultimately show ?thesis by (simp add: tlv_def length_octets_def Let_def)
qed

lemma length_variable_bytes: "variable_fits v \<Longrightarrow> length (variable_bytes v) \<le> 2 ^ 24 + 6"
proof -
  assume "variable_fits v"
  then have "length (variable_content v) \<le> 2 ^ 24" by (rule variable_content_length)
  moreover have "fst (variable_class v) < 4" "snd (variable_class v) < 31" by (cases v; simp)+
  ultimately show ?thesis
    using length_tlv_le [of "fst (variable_class v)" "snd (variable_class v)" "variable_content v" False]
    by (simp add: variable_bytes_def short_24)
qed

lemma varbind_fits_cases:
  assumes "varbind_fits v"
  obtains oid variable where "v = \<lparr>vb_Oid = Some oid, vb_Variable = Some variable\<rparr>" "oid_fits oid" "variable_fits variable"
  using assms by (cases v) (auto simp: varbind_fits_def split: option.splits)

lemma short_varbind: "varbind_fits v \<Longrightarrow> short (varbind_content v)"
proof (erule varbind_fits_cases)
  fix oid variable
  assume v: "v = \<lparr>vb_Oid = Some oid, vb_Variable = Some variable\<rparr>" "oid_fits oid" "variable_fits variable"
  note o = oid_content [OF v(2)]
  have "length (tlv 0 False 6 (oid_content oid)) \<le> 10 * 2 ^ 20 + 6"
    using o length_tlv_le [of 0 6 "oid_content oid" False] by simp
  with length_variable_bytes [OF v(3)] show "short (varbind_content v)"
    by (simp add: varbind_content_def v(1) short_def)
qed

lemma VarBind_Marshal_bytes: "varbind_fits v \<Longrightarrow> VarBind_Marshal v = Ok (varbind_bytes v)"
  by (erule varbind_fits_cases)
     (simp add: VarBind_Marshal_def varbind_bytes_def varbind_content_def oid_content Variable_Marshal_bytes
        marshal_raw_def ber_consts)

lemma VarBind_Unmarshal_bytes: "varbind_fits v \<Longrightarrow> VarBind_Unmarshal (varbind_bytes v @ rest) = Ok (v, rest)"
proof -
  assume fits: "varbind_fits v"
  then obtain oid variable where v: "v = \<lparr>vb_Oid = Some oid, vb_Variable = Some variable\<rparr>" "oid_fits oid" "variable_fits variable"
    by (rule varbind_fits_cases)
  have raw: "unmarshal_raw (varbind_bytes v @ rest) =
      Ok (\<lparr>Class = 0, Tag = 16, IsCompound = True, Bytes = varbind_content v\<rparr>, rest)"
    using Unmarshal_raw_tlv [of 0 16 "varbind_content v" True rest] short_varbind [OF fits] by (simp add: varbind_bytes_def)
  have oid: "Oid_Unmarshal (varbind_content v) = Ok (oid, variable_bytes variable)"
    using Unmarshal_decodes [OF oid_content(3) [OF v(2)], of "variable_bytes variable" V_Zero]
    by (simp add: Oid_Unmarshal_def varbind_content_def v(1))
  have "unmarshalVariable (variable_bytes variable) = Ok (variable, [])"
    using unmarshalVariable_bytes [OF v(3), of "[]"] by simp
  then show ?thesis
    unfolding VarBind_Unmarshal_def raw using oid by (simp add: is_sequence_def ber_consts v(1))
qed

lemma marshal_varbinds_bytes:
  "list_all varbind_fits vs \<Longrightarrow> marshal_varbinds vs = Ok (concat (map varbind_bytes vs))"
  by (induction vs) (simp_all add: VarBind_Marshal_bytes)

lemma unmarshal_varbinds_bytes:
  "list_all varbind_fits vs \<Longrightarrow> unmarshal_varbinds (concat (map varbind_bytes vs)) = Ok vs"
proof (induction vs)
  case Nil
  then show ?case by (simp add: unmarshal_varbinds.simps)
next
  case (Cons v vs)
  have "varbind_bytes v \<noteq> []" by (simp add: varbind_bytes_def)
  with Cons show ?case by (subst unmarshal_varbinds.simps) (simp add: VarBind_Unmarshal_bytes)
qed

section \<open>PDUs\<close>

definition pduV1_fits :: "pduV1 \<Rightarrow> bool" where
  "pduV1_fits p \<longleftrightarrow>
     0 \<le> pduType p \<and> pduType p < 31 \<and> in_int64 (requestId p) \<and> in_int64 (errorStatus p) \<and> in_int64 (errorIndex p)
     \<and> list_all varbind_fits (varBinds p)"

definition pduV1_content :: "pduV1 \<Rightarrow> bytes" where
  "pduV1_content p =
     marshal_int (requestId p) @ marshal_int (errorStatus p) @ marshal_int (errorIndex p) @
     tlv 0 True 16 (concat (map varbind_bytes (varBinds p)))"

definition pduV1_bytes :: "pduV1 \<Rightarrow> bytes" where
  "pduV1_bytes p = tlv 2 True (nat (pduType p)) (pduV1_content p)"

lemma short_part: "short b \<Longrightarrow> length c \<le> length b \<Longrightarrow> short c"
  by (simp add: short_def)

lemma short_tlv: "short (tlv cls compound tag c) \<Longrightarrow> short c"
  by (erule short_part) (rule length_tlv)

lemma PduV1_Marshal_bytes: "pduV1_fits p \<Longrightarrow> PduV1_Marshal p = Ok (pduV1_bytes p)"
  by (simp add: PduV1_Marshal_def pduV1_fits_def marshal_varbinds_bytes pduV1_bytes_def pduV1_content_def
      marshal_raw_def ber_consts)

lemma unmarshal_int_bytes: "in_int64 i \<Longrightarrow> unmarshal_int (marshal_int i @ rest) = Ok (i, rest)"
  using Unmarshal_decodes [OF decodes_int(2), of i rest "V_Int 0"] by (simp add: unmarshal_int_def)

lemma unmarshal_octets_bytes: "short b \<Longrightarrow> unmarshal_octets (marshal_octets b @ rest) = Ok (b, rest)"
  using Unmarshal_decodes [OF decodes_octets, of b rest V_Zero] by (simp add: unmarshal_octets_def)

lemma PduV1_Unmarshal_bytes:
  assumes fits: "pduV1_fits p" and short: "short (pduV1_bytes p)"
  shows "PduV1_Unmarshal q (pduV1_bytes p @ rest) = Ok (p\<lparr>varBinds := varBinds q @ varBinds p\<rparr>, rest)"
proof -
  have tag: "nat (pduType p) < 31" "int (nat (pduType p)) = pduType p" using fits by (auto simp: pduV1_fits_def)
  have c: "short (pduV1_content p)" using short unfolding pduV1_bytes_def by (rule short_tlv)
  have vs: "short (concat (map varbind_bytes (varBinds p)))"
    using length_tlv [of "concat (map varbind_bytes (varBinds p))" 0 True 16]
    by (intro short_part [OF c]) (simp add: pduV1_content_def)
  have raw: "unmarshal_raw (pduV1_bytes p @ rest) =
      Ok (\<lparr>Class = 2, Tag = pduType p, IsCompound = True, Bytes = pduV1_content p\<rparr>, rest)"
    using Unmarshal_raw_tlv [OF _ tag(1) c, of 2 True rest] tag(2) by (simp add: pduV1_bytes_def)
  have seq: "unmarshal_raw (tlv 0 True 16 (concat (map varbind_bytes (varBinds p)))) =
      Ok (\<lparr>Class = 0, Tag = 16, IsCompound = True, Bytes = concat (map varbind_bytes (varBinds p))\<rparr>, [])"
    using Unmarshal_raw_tlv [of 0 16 _ True "[]"] vs by simp
  show ?thesis
    using fits unfolding PduV1_Unmarshal_def raw pduV1_fits_def
    by (simp add: pduV1_content_def unmarshal_int_bytes seq is_sequence_def ber_consts unmarshal_varbinds_bytes)
qed

fun pdu_fits :: "pdu \<Rightarrow> bool" where
  "pdu_fits (PduV1 p) \<longleftrightarrow> pduV1_fits p"
| "pdu_fits (ScopedPdu engineId name p) \<longleftrightarrow> pduV1_fits p"

fun fresh_pdu :: "pdu \<Rightarrow> pdu" where
  "fresh_pdu (PduV1 p) = PduV1 zero_pduV1"
| "fresh_pdu (ScopedPdu engineId name p) = ScopedPdu [] [] zero_pduV1"

lemma Pdu_Unmarshal_Marshal:
  assumes "pdu_fits p" and "Pdu_Marshal p = Ok b" and "short b"
  shows "Pdu_Unmarshal (fresh_pdu p) (b @ rest) = Ok (p, rest)"
proof (cases p)
  case (PduV1 q)
  then have b: "b = pduV1_bytes q" using assms(1,2) by (simp add: PduV1_Marshal_bytes)
  show ?thesis
    using PduV1_Unmarshal_bytes [of q zero_pduV1 rest] assms PduV1 by (simp add: b zero_pduV1_def)
next
  case (ScopedPdu engineId name q)
  let ?c = "marshal_octets engineId @ marshal_octets name @ pduV1_bytes q"
  have b: "b = tlv 0 True 16 ?c"
    using assms(1,2) ScopedPdu by (simp add: PduV1_Marshal_bytes marshal_raw_def ber_consts)
  have c: "short ?c" using assms(3) unfolding b by (rule short_tlv)
  have e: "short engineId" "short name"
    using length_tlv [of engineId 0 False 4] length_tlv [of name 0 False 4]
    by (intro short_part [OF c]; simp add: marshal_octets_def)+
  have q: "short (pduV1_bytes q)" by (rule short_part [OF c]) simp
  have raw: "unmarshal_raw (b @ rest) = Ok (\<lparr>Class = 0, Tag = 16, IsCompound = True, Bytes = ?c\<rparr>, rest)"
    using Unmarshal_raw_tlv [of 0 16 ?c True rest] c by (simp add: b)
  have "PduV1_Unmarshal zero_pduV1 (pduV1_bytes q) = Ok (q, [])"
    using PduV1_Unmarshal_bytes [of q zero_pduV1 "[]"] assms(1) ScopedPdu q by (simp add: zero_pduV1_def)
  then show ?thesis
    using e by (simp add: ScopedPdu raw is_sequence_def ber_consts unmarshal_octets_bytes)
qed

text \<open>C13: Decoding inverts encoding for PDUs, plain and scoped, and leaves the bytes behind them: type,
  request id, error fields, every binding in its order, and the context of a scoped one.\<close>

theorem Pdu_roundtrip:
  assumes "pdu_fits p" and "Pdu_Marshal p = Ok b" and "short b"
  shows "Pdu_Unmarshal (fresh_pdu p) (b @ rest) = Ok (p, rest)"
  using assms by (rule Pdu_Unmarshal_Marshal)

definition sample_pdu :: pdu where
  "sample_pdu = ScopedPdu [1, 2, 3] [9]
     \<lparr>pduType = 0, requestId = 7, errorStatus = 0, errorIndex = 0,
      varBinds = [\<lparr>vb_Oid = Some [1, 3, 6, 1], vb_Variable = Some (Counter32 7)\<rparr>]\<rparr>"

theorem Pdu_roundtrip_witness:
  "\<exists>b. Pdu_Marshal sample_pdu = Ok b \<and> Pdu_Unmarshal (ScopedPdu [] [] zero_pduV1) (b @ [5]) = Ok (sample_pdu, [5])"
proof -
  have "(case Pdu_Marshal sample_pdu of Ok b \<Rightarrow> length b \<le> 200 | _ \<Rightarrow> False)" by code_simp
  then obtain b where b: "Pdu_Marshal sample_pdu = Ok b" "length b \<le> 200" by (auto split: outcome.splits)
  have "short b" unfolding short_def by (rule le_less_trans [OF b(2)]) simp
  moreover have "pdu_fits sample_pdu"
    by (simp add: sample_pdu_def pduV1_fits_def varbind_fits_def oid_fits_def in_oid_def in_int64_def)
  ultimately have "Pdu_Unmarshal (fresh_pdu sample_pdu) (b @ [5]) = Ok (sample_pdu, [5])"
    using Pdu_roundtrip b(1) by blast
  then show ?thesis using b(1) by (auto simp: sample_pdu_def)
qed

end
