(* ===== verification/Message.thy ===== *)
theory Message
  imports PduRoundtrip
begin

text \<open>
  \<open>snmpgo/message.go\<close>: the SNMP messages of versions 1, 2c (\<open>messageV1\<close>) and 3 (\<open>messageV3\<close>, which
  embeds the header, the security parameters and a \<open>messageV1\<close>), their encoding and decoding, and the
  header flags. The \<open>String\<close> methods are left out.
\<close>

section \<open>Messages\<close>

record messageV1 =
  msg_version :: int
  msg_Community :: bytes
  msg_pduBytes :: bytes
  msg_pdu :: pdu

record globalDataV3 =
  MessageId :: int
  MessageMaxSize :: int
  MessageFlags :: bytes
  SecurityModel :: int

record securityParameterV3 =
  AuthEngineId :: bytes
  AuthEngineBoots :: int
  AuthEngineTime :: int
  UserName :: bytes
  AuthParameter :: bytes
  PrivParameter :: bytes

record messageV3 =
  msg_global :: globalDataV3
  msg_sec :: securityParameterV3
  msg_base :: messageV1

datatype message = MsgV1 messageV1 | MsgV3 messageV3

fun msg_of :: "message \<Rightarrow> messageV1" where
  "msg_of (MsgV1 m) = m"
| "msg_of (MsgV3 m) = msg_base m"

definition Version :: "message \<Rightarrow> int" where
  "Version m = msg_version (msg_of m)"

definition Msg_Pdu :: "message \<Rightarrow> pdu" where
  "Msg_Pdu m = msg_pdu (msg_of m)"

definition PduBytes :: "message \<Rightarrow> bytes" where
  "PduBytes m = msg_pduBytes (msg_of m)"

fun SetPduBytes :: "bytes \<Rightarrow> message \<Rightarrow> message" where
  "SetPduBytes b (MsgV1 m) = MsgV1 (m\<lparr>msg_pduBytes := b\<rparr>)"
| "SetPduBytes b (MsgV3 m) = MsgV3 (m\<lparr>msg_base := (msg_base m)\<lparr>msg_pduBytes := b\<rparr>\<rparr>)"

section \<open>Header flags\<close>

definition initFlags :: "globalDataV3 \<Rightarrow> globalDataV3" where
  "initFlags h = (if MessageFlags h = [] then h\<lparr>MessageFlags := [0]\<rparr> else h)"

definition set_flag :: "byte \<Rightarrow> bool \<Rightarrow> globalDataV3 \<Rightarrow> globalDataV3" where
  "set_flag fm b h =
     (let h' = initFlags h; f = hd (MessageFlags h')
      in h'\<lparr>MessageFlags := (MessageFlags h')[0 := (if b then f OR fm else f AND NOT fm)]\<rparr>)"

definition get_flag :: "byte \<Rightarrow> globalDataV3 \<Rightarrow> bool" where
  "get_flag fm h \<longleftrightarrow> hd (MessageFlags (initFlags h)) AND fm \<noteq> 0"

definition SetReportable :: "bool \<Rightarrow> globalDataV3 \<Rightarrow> globalDataV3" where
  "SetReportable = set_flag 0x04"

definition Reportable :: "globalDataV3 \<Rightarrow> bool" where
  "Reportable = get_flag 0x04"

definition SetPrivacy :: "bool \<Rightarrow> globalDataV3 \<Rightarrow> globalDataV3" where
  "SetPrivacy = set_flag 0x02"

definition Privacy :: "globalDataV3 \<Rightarrow> bool" where
  "Privacy = get_flag 0x02"

definition SetAuthentication :: "bool \<Rightarrow> globalDataV3 \<Rightarrow> globalDataV3" where
  "SetAuthentication = set_flag 0x01"

definition Authentication :: "globalDataV3 \<Rightarrow> bool" where
  "Authentication = get_flag 0x01"

section \<open>Encoding\<close>

definition messageV1_Marshal :: "messageV1 \<Rightarrow> bytes" where
  "messageV1_Marshal m =
     marshal_raw classUniversal tagSequence True
       (marshal_int (msg_version m) @ marshal_octets (msg_Community m) @ msg_pduBytes m)"

definition globalDataV3_Marshal :: "globalDataV3 \<Rightarrow> bytes" where
  "globalDataV3_Marshal h =
     marshal_struct [marshal_int (MessageId h), marshal_int (MessageMaxSize h), marshal_octets (MessageFlags h),
       marshal_int (SecurityModel h)]"

definition securityParameterV3_Marshal :: "securityParameterV3 \<Rightarrow> bytes" where
  "securityParameterV3_Marshal sec =
     marshal_raw classUniversal tagOctetString False
       (marshal_struct [marshal_octets (AuthEngineId sec), marshal_int (AuthEngineBoots sec),
          marshal_int (AuthEngineTime sec), marshal_octets (UserName sec), marshal_octets (AuthParameter sec),
          marshal_octets (PrivParameter sec)])"

definition messageV3_Marshal :: "messageV3 \<Rightarrow> bytes" where
  "messageV3_Marshal m =
     marshal_raw classUniversal tagSequence True
       (marshal_int (msg_version (msg_base m)) @ globalDataV3_Marshal (msg_global m) @
        securityParameterV3_Marshal (msg_sec m) @ msg_pduBytes (msg_base m))"

fun Message_Marshal :: "message \<Rightarrow> bytes" where
  "Message_Marshal (MsgV1 m) = messageV1_Marshal m"
| "Message_Marshal (MsgV3 m) = messageV3_Marshal m"

section \<open>Decoding\<close>

definition globalDataV3_type :: go_type where
  "globalDataV3_type = T_Struct False [([], T_Int64), ([], T_Int64), ([], T_Octets), ([], T_Int64)]"

definition val_globalDataV3 :: "go_val \<Rightarrow> globalDataV3" where
  "val_globalDataV3 v =
     (let f = (\<lambda>i. val_fields v ! i)
      in \<lparr>MessageId = val_int (f 0), MessageMaxSize = val_int (f 1), MessageFlags = val_octets (f 2),
          SecurityModel = val_int (f 3)\<rparr>)"

definition globalDataV3_Unmarshal :: "bytes \<Rightarrow> (globalDataV3 \<times> bytes) outcome" where
  "globalDataV3_Unmarshal b =
     and_then (Unmarshal b globalDataV3_type V_Zero) (\<lambda>(v, rest). Ok (val_globalDataV3 v, rest))"

definition securityParameterV3_type :: go_type where
  "securityParameterV3_type =
     T_Struct False [([], T_Octets), ([], T_Int64), ([], T_Int64), ([], T_Octets), ([], T_Octets), ([], T_Octets)]"

definition val_securityParameterV3 :: "go_val \<Rightarrow> securityParameterV3" where
  "val_securityParameterV3 v =
     (let f = (\<lambda>i. val_fields v ! i)
      in \<lparr>AuthEngineId = val_octets (f 0), AuthEngineBoots = val_int (f 1), AuthEngineTime = val_int (f 2),
          UserName = val_octets (f 3), AuthParameter = val_octets (f 4), PrivParameter = val_octets (f 5)\<rparr>)"

definition securityParameterV3_Unmarshal :: "bytes \<Rightarrow> (securityParameterV3 \<times> bytes) outcome" where
  "securityParameterV3_Unmarshal b =
     and_then (unmarshal_raw b) (\<lambda>(raw, rest).
       if Class raw \<noteq> classUniversal \<or> Tag raw \<noteq> int tagOctetString \<or> IsCompound raw then
         Err (invalid_object ''SecurityParameter'' raw b)
       else and_then (Unmarshal (Bytes raw) securityParameterV3_type V_Zero) (\<lambda>(v, _).
         Ok (val_securityParameterV3 v, rest)))"

text \<open>The version, the bytes behind the message and the rest of the message's contents.\<close>

definition unmarshalMessageVersion :: "bytes \<Rightarrow> (int \<times> bytes \<times> bytes) outcome" where
  "unmarshalMessageVersion b =
     and_then (unmarshal_raw b) (\<lambda>(raw, rest).
       if \<not> is_sequence raw then Err (invalid_object ''message'' raw b)
       else and_then (unmarshal_int (Bytes raw)) (\<lambda>(version, next). Ok (version, rest, next)))"

definition messageV1_unmarshalInner :: "messageV1 \<Rightarrow> bytes \<Rightarrow> messageV1 outcome" where
  "messageV1_unmarshalInner m b =
     and_then (unmarshal_octets b) (\<lambda>(community, next).
       Ok (m\<lparr>msg_Community := community, msg_pduBytes := next\<rparr>))"

definition messageV3_unmarshalInner :: "messageV3 \<Rightarrow> bytes \<Rightarrow> messageV3 outcome" where
  "messageV3_unmarshalInner m b =
     and_then (globalDataV3_Unmarshal b) (\<lambda>(h, next).
     and_then (securityParameterV3_Unmarshal next) (\<lambda>(sec, next).
       Ok (m\<lparr>msg_global := h, msg_sec := sec, msg_base := (msg_base m)\<lparr>msg_pduBytes := next\<rparr>\<rparr>)))"

fun Message_Unmarshal :: "message \<Rightarrow> bytes \<Rightarrow> (message \<times> bytes) outcome" where
  "Message_Unmarshal (MsgV1 m) b =
     and_then (unmarshalMessageVersion b) (\<lambda>(ver, rest, next).
     and_then (messageV1_unmarshalInner m next) (\<lambda>m'. Ok (MsgV1 (m'\<lparr>msg_version := ver\<rparr>), rest)))"
| "Message_Unmarshal (MsgV3 m) b =
     and_then (unmarshalMessageVersion b) (\<lambda>(ver, rest, next).
     and_then (messageV3_unmarshalInner m next) (\<lambda>m'.
       Ok (MsgV3 (m'\<lparr>msg_base := (msg_base m')\<lparr>msg_version := ver\<rparr>\<rparr>), rest)))"

definition zero_securityParameterV3 :: securityParameterV3 where
  "zero_securityParameterV3 =
     \<lparr>AuthEngineId = [], AuthEngineBoots = 0, AuthEngineTime = 0, UserName = [], AuthParameter = [], PrivParameter = []\<rparr>"

text \<open>A nil message for an unknown version.\<close>

definition newMessageWithPdu :: "int \<Rightarrow> pdu \<Rightarrow> message option" where
  "newMessageWithPdu ver p =
     (let m = \<lparr>msg_version = ver, msg_Community = [], msg_pduBytes = [], msg_pdu = p\<rparr>
      in if ver = V1 \<or> ver = V2c then Some (MsgV1 m)
         else if ver = V3 then
           Some (MsgV3 \<lparr>msg_global = \<lparr>MessageId = 0, MessageMaxSize = 0, MessageFlags = [0], SecurityModel = 0\<rparr>,
             msg_sec = zero_securityParameterV3, msg_base = m\<rparr>)
         else None)"

definition newMessage :: "int \<Rightarrow> message option" where
  "newMessage ver =
     (if ver = V1 \<or> ver = V2c then newMessageWithPdu ver (PduV1 zero_pduV1)
      else if ver = V3 then newMessageWithPdu ver (ScopedPdu [] [] zero_pduV1)
      else None)"

definition unmarshalMessage :: "bytes \<Rightarrow> (message \<times> bytes) outcome" where
  "unmarshalMessage b =
     and_then (unmarshalMessageVersion b) (\<lambda>(ver, rest, next).
       case newMessage ver of
         Some (MsgV1 m) \<Rightarrow> and_then (messageV1_unmarshalInner m next) (\<lambda>m'. Ok (MsgV1 m', rest))
       | Some (MsgV3 m) \<Rightarrow> and_then (messageV3_unmarshalInner m next) (\<lambda>m'. Ok (MsgV3 m', rest))
       | None \<Rightarrow>
           Err (MessageError None (''Invalid SNMP Version - '' @ SNMPVersion_String ver @ ''('' @ itoa ver @ '')'')))"

section \<open>Flags\<close>

lemma get_set_flag:
  "fm AND fm' = 0 \<Longrightarrow> get_flag fm (set_flag fm' b h) = get_flag fm h"
  "fm \<noteq> 0 \<Longrightarrow> get_flag fm (set_flag fm b h) = b"
proof -
  obtain f fs where f: "MessageFlags (initFlags h) = f # fs"
    by (cases "MessageFlags h") (auto simp: initFlags_def)
  have e: "MessageFlags (initFlags (set_flag fm' b h)) = (if b then f OR fm' else f AND NOT fm') # fs" for fm'
    by (simp add: set_flag_def Let_def f) (simp add: initFlags_def)
  show "get_flag fm (set_flag fm' b h) = get_flag fm h" if "fm AND fm' = 0"
  proof -
    have "(if b then f OR fm' else f AND NOT fm') AND fm = f AND fm"
      using that by (auto simp: bit_eq_iff [where 'a = byte] bit_simps)
    then show ?thesis by (simp add: get_flag_def e f)
  qed
  show "get_flag fm (set_flag fm b h) = b" if "fm \<noteq> 0"
  proof (cases b)
    case True
    have "(f OR fm) AND fm = fm" by (auto simp: bit_eq_iff [where 'a = byte] bit_simps)
    then show ?thesis unfolding get_flag_def e using True that by simp
  next
    case False
    have "(f AND NOT fm) AND fm = 0" by (auto simp: bit_eq_iff [where 'a = byte] bit_simps)
    then show ?thesis unfolding get_flag_def e using False by simp
  qed
qed

text \<open>The three flags of a version 3 header are independent: setting one makes its reader return the
  new value and changes neither of the other two, also when the received flags are empty.\<close>

theorem flags_independent:
  "Reportable (SetReportable b h) = b \<and> Privacy (SetReportable b h) = Privacy h \<and>
   Authentication (SetReportable b h) = Authentication h \<and>
   Privacy (SetPrivacy b h) = b \<and> Reportable (SetPrivacy b h) = Reportable h \<and>
   Authentication (SetPrivacy b h) = Authentication h \<and>
   Authentication (SetAuthentication b h) = b \<and> Reportable (SetAuthentication b h) = Reportable h \<and>
   Privacy (SetAuthentication b h) = Privacy h"
  by (simp add: SetReportable_def Reportable_def SetPrivacy_def Privacy_def SetAuthentication_def
      Authentication_def get_set_flag)

section \<open>Arbitrary input\<close>

lemma Message_no_panic [simp]:
  "\<not> panics (globalDataV3_Unmarshal b)" "\<not> panics (securityParameterV3_Unmarshal b)"
  "\<not> panics (unmarshalMessageVersion b)" "\<not> panics (messageV1_unmarshalInner m b)"
  "\<not> panics (messageV3_unmarshalInner n b)"
  by (auto simp: globalDataV3_Unmarshal_def securityParameterV3_Unmarshal_def unmarshalMessageVersion_def
      messageV1_unmarshalInner_def messageV3_unmarshalInner_def)

lemma unmarshalMessage_no_panic: "\<not> panics (unmarshalMessage b)"
  by (auto simp: unmarshalMessage_def split: option.splits message.splits)

text \<open>No datagram makes the decoding of a message panic: every truncated, oversized or malformed one is
  an error, and what is decoded is of a known version, with its version kept.\<close>

theorem unmarshalMessage_total:
  "case unmarshalMessage b of
     Ok (MsgV1 x, rest) \<Rightarrow> msg_version x = V1 \<or> msg_version x = V2c
   | Ok (MsgV3 x, rest) \<Rightarrow> msg_version (msg_base x) = V3
   | Err e \<Rightarrow> True
   | Panic p \<Rightarrow> False"
proof -
  have no: "unmarshalMessage b \<noteq> Panic p" for p
    using unmarshalMessage_no_panic [of b] by (cases "unmarshalMessage b") auto
  have v1: "newMessage ver = Some (MsgV1 x) \<Longrightarrow> messageV1_unmarshalInner x n = Ok y \<Longrightarrow> msg_version y = V1 \<or> msg_version y = V2c"
    for ver x y n
    by (auto simp: messageV1_unmarshalInner_def outcome_simps newMessage_def newMessageWithPdu_def Let_def split: if_splits)
  have v3: "newMessage ver = Some (MsgV3 x) \<Longrightarrow> messageV3_unmarshalInner x n = Ok y \<Longrightarrow> msg_version (msg_base y) = V3"
    for ver x y n
    by (auto simp: messageV3_unmarshalInner_def outcome_simps newMessage_def newMessageWithPdu_def Let_def split: if_splits)
  show ?thesis
  proof (cases "unmarshalMessage b")
    case (Ok r)
    then obtain ver rest body m where ver: "unmarshalMessageVersion b = Ok (ver, rest, body)" "newMessage ver = Some m"
      by (auto simp: unmarshalMessage_def and_then_Ok_iff split: option.splits)
    with Ok show ?thesis
      by (cases m) (auto simp: unmarshalMessage_def and_then_Ok_iff dest: v1 v3)
  qed (use no in auto)
qed

section \<open>Round trip\<close>

lemma globalDataV3_bytes:
  assumes "in_int64 (MessageId h)" "in_int64 (MessageMaxSize h)" "in_int64 (SecurityModel h)"
    and "short (globalDataV3_Marshal h)"
  shows "globalDataV3_Unmarshal (globalDataV3_Marshal h @ rest) = Ok (h, rest)"
proof -
  let ?encs = "[marshal_int (MessageId h), marshal_int (MessageMaxSize h), marshal_octets (MessageFlags h),
       marshal_int (SecurityModel h)]"
  have c: "short (concat ?encs)"
    using assms(4) unfolding globalDataV3_Marshal_def marshal_struct_def by (rule short_tlv)
  have f: "short (MessageFlags h)"
    using length_tlv [of "MessageFlags h" 0 False 4] by (intro short_part [OF c]) (simp add: marshal_octets_def)
  have "decode_fields [([], T_Int64), ([], T_Int64), ([], T_Octets), ([], T_Int64)] ?encs
    [V_Int (MessageId h), V_Int (MessageMaxSize h), V_Octets (MessageFlags h), V_Int (SecurityModel h)]"
    by (intro decode_fields.intros decodes_int(2) decodes_octets assms f)
  from Unmarshal_decodes [OF decodes_struct [OF this c], of rest V_Zero] show ?thesis
    by (simp add: globalDataV3_Unmarshal_def globalDataV3_type_def globalDataV3_Marshal_def val_globalDataV3_def
        val_fields_def)
qed

lemma securityParameterV3_bytes:
  assumes "in_int64 (AuthEngineBoots s)" "in_int64 (AuthEngineTime s)" and "short (securityParameterV3_Marshal s)"
  shows "securityParameterV3_Unmarshal (securityParameterV3_Marshal s @ rest) = Ok (s, rest)"
proof -
  let ?encs = "[marshal_octets (AuthEngineId s), marshal_int (AuthEngineBoots s),
          marshal_int (AuthEngineTime s), marshal_octets (UserName s), marshal_octets (AuthParameter s),
          marshal_octets (PrivParameter s)]"
  have t: "short (marshal_struct ?encs)"
    using assms(3) unfolding securityParameterV3_Marshal_def marshal_raw_def by (rule short_tlv)
  then have c: "short (concat ?encs)" unfolding marshal_struct_def by (rule short_tlv)
  have o: "short (AuthEngineId s)" "short (UserName s)" "short (AuthParameter s)" "short (PrivParameter s)"
    using length_tlv [of "AuthEngineId s" 0 False 4] length_tlv [of "UserName s" 0 False 4]
      length_tlv [of "AuthParameter s" 0 False 4] length_tlv [of "PrivParameter s" 0 False 4]
    by (intro short_part [OF c]; simp add: marshal_octets_def)+
  have "decode_fields [([], T_Octets), ([], T_Int64), ([], T_Int64), ([], T_Octets), ([], T_Octets), ([], T_Octets)] ?encs
    [V_Octets (AuthEngineId s), V_Int (AuthEngineBoots s), V_Int (AuthEngineTime s), V_Octets (UserName s),
     V_Octets (AuthParameter s), V_Octets (PrivParameter s)]"
    by (intro decode_fields.intros decodes_int(2) decodes_octets assms o)
  from Unmarshal_decodes [OF decodes_struct [OF this c], of "[]" V_Zero]
  have u: "Unmarshal (marshal_struct ?encs) securityParameterV3_type V_Zero =
    Ok (V_Struct [V_Octets (AuthEngineId s), V_Int (AuthEngineBoots s), V_Int (AuthEngineTime s), V_Octets (UserName s),
     V_Octets (AuthParameter s), V_Octets (PrivParameter s)], [])"
    by (simp only: securityParameterV3_type_def append_Nil2)
  have raw: "unmarshal_raw (securityParameterV3_Marshal s @ rest) =
      Ok (\<lparr>Class = 0, Tag = 4, IsCompound = False, Bytes = marshal_struct ?encs\<rparr>, rest)"
    using Unmarshal_raw_tlv [of 0 4 "marshal_struct ?encs" False rest] t
    by (simp add: securityParameterV3_Marshal_def marshal_raw_def ber_consts)
  show ?thesis
    unfolding securityParameterV3_Unmarshal_def raw
    by (simp add: ber_consts u val_securityParameterV3_def val_fields_def)
qed

fun message_fits :: "message \<Rightarrow> bool" where
  "message_fits (MsgV1 m) \<longleftrightarrow> msg_version m = V1 \<or> msg_version m = V2c"
| "message_fits (MsgV3 m) \<longleftrightarrow>
     msg_version (msg_base m) = V3 \<and> in_int64 (MessageId (msg_global m)) \<and> in_int64 (MessageMaxSize (msg_global m)) \<and>
     in_int64 (SecurityModel (msg_global m)) \<and> in_int64 (AuthEngineBoots (msg_sec m)) \<and>
     in_int64 (AuthEngineTime (msg_sec m)) \<and> msg_Community (msg_base m) = []"

text \<open>The receiver's copy of a message: the same fields, the PDU still undecoded.\<close>

fun received :: "message \<Rightarrow> message" where
  "received (MsgV1 m) = MsgV1 (m\<lparr>msg_pdu := PduV1 zero_pduV1\<rparr>)"
| "received (MsgV3 m) = MsgV3 (m\<lparr>msg_base := (msg_base m)\<lparr>msg_pdu := ScopedPdu [] [] zero_pduV1\<rparr>\<rparr>)"

lemma version_in_int64: "in_int64 V1" "in_int64 V2c" "in_int64 V3"
  by (simp_all add: in_int64_def version_defs)

lemma unmarshalMessageVersion_bytes:
  assumes "in_int64 ver" and "short (marshal_int ver @ c)"
  shows "unmarshalMessageVersion (tlv 0 True 16 (marshal_int ver @ c) @ rest) = Ok (ver, rest, c)"
  using assms Unmarshal_raw_tlv [of 0 16 "marshal_int ver @ c" True rest]
  by (simp add: unmarshalMessageVersion_def is_sequence_def ber_consts unmarshal_int_bytes)

lemma unmarshalMessage_bytes:
  assumes "message_fits m" and "short (Message_Marshal m)"
  shows "unmarshalMessage (Message_Marshal m @ rest) = Ok (received m, rest)"
proof (cases m)
  case (MsgV1 n)
  let ?c = "marshal_octets (msg_Community n) @ msg_pduBytes n"
  have eq: "Message_Marshal m = tlv 0 True 16 (marshal_int (msg_version n) @ ?c)"
    by (simp add: MsgV1 messageV1_Marshal_def marshal_raw_def ber_consts)
  have c: "short (marshal_int (msg_version n) @ ?c)" using assms(2) unfolding eq by (rule short_tlv)
  have s: "short (msg_Community n)"
    using length_tlv [of "msg_Community n" 0 False 4] by (intro short_part [OF c]) (simp add: marshal_octets_def)
  have v: "msg_version n = V1 \<or> msg_version n = V2c" "in_int64 (msg_version n)"
    using assms(1) MsgV1 version_in_int64 by auto
  show ?thesis
    unfolding eq unmarshalMessage_def unmarshalMessageVersion_bytes [OF v(2) c] using v(1) s
    by (auto simp: newMessage_def newMessageWithPdu_def messageV1_unmarshalInner_def unmarshal_octets_bytes MsgV1)
next
  case (MsgV3 n)
  let ?c = "globalDataV3_Marshal (msg_global n) @ securityParameterV3_Marshal (msg_sec n) @ msg_pduBytes (msg_base n)"
  have v: "msg_version (msg_base n) = V3" and v': "in_int64 (msg_version (msg_base n))"
    using assms(1) MsgV3 version_in_int64 by auto
  have eq: "Message_Marshal m = tlv 0 True 16 (marshal_int (msg_version (msg_base n)) @ ?c)"
    by (simp add: MsgV3 messageV3_Marshal_def marshal_raw_def ber_consts)
  have c: "short (marshal_int (msg_version (msg_base n)) @ ?c)" using assms(2) unfolding eq by (rule short_tlv)
  have s: "short (globalDataV3_Marshal (msg_global n))" "short (securityParameterV3_Marshal (msg_sec n))"
    by (intro short_part [OF c]; simp)+
  have h: "globalDataV3_Unmarshal ?c = Ok (msg_global n, securityParameterV3_Marshal (msg_sec n) @ msg_pduBytes (msg_base n))"
    using assms(1) MsgV3 by (intro globalDataV3_bytes s) auto
  have p: "securityParameterV3_Unmarshal (securityParameterV3_Marshal (msg_sec n) @ msg_pduBytes (msg_base n))
      = Ok (msg_sec n, msg_pduBytes (msg_base n))"
    using assms(1) MsgV3 by (intro securityParameterV3_bytes s) auto
  have "V3 \<noteq> V1" "V3 \<noteq> V2c" by (simp_all add: version_defs)
  then show ?thesis
    unfolding eq unmarshalMessage_def unmarshalMessageVersion_bytes [OF v' c] using v assms(1) MsgV3
    by (simp add: newMessage_def newMessageWithPdu_def messageV3_unmarshalInner_def h p)
qed

text \<open>C12: A message that is sent is received as it was: from the bytes of any version 1, 2c or 3 message
  shorter than two gigabytes the decoder recovers the version, the community or the version 3 header and
  security parameters, and the undecoded PDU bytes, and leaves what follows the message.\<close>

theorem unmarshalMessage_roundtrip:
  assumes "message_fits m" and "short (Message_Marshal m)"
  shows "unmarshalMessage (Message_Marshal m @ rest) = Ok (received m, rest)"
  using assms by (rule unmarshalMessage_bytes)

theorem unmarshalMessage_roundtrip_witness:
  "unmarshalMessage (Message_Marshal (MsgV1 \<lparr>msg_version = V2c, msg_Community = bytes_of_string ''public'',
       msg_pduBytes = [0xa0, 0x00], msg_pdu = PduV1 zero_pduV1\<rparr>) @ [0xff]) =
     Ok (received (MsgV1 \<lparr>msg_version = V2c, msg_Community = bytes_of_string ''public'',
       msg_pduBytes = [0xa0, 0x00], msg_pdu = PduV1 zero_pduV1\<rparr>), [0xff])"
proof (rule unmarshalMessage_roundtrip)
  have "length (Message_Marshal (MsgV1 \<lparr>msg_version = V2c, msg_Community = bytes_of_string ''public'',
       msg_pduBytes = [0xa0, 0x00], msg_pdu = PduV1 zero_pduV1\<rparr>)) \<le> 30"
    by code_simp
  then show "short (Message_Marshal (MsgV1 \<lparr>msg_version = V2c, msg_Community = bytes_of_string ''public'',
       msg_pduBytes = [0xa0, 0x00], msg_pdu = PduV1 zero_pduV1\<rparr>))"
    unfolding short_def by (rule le_less_trans) simp
qed simp

end
