(* ===== verification/Crypto.thy ===== *)
theory Crypto
  imports Message
begin

text \<open>
  The cryptographic helpers of \<open>snmpgo/security.go\<close>. The primitives of Go's \<open>crypto\<close> packages (MD5, SHA-1
  and the DES and AES block functions) are the fields of \<open>crypto\<close>; HMAC, cipher block chaining and cipher
  feedback are built on them here. \<open>crypto_ok\<close> states what is documented of the primitives.
\<close>

section \<open>Primitives and modes\<close>

record crypto =
  md5_sum :: "bytes \<Rightarrow> bytes"
  sha1_sum :: "bytes \<Rightarrow> bytes"
  des_block :: "bytes \<Rightarrow> bytes \<Rightarrow> bytes"
  des_unblock :: "bytes \<Rightarrow> bytes \<Rightarrow> bytes"
  aes_block :: "bytes \<Rightarrow> bytes \<Rightarrow> bytes"

text \<open>Digest sizes, and the DES block function as a permutation of 8-byte blocks.\<close>

definition crypto_ok :: "crypto \<Rightarrow> bool" where
  "crypto_ok cr \<longleftrightarrow>
     (\<forall>m. length (md5_sum cr m) = 16) \<and> (\<forall>m. length (sha1_sum cr m) = 20) \<and>
     (\<forall>k b. length b = 8 \<longrightarrow> length (des_block cr k b) = 8 \<and> des_unblock cr k (des_block cr k b) = b) \<and>
     (\<forall>k b. length (aes_block cr k b) = 16)"

definition xor_list :: "bytes \<Rightarrow> bytes \<Rightarrow> bytes" where
  "xor_list a b = map2 (\<lambda>x y. x XOR y) a b"

text \<open>\<open>hmac.New\<close>: both hashes work on 64-byte blocks.\<close>

definition hmac :: "(bytes \<Rightarrow> bytes) \<Rightarrow> bytes \<Rightarrow> bytes \<Rightarrow> bytes" where
  "hmac h key m =
     (let k = (if length key > 64 then h key else key);
          k = k @ replicate (64 - length k) 0
      in h (map (\<lambda>b. b XOR 0x5c) k @ h (map (\<lambda>b. b XOR 0x36) k @ m)))"

text \<open>The hash \<open>h\<close> of a protocol; for any other protocol \<open>h\<close> stays nil and its first use panics.\<close>

definition hash_of :: "crypto \<Rightarrow> string \<Rightarrow> (bytes \<Rightarrow> bytes) outcome" where
  "hash_of cr proto =
     (if proto = Md5 then Ok (md5_sum cr)
      else if proto = Sha then Ok (sha1_sum cr)
      else Panic NilDereference)"

fun chunks :: "nat \<Rightarrow> 'a list \<Rightarrow> 'a list list" where
  "chunks n xs = (if xs = [] \<or> n = 0 then [] else take n xs # chunks n (drop n xs))"

declare chunks.simps [simp del]

fun cbc_encrypt :: "(bytes \<Rightarrow> bytes) \<Rightarrow> bytes \<Rightarrow> bytes list \<Rightarrow> bytes list" where
  "cbc_encrypt e iv [] = []"
| "cbc_encrypt e iv (b # bs) = (let c = e (xor_list b iv) in c # cbc_encrypt e c bs)"

fun cbc_decrypt :: "(bytes \<Rightarrow> bytes) \<Rightarrow> bytes \<Rightarrow> bytes list \<Rightarrow> bytes list" where
  "cbc_decrypt d iv [] = []"
| "cbc_decrypt d iv (c # cs) = xor_list (d c) iv # cbc_decrypt d c cs"

fun cfb_encrypt :: "(bytes \<Rightarrow> bytes) \<Rightarrow> bytes \<Rightarrow> bytes list \<Rightarrow> bytes list" where
  "cfb_encrypt e iv [] = []"
| "cfb_encrypt e iv (b # bs) = (let c = xor_list b (e iv) in c # cfb_encrypt e c bs)"

fun cfb_decrypt :: "(bytes \<Rightarrow> bytes) \<Rightarrow> bytes \<Rightarrow> bytes list \<Rightarrow> bytes list" where
  "cfb_decrypt e iv [] = []"
| "cfb_decrypt e iv (c # cs) = xor_list c (e iv) # cfb_decrypt e c cs"

text \<open>\<open>binary.Write\<close> in big-endian order: the low \<open>k\<close> bytes of the two's complement.\<close>

definition be_bytes :: "nat \<Rightarrow> int \<Rightarrow> bytes" where
  "be_bytes k i = map (\<lambda>j. word_of_int (i div 256 ^ (k - 1 - j))) [0..<k]"

lemma length_be_bytes [simp]: "length (be_bytes k i) = k"
  by (simp add: be_bytes_def)

section \<open>DES and AES\<close>

definition encryptDES :: "crypto \<Rightarrow> bytes \<Rightarrow> bytes \<Rightarrow> int \<Rightarrow> int \<Rightarrow> (bytes \<times> bytes) outcome" where
  "encryptDES cr src key engineBoots salt =
     and_then (slice key 0 8) (\<lambda>k.
       let privParam = be_bytes 4 engineBoots @ be_bytes 4 salt in
       and_then (slice key 8 16) (\<lambda>pre.
       and_then (xor_bytes pre privParam) (\<lambda>iv.
         Ok (concat (cbc_encrypt (des_block cr k) iv (chunks 8 (padding src 8))), privParam))))"

definition decryptDES :: "crypto \<Rightarrow> bytes \<Rightarrow> bytes \<Rightarrow> bytes \<Rightarrow> bytes outcome" where
  "decryptDES cr src key privParam =
     (if length src mod 8 \<noteq> 0 then Err (ArgumentError (itoa (int (length src))) ''Invalid DES cipher length'')
      else if length privParam \<noteq> 8 then
        Err (ArgumentError (itoa (int (length privParam))) ''Invalid DES PrivParameter length'')
      else
        and_then (slice key 0 8) (\<lambda>k.
        and_then (slice key 8 16) (\<lambda>pre.
        and_then (xor_bytes pre privParam) (\<lambda>iv.
          Ok (concat (cbc_decrypt (des_unblock cr k) iv (chunks 8 src)))))))"

definition encryptAES :: "crypto \<Rightarrow> bytes \<Rightarrow> bytes \<Rightarrow> int \<Rightarrow> int \<Rightarrow> int \<Rightarrow> (bytes \<times> bytes) outcome" where
  "encryptAES cr src key engineBoots engineTime salt =
     and_then (slice key 0 16) (\<lambda>k.
       let privParam = be_bytes 8 salt;
           iv = be_bytes 4 engineBoots @ be_bytes 4 engineTime @ privParam
       in Ok (concat (cfb_encrypt (aes_block cr k) iv (chunks 16 (padding src 16))), privParam))"

definition decryptAES :: "crypto \<Rightarrow> bytes \<Rightarrow> bytes \<Rightarrow> bytes \<Rightarrow> int \<Rightarrow> int \<Rightarrow> bytes outcome" where
  "decryptAES cr src key privParam engineBoots engineTime =
     (if length privParam \<noteq> 8 then
        Err (ArgumentError (itoa (int (length privParam))) ''Invalid AES PrivParameter length'')
      else
        and_then (slice key 0 16) (\<lambda>k.
          let iv = be_bytes 4 engineBoots @ be_bytes 4 engineTime @ privParam
          in Ok (concat (cfb_decrypt (aes_block cr k) iv (chunks 16 src)))))"

section \<open>Keys, digests and encrypted PDUs\<close>

text \<open>
  \<open>passwordToKey\<close>: the password repeated to one mebibyte is hashed, and the result hashed again around
  the engine id. An empty password would divide by zero; the callers check for it.
\<close>

definition passwordToKey :: "crypto \<Rightarrow> string \<Rightarrow> string \<Rightarrow> bytes \<Rightarrow> bytes outcome" where
  "passwordToKey cr proto password engineId =
     (let pass = bytes_of_string password; plen = length pass in
      if plen = 0 then Panic (ExplicitPanic ''integer divide by zero'')
      else and_then (hash_of cr proto) (\<lambda>h.
        let ku = h (concat (replicate (mega div plen) pass) @ take (mega mod plen) pass)
        in Ok (h (ku @ engineId @ ku))))"

definition mac :: "crypto \<Rightarrow> messageV3 \<Rightarrow> string \<Rightarrow> bytes \<Rightarrow> bytes outcome" where
  "mac cr msg proto key =
     (let msgBytes = messageV3_Marshal (msg\<lparr>msg_sec := (msg_sec msg)\<lparr>AuthParameter := padding [] 12\<rparr>\<rparr>)
      in and_then (hash_of cr proto) (\<lambda>h. slice (hmac h key msgBytes) 0 12))"

text \<open>With any other protocol than the two the plaintext is dropped: \<open>dst\<close> and \<open>priv\<close> stay nil.\<close>

definition encrypt :: "crypto \<Rightarrow> int \<Rightarrow> int \<Rightarrow> messageV3 \<Rightarrow> string \<Rightarrow> bytes \<Rightarrow> messageV3 outcome" where
  "encrypt cr salt32 salt64 msg proto key =
     (let src = msg_pduBytes (msg_base msg); sec = msg_sec msg in
      and_then
        (if proto = Des then encryptDES cr src key (AuthEngineBoots sec) salt32
         else if proto = Aes then encryptAES cr src key (AuthEngineBoots sec) (AuthEngineTime sec) salt64
         else Ok ([], []))
        (\<lambda>(dst, priv).
          Ok (msg\<lparr>msg_base := (msg_base msg)\<lparr>msg_pduBytes := marshal_raw classUniversal tagOctetString False dst\<rparr>,
                msg_sec := sec\<lparr>PrivParameter := priv\<rparr>\<rparr>)))"

definition decrypt :: "crypto \<Rightarrow> messageV3 \<Rightarrow> string \<Rightarrow> bytes \<Rightarrow> bytes \<Rightarrow> messageV3 outcome" where
  "decrypt cr msg proto key privParam =
     (let b = msg_pduBytes (msg_base msg); sec = msg_sec msg in
      and_then (unmarshal_raw b) (\<lambda>(raw, _).
        if Class raw \<noteq> classUniversal \<or> Tag raw \<noteq> int tagOctetString \<or> IsCompound raw then
          Err (invalid_object ''encrypted Pdu'' raw b)
        else
          and_then
            (if proto = Des then decryptDES cr (Bytes raw) key privParam
             else if proto = Aes then decryptAES cr (Bytes raw) key privParam (AuthEngineBoots sec) (AuthEngineTime sec)
             else Ok [])
            (\<lambda>dst. Ok (msg\<lparr>msg_base := (msg_base msg)\<lparr>msg_pduBytes := dst\<rparr>\<rparr>))))"

section \<open>The modes are inverse\<close>

lemma length_xor_list [simp]: "length (xor_list a b) = min (length a) (length b)"
  by (simp add: xor_list_def)

lemma xor_list_twice: "length a \<le> length b \<Longrightarrow> xor_list (xor_list a b) b = a"
proof (induction a arbitrary: b)
  case (Cons x a)
  then obtain y b' where "b = y # b'" by (cases b) auto
  with Cons show ?case by (simp add: xor_list_def xor.assoc)
qed (simp add: xor_list_def)

lemma chunks_concat: "0 < n \<Longrightarrow> concat (chunks n xs) = xs"
proof (induction n xs rule: chunks.induct)
  case (1 n xs)
  then show ?case by (cases "xs = []") (simp_all add: chunks.simps [of n xs] chunks.simps [of n "[]"])
qed

lemma chunks_length: "length xs mod n = 0 \<Longrightarrow> b \<in> set (chunks n xs) \<Longrightarrow> length b = n"
proof (induction n xs rule: chunks.induct)
  case (1 n xs)
  show ?case
  proof (cases "xs = [] \<or> n = 0")
    case False
    then have "n \<le> length xs" using "1.prems"(1) by (cases "length xs < n") auto
    moreover have "length (drop n xs) mod n = 0" using "1.prems"(1) calculation by (simp add: le_mod_geq)
    ultimately show ?thesis using "1.IH" "1.prems" False by (auto simp: chunks.simps [of n xs])
  qed (use "1.prems" in \<open>simp add: chunks.simps [of n xs]\<close>)
qed

lemma chunks_length_le: "b \<in> set (chunks n xs) \<Longrightarrow> length b \<le> n"
proof (induction n xs rule: chunks.induct)
  case (1 n xs)
  then show ?case by (cases "xs = [] \<or> n = 0") (auto simp: chunks.simps [of n xs])
qed

text \<open>Blocks of full length are cut where they were joined.\<close>

lemma chunks_of_concat:
  "0 < n \<Longrightarrow> \<forall>b \<in> set bs. length b = n \<Longrightarrow> chunks n (concat bs) = bs"
proof (induction bs)
  case (Cons b bs)
  then show ?case by (subst chunks.simps) auto
qed (simp add: chunks.simps)

lemma cbc_inverse:
  assumes "\<And>b. length b = 8 \<Longrightarrow> length (e b) = 8 \<and> d (e b) = b"
    and "length iv = 8" and "\<forall>b \<in> set bs. length b = 8"
  shows "cbc_decrypt d iv (cbc_encrypt e iv bs) = bs \<and> (\<forall>c \<in> set (cbc_encrypt e iv bs). length c = 8)"
  using assms(2,3)
proof (induction bs arbitrary: iv)
  case (Cons b bs)
  have "length (e (xor_list b iv)) = 8 \<and> d (e (xor_list b iv)) = xor_list b iv"
    using Cons.prems by (intro assms(1)) simp
  with Cons.IH [of "e (xor_list b iv)"] Cons.prems show ?case by (simp add: xor_list_twice Let_def)
qed simp

lemma cfb_inverse:
  assumes "\<And>b. length (e b) = 16" and "\<forall>b \<in> set bs. length b = 16"
  shows "cfb_decrypt e iv (cfb_encrypt e iv bs) = bs \<and> (\<forall>c \<in> set (cfb_encrypt e iv bs). length c = 16)"
  using assms(2) by (induction bs arbitrary: iv) (simp_all add: assms(1) xor_list_twice Let_def)

lemma padded_blocks: "0 < n \<Longrightarrow> \<forall>b \<in> set (chunks n (padding src n)). length b = n"
  using chunks_length [of "padding src n" n] by (simp add: length_padding)

lemma length_concat_blocks: "\<forall>b \<in> set bs. length b = n \<Longrightarrow> length (concat bs) = n * length bs"
  by (induction bs) simp_all

lemma DES_inverse:
  assumes "crypto_ok cr" and "encryptDES cr src key boots salt = Ok (dst, priv)"
  shows "decryptDES cr dst key priv = Ok (padding src 8) \<and> length priv = 8"
proof -
  from assms(2) obtain k pre where k: "slice key 0 8 = Ok k" "slice key 8 16 = Ok pre"
    by (auto simp: encryptDES_def Let_def outcome_simps)
  let ?pp = "be_bytes 4 boots @ be_bytes 4 salt"
  have pre: "length pre = 8" using k(2) by (auto simp: slice_Ok_iff)
  then have dst: "dst = concat (cbc_encrypt (des_block cr k) (xor_list pre ?pp) (chunks 8 (padding src 8)))" "priv = ?pp"
    using assms(2) k by (auto simp: encryptDES_def Let_def xor_list_def)
  have e: "length b = 8 \<Longrightarrow> length (des_block cr k b) = 8 \<and> des_unblock cr k (des_block cr k b) = b" for b
    using assms(1) by (simp add: crypto_ok_def)
  have iv: "length (xor_list pre ?pp) = 8" using pre by simp
  note inv = cbc_inverse [of "des_block cr k" "des_unblock cr k", OF e iv padded_blocks [of 8 src]]
  have "chunks 8 dst = cbc_encrypt (des_block cr k) (xor_list pre ?pp) (chunks 8 (padding src 8))"
    unfolding dst using inv by (intro chunks_of_concat) auto
  moreover have "length dst mod 8 = 0"
    unfolding dst using inv by (subst length_concat_blocks) auto
  ultimately show ?thesis
    using k pre inv dst(2) by (simp add: decryptDES_def chunks_concat flip: xor_list_def)
qed

lemma AES_inverse:
  assumes "crypto_ok cr" and "encryptAES cr src key boots time salt = Ok (dst, priv)"
  shows "decryptAES cr dst key priv boots time = Ok (padding src 16) \<and> length priv = 8"
proof -
  from assms(2) obtain k where k: "slice key 0 16 = Ok k"
    by (auto simp: encryptAES_def Let_def outcome_simps)
  let ?iv = "be_bytes 4 boots @ be_bytes 4 time @ be_bytes 8 salt"
  have dst: "dst = concat (cfb_encrypt (aes_block cr k) ?iv (chunks 16 (padding src 16)))" "priv = be_bytes 8 salt"
    using assms(2) k by (auto simp: encryptAES_def Let_def)
  have e: "length (aes_block cr k b) = 16" for b using assms(1) by (simp add: crypto_ok_def)
  note inv = cfb_inverse [of "aes_block cr k", OF e padded_blocks [of 16 src]]
  have "chunks 16 dst = cfb_encrypt (aes_block cr k) ?iv (chunks 16 (padding src 16))"
    unfolding dst using inv by (intro chunks_of_concat) auto
  then show ?thesis
    using k inv dst(2) by (simp add: decryptAES_def chunks_concat)
qed

end
