(* ===== verification/Security.thy ===== *)
theory Security
  imports Crypto "HOL-Library.AList"
begin

text \<open>
  The security models of \<open>snmpgo/security.go\<close>: the community of versions 1 and 2c and the user-based
  model of version 3, which authenticates, encrypts and checks the timeliness of messages and keeps the
  state of the peer's engine. The clock reading \<open>now\<close> (in nanoseconds) and the random salts are arguments.
  An operation of \<open>usm\<close> returns the state it leaves also when it fails. A type assertion on a message of the
  other kind is a panic. \<open>Detail\<close> strings of errors are left out.
\<close>

section \<open>State\<close>

text \<open>\<open>SNMPArguments\<close> of \<open>snmpgo/client.go\<close>\<close>

record SNMPArguments =
  a_Version :: int
  a_Network :: string
  a_Address :: string
  a_Timeout :: int
  a_Retries :: "64 word"
  a_MessageMaxSize :: int
  a_Community :: string
  a_UserName :: string
  a_SecurityLevel :: int
  a_AuthPassword :: string
  a_AuthProtocol :: string
  a_PrivPassword :: string
  a_PrivProtocol :: string
  a_SecurityEngineId :: string
  a_ContextEngineId :: string
  a_ContextName :: string
  a_authEngineBoots :: int
  a_authEngineTime :: int

definition noDiscovered :: int where "noDiscovered = 0"
definition noSynchronized :: int where "noSynchronized = 1"
definition discovered :: int where "discovered = 2"
definition remoteReference :: int where "remoteReference = 3"

lemmas discovery_defs = noDiscovered_def noSynchronized_def discovered_def remoteReference_def

definition discoveryStatus_String :: "int \<Rightarrow> string" where
  "discoveryStatus_String d =
     (if d = noDiscovered then ''noDiscovered''
      else if d = noSynchronized then ''noSynchronized''
      else if d = discovered then ''discovered''
      else if d = remoteReference then ''remoteReference''
      else ''Unknown'')"

record usm =
  u_UserName :: bytes
  u_DiscoveryStatus :: int
  u_AuthEngineId :: bytes
  u_AuthEngineBoots :: int
  u_AuthEngineTime :: int
  u_UpdatedTime :: int
  u_AuthKey :: bytes
  u_AuthPassword :: string
  u_AuthProtocol :: string
  u_PrivKey :: bytes
  u_PrivPassword :: string
  u_PrivProtocol :: string

datatype security = Community bytes | Usm usm

section \<open>The community\<close>

text \<open>\<open>GenerateResponseMessage\<close> is \<open>GenerateRequestMessage\<close> for both models.\<close>

definition community_GenerateRequestMessage :: "bytes \<Rightarrow> message \<Rightarrow> message outcome" where
  "community_GenerateRequestMessage c sendMsg =
     (case sendMsg of
        MsgV3 m \<Rightarrow> Panic TypeAssertion
      | MsgV1 m \<Rightarrow>
          (let m' = m\<lparr>msg_Community := c\<rparr> in
           and_then (Pdu_Marshal (msg_pdu m')) (\<lambda>b. Ok (SetPduBytes b (MsgV1 m')))))"

definition failed_pdu :: "string \<Rightarrow> go_error \<Rightarrow> go_error" where
  "failed_pdu note' e = MessageError (Some e) (''Failed to Unmarshal Pdu'' @ note')"

definition community_ProcessIncomingMessage :: "bytes \<Rightarrow> message \<Rightarrow> message outcome" where
  "community_ProcessIncomingMessage c recvMsg =
     (case recvMsg of
        MsgV3 m \<Rightarrow> Panic TypeAssertion
      | MsgV1 rm \<Rightarrow>
          if c \<noteq> msg_Community rm then
            Err (MessageError None (''Community mismatch - expected ['' @ toHexStr c [] @ ''], actual ['' @
              toHexStr (msg_Community rm) [] @ '']''))
          else
            (case Pdu_Unmarshal (msg_pdu rm) (msg_pduBytes rm) of
               Ok (p, _) \<Rightarrow> Ok (MsgV1 (rm\<lparr>msg_pdu := p\<rparr>))
             | Err e \<Rightarrow> Err (failed_pdu [] e)
             | Panic x \<Rightarrow> Panic x))"

section \<open>Engine time\<close>

definition UpdateEngineBootsTime :: "int \<Rightarrow> usm \<Rightarrow> usm \<times> unit outcome" where
  "UpdateEngineBootsTime now u =
     (let u = u\<lparr>u_AuthEngineTime := wrap64 (u_AuthEngineTime u + go_div (now - u_UpdatedTime u) Second)\<rparr> in
      if u_AuthEngineTime u > MaxInt32 then
        (let u = u\<lparr>u_AuthEngineBoots := wrap64 (u_AuthEngineBoots u + 1)\<rparr> in
         if u_AuthEngineBoots u = MaxInt32 then
           (u, Err (PlainError (''EngineBoots reached the max value, ['' @ itoa MaxInt32 @ '']'')))
         else (u\<lparr>u_AuthEngineTime := u_AuthEngineTime u - MaxInt32, u_UpdatedTime := now\<rparr>, Ok ()))
      else (u\<lparr>u_UpdatedTime := now\<rparr>, Ok ()))"

definition SynchronizeEngineBootsTime :: "int \<Rightarrow> int \<Rightarrow> int \<Rightarrow> usm \<Rightarrow> usm" where
  "SynchronizeEngineBootsTime now engineBoots engineTime u =
     u\<lparr>u_AuthEngineBoots := engineBoots, u_AuthEngineTime := engineTime, u_UpdatedTime := now\<rparr>"

definition CheckTimeliness :: "int \<Rightarrow> int \<Rightarrow> usm \<Rightarrow> unit outcome" where
  "CheckTimeliness engineBoots engineTime u =
     (if engineBoots = MaxInt32 \<or> engineBoots < u_AuthEngineBoots u \<or>
         (engineBoots = u_AuthEngineBoots u \<and> wrap64 (u_AuthEngineTime u - engineTime) > 150) then
        Err (MessageError None (''The message is not in the time window - local ['' @ itoa engineBoots @ ''/'' @
          itoa engineTime @ ''], remote ['' @ itoa (u_AuthEngineBoots u) @ ''/'' @ itoa (u_AuthEngineTime u) @ '']''))
      else Ok ())"

definition SetAuthEngineId :: "crypto \<Rightarrow> bytes \<Rightarrow> usm \<Rightarrow> usm outcome" where
  "SetAuthEngineId cr authEngineId u =
     (let u = u\<lparr>u_AuthEngineId := authEngineId\<rparr> in
      and_then
        (if u_AuthPassword u \<noteq> [] then
           and_then (passwordToKey cr (u_AuthProtocol u) (u_AuthPassword u) authEngineId) (\<lambda>k. Ok (u\<lparr>u_AuthKey := k\<rparr>))
         else Ok u)
        (\<lambda>u.
          if u_PrivPassword u \<noteq> [] then
            and_then (passwordToKey cr (u_AuthProtocol u) (u_PrivPassword u) authEngineId) (\<lambda>k. Ok (u\<lparr>u_PrivKey := k\<rparr>))
          else Ok u))"

section \<open>Outgoing messages\<close>

text \<open>
  \<open>GenerateRequestMessage\<close> in its three parts: engine identification and time, encoding of the PDU,
  protection. \<open>random\<close> is the pair of salts. The flags are read, and initialised by reading, after the PDU is
  encoded.
\<close>

definition init_msg :: "messageV3 \<Rightarrow> messageV3" where
  "init_msg m = m\<lparr>msg_global := initFlags (msg_global m)\<rparr>"

definition set_engine :: "int \<Rightarrow> usm \<Rightarrow> messageV3 \<Rightarrow> usm \<times> messageV3 outcome" where
  "set_engine now u m =
     (let m = (if u_DiscoveryStatus u > noDiscovered
               then m\<lparr>msg_sec := (msg_sec m)\<lparr>UserName := u_UserName u, AuthEngineId := u_AuthEngineId u\<rparr>\<rparr> else m)
      in if u_DiscoveryStatus u > noSynchronized then
           (case UpdateEngineBootsTime now u of
              (u', Ok _) \<Rightarrow>
                (u', Ok (m\<lparr>msg_sec := (msg_sec m)\<lparr>AuthEngineBoots := u_AuthEngineBoots u',
                                                AuthEngineTime := u_AuthEngineTime u'\<rparr>\<rparr>))
            | (u', Err e) \<Rightarrow> (u', Err e)
            | (u', Panic x) \<Rightarrow> (u', Panic x))
         else (u, Ok m))"

definition protect :: "crypto \<Rightarrow> int \<times> int \<Rightarrow> usm \<Rightarrow> messageV3 \<Rightarrow> messageV3 outcome" where
  "protect cr random u m =
     (if Authentication (msg_global m) then
        and_then
          (if Privacy (msg_global m) then encrypt cr (fst random) (snd random) m (u_PrivProtocol u) (u_PrivKey u) else Ok m)
          (\<lambda>m. and_then (mac cr m (u_AuthProtocol u) (u_AuthKey u)) (\<lambda>digest.
            Ok (m\<lparr>msg_sec := (msg_sec m)\<lparr>AuthParameter := digest\<rparr>\<rparr>)))
      else Ok m)"

definition usm_GenerateRequestMessage ::
  "crypto \<Rightarrow> int \<times> int \<Rightarrow> int \<Rightarrow> usm \<Rightarrow> message \<Rightarrow> usm \<times> message outcome"
where
  "usm_GenerateRequestMessage cr random now u sendMsg =
     (case sendMsg of
        MsgV1 m \<Rightarrow> (u, Panic TypeAssertion)
      | MsgV3 m \<Rightarrow>
          (case set_engine now u m of
             (u', r) \<Rightarrow>
               (u', and_then r (\<lambda>m.
                      and_then (Pdu_Marshal (msg_pdu (msg_base m))) (\<lambda>pduBytes.
                      and_then (protect cr random u' (init_msg (m\<lparr>msg_base := (msg_base m)\<lparr>msg_pduBytes := pduBytes\<rparr>\<rparr>)))
                        (\<lambda>m. Ok (MsgV3 m)))))))"

section \<open>Incoming messages\<close>

text \<open>The checks before anything is decrypted, in the code's order.\<close>

definition check_engine :: "usm \<Rightarrow> securityParameterV3 \<Rightarrow> unit outcome" where
  "check_engine u sec =
     (if length (AuthEngineId sec) < 5 \<or> length (AuthEngineId sec) > 32 then
        Err (MessageError None (''AuthEngineId length is range 5..32, value ['' @ toHexStr (AuthEngineId sec) [] @ '']''))
      else if AuthEngineBoots sec < 0 \<or> AuthEngineBoots sec > MaxInt32 then
        Err (MessageError None (''AuthEngineBoots is range 0..'' @ itoa MaxInt32 @ '', value ['' @
          itoa (AuthEngineBoots sec) @ '']''))
      else if AuthEngineTime sec < 0 \<or> AuthEngineTime sec > MaxInt32 then
        Err (MessageError None (''AuthEngineTime is range 0..'' @ itoa MaxInt32 @ '', value ['' @
          itoa (AuthEngineTime sec) @ '']''))
      else if u_DiscoveryStatus u > noDiscovered \<and> u_AuthEngineId u \<noteq> AuthEngineId sec then
        Err (MessageError None (''AuthEngineId mismatch - expected ['' @ toHexStr (u_AuthEngineId u) [] @ ''], actual ['' @
          toHexStr (AuthEngineId sec) [] @ '']''))
      else if u_DiscoveryStatus u > noDiscovered \<and> u_UserName u \<noteq> UserName sec then
        Err (MessageError None (''UserName mismatch - expected ['' @ toHexStr (u_UserName u) [] @ ''], actual ['' @
          toHexStr (UserName sec) [] @ '']''))
      else Ok ())"

definition wrap_error :: "string \<Rightarrow> 'a outcome \<Rightarrow> 'a outcome" where
  "wrap_error msg r = (case r of Err e \<Rightarrow> Err (MessageError (Some e) msg) | _ \<Rightarrow> r)"

text \<open>\<open>hmac.Equal\<close> compares the digests.\<close>

definition unprotect :: "crypto \<Rightarrow> usm \<Rightarrow> messageV3 \<Rightarrow> messageV3 outcome" where
  "unprotect cr u rm =
     (if Authentication (msg_global rm) then
        and_then (wrap_error ''Can't get a message digest'' (mac cr rm (u_AuthProtocol u) (u_AuthKey u))) (\<lambda>digest.
          if AuthParameter (msg_sec rm) \<noteq> digest then
            Err (MessageError None (''Failed to authenticate - expected ['' @ toHexStr (AuthParameter (msg_sec rm)) [] @
              ''], actual ['' @ toHexStr digest [] @ '']''))
          else if Privacy (msg_global rm) then
            wrap_error ''Can't decrypt a message''
              (decrypt cr rm (u_PrivProtocol u) (u_PrivKey u) (PrivParameter (msg_sec rm)))
          else Ok rm)
      else Ok rm)"

text \<open>The switch over the discovery status.\<close>

definition update_status :: "crypto \<Rightarrow> int \<Rightarrow> usm \<Rightarrow> messageV3 \<Rightarrow> usm \<times> unit outcome" where
  "update_status cr now u rm =
     (let boots = AuthEngineBoots (msg_sec rm); time = AuthEngineTime (msg_sec rm);
          auth = Authentication (msg_global rm);
          synchronize = (\<lambda>u. if auth then (SynchronizeEngineBootsTime now boots time u)\<lparr>u_DiscoveryStatus := discovered\<rparr> else u)
      in if u_DiscoveryStatus u = remoteReference then
           (if auth then
              (case CheckTimeliness boots time u of
                 Ok _ \<Rightarrow> (SynchronizeEngineBootsTime now boots time u, Ok ())
               | r \<Rightarrow> (u, r))
            else (u, Ok ()))
         else if u_DiscoveryStatus u = discovered then
           (if auth then
              (case CheckTimeliness boots time u of
                 Ok _ \<Rightarrow> (synchronize u, Ok ())
               | r \<Rightarrow> ((SynchronizeEngineBootsTime now 0 0 u)\<lparr>u_DiscoveryStatus := noSynchronized\<rparr>, r))
            else (synchronize u, Ok ()))
         else if u_DiscoveryStatus u = noSynchronized then (synchronize u, Ok ())
         else if u_DiscoveryStatus u = noDiscovered then
           (case SetAuthEngineId cr (AuthEngineId (msg_sec rm)) u of
              Ok u' \<Rightarrow> (u'\<lparr>u_DiscoveryStatus := noSynchronized\<rparr>, Ok ())
            | Err e \<Rightarrow> (u, Err e)
            | Panic x \<Rightarrow> (u, Panic x))
         else (u, Ok ()))"

definition usm_ProcessIncomingMessage :: "crypto \<Rightarrow> int \<Rightarrow> usm \<Rightarrow> message \<Rightarrow> usm \<times> message outcome" where
  "usm_ProcessIncomingMessage cr now u recvMsg =
     (case recvMsg of
        MsgV1 m \<Rightarrow> (u, Panic TypeAssertion)
      | MsgV3 rm \<Rightarrow>
          (case and_then (check_engine u (msg_sec rm)) (\<lambda>_. unprotect cr u (init_msg rm)) of
             Err e \<Rightarrow> (u, Err e)
           | Panic x \<Rightarrow> (u, Panic x)
           | Ok rm \<Rightarrow>
               (case update_status cr now u rm of
                  (u', Err e) \<Rightarrow> (u', Err e)
                | (u', Panic x) \<Rightarrow> (u', Panic x)
                | (u', Ok _) \<Rightarrow>
                    (u', case Pdu_Unmarshal (msg_pdu (msg_base rm)) (msg_pduBytes (msg_base rm)) of
                           Ok (p, _) \<Rightarrow> Ok (MsgV3 (rm\<lparr>msg_base := (msg_base rm)\<lparr>msg_pdu := p\<rparr>\<rparr>))
                         | Err e \<Rightarrow>
                             Err (failed_pdu (if Privacy (msg_global rm)
                                              then '' (probably Pdu was unable to decrypt)'' else []) e)
                         | Panic x \<Rightarrow> Panic x))))"

section \<open>The interface \<open>security\<close>\<close>

fun GenerateRequestMessage :: "crypto \<Rightarrow> int \<times> int \<Rightarrow> int \<Rightarrow> security \<Rightarrow> message \<Rightarrow> security \<times> message outcome" where
  "GenerateRequestMessage cr random now (Community c) m = (Community c, community_GenerateRequestMessage c m)"
| "GenerateRequestMessage cr random now (Usm u) m =
     (case usm_GenerateRequestMessage cr random now u m of (u', r) \<Rightarrow> (Usm u', r))"

fun ProcessIncomingMessage :: "crypto \<Rightarrow> int \<Rightarrow> security \<Rightarrow> message \<Rightarrow> security \<times> message outcome" where
  "ProcessIncomingMessage cr now (Community c) m = (Community c, community_ProcessIncomingMessage c m)"
| "ProcessIncomingMessage cr now (Usm u) m =
     (case usm_ProcessIncomingMessage cr now u m of (u', r) \<Rightarrow> (Usm u', r))"

fun Identifier :: "security \<Rightarrow> string" where
  "Identifier (Community c) = string_of_bytes c"
| "Identifier (Usm u) =
     string_of_bytes (u_AuthEngineId u) @ '':'' @ string_of_bytes (u_UserName u) @
       (if u_AuthPassword u \<noteq> [] then '':auth'' else [])"

definition new_usm :: "string \<Rightarrow> usm" where
  "new_usm userName =
     \<lparr>u_UserName = bytes_of_string userName, u_DiscoveryStatus = noDiscovered, u_AuthEngineId = [], u_AuthEngineBoots = 0,
      u_AuthEngineTime = 0, u_UpdatedTime = 0, u_AuthKey = [], u_AuthPassword = [], u_AuthProtocol = [], u_PrivKey = [],
      u_PrivPassword = [], u_PrivProtocol = []\<rparr>"

text \<open>Passwords and protocols up to the security level; \<open>AuthPriv\<close> falls through to \<open>AuthNoPriv\<close>.\<close>

definition set_credentials :: "int \<Rightarrow> string \<Rightarrow> string \<Rightarrow> string \<Rightarrow> string \<Rightarrow> usm \<Rightarrow> usm" where
  "set_credentials level authPassword authProtocol privPassword privProtocol sec =
     (let sec = (if level = AuthPriv then sec\<lparr>u_PrivPassword := privPassword, u_PrivProtocol := privProtocol\<rparr> else sec)
      in if level = AuthPriv \<or> level = AuthNoPriv
         then sec\<lparr>u_AuthPassword := authPassword, u_AuthProtocol := authProtocol\<rparr> else sec)"

definition newSecurity :: "SNMPArguments \<Rightarrow> security option" where
  "newSecurity args =
     (if a_Version args = V1 \<or> a_Version args = V2c then Some (Community (bytes_of_string (a_Community args)))
      else if a_Version args = V3 then
        Some (Usm (set_credentials (a_SecurityLevel args) (a_AuthPassword args) (a_AuthProtocol args)
          (a_PrivPassword args) (a_PrivProtocol args) (new_usm (a_UserName args))))
      else None)"

section \<open>The map of securities\<close>

type_synonym securityMap = "(string \<times> security) list"

definition securityMap_Set :: "security \<Rightarrow> securityMap \<Rightarrow> securityMap" where
  "securityMap_Set sec m = AList.update (Identifier sec) sec m"

definition message_id :: "message \<Rightarrow> string" where
  "message_id msg =
     (case msg of
        MsgV1 mm \<Rightarrow> string_of_bytes (msg_Community mm)
      | MsgV3 mm \<Rightarrow>
          string_of_bytes (AuthEngineId (msg_sec mm)) @ '':'' @ string_of_bytes (UserName (msg_sec mm)) @
            (if Authentication (msg_global mm) then '':auth'' else []))"

definition securityMap_Lookup :: "message \<Rightarrow> securityMap \<Rightarrow> security option" where
  "securityMap_Lookup msg m = map_of m (message_id msg)"

definition securityMap_List :: "securityMap \<Rightarrow> security list" where
  "securityMap_List m = map snd m"

definition securityMap_Delete :: "security \<Rightarrow> securityMap \<Rightarrow> securityMap" where
  "securityMap_Delete sec m = AList.delete (Identifier sec) m"

end
