(* ===== verification/SecurityFacts.thy ===== *)
theory SecurityFacts
  imports Security
begin

text \<open>
  What the user-based security model guarantees: the clock arithmetic, the inversion of encryption, what an
  accepted message proves, which messages make it panic, and that a protected message is recovered by a peer
  with the same keys.
\<close>

section \<open>The clock\<close>

text \<open>The state of the engine time a client or server keeps for its peer.\<close>

definition clock_ok :: "usm \<Rightarrow> bool" where
  "clock_ok u \<longleftrightarrow> 0 \<le> u_AuthEngineBoots u \<and> u_AuthEngineBoots u \<le> MaxInt32 \<and>
     0 \<le> u_AuthEngineTime u \<and> u_AuthEngineTime u \<le> MaxInt32"

text \<open>Seconds since the engine's first boot.\<close>

definition engine_seconds :: "usm \<Rightarrow> int" where
  "engine_seconds u = u_AuthEngineBoots u * MaxInt32 + u_AuthEngineTime u"

lemma go_div_seconds: "0 \<le> t \<Longrightarrow> go_div t Second = t div Second"
  by (cases "t = 0") (simp_all add: go_div_def Second_def sgn_if)

text \<open>Bringing the peer's engine time up to date adds the whole seconds passed since the last update
  and keeps the time and the boot counter in range; the only failure is the boot counter reaching its
  limit.\<close>

theorem UpdateEngineBootsTime_clock:
  assumes "clock_ok u" and "u_AuthEngineBoots u < MaxInt32"
    and "0 \<le> now - u_UpdatedTime u" and "(now - u_UpdatedTime u) div Second \<le> MaxInt32"
  shows "case UpdateEngineBootsTime now u of (u', r) \<Rightarrow>
    (r = Ok () \<longrightarrow> clock_ok u' \<and> u_UpdatedTime u' = now \<and>
       engine_seconds u' = engine_seconds u + (now - u_UpdatedTime u) div Second) \<and>
    (r \<noteq> Ok () \<longrightarrow> u_AuthEngineBoots u' = MaxInt32)"
proof -
  let ?d = "(now - u_UpdatedTime u) div Second"
  have d: "0 \<le> ?d" "?d \<le> MaxInt32" using assms(3,4) by (simp_all add: Second_def)
  have t: "wrap64 (u_AuthEngineTime u + go_div (now - u_UpdatedTime u) Second) = u_AuthEngineTime u + ?d"
    using assms d by (intro trans [OF wrap64_id]) (auto simp: go_div_seconds in_int64_def clock_ok_def MaxInt32_def)
  have b: "wrap64 (u_AuthEngineBoots u + 1) = u_AuthEngineBoots u + 1"
    using assms(1) by (intro wrap64_id) (auto simp: in_int64_def clock_ok_def MaxInt32_def)
  show ?thesis
    using assms d by (auto simp: UpdateEngineBootsTime_def Let_def t b clock_ok_def engine_seconds_def distrib_right)
qed

theorem UpdateEngineBootsTime_clock_witness:
  "case UpdateEngineBootsTime (7 * Second) (new_usm ''user''\<lparr>u_AuthEngineBoots := 3, u_AuthEngineTime := MaxInt32 - 2\<rparr>) of
    (u', r) \<Rightarrow>
    (r = Ok () \<longrightarrow> clock_ok u' \<and> u_UpdatedTime u' = 7 * Second \<and>
       engine_seconds u' = 3 * MaxInt32 + (MaxInt32 - 2) + 7) \<and>
    (r \<noteq> Ok () \<longrightarrow> u_AuthEngineBoots u' = MaxInt32)"
  using UpdateEngineBootsTime_clock [of "new_usm ''user''\<lparr>u_AuthEngineBoots := 3, u_AuthEngineTime := MaxInt32 - 2\<rparr>" "7 * Second"]
  by (simp add: clock_ok_def new_usm_def MaxInt32_def Second_def engine_seconds_def split: prod.splits)

section \<open>Encryption\<close>

lemma encrypt_decrypt:
  assumes cr: "crypto_ok cr" and proto: "proto = Des \<or> proto = Aes"
    and enc: "encrypt cr s32 s64 m proto key = Ok m'" and short: "short (msg_pduBytes (msg_base m'))"
  shows "\<exists>n. decrypt cr m' proto key (PrivParameter (msg_sec m')) =
    Ok (m'\<lparr>msg_base := (msg_base m)\<lparr>msg_pduBytes := padding (msg_pduBytes (msg_base m)) n\<rparr>\<rparr>)"
proof -
  from enc obtain dst priv where e:
    "(if proto = Des then encryptDES cr (msg_pduBytes (msg_base m)) key (AuthEngineBoots (msg_sec m)) s32
      else encryptAES cr (msg_pduBytes (msg_base m)) key (AuthEngineBoots (msg_sec m)) (AuthEngineTime (msg_sec m)) s64) = Ok (dst, priv)"
    and m': "m' = m\<lparr>msg_base := (msg_base m)\<lparr>msg_pduBytes := tlv 0 False 4 dst\<rparr>, msg_sec := (msg_sec m)\<lparr>PrivParameter := priv\<rparr>\<rparr>"
    using proto by (auto simp: encrypt_def Let_def outcome_simps marshal_raw_def ber_consts split: if_splits)
  have "short dst" using short m' by (auto dest: short_tlv)
  then have raw: "unmarshal_raw (tlv 0 False 4 dst) = Ok (\<lparr>Class = 0, Tag = 4, IsCompound = False, Bytes = dst\<rparr>, [])"
    using Unmarshal_raw_tlv [of 0 4 dst False "[]"] by simp
  let ?sec = "msg_sec m" and ?src = "msg_pduBytes (msg_base m)"
  obtain n where n: "(if proto = Des then decryptDES cr dst key priv
      else decryptAES cr dst key priv (AuthEngineBoots ?sec) (AuthEngineTime ?sec)) = Ok (padding ?src n)"
  proof (cases "proto = Des")
    case True
    with e DES_inverse [OF cr, of ?src key _ s32 dst priv] that [of 8] show thesis by simp
  next
    case False
    with e AES_inverse [OF cr, of ?src key _ _ s64 dst priv] that [of 16] show thesis by simp
  qed
  have "decrypt cr m' proto key priv = Ok (m'\<lparr>msg_base := (msg_base m)\<lparr>msg_pduBytes := padding ?src n\<rparr>\<rparr>)"
  proof (cases "proto = Des")
    case True
    with n show ?thesis by (simp add: decrypt_def m' raw ber_consts)
  next
    case False
    with n proto show ?thesis by (simp add: decrypt_def m' raw ber_consts)
  qed
  then show ?thesis by (auto simp: m')
qed

section \<open>Acceptance\<close>

lemma check_engine_ok:
  "check_engine u sec = Ok () \<longleftrightarrow>
     5 \<le> length (AuthEngineId sec) \<and> length (AuthEngineId sec) \<le> 32 \<and> 0 \<le> AuthEngineBoots sec \<and>
     AuthEngineBoots sec \<le> MaxInt32 \<and> 0 \<le> AuthEngineTime sec \<and> AuthEngineTime sec \<le> MaxInt32 \<and>
     (u_DiscoveryStatus u > noDiscovered \<longrightarrow> u_AuthEngineId u = AuthEngineId sec \<and> u_UserName u = UserName sec)"
  by (auto simp: check_engine_def)

lemma check_engine_no_panic [simp]: "\<not> panics (check_engine u sec)"
  by (simp add: check_engine_def)

lemma wrap_error_simps [simp]:
  "wrap_error e r = Ok x \<longleftrightarrow> r = Ok x" "wrap_error e r = Panic p \<longleftrightarrow> r = Panic p" "panics (wrap_error e r) = panics r"
  by (cases r; simp add: wrap_error_def)+

lemma decrypt_sec: "decrypt cr m proto key priv = Ok m' \<Longrightarrow> msg_sec m' = msg_sec m \<and> msg_global m' = msg_global m"
  by (auto simp: decrypt_def Let_def outcome_simps split: if_splits)

lemma unprotect_Ok:
  assumes "unprotect cr u rm = Ok rm'"
  shows "msg_sec rm' = msg_sec rm" "msg_global rm' = msg_global rm"
    "Authentication (msg_global rm) \<Longrightarrow> mac cr rm (u_AuthProtocol u) (u_AuthKey u) = Ok (AuthParameter (msg_sec rm))"
  using assms by (auto simp: unprotect_def outcome_simps split: if_splits dest: decrypt_sec)

lemma initFlags_idem [simp]: "initFlags (initFlags h) = initFlags h"
  by (simp add: initFlags_def)

lemma Authentication_initFlags [simp]: "Authentication (initFlags h) = Authentication h"
  by (simp add: Authentication_def get_flag_def)

lemma Privacy_initFlags [simp]: "Privacy (initFlags h) = Privacy h"
  by (simp add: Privacy_def get_flag_def)

lemma init_msg_simps [simp]:
  "msg_sec (init_msg m) = msg_sec m" "msg_base (init_msg m) = msg_base m" "msg_global (init_msg m) = initFlags (msg_global m)"
  by (simp_all add: init_msg_def)

lemma process_Ok:
  assumes "usm_ProcessIncomingMessage cr now u (MsgV3 rm) = (u', Ok m)"
  obtains rm' where "check_engine u (msg_sec rm) = Ok ()" "unprotect cr u (init_msg rm) = Ok rm'"
    "update_status cr now u rm' = (u', Ok ())"
    "\<exists>p rest. Pdu_Unmarshal (msg_pdu (msg_base rm')) (msg_pduBytes (msg_base rm')) = Ok (p, rest) \<and>
       m = MsgV3 (rm'\<lparr>msg_base := (msg_base rm')\<lparr>msg_pdu := p\<rparr>\<rparr>)"
proof -
  from assms obtain rm' where r: "check_engine u (msg_sec rm) = Ok ()" "unprotect cr u (init_msg rm) = Ok rm'"
    by (auto simp: usm_ProcessIncomingMessage_def outcome_simps split: outcome.splits prod.splits)
  show ?thesis
    using assms r by (intro that [of rm'])
      (auto simp: usm_ProcessIncomingMessage_def split: outcome.splits prod.splits)
qed


section \<open>Panics\<close>

lemma mac_panics:
  assumes "crypto_ok cr"
  shows "panics (mac cr m proto key) \<longleftrightarrow> \<not> (proto = Md5 \<or> proto = Sha)"
    and "\<not> (\<exists>e. mac cr m proto key = Err e)"
proof -
  have l: "length (hmac (md5_sum cr) key x) = 16" "length (hmac (sha1_sum cr) key x) = 20" for x
    using assms by (simp_all add: hmac_def Let_def crypto_ok_def)
  show "panics (mac cr m proto key) \<longleftrightarrow> \<not> (proto = Md5 \<or> proto = Sha)"
    by (auto simp: mac_def hash_of_def Let_def l)
  show "\<not> (\<exists>e. mac cr m proto key = Err e)"
    by (auto simp: mac_def hash_of_def Let_def l outcome_simps slice_def)
qed

lemma slice_no_panic: "hi \<le> length xs \<Longrightarrow> lo \<le> hi \<Longrightarrow> \<not> panics (slice xs lo hi)"
  by simp

lemma decrypt_no_panic:
  assumes "proto = Des \<or> proto = Aes \<Longrightarrow> 16 \<le> length key"
  shows "\<not> panics (decrypt cr m proto key priv)"
proof -
  have x: "length priv = 8 \<Longrightarrow> length a = 8 \<Longrightarrow> \<not> panics (xor_bytes a priv)" for a by simp
  show ?thesis
    using assms by (auto simp: decrypt_def Let_def decryptDES_def decryptAES_def slice_Ok_iff x)
qed

definition passwords_ok :: "usm \<Rightarrow> bool" where
  "passwords_ok u \<longleftrightarrow>
     (u_AuthPassword u = [] \<and> u_PrivPassword u = []) \<or> u_AuthProtocol u = Md5 \<or> u_AuthProtocol u = Sha"

lemma SetAuthEngineId_no_panic: "passwords_ok u \<Longrightarrow> \<not> panics (SetAuthEngineId cr e u)"
  by (auto simp: SetAuthEngineId_def passwords_ok_def passwordToKey_def hash_of_def Let_def bytes_of_string_def outcome_simps)

lemma unprotect_keeps:
  assumes "unprotect cr u rm = Ok rm'"
  shows "msg_pdu (msg_base rm') = msg_pdu (msg_base rm)"
  using assms by (auto simp: unprotect_def outcome_simps decrypt_def Let_def split: if_splits)

lemma update_status_no_panic: "passwords_ok u \<Longrightarrow> \<not> panics (snd (update_status cr now u rm))"
  using SetAuthEngineId_no_panic [of u cr "AuthEngineId (msg_sec rm)"]
  by (auto simp: update_status_def Let_def CheckTimeliness_def split: outcome.splits)

text \<open>C16: Which received version 3 messages make the client panic: given working keys, exactly those that
  pass the header checks and carry the authentication flag while the user has no authentication protocol.
  A client without authentication is thus brought down by one datagram, before anything in it is
  verified.\<close>

theorem process_panics_iff:
  assumes "crypto_ok cr" and "passwords_ok u"
    and "u_PrivProtocol u = Des \<or> u_PrivProtocol u = Aes \<Longrightarrow> 16 \<le> length (u_PrivKey u)"
  shows "panics (snd (usm_ProcessIncomingMessage cr now u (MsgV3 rm))) \<longleftrightarrow>
    check_engine u (msg_sec rm) = Ok () \<and> Authentication (msg_global rm) \<and>
    u_AuthProtocol u \<noteq> Md5 \<and> u_AuthProtocol u \<noteq> Sha"
proof -
  let ?r = "and_then (check_engine u (msg_sec rm)) (\<lambda>_. unprotect cr u (init_msg rm))"
  have r: "panics ?r \<longleftrightarrow> check_engine u (msg_sec rm) = Ok () \<and> Authentication (msg_global rm) \<and>
      u_AuthProtocol u \<noteq> Md5 \<and> u_AuthProtocol u \<noteq> Sha"
    using mac_panics(1) [OF assms(1)] decrypt_no_panic [OF assms(3)] by (auto simp: unprotect_def)
  have "panics (snd (usm_ProcessIncomingMessage cr now u (MsgV3 rm))) \<longleftrightarrow> panics ?r"
  proof (cases ?r)
    case (Ok rm')
    obtain u' s where s: "update_status cr now u rm' = (u', s)" by fastforce
    have "\<not> panics s" using update_status_no_panic [OF assms(2), of cr now rm'] s by simp
    moreover have "\<not> panics (Pdu_Unmarshal (msg_pdu (msg_base rm')) (msg_pduBytes (msg_base rm')))" by simp
    ultimately show ?thesis
      using Ok s by (auto simp: usm_ProcessIncomingMessage_def split: outcome.splits simp del: Pdu_Unmarshal_no_panic)
  qed (simp_all add: usm_ProcessIncomingMessage_def)
  with r show ?thesis by simp
qed

definition demo_crypto :: crypto where
  "demo_crypto = \<lparr>md5_sum = (\<lambda>m. take 16 (rev m @ replicate 16 0x5a)), sha1_sum = (\<lambda>m. take 20 (rev m @ replicate 20 0x5a)),
     des_block = (\<lambda>k b. map (\<lambda>x. x XOR 0x55) b), des_unblock = (\<lambda>k b. map (\<lambda>x. x XOR 0x55) b),
     aes_block = (\<lambda>k b. replicate 16 0x33)\<rparr>"

lemma demo_crypto_ok: "crypto_ok demo_crypto"
  by (simp add: crypto_ok_def demo_crypto_def comp_def xor.assoc min_def)

definition demo_sec :: securityParameterV3 where
  "demo_sec = zero_securityParameterV3\<lparr>AuthEngineId := [1, 2, 3, 4, 5], UserName := bytes_of_string ''user''\<rparr>"

definition demo_msg :: messageV3 where
  "demo_msg = \<lparr>msg_global = \<lparr>MessageId = 1, MessageMaxSize = 1400, MessageFlags = [0x07], SecurityModel = 3\<rparr>,
     msg_sec = demo_sec,
     msg_base = \<lparr>msg_version = V3, msg_Community = [], msg_pduBytes = [],
       msg_pdu = ScopedPdu [1, 2, 3, 4, 5] [] \<lparr>pduType = GetRequest, requestId = 7, errorStatus = 0, errorIndex = 0,
         varBinds = [\<lparr>vb_Oid = Some [1, 3, 6, 1, 2, 1, 1, 2, 0], vb_Variable = Some Null\<rparr>]\<rparr>\<rparr>\<rparr>"

theorem process_panics_iff_witness:
  "panics (snd (usm_ProcessIncomingMessage demo_crypto 0 (new_usm ''user'') (MsgV3 demo_msg)))"
proof -
  have "check_engine (new_usm ''user'') (msg_sec demo_msg) = Ok () \<and> Authentication (msg_global demo_msg) \<and>
    u_AuthProtocol (new_usm ''user'') \<noteq> Md5 \<and> u_AuthProtocol (new_usm ''user'') \<noteq> Sha"
    by code_simp
  moreover have "passwords_ok (new_usm ''user'')" by (simp add: passwords_ok_def new_usm_def)
  moreover have "\<not> (u_PrivProtocol (new_usm ''user'') = Des \<or> u_PrivProtocol (new_usm ''user'') = Aes)" by code_simp
  ultimately show ?thesis
    using process_panics_iff [OF demo_crypto_ok, of "new_usm ''user''" 0 demo_msg] by simp
qed

section \<open>A protected exchange\<close>

text \<open>Decryption looks at the PDU bytes and the engine's clock only.\<close>

lemma decrypt_frame:
  assumes dec: "decrypt cr m proto key priv = Ok m'"
    and same: "msg_pduBytes (msg_base r) = msg_pduBytes (msg_base m)"
      "AuthEngineBoots (msg_sec r) = AuthEngineBoots (msg_sec m)" "AuthEngineTime (msg_sec r) = AuthEngineTime (msg_sec m)"
  shows "decrypt cr r proto key priv = Ok (r\<lparr>msg_base := (msg_base r)\<lparr>msg_pduBytes := msg_pduBytes (msg_base m')\<rparr>\<rparr>)"
proof -
  obtain f where f: "decrypt cr x proto key priv =
      and_then (f (msg_pduBytes (msg_base x)) (AuthEngineBoots (msg_sec x)) (AuthEngineTime (msg_sec x)))
        (\<lambda>dst. Ok (x\<lparr>msg_base := (msg_base x)\<lparr>msg_pduBytes := dst\<rparr>\<rparr>))" for x
  proof (rule that)
    fix x
    show "decrypt cr x proto key priv =
      and_then ((\<lambda>b boots time. and_then (unmarshal_raw b) (\<lambda>(raw, _).
        if Class raw \<noteq> classUniversal \<or> Tag raw \<noteq> int tagOctetString \<or> IsCompound raw then
          Err (invalid_object ''encrypted Pdu'' raw b)
        else if proto = Des then decryptDES cr (Bytes raw) key priv
        else if proto = Aes then decryptAES cr (Bytes raw) key priv boots time
        else Ok []))
          (msg_pduBytes (msg_base x)) (AuthEngineBoots (msg_sec x)) (AuthEngineTime (msg_sec x)))
        (\<lambda>dst. Ok (x\<lparr>msg_base := (msg_base x)\<lparr>msg_pduBytes := dst\<rparr>\<rparr>))"
      by (cases "unmarshal_raw (msg_pduBytes (msg_base x))") (auto simp: decrypt_def Let_def)
  qed
  from dec obtain dst where d: "f (msg_pduBytes (msg_base m)) (AuthEngineBoots (msg_sec m)) (AuthEngineTime (msg_sec m)) = Ok dst"
    "m' = m\<lparr>msg_base := (msg_base m)\<lparr>msg_pduBytes := dst\<rparr>\<rparr>"
    unfolding f [of m] outcome_simps by auto
  show ?thesis unfolding f [of r] same d(1) by (simp add: d(2))
qed

lemma mac_cong:
  assumes "messageV3_Marshal (a\<lparr>msg_sec := (msg_sec a)\<lparr>AuthParameter := padding [] 12\<rparr>\<rparr>) =
    messageV3_Marshal (b\<lparr>msg_sec := (msg_sec b)\<lparr>AuthParameter := padding [] 12\<rparr>\<rparr>)"
  shows "mac cr a proto key = mac cr b proto key"
  using assms by (simp add: mac_def)

text \<open>The message \<open>protect\<close> returns, in the receiver's hands, passes \<open>unprotect\<close> with the same keys.\<close>

lemma protect_unprotect:
  assumes cr: "crypto_ok cr" and auth: "Authentication (msg_global m)"
    and proto: "Privacy (msg_global m) \<Longrightarrow> u_PrivProtocol u = Des \<or> u_PrivProtocol u = Aes"
    and prot: "protect cr random u m = Ok out" and short: "short (msg_pduBytes (msg_base out))"
    and keys: "u_AuthProtocol v = u_AuthProtocol u" "u_AuthKey v = u_AuthKey u"
      "u_PrivProtocol v = u_PrivProtocol u" "u_PrivKey v = u_PrivKey u"
  shows "\<exists>zs. unprotect cr v (out\<lparr>msg_base := (msg_base out)\<lparr>msg_pdu := p\<rparr>\<rparr>) =
      Ok (out\<lparr>msg_base := (msg_base out)\<lparr>msg_pdu := p, msg_pduBytes := msg_pduBytes (msg_base m) @ zs\<rparr>\<rparr>)"
    "msg_global out = msg_global m"
proof -
  from prot auth obtain m1 digest where
    m1: "(if Privacy (msg_global m) then encrypt cr (fst random) (snd random) m (u_PrivProtocol u) (u_PrivKey u) else Ok m) = Ok m1"
    and mac: "mac cr m1 (u_AuthProtocol u) (u_AuthKey u) = Ok digest"
    and out: "out = m1\<lparr>msg_sec := (msg_sec m1)\<lparr>AuthParameter := digest\<rparr>\<rparr>"
    by (auto simp: protect_def outcome_simps)
  have g: "msg_global m1 = msg_global m"
    using m1 by (auto simp: encrypt_def Let_def outcome_simps split: if_splits)
  then show "msg_global out = msg_global m" by (simp add: out)
  let ?r = "out\<lparr>msg_base := (msg_base out)\<lparr>msg_pdu := p\<rparr>\<rparr>"
  have d: "mac cr ?r (u_AuthProtocol v) (u_AuthKey v) = Ok digest"
    unfolding keys mac [symmetric] by (rule mac_cong) (simp add: out messageV3_Marshal_def)
  show "\<exists>zs. unprotect cr v ?r =
      Ok (out\<lparr>msg_base := (msg_base out)\<lparr>msg_pdu := p, msg_pduBytes := msg_pduBytes (msg_base m) @ zs\<rparr>\<rparr>)"
  proof (cases "Privacy (msg_global m)")
    case False
    then have eq: "m1 = m" using m1 by simp
    have a: "Authentication (msg_global ?r)" "\<not> Privacy (msg_global ?r)" "AuthParameter (msg_sec ?r) = digest"
      using auth False by (simp_all add: out eq)
    have "unprotect cr v ?r = Ok ?r" by (simp only: unprotect_def a d) (simp add: wrap_error_def)
    then show ?thesis by (intro exI [of _ "[]"]) (simp add: out eq)
  next
    case True
    then have enc: "encrypt cr (fst random) (snd random) m (u_PrivProtocol u) (u_PrivKey u) = Ok m1" using m1 by simp
    have "short (msg_pduBytes (msg_base m1))" using short by (simp add: out)
    from encrypt_decrypt [OF cr proto [OF True] enc this] obtain n where
      n: "decrypt cr m1 (u_PrivProtocol u) (u_PrivKey u) (PrivParameter (msg_sec m1)) =
        Ok (m1\<lparr>msg_base := (msg_base m)\<lparr>msg_pduBytes := padding (msg_pduBytes (msg_base m)) n\<rparr>\<rparr>)" by blast
    have "decrypt cr ?r (u_PrivProtocol v) (u_PrivKey v) (PrivParameter (msg_sec ?r)) =
        Ok (?r\<lparr>msg_base := (msg_base ?r)\<lparr>msg_pduBytes := padding (msg_pduBytes (msg_base m)) n\<rparr>\<rparr>)"
      using decrypt_frame [OF n, of ?r] by (simp add: keys out)
    moreover obtain zs where "padding (msg_pduBytes (msg_base m)) n = msg_pduBytes (msg_base m) @ zs"
      using padding_append by blast
    moreover have a: "Authentication (msg_global ?r)" "Privacy (msg_global ?r)" "AuthParameter (msg_sec ?r) = digest"
      using auth True g by (simp_all add: out)
    ultimately have "unprotect cr v ?r =
        Ok (?r\<lparr>msg_base := (msg_base ?r)\<lparr>msg_pduBytes := msg_pduBytes (msg_base m) @ zs\<rparr>\<rparr>)"
      by (simp only: unprotect_def a d) (simp add: wrap_error_def)
    then show ?thesis by (intro exI [of _ zs]) simp
  qed
qed


lemma set_engine_keeps:
  "set_engine now u m = (u', Ok m') \<Longrightarrow> msg_global m' = msg_global m \<and> msg_base m' = msg_base m \<and>
     u_AuthProtocol u' = u_AuthProtocol u \<and> u_AuthKey u' = u_AuthKey u \<and> u_PrivProtocol u' = u_PrivProtocol u \<and>
     u_PrivKey u' = u_PrivKey u"
  by (auto simp: set_engine_def UpdateEngineBootsTime_def Let_def split: if_splits prod.splits outcome.splits)

text \<open>The states in which a receiver takes a timely message, and what it does then.\<close>

lemma update_status_timely:
  assumes "u_DiscoveryStatus u = noSynchronized \<or> u_DiscoveryStatus u = discovered \<or> u_DiscoveryStatus u = remoteReference"
    and "CheckTimeliness (AuthEngineBoots (msg_sec rm)) (AuthEngineTime (msg_sec rm)) u = Ok ()"
  shows "snd (update_status cr now u rm) = Ok ()"
  using assms by (auto simp: update_status_def Let_def discovery_defs)

text \<open>The whole path of a protected message, with the frame of the received one.\<close>

lemma protected_processing:
  assumes cr: "crypto_ok cr"
    and gen: "snd (usm_GenerateRequestMessage cr random now u (MsgV3 m)) = Ok (MsgV3 out)"
    and auth: "Authentication (msg_global m)"
    and proto: "Privacy (msg_global m) \<Longrightarrow> u_PrivProtocol u = Des \<or> u_PrivProtocol u = Aes"
    and pdu: "msg_pdu (msg_base m) = ScopedPdu engineId name q" "pduV1_fits q"
      "Pdu_Marshal (msg_pdu (msg_base m)) = Ok b" "short b"
    and fits: "message_fits (MsgV3 out)" "short (Message_Marshal (MsgV3 out))"
    and keys: "u_AuthProtocol v = u_AuthProtocol u" "u_AuthKey v = u_AuthKey u"
      "u_PrivProtocol v = u_PrivProtocol u" "u_PrivKey v = u_PrivKey u"
    and peer: "check_engine v (msg_sec out) = Ok ()"
      "u_DiscoveryStatus v = noSynchronized \<or> u_DiscoveryStatus v = discovered \<or> u_DiscoveryStatus v = remoteReference"
      "CheckTimeliness (AuthEngineBoots (msg_sec out)) (AuthEngineTime (msg_sec out)) v = Ok ()"
  shows "\<exists>r v' r'. unmarshalMessage (Message_Marshal (MsgV3 out) @ rest) = Ok (MsgV3 r, rest) \<and>
    usm_ProcessIncomingMessage cr now' v (MsgV3 r) = (v', Ok r') \<and> Msg_Pdu r' = msg_pdu (msg_base m) \<and>
    msg_global r = initFlags (msg_global m) \<and> msg_sec r = msg_sec out"
proof -
  from gen obtain u' m0 where e: "set_engine now u m = (u', Ok m0)"
    by (auto simp: usm_GenerateRequestMessage_def outcome_simps split: prod.splits)
  note k = set_engine_keeps [OF e]
  let ?m1 = "init_msg (m0\<lparr>msg_base := (msg_base m0)\<lparr>msg_pduBytes := b\<rparr>\<rparr>)"
  have prot: "protect cr random u' ?m1 = Ok out"
    using gen pdu(3) k by (simp add: usm_GenerateRequestMessage_def e outcome_simps)
  have g: "Authentication (msg_global ?m1)" "Privacy (msg_global ?m1) = Privacy (msg_global m)"
    using auth k by simp_all
  have s: "short (msg_pduBytes (msg_base out))"
    by (rule short_part [OF fits(2)]) (simp add: messageV3_Marshal_def marshal_raw_def tlv_def)
  let ?p = "ScopedPdu [] [] zero_pduV1"
  obtain zs where un: "unprotect cr v (out\<lparr>msg_base := (msg_base out)\<lparr>msg_pdu := ?p\<rparr>\<rparr>) =
      Ok (out\<lparr>msg_base := (msg_base out)\<lparr>msg_pdu := ?p, msg_pduBytes := b @ zs\<rparr>\<rparr>)"
    using protect_unprotect(1) [OF cr g(1) _ prot s, of v ?p] proto g(2) k keys by auto
  have gl: "msg_global out = initFlags (msg_global m)"
    using protect_unprotect(2) [OF cr g(1) _ prot s] proto g(2) k keys by auto
  let ?r = "out\<lparr>msg_base := (msg_base out)\<lparr>msg_pdu := ?p\<rparr>\<rparr>"
  let ?r' = "out\<lparr>msg_base := (msg_base out)\<lparr>msg_pdu := ?p, msg_pduBytes := b @ zs\<rparr>\<rparr>"
  have wire: "unmarshalMessage (Message_Marshal (MsgV3 out) @ rest) = Ok (MsgV3 ?r, rest)"
    using unmarshalMessage_bytes [OF fits] by simp
  have i: "init_msg ?r = ?r" by (simp add: init_msg_def gl)
  obtain v' where st: "update_status cr now' v ?r' = (v', Ok ())"
    using update_status_timely [OF peer(2), of ?r' cr now'] peer(3) by (cases "update_status cr now' v ?r'") auto
  have dec: "Pdu_Unmarshal ?p (b @ zs) = Ok (msg_pdu (msg_base m), zs)"
    using Pdu_Unmarshal_Marshal [of "msg_pdu (msg_base m)" b zs] pdu by simp
  have "usm_ProcessIncomingMessage cr now' v (MsgV3 ?r) =
      (v', Ok (MsgV3 (?r'\<lparr>msg_base := (msg_base ?r')\<lparr>msg_pdu := msg_pdu (msg_base m)\<rparr>\<rparr>)))"
    using peer(1) un i st dec by (simp add: usm_ProcessIncomingMessage_def del: Pdu_Unmarshal.simps)
  with wire gl show ?thesis by (auto simp: Msg_Pdu_def)
qed

text \<open>C1: What is sent under authentication, with or without encryption, arrives: a peer that shares the
  user's protocols and keys, knows the engine and finds the message timely decodes the message from the
  wire, accepts it and recovers exactly the PDU that was sent, whatever padding the cipher and whatever
  bytes the receive buffer added.\<close>

theorem protected_exchange:
  assumes cr: "crypto_ok cr"
    and gen: "snd (usm_GenerateRequestMessage cr random now u (MsgV3 m)) = Ok (MsgV3 out)"
    and auth: "Authentication (msg_global m)"
    and proto: "Privacy (msg_global m) \<Longrightarrow> u_PrivProtocol u = Des \<or> u_PrivProtocol u = Aes"
    and pdu: "msg_pdu (msg_base m) = ScopedPdu engineId name q" "pduV1_fits q"
      "Pdu_Marshal (msg_pdu (msg_base m)) = Ok b" "short b"
    and fits: "message_fits (MsgV3 out)" "short (Message_Marshal (MsgV3 out))"
    and keys: "u_AuthProtocol v = u_AuthProtocol u" "u_AuthKey v = u_AuthKey u"
      "u_PrivProtocol v = u_PrivProtocol u" "u_PrivKey v = u_PrivKey u"
    and peer: "check_engine v (msg_sec out) = Ok ()"
      "u_DiscoveryStatus v = noSynchronized \<or> u_DiscoveryStatus v = discovered \<or> u_DiscoveryStatus v = remoteReference"
      "CheckTimeliness (AuthEngineBoots (msg_sec out)) (AuthEngineTime (msg_sec out)) v = Ok ()"
  shows "\<exists>r r'. unmarshalMessage (Message_Marshal (MsgV3 out) @ rest) = Ok (r, rest) \<and>
    snd (usm_ProcessIncomingMessage cr now' v r) = Ok r' \<and> Msg_Pdu r' = msg_pdu (msg_base m)"
  using protected_processing [OF cr gen auth proto pdu fits keys peer, of rest now'] by fastforce


text \<open>A manager sends an encrypted GET to an agent: DES, MD5 with toy primitives.\<close>

definition demo_usm :: usm where
  "demo_usm = (new_usm ''user'')\<lparr>u_DiscoveryStatus := discovered, u_AuthEngineId := [1, 2, 3, 4, 5],
     u_AuthEngineBoots := 2, u_AuthEngineTime := 100, u_AuthProtocol := Md5, u_AuthKey := replicate 16 7,
     u_PrivProtocol := Des, u_PrivKey := replicate 16 9\<rparr>"

definition demo_bytes :: bytes where
  "demo_bytes = (case Pdu_Marshal (msg_pdu (msg_base demo_msg)) of Ok b \<Rightarrow> b | _ \<Rightarrow> [])"

definition demo_timed :: messageV3 where
  "demo_timed = (case snd (set_engine (3 * Second) demo_usm demo_msg) of Ok m \<Rightarrow> m | _ \<Rightarrow> demo_msg)"

definition demo_plain :: messageV3 where
  "demo_plain = init_msg (demo_timed\<lparr>msg_base := (msg_base demo_timed)\<lparr>msg_pduBytes := demo_bytes\<rparr>\<rparr>)"

definition demo_cipher :: messageV3 where
  "demo_cipher = demo_plain
     \<lparr>msg_base := (msg_base demo_plain)\<lparr>msg_pduBytes :=
        [4, 40, 108, 120, 88, 91, 93, 94, 95, 83, 60, 41, 13, 174, 17, 9, 11, 1, 107, 125, 88, 249, 69, 92, 110, 90,
         14, 36, 11, 164, 59, 15, 58, 13, 90, 112, 92, 241, 107, 90, 111, 88]\<rparr>,
      msg_sec := (msg_sec demo_plain)\<lparr>PrivParameter := [0, 0, 0, 2, 0, 0, 0, 11]\<rparr>\<rparr>"

definition demo_out :: messageV3 where
  "demo_out = demo_cipher\<lparr>msg_sec := (msg_sec demo_cipher)\<lparr>AuthParameter :=
     [14, 36, 11, 164, 59, 15, 58, 13, 90, 112, 92, 241]\<rparr>\<rparr>"

lemma demo_protect:
  assumes "u_AuthProtocol u = Md5" "u_AuthKey u = replicate 16 7" "u_PrivProtocol u = Des" "u_PrivKey u = replicate 16 9"
  shows "protect demo_crypto (11, 12) u demo_plain = Ok demo_out"
proof -
  have "encrypt demo_crypto 11 12 demo_plain Des (replicate 16 9) = Ok demo_cipher" by code_simp
  moreover have "mac demo_crypto demo_cipher Md5 (replicate 16 7) = Ok [14, 36, 11, 164, 59, 15, 58, 13, 90, 112, 92, 241]"
    by code_simp
  moreover have "Authentication (msg_global demo_plain) \<and> Privacy (msg_global demo_plain)" by code_simp
  ultimately show ?thesis by (simp add: protect_def assms demo_out_def)
qed

lemma demo_run: "snd (usm_GenerateRequestMessage demo_crypto (11, 12) (3 * Second) demo_usm (MsgV3 demo_msg)) = Ok (MsgV3 demo_out)"
proof -
  have "is_ok (snd (set_engine (3 * Second) demo_usm demo_msg))" by code_simp
  then have t: "snd (set_engine (3 * Second) demo_usm demo_msg) = Ok demo_timed" by (auto simp: demo_timed_def is_ok_iff)
  then obtain u where e: "set_engine (3 * Second) demo_usm demo_msg = (u, Ok demo_timed)"
    by (cases "set_engine (3 * Second) demo_usm demo_msg") simp
  note k = set_engine_keeps [OF e]
  have "is_ok (Pdu_Marshal (msg_pdu (msg_base demo_msg)))" by code_simp
  then have b: "Pdu_Marshal (msg_pdu (msg_base demo_msg)) = Ok demo_bytes" by (auto simp: demo_bytes_def is_ok_iff)
  have "protect demo_crypto (11, 12) u demo_plain = Ok demo_out"
    using k by (intro demo_protect) (simp_all add: demo_usm_def)
  then show ?thesis
    using e k b by (simp add: usm_GenerateRequestMessage_def demo_plain_def)
qed

lemma demo_facts:
  shows "Authentication (msg_global demo_msg)"
    and "u_PrivProtocol demo_usm = Des \<or> u_PrivProtocol demo_usm = Aes"
    and "msg_pdu (msg_base demo_msg) = ScopedPdu [1, 2, 3, 4, 5] [] (inner_pdu (msg_pdu (msg_base demo_msg)))"
    and "pduV1_fits (inner_pdu (msg_pdu (msg_base demo_msg)))"
    and "Pdu_Marshal (msg_pdu (msg_base demo_msg)) = Ok demo_bytes" and "short demo_bytes"
    and "message_fits (MsgV3 demo_out)" and "short (Message_Marshal (MsgV3 demo_out))"
    and "check_engine (demo_usm\<lparr>u_DiscoveryStatus := remoteReference\<rparr>) (msg_sec demo_out) = Ok ()"
    and "CheckTimeliness (AuthEngineBoots (msg_sec demo_out)) (AuthEngineTime (msg_sec demo_out))
      (demo_usm\<lparr>u_DiscoveryStatus := remoteReference\<rparr>) = Ok ()"
proof -
  have "length (Message_Marshal (MsgV3 demo_out)) \<le> 200" by code_simp
  then show "short (Message_Marshal (MsgV3 demo_out))" unfolding short_def by (rule le_less_trans) simp
  have "length demo_bytes \<le> 200" by code_simp
  then show "short demo_bytes" unfolding short_def by (rule le_less_trans) simp
  show "pduV1_fits (inner_pdu (msg_pdu (msg_base demo_msg)))"
    by (simp add: demo_msg_def pduV1_fits_def varbind_fits_def oid_fits_def in_oid_def in_int64_def pdu_type_defs)
  show "msg_pdu (msg_base demo_msg) = ScopedPdu [1, 2, 3, 4, 5] [] (inner_pdu (msg_pdu (msg_base demo_msg)))"
    by (simp add: demo_msg_def)
  have "is_ok (Pdu_Marshal (msg_pdu (msg_base demo_msg)))" by code_simp
  then show "Pdu_Marshal (msg_pdu (msg_base demo_msg)) = Ok demo_bytes" by (auto simp: demo_bytes_def is_ok_iff)
qed (code_simp)+

theorem protected_exchange_witness:
  "\<exists>r r'. unmarshalMessage (Message_Marshal (MsgV3 demo_out) @ [0, 0, 0]) = Ok (r, [0, 0, 0]) \<and>
    snd (usm_ProcessIncomingMessage demo_crypto (4 * Second) (demo_usm\<lparr>u_DiscoveryStatus := remoteReference\<rparr>) r) = Ok r' \<and>
    Msg_Pdu r' = msg_pdu (msg_base demo_msg)"
  by (rule protected_exchange [OF demo_crypto_ok demo_run demo_facts(1,2,3,4,5,6,7,8) _ _ _ _ demo_facts(9) _ demo_facts(10)])
    simp_all


end
