(* ===== verification/MProcessing.thy ===== *)
theory MProcessing
  imports SecurityFacts
begin

text \<open>
  \<open>snmpgo/mprocessing.go\<close>: the message processing models. A PDU is turned into a message handed to the
  security model, and a received message is accepted as the answer of a request or rejected. The draws of
  the random generator and the clock readings of one exchange are fields of \<open>draws\<close>; the counter of message
  ids is a package variable, passed in and returned. The \<open>Detail\<close> strings of errors and the text of a PDU
  inside an \<open>ArgumentError\<close> are left out.
\<close>

section \<open>The models\<close>

datatype messageProcessing = MpV1 int | MpV3 int

record draws =
  d_requestId :: int
  d_messageId :: int
  d_salts :: "int \<times> int"
  d_sending :: int
  d_receiving :: int

definition newMessageProcessing :: "int \<Rightarrow> messageProcessing option" where
  "newMessageProcessing ver =
     (if ver = V1 \<or> ver = V2c then Some (MpV1 ver) else if ver = V3 then Some (MpV3 ver) else None)"

fun mp_Version :: "messageProcessing \<Rightarrow> int" where
  "mp_Version (MpV1 ver) = ver"
| "mp_Version (MpV3 ver) = ver"

section \<open>Outgoing messages\<close>

text \<open>
  The PDU is shared with the caller, so its new state is returned: the request id is drawn for the first
  attempt (\<open>cretry < 1\<close>) only. A nil message, for an unknown version, fails the type assertion of the security
  model.
\<close>

definition generate :: "crypto \<Rightarrow> draws \<Rightarrow> security \<Rightarrow> message option \<Rightarrow> security \<times> message outcome" where
  "generate cr d sec msg =
     (case msg of
        None \<Rightarrow> (sec, Panic TypeAssertion)
      | Some m \<Rightarrow> GenerateRequestMessage cr (d_salts d) (d_sending d) sec m)"

definition V1_PrepareOutgoingMessage ::
  "crypto \<Rightarrow> draws \<Rightarrow> int \<Rightarrow> security \<Rightarrow> pdu \<Rightarrow> int \<Rightarrow> security \<times> pdu \<times> message outcome"
where
  "V1_PrepareOutgoingMessage cr d version sec p cretry =
     (case p of
        ScopedPdu _ _ _ \<Rightarrow> (sec, p, Err (ArgumentError [] ''Type of Pdu is not PduV1''))
      | PduV1 _ \<Rightarrow>
          (let p = (if cretry < 1 then SetRequestId (genRequestId (d_requestId d)) p else p) in
           case generate cr d sec (newMessageWithPdu version p) of (sec', r) \<Rightarrow> (sec', p, r)))"

definition V1_PrepareResponseMessage ::
  "crypto \<Rightarrow> draws \<Rightarrow> int \<Rightarrow> security \<Rightarrow> pdu \<Rightarrow> message \<Rightarrow> security \<times> pdu \<times> message outcome"
where
  "V1_PrepareResponseMessage cr d version sec p recvMsg =
     (case p of
        ScopedPdu _ _ _ \<Rightarrow> (sec, p, Err (ArgumentError [] ''Type of Pdu is not PduV1''))
      | PduV1 _ \<Rightarrow>
          (let p = SetRequestId (RequestId (Msg_Pdu recvMsg)) p in
           case generate cr d sec (newMessageWithPdu version p) of (sec', r) \<Rightarrow> (sec', p, r)))"

text \<open>The header of a version 3 message, from the arguments.\<close>

definition fill_header :: "SNMPArguments \<Rightarrow> int \<Rightarrow> pdu \<Rightarrow> message option \<Rightarrow> message option" where
  "fill_header args mid p msg =
     (case msg of
        Some (MsgV3 m) \<Rightarrow>
          (let g = (msg_global m)\<lparr>MessageId := mid, MessageMaxSize := a_MessageMaxSize args, SecurityModel := securityUsm\<rparr>;
               g = SetReportable (confirmedType (PduType p)) g;
               g = (if a_SecurityLevel args \<ge> AuthNoPriv then SetAuthentication True g else g);
               g = (if a_SecurityLevel args \<ge> AuthNoPriv \<and> a_SecurityLevel args \<ge> AuthPriv then SetPrivacy True g else g)
           in Some (MsgV3 (m\<lparr>msg_global := g,
                msg_sec := (msg_sec m)\<lparr>AuthEngineBoots := a_authEngineBoots args, AuthEngineTime := a_authEngineTime args\<rparr>\<rparr>)))
      | _ \<Rightarrow> None)"

definition V3_PrepareOutgoingMessage ::
  "crypto \<Rightarrow> draws \<Rightarrow> int \<Rightarrow> int \<Rightarrow> security \<Rightarrow> pdu \<Rightarrow> SNMPArguments \<Rightarrow> int \<Rightarrow>
     security \<times> int \<times> pdu \<times> message outcome"
where
  "V3_PrepareOutgoingMessage cr d version mesId sec p args cretry =
     (case p of
        PduV1 _ \<Rightarrow> (sec, mesId, p, Err (ArgumentError [] ''Type of Pdu is not ScopedPdu''))
      | ScopedPdu engineId name q \<Rightarrow>
          (let q = (if cretry < 1 then q\<lparr>requestId := genRequestId (d_requestId d)\<rparr> else q);
               engine = (if a_ContextEngineId args \<noteq> [] then
                           Ok (case engineIdToBytes (a_ContextEngineId args) of Ok b \<Rightarrow> b | _ \<Rightarrow> [])
                         else (case sec of Usm u \<Rightarrow> Ok (u_AuthEngineId u) | Community _ \<Rightarrow> Panic TypeAssertion))
           in case engine of
                Err e \<Rightarrow> (sec, mesId, ScopedPdu engineId name q, Err e)
              | Panic x \<Rightarrow> (sec, mesId, ScopedPdu engineId name q, Panic x)
              | Ok engineId \<Rightarrow>
                  (let name = (if a_ContextName args \<noteq> [] then bytes_of_string (a_ContextName args) else name);
                       p = ScopedPdu engineId name q;
                       mid = genMessageId (d_messageId d) mesId
                   in case generate cr d sec (fill_header args mid p (newMessageWithPdu version p)) of
                        (sec', r) \<Rightarrow> (sec', mid, p, r))))"

fun PrepareOutgoingMessage ::
  "crypto \<Rightarrow> draws \<Rightarrow> messageProcessing \<Rightarrow> int \<Rightarrow> security \<Rightarrow> pdu \<Rightarrow> SNMPArguments \<Rightarrow> int \<Rightarrow>
     security \<times> int \<times> pdu \<times> message outcome"
where
  "PrepareOutgoingMessage cr d (MpV1 version) mesId sec p args cretry =
     (case V1_PrepareOutgoingMessage cr d version sec p cretry of (sec', p', r) \<Rightarrow> (sec', mesId, p', r))"
| "PrepareOutgoingMessage cr d (MpV3 version) mesId sec p args cretry =
     V3_PrepareOutgoingMessage cr d version mesId sec p args cretry"

section \<open>Received messages\<close>

text \<open>
  \<open>sendMsg\<close> is nil in a server. Both functions reject before and after the security model has processed the
  message; its state changes only in between.
\<close>

definition version_mismatch :: "message \<Rightarrow> message \<Rightarrow> go_error" where
  "version_mismatch sm rm =
     MessageError None (''SNMPVersion mismatch - expected ['' @ SNMPVersion_String (Version sm) @ ''], actual ['' @
       SNMPVersion_String (Version rm) @ '']'')"

definition request_mismatch :: "message \<Rightarrow> pdu \<Rightarrow> go_error" where
  "request_mismatch sm p =
     MessageError None (''RequestId mismatch - expected ['' @ itoa (RequestId (Msg_Pdu sm)) @ ''], actual ['' @
       itoa (RequestId p) @ '']'')"

definition illegal_type :: "pdu \<Rightarrow> go_error" where
  "illegal_type p =
     MessageError None (''Illegal PduType - expected ['' @ PduType_String GetResponse @ ''], actual ['' @
       PduType_String (PduType p) @ '']'')"

definition check_request_type :: "pdu \<Rightarrow> pdu outcome" where
  "check_request_type p =
     (if \<not> confirmedType (PduType p) \<and> PduType p \<noteq> SNMPTrapV2 then
        Err (MessageError None (''Illegal PduType - received ['' @ PduType_String (PduType p) @ '']''))
      else Ok p)"

definition V1_check_pdu :: "message option \<Rightarrow> pdu \<Rightarrow> pdu outcome" where
  "V1_check_pdu sendMsg p =
     (case sendMsg of
        Some sm \<Rightarrow>
          if PduType p \<noteq> GetResponse then Err (illegal_type p)
          else if RequestId (Msg_Pdu sm) \<noteq> RequestId p then Err (request_mismatch sm p)
          else Ok p
      | None \<Rightarrow> check_request_type p)"

definition V1_PrepareDataElements ::
  "crypto \<Rightarrow> draws \<Rightarrow> security \<Rightarrow> message \<Rightarrow> message option \<Rightarrow> security \<times> pdu outcome"
where
  "V1_PrepareDataElements cr d sec recvMsg sendMsg =
     (case sendMsg of
        Some sm \<Rightarrow>
          if Version sm \<noteq> Version recvMsg then (sec, Err (version_mismatch sm recvMsg))
          else (case ProcessIncomingMessage cr (d_receiving d) sec recvMsg of
                  (sec', r) \<Rightarrow> (sec', and_then r (\<lambda>m. V1_check_pdu sendMsg (Msg_Pdu m))))
      | None \<Rightarrow>
          (case ProcessIncomingMessage cr (d_receiving d) sec recvMsg of
             (sec', r) \<Rightarrow> (sec', and_then r (\<lambda>m. V1_check_pdu sendMsg (Msg_Pdu m)))))"

definition context_mismatch :: "string \<Rightarrow> bytes \<Rightarrow> bytes \<Rightarrow> go_error" where
  "context_mismatch what e a =
     MessageError None (what @ '' mismatch - expected ['' @ toHexStr e [] @ ''], actual ['' @ toHexStr a [] @ '']'')"

fun contextEngineId :: "pdu \<Rightarrow> bytes" where
  "contextEngineId (ScopedPdu engineId name p) = engineId"
| "contextEngineId (PduV1 p) = []"

fun contextName :: "pdu \<Rightarrow> bytes" where
  "contextName (ScopedPdu engineId name p) = name"
| "contextName (PduV1 p) = []"

text \<open>
  The switch over the PDU type; \<open>break\<close> accepts a report to a reportable message, any other one falls through
  to the default. The PDUs of both version 3 messages are scoped.
\<close>

definition V3_check_pdu :: "messageV3 option \<Rightarrow> messageV3 \<Rightarrow> pdu outcome" where
  "V3_check_pdu sendMsg rm =
     (let p = msg_pdu (msg_base rm) in
      case sendMsg of
        Some sm \<Rightarrow>
          (let s = msg_pdu (msg_base sm) in
           if PduType p = GetResponse then
             (if RequestId s \<noteq> RequestId p then Err (request_mismatch (MsgV3 sm) p)
              else if contextEngineId s \<noteq> contextEngineId p then
                Err (context_mismatch ''ContextEngineId'' (contextEngineId s) (contextEngineId p))
              else if contextName s \<noteq> contextName p then
                Err (context_mismatch ''ContextName'' (contextName s) (contextName p))
              else if Authentication (msg_global sm) \<and> \<not> Authentication (msg_global rm) then
                Err (MessageError None ''Response message is not authenticated'')
              else Ok p)
           else if PduType p = Report \<and> Reportable (msg_global sm) then Ok p
           else Err (illegal_type p))
      | None \<Rightarrow> check_request_type p)"

definition V3_check_header :: "messageV3 option \<Rightarrow> messageV3 \<Rightarrow> unit outcome" where
  "V3_check_header sendMsg rm =
     (case sendMsg of
        Some sm \<Rightarrow>
          if msg_version (msg_base sm) \<noteq> msg_version (msg_base rm) then
            Err (version_mismatch (MsgV3 sm) (MsgV3 rm))
          else if MessageId (msg_global sm) \<noteq> MessageId (msg_global rm) then
            Err (MessageError None (''MessageId mismatch - expected ['' @ itoa (MessageId (msg_global sm)) @
              ''], actual ['' @ itoa (MessageId (msg_global rm)) @ '']''))
          else Ok ()
      | None \<Rightarrow> Ok ())"

text \<open>The type assertion on the received message has no \<open>ok\<close>: an answer of version 1 or 2c panics.\<close>

definition V3_PrepareDataElements ::
  "crypto \<Rightarrow> draws \<Rightarrow> security \<Rightarrow> message \<Rightarrow> message option \<Rightarrow> security \<times> pdu outcome"
where
  "V3_PrepareDataElements cr d sec recvMsg sendMsg =
     (let sm = (case sendMsg of Some (MsgV3 s) \<Rightarrow> Some s | _ \<Rightarrow> None) in
      case recvMsg of
        MsgV1 _ \<Rightarrow> (sec, Panic TypeAssertion)
      | MsgV3 rm \<Rightarrow>
          (case V3_check_header sm rm of
             Err e \<Rightarrow> (sec, Err e)
           | Panic x \<Rightarrow> (sec, Panic x)
           | Ok _ \<Rightarrow>
               if SecurityModel (msg_global rm) \<noteq> securityUsm then
                 (sec, Err (MessageError None (''Unknown SecurityModel, value ['' @ itoa (SecurityModel (msg_global rm)) @ '']'')))
               else
                 (case ProcessIncomingMessage cr (d_receiving d) sec recvMsg of
                    (sec', r) \<Rightarrow>
                      (sec', and_then r (\<lambda>m.
                         case m of MsgV3 m' \<Rightarrow> V3_check_pdu sm m' | MsgV1 _ \<Rightarrow> Panic TypeAssertion)))))"

fun PrepareDataElements ::
  "crypto \<Rightarrow> draws \<Rightarrow> messageProcessing \<Rightarrow> security \<Rightarrow> message \<Rightarrow> message option \<Rightarrow> security \<times> pdu outcome"
where
  "PrepareDataElements cr d (MpV1 version) sec recvMsg sendMsg = V1_PrepareDataElements cr d sec recvMsg sendMsg"
| "PrepareDataElements cr d (MpV3 version) sec recvMsg sendMsg = V3_PrepareDataElements cr d sec recvMsg sendMsg"

end
