(* ===== verification/Engine.thy ===== *)
theory Engine
  imports MProcessing
begin

text \<open>
  \<open>snmpgo/engine.go\<close>: one exchange of a PDU with the agent. What the network does in an exchange is an
  argument: the errors of \<open>SetDeadline\<close> and \<open>Write\<close>, and the datagram \<open>Read\<close> yields for the one that was
  written. The answer lands in a zeroed buffer, and the whole buffer is decoded.
\<close>

record snmpEngine =
  e_mp :: "messageProcessing option"
  e_sec :: "security option"

record exchange =
  x_draws :: draws
  x_deadline :: "go_error option"
  x_write :: "go_error option"
  x_read :: "bytes \<Rightarrow> bytes outcome"

definition newSNMPEngine :: "SNMPArguments \<Rightarrow> snmpEngine" where
  "newSNMPEngine args = \<lparr>e_mp = newMessageProcessing (a_Version args), e_sec = newSecurity args\<rparr>"

text \<open>A report of the agent is an error of the exchange; one on the time window allows another attempt.\<close>

definition checkPdu :: "pdu \<Rightarrow> SNMPArguments \<Rightarrow> unit outcome" where
  "checkPdu p args =
     (if a_Version args = V3 \<and> PduType p = Report then
        (case VarBinds p of
           [] \<Rightarrow> Ok ()
         | v # _ \<Rightarrow>
             (case vb_Oid v of
                None \<Rightarrow> Panic NilDereference
              | Some oid \<Rightarrow>
                  (let rep = Oid_String oid;
                       err = MessageError None (''Received a report from the agent - '' @ reportStatusOid_String rep @
                         ''('' @ rep @ '')'')
                   in Err (if rep = usmStatsNotInTimeWindows then NotInTimeWindow err else err))))
      else Ok ())"

definition read_buffer :: "nat \<Rightarrow> bytes \<Rightarrow> bytes" where
  "read_buffer bufsize answer = take bufsize answer @ replicate (bufsize - length answer) 0"

definition receive_answer ::
  "crypto \<Rightarrow> exchange \<Rightarrow> SNMPArguments \<Rightarrow> messageProcessing \<Rightarrow> security \<Rightarrow> pdu \<Rightarrow> message \<Rightarrow> security \<times> pdu option outcome"
where
  "receive_answer cr x args mp sec p sendMsg =
     (let bufsize = (if a_MessageMaxSize args < recvBufferSize then recvBufferSize else a_MessageMaxSize args) in
      case x_read x (Message_Marshal sendMsg) of
        Err e \<Rightarrow> (sec, Err e)
      | Panic z \<Rightarrow> (sec, Panic z)
      | Ok answer \<Rightarrow>
          (case unmarshalMessage (read_buffer (nat bufsize) answer) of
             Err e \<Rightarrow> (sec, Err (MessageError (Some e) ''Failed to Unmarshal message''))
           | Panic z \<Rightarrow> (sec, Panic z)
           | Ok (recvMsg, _) \<Rightarrow>
               (case PrepareDataElements cr (x_draws x) mp sec recvMsg (Some sendMsg) of
                  (sec', r) \<Rightarrow>
                    (sec', and_then r (\<lambda>result.
                       if VarBinds p \<noteq> [] then and_then (checkPdu result args) (\<lambda>_. Ok (Some result))
                       else Ok (Some result))))))"

text \<open>
  \<open>SendPdu\<close> returns the engine, the message id counter and the PDU as it leaves them, what it has written,
  and the result: nil when no answer is expected.
\<close>

definition SendPdu ::
  "crypto \<Rightarrow> exchange \<Rightarrow> SNMPArguments \<Rightarrow> int \<Rightarrow> snmpEngine \<Rightarrow> int \<Rightarrow> pdu \<Rightarrow>
     snmpEngine \<times> int \<times> pdu \<times> bytes list \<times> pdu option outcome"
where
  "SendPdu cr x args cretry e mesId p =
     (case (e_mp e, e_sec e) of
        (Some mp, Some sec) \<Rightarrow>
          (case PrepareOutgoingMessage cr (x_draws x) mp mesId sec p args cretry of
             (sec', mesId', p', r) \<Rightarrow>
               (let e' = e\<lparr>e_sec := Some sec'\<rparr> in
                case r of
                  Err er \<Rightarrow> (e', mesId', p', [], Err er)
                | Panic z \<Rightarrow> (e', mesId', p', [], Panic z)
                | Ok sendMsg \<Rightarrow>
                    (case (x_deadline x, x_write x) of
                       (Some er, _) \<Rightarrow> (e', mesId', p', [], Err er)
                     | (None, Some er) \<Rightarrow> (e', mesId', p', [], Err er)
                     | (None, None) \<Rightarrow>
                         if \<not> confirmedType (PduType p') then (e', mesId', p', [Message_Marshal sendMsg], Ok None)
                         else
                           (case receive_answer cr x args mp sec' p' sendMsg of
                              (sec'', result) \<Rightarrow>
                                (e\<lparr>e_sec := Some sec''\<rparr>, mesId', p', [Message_Marshal sendMsg], result)))))
      | _ \<Rightarrow> (e, mesId, p, [], Panic NilDereference))"

end
