(* ===== verification/Client.thy ===== *)
theory Client
  imports Engine
begin

text \<open>
  \<open>snmpgo/client.go\<close> and the \<open>Discover\<close> operations of \<open>security.go\<close>: the SNMP client. Its state is the
  connection, the arguments and the engine; \<open>s_mesId\<close> is the package's message id counter, \<open>s_pos\<close> counts
  what the client has asked of the network (dials and exchanges) and \<open>s_sent\<close> lists the datagrams written. A
  \<open>network\<close> says how each dial and each exchange goes.

  \<open>sendPdu\<close> opens the connection, opening discovers the engine, and discovery sends a PDU: the recursion is
  bounded by fuel, \<open>None\<close> being its exhaustion. Fuel 2 is enough when the retry count is not negative
  (\<open>sendPdu_returns\<close>).
\<close>

section \<open>Arguments\<close>

definition setDefault :: "SNMPArguments \<Rightarrow> SNMPArguments" where
  "setDefault a =
     (let a = (if a_Network a = [] then a\<lparr>a_Network := ''udp''\<rparr> else a);
          a = (if a_Timeout a \<le> 0 then a\<lparr>a_Timeout := timeoutDefault\<rparr> else a)
      in if a_MessageMaxSize a = 0 then a\<lparr>a_MessageMaxSize := msgSizeDefault\<rparr> else a)"

text \<open>\<open>validate\<close> also normalises the engine ids, so it returns the arguments.\<close>

definition argument_error :: "string \<Rightarrow> string \<Rightarrow> 'a outcome" where
  "argument_error value msg = Err (ArgumentError value msg)"

definition check_credentials :: "SNMPArguments \<Rightarrow> unit outcome" where
  "check_credentials a =
     (if length (a_UserName a) < 1 \<or> length (a_UserName a) > 32 then
        argument_error (a_UserName a) ''UserName length is range 1..32''
      else if a_SecurityLevel a > NoAuthNoPriv \<and> length (a_AuthPassword a) < 8 then
        argument_error (a_AuthPassword a) ''AuthPassword is at least 8 characters in length''
      else if a_SecurityLevel a > NoAuthNoPriv \<and> a_AuthProtocol a \<noteq> Md5 \<and> a_AuthProtocol a \<noteq> Sha then
        argument_error (a_AuthProtocol a) ''Illegal AuthProtocol''
      else if a_SecurityLevel a > AuthNoPriv \<and> length (a_PrivPassword a) < 8 then
        argument_error (a_PrivPassword a) ''PrivPassword is at least 8 characters in length''
      else if a_SecurityLevel a > AuthNoPriv \<and> a_PrivProtocol a \<noteq> Des \<and> a_PrivProtocol a \<noteq> Aes then
        argument_error (a_PrivProtocol a) ''Illegal PrivProtocol''
      else Ok ())"

definition check_engine_ids :: "SNMPArguments \<Rightarrow> SNMPArguments outcome" where
  "check_engine_ids a =
     and_then
       (if a_SecurityEngineId a \<noteq> [] then
          (let s = stripHexPrefix (a_SecurityEngineId a) in
           and_then (engineIdToBytes s) (\<lambda>_. Ok (a\<lparr>a_SecurityEngineId := s\<rparr>)))
        else Ok a)
       (\<lambda>a. if a_ContextEngineId a \<noteq> [] then
              (let s = stripHexPrefix (a_ContextEngineId a) in
               and_then (engineIdToBytes s) (\<lambda>_. Ok (a\<lparr>a_ContextEngineId := s\<rparr>)))
            else Ok a)"

definition validate :: "SNMPArguments \<Rightarrow> SNMPArguments outcome" where
  "validate a =
     (if a_Version a \<noteq> V1 \<and> a_Version a \<noteq> V2c \<and> a_Version a \<noteq> V3 then
        argument_error (SNMPVersion_String (a_Version a)) ''Unknown SNMP Version''
      else if (a_MessageMaxSize a \<noteq> 0 \<and> a_MessageMaxSize a < msgSizeMinimum) \<or> a_MessageMaxSize a > MaxInt32 then
        argument_error (itoa (a_MessageMaxSize a))
          (''MessageMaxSize is range '' @ itoa msgSizeMinimum @ ''..'' @ itoa MaxInt32)
      else if a_Version a = V3 then and_then (check_credentials a) (\<lambda>_. check_engine_ids a)
      else Ok a)"

section \<open>The client\<close>

record snmp =
  s_conn :: bool
  s_args :: SNMPArguments
  s_engine :: "snmpEngine option"
  s_mesId :: int
  s_pos :: nat
  s_sent :: "bytes list"

record network =
  n_dial :: "nat \<Rightarrow> go_error option"
  n_exchange :: "nat \<Rightarrow> exchange"

definition NewSNMP :: "int \<Rightarrow> SNMPArguments \<Rightarrow> snmp outcome" where
  "NewSNMP mesId args =
     and_then (validate args) (\<lambda>args.
       Ok \<lparr>s_conn = False, s_args = setDefault args, s_engine = None, s_mesId = mesId, s_pos = 0, s_sent = []\<rparr>)"

definition Close :: "snmp \<Rightarrow> snmp" where
  "Close s = (if s_conn s then s\<lparr>s_conn := False, s_engine := None\<rparr> else s)"

text \<open>The attempts of \<open>sendPdu\<close> on the open connection; \<open>res\<close> is what the loop returns when it runs out.\<close>

fun send_attempts ::
  "crypto \<Rightarrow> network \<Rightarrow> nat \<Rightarrow> int \<Rightarrow> snmp \<Rightarrow> pdu \<Rightarrow> pdu option outcome \<Rightarrow> snmp \<times> pdu option outcome"
where
  "send_attempts cr net 0 i s p res = (s, res)"
| "send_attempts cr net (Suc n) i s p res =
     (case s_engine s of
        None \<Rightarrow> (s, Panic NilDereference)
      | Some e \<Rightarrow>
          if \<not> s_conn s then (s, Panic NilDereference)
          else
            (case SendPdu cr (n_exchange net (s_pos s)) (s_args s) i e (s_mesId s) p of
               (e', mesId', p', sent, r) \<Rightarrow>
                 (let s' = s\<lparr>s_engine := Some e', s_mesId := mesId', s_pos := Suc (s_pos s), s_sent := s_sent s @ sent\<rparr>
                  in case r of
                       Err er \<Rightarrow>
                         if retryable er then send_attempts cr net n (i + 1) s' p' (Err (unwrap er))
                         else (s', Err er)
                     | _ \<Rightarrow> (s', r))))"

text \<open>\<open>int(s.args.Retries)\<close> reinterprets the 64 bits.\<close>

definition int_Retries :: "snmp \<Rightarrow> int" where
  "int_Retries s = sint (a_Retries (s_args s))"

type_synonym sender = "snmp \<Rightarrow> pdu \<Rightarrow> (snmp \<times> pdu option outcome) option"

definition set_level :: "int \<Rightarrow> snmp \<Rightarrow> snmp" where
  "set_level l s = s\<lparr>s_args := (s_args s)\<lparr>a_SecurityLevel := l\<rparr>\<rparr>"

definition usm_of :: "snmp \<Rightarrow> usm option" where
  "usm_of s = (case s_engine s of Some e \<Rightarrow> (case e_sec e of Some (Usm u) \<Rightarrow> Some u | _ \<Rightarrow> None) | None \<Rightarrow> None)"

definition set_usm :: "usm \<Rightarrow> snmp \<Rightarrow> snmp" where
  "set_usm u s = s\<lparr>s_engine := map_option (\<lambda>e. e\<lparr>e_sec := Some (Usm u)\<rparr>) (s_engine s)\<rparr>"

text \<open>
  \<open>Discover\<close> of the user-based model: unless the engine id is configured, an empty unauthenticated request
  learns it, and an empty request at the client's level learns boots and time.
\<close>

definition discover_engine :: "sender \<Rightarrow> snmp \<Rightarrow> (snmp \<times> unit outcome) option" where
  "discover_engine send s =
     (case (usm_of s, NewPdu (a_Version (s_args s)) GetRequest) of
        (Some u, Some p) \<Rightarrow>
          if u_DiscoveryStatus u = noDiscovered then
            (case send (set_level NoAuthNoPriv s) p of
               None \<Rightarrow> None
             | Some (s', Panic x) \<Rightarrow> Some (s', Panic x)
             | Some (s', Err e) \<Rightarrow> Some (set_level (a_SecurityLevel (s_args s)) s', Err e)
             | Some (s', Ok _) \<Rightarrow> Some (set_level (a_SecurityLevel (s_args s)) s', Ok ()))
          else Some (s, Ok ())
      | _ \<Rightarrow> Some (s, Panic NilDereference))"

definition discover_time :: "sender \<Rightarrow> snmp \<Rightarrow> (snmp \<times> unit outcome) option" where
  "discover_time send s =
     (case (usm_of s, NewPdu (a_Version (s_args s)) GetRequest) of
        (Some u, Some p) \<Rightarrow>
          if u_DiscoveryStatus u = noSynchronized \<and> a_SecurityLevel (s_args s) > NoAuthNoPriv then
            (case send s p of
               None \<Rightarrow> None
             | Some (s', Panic x) \<Rightarrow> Some (s', Panic x)
             | Some (s', Err e) \<Rightarrow> Some (s', Err e)
             | Some (s', Ok _) \<Rightarrow> Some (s', Ok ()))
          else Some (s, Ok ())
      | _ \<Rightarrow> Some (s, Panic NilDereference))"

definition usm_Discover :: "crypto \<Rightarrow> sender \<Rightarrow> usm \<Rightarrow> snmp \<Rightarrow> (snmp \<times> unit outcome) option" where
  "usm_Discover cr send u s =
     (if a_SecurityEngineId (s_args s) \<noteq> [] then
        (case SetAuthEngineId cr (case engineIdToBytes (a_SecurityEngineId (s_args s)) of Ok b \<Rightarrow> b | _ \<Rightarrow> []) u of
           Ok u' \<Rightarrow> Some (set_usm (u'\<lparr>u_DiscoveryStatus := noSynchronized\<rparr>) s, Ok ())
         | Err e \<Rightarrow> Some (s, Err e)
         | Panic x \<Rightarrow> Some (s, Panic x))
      else
        (case discover_engine send s of
           Some (s', Ok _) \<Rightarrow> discover_time send s'
         | r \<Rightarrow> r))"

definition Discover :: "crypto \<Rightarrow> sender \<Rightarrow> snmp \<Rightarrow> (snmp \<times> unit outcome) option" where
  "Discover cr send s =
     (case s_engine s of
        None \<Rightarrow> Some (s, Panic NilDereference)
      | Some e \<Rightarrow>
          (case e_sec e of
             None \<Rightarrow> Some (s, Panic NilDereference)
           | Some (Community c) \<Rightarrow> Some (s, Ok ())
           | Some (Usm u) \<Rightarrow> usm_Discover cr send u s))"

definition dial :: "network \<Rightarrow> snmp \<Rightarrow> unit outcome \<times> nat" where
  "dial net s = retry (int_Retries s) (\<lambda>i. case n_dial net (s_pos s + i) of None \<Rightarrow> Ok () | Some e \<Rightarrow> Err e)"

text \<open>The connection is set by a dial that succeeds; with a negative retry count there is none, and no error.\<close>

definition Open :: "crypto \<Rightarrow> network \<Rightarrow> sender \<Rightarrow> snmp \<Rightarrow> (snmp \<times> unit outcome) option" where
  "Open cr net send s =
     (if s_conn s then Some (s, Ok ())
      else
        (case dial net s of
           (r, k) \<Rightarrow>
             (let s' = s\<lparr>s_conn := (is_ok r \<and> 0 < k), s_pos := s_pos s + k\<rparr> in
              case r of
                Err e \<Rightarrow> Some (s', Err e)
              | Panic x \<Rightarrow> Some (s', Panic x)
              | Ok _ \<Rightarrow>
                  (case Discover cr send (s'\<lparr>s_engine := Some (newSNMPEngine (s_args s))\<rparr>) of
                     Some (s'', Err e) \<Rightarrow> Some (Close s'', Err e)
                   | r \<Rightarrow> r))))"

fun sendPdu :: "crypto \<Rightarrow> network \<Rightarrow> nat \<Rightarrow> sender" where
  "sendPdu cr net 0 s p = None"
| "sendPdu cr net (Suc fuel) s p =
     (case Open cr net (sendPdu cr net fuel) s of
        None \<Rightarrow> None
      | Some (s', Err e) \<Rightarrow> Some (s', Err e)
      | Some (s', Panic x) \<Rightarrow> Some (s', Panic x)
      | Some (s', Ok _) \<Rightarrow> Some (send_attempts cr net (nat (int_Retries s' + 1)) 0 s' p (Ok None)))"

section \<open>Requests\<close>

text \<open>A nil PDU, of an unknown version, cannot pass \<open>NewSNMP\<close>; its use is a nil dereference.\<close>

definition send_new :: "crypto \<Rightarrow> network \<Rightarrow> nat \<Rightarrow> snmp \<Rightarrow> pdu option outcome \<Rightarrow> (snmp \<times> pdu option outcome) option" where
  "send_new cr net fuel s r =
     (case r of
        Ok (Some p) \<Rightarrow> sendPdu cr net fuel s p
      | Ok None \<Rightarrow> Some (s, Panic NilDereference)
      | Err e \<Rightarrow> Some (s, Err e)
      | Panic x \<Rightarrow> Some (s, Panic x))"

definition client_GetRequest :: "crypto \<Rightarrow> network \<Rightarrow> nat \<Rightarrow> snmp \<Rightarrow> oid option list \<Rightarrow> (snmp \<times> pdu option outcome) option" where
  "client_GetRequest cr net fuel s oids = send_new cr net fuel s (NewPduWithOids (a_Version (s_args s)) GetRequest oids)"

definition client_GetNextRequest :: "crypto \<Rightarrow> network \<Rightarrow> nat \<Rightarrow> snmp \<Rightarrow> oid option list \<Rightarrow> (snmp \<times> pdu option outcome) option" where
  "client_GetNextRequest cr net fuel s oids =
     send_new cr net fuel s (NewPduWithOids (a_Version (s_args s)) GetNextRequest oids)"

text \<open>Both range messages name the same parameter in the code.\<close>

definition client_GetBulkRequest ::
  "crypto \<Rightarrow> network \<Rightarrow> nat \<Rightarrow> snmp \<Rightarrow> oid option list \<Rightarrow> int \<Rightarrow> int \<Rightarrow> (snmp \<times> pdu option outcome) option"
where
  "client_GetBulkRequest cr net fuel s oids nonRepeaters maxRepetitions =
     (if a_Version (s_args s) < V2c then
        Some (s, argument_error (SNMPVersion_String (a_Version (s_args s))) ''Unsupported SNMP Version'')
      else if nonRepeaters < 0 \<or> nonRepeaters > MaxInt32 then
        Some (s, argument_error (itoa nonRepeaters) (''NonRepeaters is range 0..'' @ itoa MaxInt32))
      else if maxRepetitions < 0 \<or> maxRepetitions > MaxInt32 then
        Some (s, argument_error (itoa maxRepetitions) (''NonRepeaters is range 0..'' @ itoa MaxInt32))
      else
        send_new cr net fuel s
          (and_then (NewPduWithOids (a_Version (s_args s)) GetBulkRequest oids) (\<lambda>p.
             Ok (map_option (\<lambda>p. SetMaxRepetitions maxRepetitions (SetNonrepeaters nonRepeaters p)) p))))"

definition v2trap :: "crypto \<Rightarrow> network \<Rightarrow> nat \<Rightarrow> int \<Rightarrow> snmp \<Rightarrow> varbind list \<Rightarrow> (snmp \<times> pdu option outcome) option" where
  "v2trap cr net fuel t s vs =
     (if a_Version (s_args s) < V2c then
        Some (s, argument_error (SNMPVersion_String (a_Version (s_args s))) ''Unsupported SNMP Version'')
      else
        (case send_new cr net fuel s (NewPduWithVarBinds (a_Version (s_args s)) t vs) of
           Some (s', Ok _) \<Rightarrow> Some (s', Ok None)
         | r \<Rightarrow> r))"

definition V2Trap :: "crypto \<Rightarrow> network \<Rightarrow> nat \<Rightarrow> snmp \<Rightarrow> varbind list \<Rightarrow> (snmp \<times> pdu option outcome) option" where
  "V2Trap cr net fuel s vs = v2trap cr net fuel SNMPTrapV2 s vs"

definition client_InformRequest :: "crypto \<Rightarrow> network \<Rightarrow> nat \<Rightarrow> snmp \<Rightarrow> varbind list \<Rightarrow> (snmp \<times> pdu option outcome) option" where
  "client_InformRequest cr net fuel s vs = v2trap cr net fuel InformRequest s vs"

text \<open>The deferred function resets boots and time however the trap ends, panics included.\<close>

definition set_boots_time :: "int \<Rightarrow> int \<Rightarrow> snmp \<Rightarrow> snmp" where
  "set_boots_time b t s = s\<lparr>s_args := (s_args s)\<lparr>a_authEngineBoots := b, a_authEngineTime := t\<rparr>\<rparr>"

definition V2TrapWithBootsTime ::
  "crypto \<Rightarrow> network \<Rightarrow> nat \<Rightarrow> snmp \<Rightarrow> varbind list \<Rightarrow> int \<Rightarrow> int \<Rightarrow> (snmp \<times> pdu option outcome) option"
where
  "V2TrapWithBootsTime cr net fuel s vs eBoots eTime =
     (if eBoots < 0 \<or> eBoots > MaxInt32 then
        Some (s, argument_error (itoa eBoots) (''EngineBoots is range 0..'' @ itoa MaxInt32))
      else if eTime < 0 \<or> eTime > MaxInt32 then
        Some (s, argument_error (itoa eTime) (''EngineTime is range 0..'' @ itoa MaxInt32))
      else
        map_option (\<lambda>(s', r). (set_boots_time 0 0 s', r)) (v2trap cr net fuel SNMPTrapV2 (set_boots_time eBoots eTime s) vs))"

end
