(* ===== verification/ClientFacts.thy ===== *)
theory ClientFacts
  imports Client
begin

text \<open>
  What the client guarantees: an accepted answer belongs to the request and, when the request was
  authenticated, carries a valid digest; a request returns, after at most the configured number of attempts;
  and when it returns neither a PDU nor an error.
\<close>

section \<open>Answers\<close>

lemma usm_process_frame:
  assumes "usm_ProcessIncomingMessage cr now u (MsgV3 rm) = (u', Ok m)"
  shows "\<exists>m'. m = MsgV3 m' \<and> msg_global m' = initFlags (msg_global rm) \<and>
    (Authentication (msg_global rm) \<longrightarrow>
       mac cr (init_msg rm) (u_AuthProtocol u) (u_AuthKey u) = Ok (AuthParameter (msg_sec rm)))"
proof -
  obtain rm' where r: "unprotect cr u (init_msg rm) = Ok rm'"
    "\<exists>p rest. Pdu_Unmarshal (msg_pdu (msg_base rm')) (msg_pduBytes (msg_base rm')) = Ok (p, rest) \<and>
       m = MsgV3 (rm'\<lparr>msg_base := (msg_base rm')\<lparr>msg_pdu := p\<rparr>\<rparr>)"
    using process_Ok [OF assms] by metis
  then show ?thesis using unprotect_Ok [OF r(1)] by auto
qed

text \<open>C3: A version 3 client takes a message as the answer of its request only if it has the request's
  message id and the user-based security model, and is either a response with the request's request id,
  context engine and context name or a report to a reportable request; a response to an authenticated request
  carries the digest of its bytes under the user's key.\<close>

theorem answer_matches_request:
  assumes "V3_PrepareDataElements cr d (Usm u) recv (Some (MsgV3 sm)) = (sec', Ok p)"
  shows "\<exists>rm. recv = MsgV3 rm \<and> MessageId (msg_global rm) = MessageId (msg_global sm) \<and>
    SecurityModel (msg_global rm) = securityUsm \<and>
    (let s = msg_pdu (msg_base sm) in
     PduType p = GetResponse \<and> RequestId p = RequestId s \<and> contextEngineId p = contextEngineId s \<and>
       contextName p = contextName s \<and>
       (Authentication (msg_global sm) \<longrightarrow> Authentication (msg_global rm) \<and>
          mac cr (init_msg rm) (u_AuthProtocol u) (u_AuthKey u) = Ok (AuthParameter (msg_sec rm))) \<or>
     PduType p = Report \<and> Reportable (msg_global sm))"
proof (cases recv)
  case (MsgV1 m)
  with assms show ?thesis by (simp add: V3_PrepareDataElements_def)
next
  case (MsgV3 rm)
  with assms have h: "V3_check_header (Some sm) rm = Ok ()" and model: "SecurityModel (msg_global rm) = securityUsm"
    by (auto simp: V3_PrepareDataElements_def Let_def split: outcome.splits if_splits)
  from assms MsgV3 h model obtain u' m where run: "usm_ProcessIncomingMessage cr (d_receiving d) u (MsgV3 rm) = (u', Ok m)"
    and chk: "(case m of MsgV3 m' \<Rightarrow> V3_check_pdu (Some sm) m' | MsgV1 x \<Rightarrow> Panic TypeAssertion) = Ok p"
    by (auto simp: V3_PrepareDataElements_def Let_def outcome_simps split: prod.splits)
  obtain m' where m': "m = MsgV3 m'" "msg_global m' = initFlags (msg_global rm)"
    and mac: "Authentication (msg_global rm) \<longrightarrow>
       mac cr (init_msg rm) (u_AuthProtocol u) (u_AuthKey u) = Ok (AuthParameter (msg_sec rm))"
    using usm_process_frame [OF run] by blast
  have "MessageId (msg_global rm) = MessageId (msg_global sm)"
    using h by (auto simp: V3_check_header_def split: if_splits)
  moreover have "V3_check_pdu (Some sm) m' = Ok p" using chk m'(1) by simp
  then have "p = msg_pdu (msg_base m') \<and>
    (let s = msg_pdu (msg_base sm) in
     PduType p = GetResponse \<and> RequestId p = RequestId s \<and> contextEngineId p = contextEngineId s \<and>
       contextName p = contextName s \<and> (Authentication (msg_global sm) \<longrightarrow> Authentication (msg_global m')) \<or>
     PduType p = Report \<and> Reportable (msg_global sm))"
    by (auto simp: V3_check_pdu_def Let_def split: if_splits)
  ultimately show ?thesis
    using MsgV3 model mac m'(2) by (auto simp: Let_def)
qed

text \<open>A version 1 or 2c client takes a message as the answer of its request only if it has the request's
  version, the configured community, the response type and the request's request id.\<close>

theorem community_answer_matches_request:
  assumes "V1_PrepareDataElements cr d (Community c) recv (Some sm) = (sec', Ok p)"
  shows "\<exists>rm. recv = MsgV1 rm \<and> msg_version rm = Version sm \<and> msg_Community rm = c \<and> sec' = Community c \<and>
    PduType p = GetResponse \<and> RequestId p = RequestId (Msg_Pdu sm) \<and>
    (\<exists>rest. Pdu_Unmarshal (msg_pdu rm) (msg_pduBytes rm) = Ok (p, rest))"
  using assms
  by (cases recv) (auto simp: V1_PrepareDataElements_def community_ProcessIncomingMessage_def V1_check_pdu_def Version_def
      Msg_Pdu_def split: if_splits outcome.splits)

section \<open>Termination\<close>

lemma send_attempts_frame:
  "send_attempts cr net n i s p res = (s', r) \<Longrightarrow> s_conn s' = s_conn s \<and> s_args s' = s_args s"
proof (induction n arbitrary: i s p res)
  case (Suc n)
  then show ?case
    by (auto simp: Let_def split: option.splits if_splits prod.splits outcome.splits)
qed simp

lemma sendPdu_open:
  "s_conn s \<Longrightarrow> sendPdu cr net (Suc fuel) s p = Some (send_attempts cr net (nat (int_Retries s + 1)) 0 s p (Ok None))"
  by (simp add: Open_def)

text \<open>The requests of a discovery find the connection open.\<close>

lemma Discover_returns:
  assumes "s_conn s"
  shows "Discover cr (sendPdu cr net (Suc fuel)) s \<noteq> None"
proof -
  have c: "s_conn (set_level l t) = s_conn t" for l t by (simp add: set_level_def)
  have send: "s_conn t \<Longrightarrow> \<exists>t' r. sendPdu cr net (Suc fuel) t p = Some (t', r) \<and> s_conn t'" for t p
    by (cases "send_attempts cr net (nat (int_Retries t + 1)) 0 t p (Ok None)")
      (auto simp: sendPdu_open simp del: sendPdu.simps dest: send_attempts_frame)
  have time: "discover_time (sendPdu cr net (Suc fuel)) t \<noteq> None" if "s_conn t" for t
    using send [OF that] unfolding discover_time_def
    by (auto simp del: sendPdu.simps split: option.split outcome.split prod.split) (metis option.distinct(1))
  have engine: "\<exists>t r. discover_engine (sendPdu cr net (Suc fuel)) s = Some (t, r) \<and> (r = Ok () \<longrightarrow> s_conn t)"
  proof -
    have "\<exists>t' r. sendPdu cr net (Suc fuel) (set_level NoAuthNoPriv s) p = Some (t', r) \<and> s_conn t'" for p
      using send [of "set_level NoAuthNoPriv s" p] assms by (simp add: c del: sendPdu.simps)
    then show ?thesis
      using assms unfolding discover_engine_def
      by (auto simp: c simp del: sendPdu.simps split: option.split outcome.split prod.split)
        (metis option.distinct(1), metis Pair_inject option.inject)
  qed
  then obtain t r where "discover_engine (sendPdu cr net (Suc fuel)) s = Some (t, r)" "r = Ok () \<longrightarrow> s_conn t" by blast
  then have "usm_Discover cr (sendPdu cr net (Suc fuel)) u s \<noteq> None" for u
    using time [of t] by (auto simp: usm_Discover_def simp del: sendPdu.simps split: outcome.splits)
  then show ?thesis by (simp add: Discover_def del: sendPdu.simps split: option.splits security.splits)
qed

lemma dial_negative: "int_Retries s < 0 \<Longrightarrow> dial net s = (Ok (), 0)"
  by (simp add: dial_def retry_def)

lemma attempts_pos: "0 < n \<Longrightarrow> i < snd (attempts i n f res)"
proof (cases n)
  case (Suc m)
  then show ?thesis
    using attempts_count [of "Suc i" m f] by (auto split: outcome.split intro: Suc_le_lessD)
qed simp

declare sendPdu.simps [simp del]

lemma Open_returns:
  assumes "s_conn s \<or> 0 \<le> int_Retries s"
  shows "Open cr net (sendPdu cr net (Suc fuel)) s \<noteq> None"
proof (cases "s_conn s")
  case False
  with assms have "0 < snd (dial net s)" by (simp add: dial_def retry_def attempts_pos)
  with False show ?thesis
    by (auto simp: Open_def Let_def simp del: sendPdu.simps not_None_eq split: prod.splits outcome.splits option.splits
        dest!: Discover_returns [THEN notE, rotated])
qed (simp add: Open_def del: sendPdu.simps)

text \<open>The clients whose opening, discovery and sending call each other for ever.\<close>

definition diverges :: "snmp \<Rightarrow> bool" where
  "diverges s \<longleftrightarrow> \<not> s_conn s \<and> int_Retries s < 0 \<and> a_Version (s_args s) = V3 \<and> a_SecurityEngineId (s_args s) = []"

lemma diverging: "diverges s \<Longrightarrow> sendPdu cr net fuel s p = None"
proof (induction fuel arbitrary: s p)
  case (Suc fuel)
  let ?s = "s\<lparr>s_conn := False, s_pos := s_pos s + 0, s_engine := Some (newSNMPEngine (s_args s))\<rparr>"
  have v: "newSecurity (s_args s) \<noteq> None" "\<And>c. newSecurity (s_args s) \<noteq> Some (Community c)" "NewPdu V3 GetRequest \<noteq> None"
    "\<And>u. newSecurity (s_args s) = Some (Usm u) \<Longrightarrow> u_DiscoveryStatus u = noDiscovered"
    using Suc.prems
    by (auto simp: diverges_def newSecurity_def version_defs NewPdu_def Let_def set_credentials_def new_usm_def)
  have "diverges (set_level NoAuthNoPriv ?s)"
    using Suc.prems by (simp add: diverges_def set_level_def int_Retries_def)
  from Suc.IH [OF this] have "discover_engine (sendPdu cr net fuel) ?s = None"
    using v Suc.prems by (auto simp: discover_engine_def usm_of_def newSNMPEngine_def diverges_def split: option.split security.split)
  then have "Discover cr (sendPdu cr net fuel) ?s = None"
    using v Suc.prems
    by (auto simp: Discover_def newSNMPEngine_def usm_Discover_def diverges_def split: option.split security.split)
  then show ?case
    using Suc.prems by (simp add: sendPdu.simps Open_def dial_negative diverges_def Let_def)
qed (simp add: sendPdu.simps)

lemma Open_no_discovery:
  assumes "a_Version (s_args s) \<noteq> V3 \<or> a_SecurityEngineId (s_args s) \<noteq> []"
  shows "Open cr net send s \<noteq> None"
  using assms
  by (auto simp: Open_def Let_def Discover_def usm_Discover_def newSNMPEngine_def newSecurity_def
      split: prod.split outcome.split option.split security.split if_splits)

text \<open>C10: With two or more levels of calls allowed, a request fails to return exactly when the connection is
  closed, the retry count read as a signed integer is negative and a discovery over the network is due: then
  opening, discovery and sending call each other for ever, whatever the bound.\<close>

theorem sendPdu_returns_iff:
  "sendPdu cr net (Suc (Suc fuel)) s p = None \<longleftrightarrow>
     \<not> s_conn s \<and> int_Retries s < 0 \<and> a_Version (s_args s) = V3 \<and> a_SecurityEngineId (s_args s) = []"
proof -
  have "sendPdu cr net (Suc (Suc fuel)) s p \<noteq> None" if "\<not> diverges s"
  proof -
    have "Open cr net (sendPdu cr net (Suc fuel)) s \<noteq> None"
      using that Open_returns [of s cr net fuel] Open_no_discovery [of s cr net "sendPdu cr net (Suc fuel)"]
      by (auto simp: diverges_def)
    then show ?thesis by (auto simp: sendPdu.simps(2) [of _ _ "Suc fuel"] split: outcome.split prod.split)
  qed
  then show ?thesis
    using diverging [of s cr net "Suc (Suc fuel)" p] unfolding diverges_def by blast
qed

section \<open>Attempts\<close>

lemma SendPdu_frame:
  assumes "SendPdu cr x args i e mesId p = (e', mesId', p', sent, r)"
  shows "PduType p' = PduType p \<and> VarBinds p' = VarBinds p \<and> length sent \<le> 1 \<and>
    (r = Ok None \<longrightarrow> \<not> confirmedType (PduType p))"
proof -
  have v1: "V1_PrepareOutgoingMessage cr d v sec p i = (a, b, c) \<Longrightarrow> PduType b = PduType p \<and> VarBinds b = VarBinds p"
    for d v sec a b c
    by (cases p) (auto simp: V1_PrepareOutgoingMessage_def Let_def pdu_accessors split: prod.splits if_splits)
  have v3: "V3_PrepareOutgoingMessage cr d v m sec p args i = (a, m', b, c) \<Longrightarrow> PduType b = PduType p \<and> VarBinds b = VarBinds p"
    for d v sec a b c m m'
    by (cases p) (auto simp: V3_PrepareOutgoingMessage_def Let_def pdu_accessors
        split: prod.splits if_splits outcome.splits security.splits)
  have prep: "PrepareOutgoingMessage cr d mp m sec p args i = (a, m', b, c) \<Longrightarrow> PduType b = PduType p \<and> VarBinds b = VarBinds p"
    for d mp sec a b c m m'
    by (cases mp) (auto split: prod.splits dest: v1 v3)
  have recv: "receive_answer cr x args mp sec q m = (sec', Ok None) \<Longrightarrow> False" for mp sec q m sec'
    by (auto simp: receive_answer_def Let_def outcome_simps split: outcome.splits prod.splits if_splits)
  show ?thesis
    using assms by (auto simp: SendPdu_def Let_def split: option.splits prod.splits outcome.splits if_splits dest: prep recv)
qed

lemma send_attempts_count:
  assumes "send_attempts cr net n i s p res = (s', r)"
  shows "s_pos s \<le> s_pos s' \<and> s_pos s' \<le> s_pos s + n \<and>
    length (s_sent s') + s_pos s \<le> length (s_sent s) + s_pos s' \<and>
    (confirmedType (PduType p) \<and> r = Ok None \<longrightarrow> n = 0)"
  using assms
proof (induction n arbitrary: i s p res)
  case (Suc n)
  show ?case
  proof (cases "s_engine s = None \<or> \<not> s_conn s")
    case True
    with Suc.prems show ?thesis by (auto split: option.splits)
  next
    case False
    then obtain e where e: "s_engine s = Some e" "s_conn s" by auto
    obtain e' mesId' p' sent r' where run:
      "SendPdu cr (n_exchange net (s_pos s)) (s_args s) i e (s_mesId s) p = (e', mesId', p', sent, r')"
      by (metis prod_cases5)
    note f = SendPdu_frame [OF run]
    let ?s = "s\<lparr>s_engine := Some e', s_mesId := mesId', s_pos := Suc (s_pos s), s_sent := s_sent s @ sent\<rparr>"
    show ?thesis
    proof (cases "\<exists>er. r' = Err er \<and> retryable er")
      case True
      then obtain er where er: "r' = Err er" "retryable er" by blast
      with Suc.prems e run have "send_attempts cr net n (i + 1) ?s p' (Err (unwrap er)) = (s', r)" by simp
      note ih = Suc.IH [OF this]
      have "n = 0 \<Longrightarrow> r \<noteq> Ok None" using \<open>send_attempts cr net n (i + 1) ?s p' (Err (unwrap er)) = (s', r)\<close> by auto
      then show ?thesis using ih f by auto
    next
      case False
      then have "s' = ?s \<and> r = r'" using Suc.prems e run by (auto simp: Let_def split: outcome.splits if_splits)
      then show ?thesis using f by auto
    qed
  qed
qed simp

text \<open>C11: A request on an open connection makes at most one more attempt than the retry count and writes at
  most one datagram in each; the arguments and the connection stay as they are. It returns neither a PDU nor
  an error for a confirmed PDU exactly when the retry count, read as a signed integer, is negative.\<close>

theorem sendPdu_attempts:
  assumes "s_conn s" and "confirmedType (PduType p)" and "sendPdu cr net (Suc fuel) s p = Some (s', r)"
  shows "s_pos s' \<le> s_pos s + nat (int_Retries s + 1) \<and>
    length (s_sent s') - length (s_sent s) \<le> s_pos s' - s_pos s \<and> s_args s' = s_args s \<and> s_conn s' \<and>
    (r = Ok None \<longleftrightarrow> int_Retries s < 0)"
proof -
  have run: "send_attempts cr net (nat (int_Retries s + 1)) 0 s p (Ok None) = (s', r)"
    using assms(1,3) by (simp add: sendPdu_open)
  have "int_Retries s < 0 \<Longrightarrow> r = Ok None" using run by simp
  with send_attempts_frame [OF run] send_attempts_count [OF run] assms(1,2) show ?thesis by auto
qed

section \<open>Concrete runs\<close>

definition demo_request :: messageV3 where
  "demo_request = demo_msg\<lparr>msg_global := \<lparr>MessageId = 1, MessageMaxSize = 1400, MessageFlags = [0x04], SecurityModel = 3\<rparr>\<rparr>"

definition demo_answer_pdu :: pdu where
  "demo_answer_pdu = ScopedPdu [1, 2, 3, 4, 5] []
     \<lparr>pduType = GetResponse, requestId = 7, errorStatus = 0, errorIndex = 0, varBinds = []\<rparr>"

definition demo_answer :: messageV3 where
  "demo_answer =
     \<lparr>msg_global = \<lparr>MessageId = 1, MessageMaxSize = 1400, MessageFlags = [0], SecurityModel = 3\<rparr>, msg_sec = demo_sec,
      msg_base = \<lparr>msg_version = V3, msg_Community = [],
        msg_pduBytes = (case Pdu_Marshal demo_answer_pdu of Ok b \<Rightarrow> b | _ \<Rightarrow> []), msg_pdu = ScopedPdu [] [] zero_pduV1\<rparr>\<rparr>"

definition demo_draws :: draws where
  "demo_draws = \<lparr>d_requestId = 7, d_messageId = 1, d_salts = (1, 2), d_sending = 0, d_receiving = Second\<rparr>"

theorem answer_matches_request_witness:
  "\<exists>sec' p. V3_PrepareDataElements demo_crypto demo_draws (Usm (new_usm ''user'')) (MsgV3 demo_answer) (Some (MsgV3 demo_request)) =
      (sec', Ok p) \<and> (PduType p = GetResponse \<longrightarrow> RequestId p = 7)"
proof -
  have "is_ok (snd (V3_PrepareDataElements demo_crypto demo_draws (Usm (new_usm ''user'')) (MsgV3 demo_answer)
      (Some (MsgV3 demo_request))))"
    by code_simp
  then obtain sec' p where run: "V3_PrepareDataElements demo_crypto demo_draws (Usm (new_usm ''user'')) (MsgV3 demo_answer)
      (Some (MsgV3 demo_request)) = (sec', Ok p)"
    by (auto simp: is_ok_iff prod_eq_iff)
  have "RequestId (msg_pdu (msg_base demo_request)) = 7" by (simp add: demo_request_def demo_msg_def pdu_accessors)
  moreover have "GetResponse \<noteq> Report" by (simp add: pdu_type_defs)
  ultimately show ?thesis
    using answer_matches_request [OF run] run by (auto simp: Let_def)
qed

definition demo_v2_request :: messageV1 where
  "demo_v2_request = \<lparr>msg_version = V2c, msg_Community = [0x70, 0x75, 0x62], msg_pduBytes = [],
     msg_pdu = PduV1 \<lparr>pduType = GetRequest, requestId = 7, errorStatus = 0, errorIndex = 0, varBinds = []\<rparr>\<rparr>"

definition demo_v2_answer :: messageV1 where
  "demo_v2_answer = \<lparr>msg_version = V2c, msg_Community = [0x70, 0x75, 0x62],
     msg_pduBytes = (case PduV1_Marshal (inner_pdu demo_answer_pdu) of Ok b \<Rightarrow> b | _ \<Rightarrow> []), msg_pdu = PduV1 zero_pduV1\<rparr>"

theorem community_answer_matches_request_witness:
  "\<exists>sec' p. V1_PrepareDataElements demo_crypto demo_draws (Community [0x70, 0x75, 0x62]) (MsgV1 demo_v2_answer)
      (Some (MsgV1 demo_v2_request)) = (sec', Ok p) \<and> PduType p = GetResponse"
proof -
  have "is_ok (snd (V1_PrepareDataElements demo_crypto demo_draws (Community [0x70, 0x75, 0x62]) (MsgV1 demo_v2_answer)
      (Some (MsgV1 demo_v2_request))))"
    by code_simp
  then obtain sec' p where run: "V1_PrepareDataElements demo_crypto demo_draws (Community [0x70, 0x75, 0x62])
      (MsgV1 demo_v2_answer) (Some (MsgV1 demo_v2_request)) = (sec', Ok p)"
    by (auto simp: is_ok_iff prod_eq_iff)
  then show ?thesis using community_answer_matches_request [OF run] by blast
qed

text \<open>Every write times out.\<close>

definition demo_args :: SNMPArguments where
  "demo_args =
     \<lparr>a_Version = V2c, a_Network = ''udp'', a_Address = ''10.0.0.1:161'', a_Timeout = Second, a_Retries = 2, a_MessageMaxSize = 1400,
      a_Community = ''public'', a_UserName = [], a_SecurityLevel = 0, a_AuthPassword = [], a_AuthProtocol = [],
      a_PrivPassword = [], a_PrivProtocol = [], a_SecurityEngineId = [], a_ContextEngineId = [], a_ContextName = [],
      a_authEngineBoots = 0, a_authEngineTime = 0\<rparr>"

definition demo_network :: network where
  "demo_network = \<lparr>n_dial = (\<lambda>i. None),
     n_exchange = (\<lambda>i. \<lparr>x_draws = demo_draws, x_deadline = None, x_write = Some (NetError True ''i/o timeout''),
       x_read = (\<lambda>b. Ok [])\<rparr>)\<rparr>"

definition demo_client :: snmp where
  "demo_client = \<lparr>s_conn = True, s_args = demo_args, s_engine = Some (newSNMPEngine demo_args), s_mesId = 0, s_pos = 1, s_sent = []\<rparr>"

theorem sendPdu_attempts_witness:
  "\<exists>s' r. sendPdu demo_crypto demo_network 1 demo_client (msg_pdu demo_v2_request) = Some (s', r) \<and> s_pos s' \<le> 4 \<and> r \<noteq> Ok None"
proof -
  have s: "s_conn demo_client" "confirmedType (PduType (msg_pdu demo_v2_request))" by code_simp+
  obtain s' r where run: "sendPdu demo_crypto demo_network (Suc 0) demo_client (msg_pdu demo_v2_request) = Some (s', r)"
    unfolding sendPdu_open [OF s(1)] by (metis surj_pair)
  have "int_Retries demo_client = 2" "s_pos demo_client = 1" by (simp_all add: int_Retries_def demo_client_def demo_args_def)
  then show ?thesis using sendPdu_attempts [OF s run] run by auto
qed

end
