(* ===== verification/BulkWalk.thy ===== *)
theory BulkWalk
  imports ClientFacts
begin

text \<open>
  \<open>GetBulkWalk\<close> of \<open>snmpgo/client.go\<close>. The slices \<open>oids\<close> and \<open>reqOids\<close> always have the same length: they are a
  list of pairs here, the base and the identifier to ask for next, nil when the base is done. \<open>request\<close> is the
  call of \<open>GetBulkRequest\<close>; the loop is bounded by fuel, as an agent that always answers with new identifiers
  keeps it going.

  The properties: a walk ends against any agent with finitely many identifiers; what it returns is sorted, without
  repetitions, below the requested bases and from the agent's answers; and against an agent that answers as the
  protocol asks, it returns the requested subtrees.
\<close>

section \<open>One round\<close>

definition is_exception :: "variable option \<Rightarrow> bool" where
  "is_exception v \<longleftrightarrow> v = Some NoSucheObject \<or> v = Some NoSucheInstance \<or> v = Some EndOfMibView"

fun scan_matched :: "varbind list \<Rightarrow> varbind list \<Rightarrow> oid option \<Rightarrow> bool \<Rightarrow> varbind list \<times> oid option \<times> bool" where
  "scan_matched [] resBinds req hasError = (resBinds, req, hasError)"
| "scan_matched (val # vals) resBinds req hasError =
     (if is_exception (vb_Variable val) then scan_matched vals resBinds req True
      else scan_matched vals (resBinds @ [val]) (vb_Oid val) hasError)"

definition walk_oid ::
  "bool \<Rightarrow> int \<Rightarrow> varbind list \<Rightarrow> oid option \<Rightarrow> oid option \<Rightarrow> varbind list \<Rightarrow> varbind list \<times> oid option"
where
  "walk_oid filled maxRepetitions vbs base req resBinds =
     (let matched = MatchBaseOids vbs base;
          mLength = length matched
      in if mLength = 0 \<or> MatchOid resBinds (vb_Oid (matched ! (mLength - 1))) \<noteq> None then (resBinds, None)
         else
           (case scan_matched matched resBinds req False of
              (resBinds', req', hasError) \<Rightarrow>
                if hasError \<or> (filled \<and> int mLength < maxRepetitions) then (resBinds', None)
                else (resBinds', req')))"

fun walk_oids ::
  "bool \<Rightarrow> int \<Rightarrow> varbind list \<Rightarrow> (oid option \<times> oid option) list \<Rightarrow> varbind list \<Rightarrow>
     varbind list \<times> (oid option \<times> oid option) list"
where
  "walk_oids filled maxRepetitions vbs [] resBinds = (resBinds, [])"
| "walk_oids filled maxRepetitions vbs ((base, req) # ps) resBinds =
     (case walk_oid filled maxRepetitions vbs base req resBinds of
        (resBinds', req') \<Rightarrow>
          (case walk_oids filled maxRepetitions vbs ps resBinds' of
             (resBinds'', ps') \<Rightarrow> (resBinds'', (base, req') # ps')))"

record walk =
  w_pairs :: "(oid option \<times> oid option) list"
  w_nonRepeaters :: int
  w_nonRepBinds :: "varbind list"
  w_resBinds :: "varbind list"

text \<open>The non-repeaters are split off in the first round: fewer bindings than asked for are a slice panic.\<close>

definition split_non_repeaters :: "varbind list \<Rightarrow> walk \<Rightarrow> (varbind list \<times> walk) outcome" where
  "split_non_repeaters vbs w =
     (if w_nonRepeaters w > 0 then
        (let n = nat (w_nonRepeaters w) in
         and_then (slice vbs 0 n) (\<lambda>first.
           Ok (drop n vbs, w\<lparr>w_nonRepBinds := w_nonRepBinds w @ first, w_pairs := drop n (w_pairs w), w_nonRepeaters := 0\<rparr>)))
      else Ok (vbs, w))"

definition walk_round :: "int \<Rightarrow> varbind list \<Rightarrow> walk \<Rightarrow> walk outcome" where
  "walk_round maxRepetitions vbs w =
     and_then (split_non_repeaters vbs w) (\<lambda>(vbs, w).
       (let filled = (int (length vbs) = int (length (w_pairs w)) * maxRepetitions);
            vbs = VarBinds_Uniq (VarBinds_Sort vbs)
        in case walk_oids filled maxRepetitions vbs (w_pairs w) (w_resBinds w) of
             (resBinds, ps) \<Rightarrow> Ok (w\<lparr>w_resBinds := resBinds, w_pairs := filter (\<lambda>(base, req). req \<noteq> None) ps\<rparr>)))"

section \<open>The walk\<close>

type_synonym requester = "snmp \<Rightarrow> oid option list \<Rightarrow> int \<Rightarrow> int \<Rightarrow> (snmp \<times> pdu option outcome) option"

definition walk_result :: "int \<Rightarrow> walk \<Rightarrow> pdu option outcome" where
  "walk_result ver w =
     NewPduWithVarBinds ver GetResponse (w_nonRepBinds w @ VarBinds_Uniq (VarBinds_Sort (w_resBinds w)))"

fun bulk_loop :: "requester \<Rightarrow> nat \<Rightarrow> int \<Rightarrow> snmp \<Rightarrow> walk \<Rightarrow> (snmp \<times> pdu option outcome) option" where
  "bulk_loop request 0 maxRepetitions s w = None"
| "bulk_loop request (Suc fuel) maxRepetitions s w =
     (if w_pairs w = [] then Some (s, walk_result (a_Version (s_args s)) w)
      else
        (case request s (map snd (w_pairs w)) (w_nonRepeaters w) maxRepetitions of
           None \<Rightarrow> None
         | Some (s', Err e) \<Rightarrow> Some (s', Err e)
         | Some (s', Panic x) \<Rightarrow> Some (s', Panic x)
         | Some (s', Ok None) \<Rightarrow> Some (s', Panic NilDereference)
         | Some (s', Ok (Some p)) \<Rightarrow>
             if ErrorStatus p \<noteq> NoError \<and> (ErrorStatus p \<noteq> NoSuchName \<or> ErrorIndex p \<le> w_nonRepeaters w) then
               Some (s', Ok (Some p))
             else
               (case walk_round maxRepetitions (VarBinds p) w of
                  Err e \<Rightarrow> Some (s', Err e)
                | Panic x \<Rightarrow> Some (s', Panic x)
                | Ok w' \<Rightarrow> bulk_loop request fuel maxRepetitions s' w')))"

definition GetBulkWalk ::
  "requester \<Rightarrow> nat \<Rightarrow> snmp \<Rightarrow> oid option list \<Rightarrow> int \<Rightarrow> int \<Rightarrow> (snmp \<times> pdu option outcome) option"
where
  "GetBulkWalk request fuel s oids nonRepeaters maxRepetitions =
     (if nonRepeaters < 0 \<or> int (length oids) < nonRepeaters then Some (s, Panic SliceBounds)
      else
        (let n = nat nonRepeaters;
             oids = take n oids @ Oids_UniqBase (Oids_Sort (drop n oids))
         in bulk_loop request fuel maxRepetitions s
              \<lparr>w_pairs = map (\<lambda>x. (x, x)) oids, w_nonRepeaters = nonRepeaters, w_nonRepBinds = [], w_resBinds = []\<rparr>))"

definition client_GetBulkWalk ::
  "crypto \<Rightarrow> network \<Rightarrow> nat \<Rightarrow> snmp \<Rightarrow> oid option list \<Rightarrow> int \<Rightarrow> int \<Rightarrow> (snmp \<times> pdu option outcome) option"
where
  "client_GetBulkWalk cr net fuel = GetBulkWalk (client_GetBulkRequest cr net fuel) fuel"

section \<open>Facts about a round\<close>

lemma uniq_from_subset: "set (uniq_from same b xs) \<subseteq> set xs"
  by (induction same b xs rule: uniq_from.induct) auto

lemma scan_matched_eq:
  "scan_matched vals resBinds req hasError =
     (resBinds @ filter (\<lambda>v. \<not> is_exception (vb_Variable v)) vals,
      (let good = filter (\<lambda>v. \<not> is_exception (vb_Variable v)) vals in if good = [] then req else vb_Oid (last good)),
      hasError \<or> list_ex (\<lambda>v. is_exception (vb_Variable v)) vals)"
  by (induction vals resBinds req hasError rule: scan_matched.induct) (auto simp: Let_def)

lemma MatchBaseOids_iff: "v \<in> set (MatchBaseOids vs (Some b)) \<longleftrightarrow> v \<in> set vs \<and> (\<exists>x. vb_Oid v = Some x \<and> prefix b x)"
  by (auto simp: MatchBaseOids_def Contains_prefix split: option.splits)

lemma MatchBaseOids_subset: "set (MatchBaseOids vs b) \<subseteq> set vs" "None \<notin> vb_Oid ` set (MatchBaseOids vs b)"
  by (auto simp: MatchBaseOids_def)

text \<open>The identifiers a list of bindings covers.\<close>

definition oids_of :: "varbind list \<Rightarrow> oid set" where
  "oids_of vs = {x. \<exists>v \<in> set vs. vb_Oid v = Some x}"

definition oids_of_set :: "varbind set \<Rightarrow> oid set" where
  "oids_of_set A = {x. \<exists>v \<in> A. vb_Oid v = Some x}"

lemma oids_of_set_eq: "oids_of_set A = the ` (vb_Oid ` A - {None})"
  by (force simp: oids_of_set_def)

lemma oids_of_append [simp]: "oids_of (xs @ ys) = oids_of xs \<union> oids_of ys"
  by (auto simp: oids_of_def)

lemma oids_of_eq: "oids_of vs = the ` (vb_Oid ` set vs - {None})"
  by (force simp: oids_of_def)

lemma finite_oids_of [simp]: "finite (oids_of vs)"
  by (simp add: oids_of_eq)

lemma MatchOid_iff: "MatchOid vs (Some x) = None \<longleftrightarrow> x \<notin> oids_of vs"
  by (auto simp: MatchOid_def find_None_iff Equal_def oids_of_def split: option.splits)

text \<open>What a base takes from a round: exactly its matches, or nothing.\<close>

lemma walk_oid_cases:
  assumes "walk_oid filled m vbs base req resBinds = (resBinds', req')"
  obtains (finished) "resBinds' = resBinds" "req' = None"
      "MatchBaseOids vbs base = [] \<or> (\<exists>x. vb_Oid (last (MatchBaseOids vbs base)) = Some x \<and> x \<in> oids_of resBinds)"
  | (matches) "MatchBaseOids vbs base \<noteq> []"
      "the (vb_Oid (last (MatchBaseOids vbs base))) \<notin> oids_of resBinds"
      "resBinds' = resBinds @ filter (\<lambda>v. \<not> is_exception (vb_Variable v)) (MatchBaseOids vbs base)"
      "req' \<noteq> None \<longrightarrow> \<not> list_ex (\<lambda>v. is_exception (vb_Variable v)) (MatchBaseOids vbs base) \<and>
         req' = vb_Oid (last (MatchBaseOids vbs base))"
      "req' = None \<longrightarrow> list_ex (\<lambda>v. is_exception (vb_Variable v)) (MatchBaseOids vbs base) \<or>
         (filled \<and> int (length (MatchBaseOids vbs base)) < m)"
proof (cases "MatchBaseOids vbs base = []")
  case True
  with assms show ?thesis by (intro finished) (simp_all add: walk_oid_def Let_def)
next
  case False
  let ?M = "MatchBaseOids vbs base"
  have "last ?M \<in> set ?M" using False by simp
  then obtain x where x: "vb_Oid (last ?M) = Some x" using MatchBaseOids_subset(2) [of vbs base] by (metis imageI not_Some_eq)
  have l: "?M ! (length ?M - 1) = last ?M" using False by (simp add: last_conv_nth)
  have mem: "MatchOid resBinds (vb_Oid (last ?M)) = None \<longleftrightarrow> x \<notin> oids_of resBinds"
    unfolding x by (rule MatchOid_iff)
  show ?thesis
  proof (cases "x \<in> oids_of resBinds")
    case True
    with assms mem l x show ?thesis by (intro finished) (auto simp: walk_oid_def Let_def)
  next
    case new: False
    have good: "filter (\<lambda>v. \<not> is_exception (vb_Variable v)) ?M = ?M" if "\<not> list_ex (\<lambda>v. is_exception (vb_Variable v)) ?M"
      using that by (simp add: filter_id_conv list_ex_iff)
    show ?thesis
      using assms mem l x new False good
      by (intro matches) (auto simp: walk_oid_def Let_def scan_matched_eq split: if_splits)
  qed
qed

section \<open>Progress\<close>

text \<open>
  What a part of a round adds: bindings of the answer, none an exception, each below one of the bases; and an
  identifier not yet known when the walk is to go on.
\<close>

definition found :: "oid option set \<Rightarrow> varbind list \<Rightarrow> varbind list \<Rightarrow> bool \<Rightarrow> varbind list \<Rightarrow> bool" where
  "found bases vbs resBinds going new \<longleftrightarrow>
     set new \<subseteq> {v \<in> set vbs. \<not> is_exception (vb_Variable v)} \<and>
     (\<forall>v \<in> set new. \<exists>b x. Some b \<in> bases \<and> vb_Oid v = Some x \<and> prefix b x) \<and>
     (going \<longrightarrow> \<not> oids_of new \<subseteq> oids_of resBinds)"

lemma found_Nil [simp]: "found bases vbs resBinds False []"
  by (simp add: found_def)

lemma found_append:
  "found B1 vbs rb g1 n1 \<Longrightarrow> found B2 vbs (rb @ n1) g2 n2 \<Longrightarrow> found (B1 \<union> B2) vbs rb (g1 \<or> g2) (n1 @ n2)"
  unfolding found_def by (auto; blast)

lemma found_mono:
  "found B vbs rb g new \<Longrightarrow> B \<subseteq> B' \<Longrightarrow> set vbs \<subseteq> set vbs' \<Longrightarrow> (g' \<longrightarrow> g) \<Longrightarrow> found B' vbs' rb g' new"
  unfolding found_def by fast

lemma walk_oid_grows:
  assumes "walk_oid filled m vbs base req resBinds = (resBinds', req')"
  obtains new where "resBinds' = resBinds @ new" "found {base} vbs resBinds (req' \<noteq> None) new"
  using assms
proof (cases rule: walk_oid_cases)
  case finished
  then show ?thesis by (intro that [of "[]"]) simp_all
next
  case matches
  let ?M = "MatchBaseOids vbs base"
  have l: "last ?M \<in> set ?M" using matches(1) by simp
  then obtain x where x: "vb_Oid (last ?M) = Some x"
    using MatchBaseOids_subset(2) [of vbs base] by (metis imageI not_Some_eq)
  have b: "\<exists>b x. Some b \<in> {base} \<and> vb_Oid v = Some x \<and> prefix b x" if "v \<in> set ?M" for v
  proof (cases base)
    case None
    with that show ?thesis by (auto simp: MatchBaseOids_def Contains_def split: option.splits)
  next
    case (Some b)
    with that show ?thesis by (auto simp: MatchBaseOids_iff)
  qed
  have "x \<in> oids_of (filter (\<lambda>v. \<not> is_exception (vb_Variable v)) ?M)" if "req' \<noteq> None"
    using matches(4) that l x by (auto simp: oids_of_def list_ex_iff)
  moreover have "x \<notin> oids_of resBinds" using matches(2) x by simp
  ultimately have "found {base} vbs resBinds (req' \<noteq> None) (filter (\<lambda>v. \<not> is_exception (vb_Variable v)) ?M)"
    using b MatchBaseOids_subset(1) [of vbs base] unfolding found_def by auto
  with matches(3) show ?thesis by (rule that)
qed

lemma walk_oids_grow:
  assumes "walk_oids filled m vbs ps resBinds = (resBinds', ps')"
  obtains new where "resBinds' = resBinds @ new" "found (fst ` set ps) vbs resBinds (\<exists>p \<in> set ps'. snd p \<noteq> None) new"
    "map fst ps' = map fst ps"
proof -
  have "\<exists>new. resBinds' = resBinds @ new \<and> found (fst ` set ps) vbs resBinds (\<exists>p \<in> set ps'. snd p \<noteq> None) new \<and>
      map fst ps' = map fst ps"
    using assms
  proof (induction ps arbitrary: resBinds ps')
    case (Cons p ps)
    obtain base req where p: "p = (base, req)" by (cases p)
    obtain rb req' where one: "walk_oid filled m vbs base req resBinds = (rb, req')"
      by (cases "walk_oid filled m vbs base req resBinds")
    obtain ps'' where rest: "walk_oids filled m vbs ps rb = (resBinds', ps'')" "ps' = (base, req') # ps''"
      using Cons.prems by (cases "walk_oids filled m vbs ps rb") (simp add: p one)
    obtain n1 where n1: "rb = resBinds @ n1" "found {base} vbs resBinds (req' \<noteq> None) n1"
      by (rule walk_oid_grows [OF one])
    obtain n2 where n2: "resBinds' = rb @ n2" "found (fst ` set ps) vbs rb (\<exists>p \<in> set ps''. snd p \<noteq> None) n2"
        "map fst ps'' = map fst ps"
      using Cons.IH [OF rest(1)] by (elim exE conjE)
    have "found ({base} \<union> fst ` set ps) vbs resBinds (req' \<noteq> None \<or> (\<exists>p \<in> set ps''. snd p \<noteq> None)) (n1 @ n2)"
      using n1 n2 by (intro found_append) simp_all
    then show ?case using n1 n2 by (intro exI [of _ "n1 @ n2"]) (simp add: p rest(2))
  qed simp
  then show thesis by (elim exE conjE) (rule that)
qed

text \<open>The bindings of a walk stay inside the agent's answers and the bases; a round that leaves a base to go on
  has found a new identifier.\<close>

lemma walk_round_grows:
  assumes "walk_round m vbs w = Ok w'" and "None \<notin> vb_Oid ` set vbs"
  obtains new where "w_resBinds w' = w_resBinds w @ new"
    "found (fst ` set (w_pairs w)) vbs (w_resBinds w) (w_pairs w' \<noteq> []) new"
    "fst ` set (w_pairs w') \<subseteq> fst ` set (w_pairs w)"
    "w_nonRepeaters w = 0 \<longrightarrow> w_nonRepeaters w' = 0 \<and> w_nonRepBinds w' = w_nonRepBinds w"
proof -
  obtain vbs1 w1 where s: "split_non_repeaters vbs w = Ok (vbs1, w1)"
    using assms(1) by (auto simp: walk_round_def and_then_Ok_iff)
  have s': "set vbs1 \<subseteq> set vbs" "w_resBinds w1 = w_resBinds w" "set (w_pairs w1) \<subseteq> set (w_pairs w)"
    "w_nonRepeaters w = 0 \<longrightarrow> w1 = w"
    using s by (auto simp: split_non_repeaters_def Let_def and_then_Ok_iff dest: in_set_dropD split: if_splits)
  let ?vbs = "VarBinds_Uniq (VarBinds_Sort vbs1)"
  have "None \<notin> vb_Oid ` set vbs1" using assms(2) s'(1) by auto
  from Sort_Uniq_varbinds(2) [OF this] have sub: "set ?vbs \<subseteq> set vbs" using s'(1) by simp
  let ?f = "int (length vbs1) = int (length (w_pairs w1)) * m"
  obtain rb ps where r: "walk_oids ?f m ?vbs (w_pairs w1) (w_resBinds w1) = (rb, ps)"
    by (cases "walk_oids ?f m ?vbs (w_pairs w1) (w_resBinds w1)")
  then have w': "w' = w1\<lparr>w_resBinds := rb, w_pairs := filter (\<lambda>(base, req). req \<noteq> None) ps\<rparr>"
    using assms(1) s by (simp add: walk_round_def Let_def)
  obtain new where new: "rb = w_resBinds w1 @ new"
      "found (fst ` set (w_pairs w1)) ?vbs (w_resBinds w1) (\<exists>p \<in> set ps. snd p \<noteq> None) new" "map fst ps = map fst (w_pairs w1)"
    by (rule walk_oids_grow [OF r])
  have sub1: "fst ` set (w_pairs w1) \<subseteq> fst ` set (w_pairs w)" using s'(3) by (rule image_mono)
  have "fst ` set ps = fst ` set (w_pairs w1)" using new(3) by (metis list.set_map)
  then have sub2: "fst ` set (w_pairs w') \<subseteq> fst ` set (w_pairs w)" using sub1 w' by auto
  have going: "w_pairs w' \<noteq> [] \<longrightarrow> (\<exists>p \<in> set ps. snd p \<noteq> None)"
    by (force simp: w' filter_empty_conv)
  have "found (fst ` set (w_pairs w)) vbs (w_resBinds w) (w_pairs w' \<noteq> []) new"
    using found_mono [OF new(2) sub1 sub going] s'(2) by simp
  with new(1) s' sub2 w' show thesis by (intro that [of new]) auto
qed

section \<open>Runs of the loop\<close>

text \<open>
  The rule all properties use: an invariant \<open>I\<close> of the rounds, identifiers of the answers in a finite set \<open>U\<close>,
  and \<open>Q\<close> of every way to return. The fuel needed is one round for each identifier not yet found.
\<close>

definition stops :: "pdu \<Rightarrow> walk \<Rightarrow> bool" where
  "stops p w \<longleftrightarrow> ErrorStatus p \<noteq> NoError \<and> (ErrorStatus p \<noteq> NoSuchName \<or> ErrorIndex p \<le> w_nonRepeaters w)"

definition round_ok :: "int \<Rightarrow> oid set \<Rightarrow> (walk \<Rightarrow> bool) \<Rightarrow> (pdu option outcome \<Rightarrow> bool) \<Rightarrow> walk \<Rightarrow>
    pdu option outcome \<Rightarrow> bool" where
  "round_ok m U I Q w r \<longleftrightarrow>
     (case r of
        Ok None \<Rightarrow> Q (Panic NilDereference)
      | Ok (Some p) \<Rightarrow>
          if stops p w then Q (Ok (Some p))
          else
            None \<notin> vb_Oid ` set (VarBinds p) \<and> oids_of (VarBinds p) \<subseteq> U \<and>
            (case walk_round m (VarBinds p) w of Ok w' \<Rightarrow> I w' | Err e \<Rightarrow> Q (Err e) | Panic x \<Rightarrow> Q (Panic x))
      | Err e \<Rightarrow> Q (Err e)
      | Panic x \<Rightarrow> Q (Panic x))"

lemma bulk_loop_rule:
  assumes step: "\<And>s w. I s w \<Longrightarrow> w_pairs w \<noteq> [] \<Longrightarrow>
      \<exists>s' r. request s (map snd (w_pairs w)) (w_nonRepeaters w) m = Some (s', r) \<and> round_ok m U (I s') Q w r"
    and final: "\<And>s w. I s w \<Longrightarrow> w_pairs w = [] \<Longrightarrow> Q (walk_result (a_Version (s_args s)) w)"
    and U: "finite U"
  shows "I s w \<Longrightarrow> card (U - oids_of (w_resBinds w)) + 2 \<le> fuel \<or> (w_pairs w = [] \<and> 1 \<le> fuel) \<Longrightarrow>
    \<exists>s' r. bulk_loop request fuel m s w = Some (s', r) \<and> Q r"
proof (induction fuel arbitrary: s w)
  case (Suc fuel)
  show ?case
  proof (cases "w_pairs w = []")
    case True
    with final [OF Suc.prems(1)] show ?thesis by simp
  next
    case False
    obtain s' r where req: "request s (map snd (w_pairs w)) (w_nonRepeaters w) m = Some (s', r)" and r: "round_ok m U (I s') Q w r"
      using step [OF Suc.prems(1) False] by blast
    show ?thesis
    proof (cases "\<exists>p w'. r = Ok (Some p) \<and> \<not> stops p w \<and> walk_round m (VarBinds p) w = Ok w'")
      case True
      then obtain p w' where pw: "r = Ok (Some p)" "\<not> stops p w" "walk_round m (VarBinds p) w = Ok w'" by blast
      with r have none: "None \<notin> vb_Oid ` set (VarBinds p)" and sub: "oids_of (VarBinds p) \<subseteq> U" and I: "I s' w'"
        by (simp_all add: round_ok_def)
      obtain new where new: "w_resBinds w' = w_resBinds w @ new"
          "found (fst ` set (w_pairs w)) (VarBinds p) (w_resBinds w) (w_pairs w' \<noteq> []) new"
        by (rule walk_round_grows [OF pw(3) none])
      have "card (U - oids_of (w_resBinds w')) + 2 \<le> fuel \<or> (w_pairs w' = [] \<and> 1 \<le> fuel)"
      proof (cases "w_pairs w' = []")
        case going: False
        have "oids_of new \<subseteq> oids_of (VarBinds p)" using new(2) by (auto simp: found_def oids_of_def)
        with going new sub have "U - oids_of (w_resBinds w') \<subset> U - oids_of (w_resBinds w)"
          unfolding found_def by auto
        with U have "card (U - oids_of (w_resBinds w')) < card (U - oids_of (w_resBinds w))"
          by (intro psubset_card_mono) auto
        with Suc.prems(2) False show ?thesis by simp
      qed (use Suc.prems(2) False in simp)
      from Suc.IH [OF I this] False req pw show ?thesis by (auto simp: stops_def)
    qed (use False req r in \<open>auto simp: round_ok_def stops_def split: outcome.splits option.splits if_splits\<close>)
  qed
qed simp

text \<open>The initial walk.\<close>

definition start_walk :: "oid option list \<Rightarrow> int \<Rightarrow> walk" where
  "start_walk oids nonRepeaters =
     \<lparr>w_pairs = map (\<lambda>x. (x, x)) (take (nat nonRepeaters) oids @ Oids_UniqBase (Oids_Sort (drop (nat nonRepeaters) oids))),
      w_nonRepeaters = nonRepeaters, w_nonRepBinds = [], w_resBinds = []\<rparr>"

lemma GetBulkWalk_eq:
  "0 \<le> n \<Longrightarrow> n \<le> int (length oids) \<Longrightarrow> GetBulkWalk request fuel s oids n m = bulk_loop request fuel m s (start_walk oids n)"
  by (simp add: GetBulkWalk_def start_walk_def Let_def)

lemma walk_result_Ok:
  "walk_result ver w = Ok (Some q) \<Longrightarrow>
     PduType q = GetResponse \<and> VarBinds q = w_nonRepBinds w @ VarBinds_Uniq (VarBinds_Sort (w_resBinds w))"
  "ver = V1 \<or> ver = V2c \<or> ver = V3 \<Longrightarrow> \<exists>q. walk_result ver w = Ok (Some q) \<and> ErrorStatus q = NoError"
proof -
  have pdu: "\<exists>q. walk_result ver w = Ok (Some q) \<and> PduType q = GetResponse \<and> ErrorStatus q = NoError \<and>
      VarBinds q = w_nonRepBinds w @ VarBinds_Uniq (VarBinds_Sort (w_resBinds w))" if "NewPdu ver GetResponse = Some p" for p
  proof -
    have p: "PduType p = GetResponse" "VarBinds p = []" "ErrorStatus p = NoError"
      using that by (auto simp: NewPdu_def Let_def pdu_accessors zero_pduV1_def NoError_def split: if_splits)
    with append_all_Some [of "map (\<lambda>v. (vb_Oid v, vb_Variable v)) (w_nonRepBinds w @ VarBinds_Uniq (VarBinds_Sort (w_resBinds w)))" p] that
    show ?thesis by (auto simp: walk_result_def NewPduWithVarBinds_def comp_def map_idI)
  qed
  {
    assume q: "walk_result ver w = Ok (Some q)"
    show "PduType q = GetResponse \<and> VarBinds q = w_nonRepBinds w @ VarBinds_Uniq (VarBinds_Sort (w_resBinds w))"
    proof (cases "NewPdu ver GetResponse")
      case None
      have "append_all vs None \<noteq> Ok (Some q)" for vs by (cases vs) auto
      with None q show ?thesis by (simp add: walk_result_def NewPduWithVarBinds_def)
    next
      case (Some p)
      from pdu [OF this] q show ?thesis by auto
    qed
  }
  show "ver = V1 \<or> ver = V2c \<or> ver = V3 \<Longrightarrow> \<exists>q. walk_result ver w = Ok (Some q) \<and> ErrorStatus q = NoError"
    using pdu [of "if ver = V3 then ScopedPdu [] [] (zero_pduV1\<lparr>pduType := GetResponse\<rparr>) else PduV1 (zero_pduV1\<lparr>pduType := GetResponse\<rparr>)"]
    by (auto simp: NewPdu_def Let_def version_defs)
qed

section \<open>What a walk returns\<close>

text \<open>Answers whose bindings come from \<open>A\<close>.\<close>

definition answers_within :: "requester \<Rightarrow> varbind set \<Rightarrow> bool" where
  "answers_within request A \<longleftrightarrow>
     (\<forall>s oids n m. \<exists>s' r. request s oids n m = Some (s', r) \<and> (\<forall>p. r = Ok (Some p) \<longrightarrow> set (VarBinds p) \<subseteq> A))"

definition walk_inv :: "varbind set \<Rightarrow> oid option set \<Rightarrow> int \<Rightarrow> walk \<Rightarrow> bool" where
  "walk_inv A bases n w \<longleftrightarrow>
     (\<forall>v \<in> set (w_resBinds w). v \<in> A \<and> \<not> is_exception (vb_Variable v) \<and>
        (\<exists>b x. Some b \<in> bases \<and> vb_Oid v = Some x \<and> prefix b x)) \<and>
     fst ` set (w_pairs w) \<subseteq> bases \<and>
     (w_nonRepeaters w = 0 \<and> int (length (w_nonRepBinds w)) = n \<or>
      0 < n \<and> w_nonRepeaters w = n \<and> w_nonRepBinds w = [] \<and> w_pairs w \<noteq> [])"

lemma split_counts:
  "split_non_repeaters vbs w = Ok (vbs', w') \<Longrightarrow> w_nonRepeaters w > 0 \<Longrightarrow>
     w_nonRepeaters w' = 0 \<and> length (w_nonRepBinds w') = length (w_nonRepBinds w) + nat (w_nonRepeaters w)"
  by (auto simp: split_non_repeaters_def Let_def slice_def outcome_simps split: if_splits)

lemma walk_inv_round:
  assumes w: "walk_inv A bases n w" and r: "walk_round m vbs w = Ok w'" and sub: "set vbs \<subseteq> A" and none: "None \<notin> vb_Oid ` A"
  shows "walk_inv A bases n w'"
proof -
  have none': "None \<notin> vb_Oid ` set vbs" using sub none by auto
  obtain new where new: "w_resBinds w' = w_resBinds w @ new"
    "found (fst ` set (w_pairs w)) vbs (w_resBinds w) (w_pairs w' \<noteq> []) new"
    "fst ` set (w_pairs w') \<subseteq> fst ` set (w_pairs w)"
    "w_nonRepeaters w = 0 \<longrightarrow> w_nonRepeaters w' = 0 \<and> w_nonRepBinds w' = w_nonRepBinds w"
    by (rule walk_round_grows [OF r none'])
  obtain vbs1 w1 where s: "split_non_repeaters vbs w = Ok (vbs1, w1)"
    using r by (auto simp: walk_round_def and_then_Ok_iff)
  have same: "w_nonRepeaters w' = w_nonRepeaters w1 \<and> w_nonRepBinds w' = w_nonRepBinds w1"
    using r s by (auto simp: walk_round_def Let_def split: prod.splits)
  have count: "w_nonRepeaters w' = 0 \<and> int (length (w_nonRepBinds w')) = n"
    using w new(4) same split_counts [OF s] by (auto simp: walk_inv_def)
  have "v \<in> A \<and> \<not> is_exception (vb_Variable v) \<and> (\<exists>b x. Some b \<in> bases \<and> vb_Oid v = Some x \<and> prefix b x)" if "v \<in> set new" for v
    using new(2) that sub w unfolding found_def walk_inv_def by fast
  moreover have "fst ` set (w_pairs w') \<subseteq> bases" using new(3) w by (auto simp: walk_inv_def)
  ultimately show ?thesis using w new(1) count by (simp add: walk_inv_def ball_Un)
qed


lemma round_of_answer:
  assumes w: "walk_inv A bases n w" and r: "\<forall>p. r = Ok (Some p) \<longrightarrow> set (VarBinds p) \<subseteq> A" and none: "None \<notin> vb_Oid ` A"
    and Q: "\<And>p. ErrorStatus p \<noteq> NoError \<Longrightarrow> Q (Ok (Some p))" "\<And>e. Q (Err e)" "\<And>x. Q (Panic x)"
  shows "round_ok m (oids_of_set A) (walk_inv A bases n) Q w r"
proof (cases "\<exists>p. r = Ok (Some p) \<and> \<not> stops p w")
  case True
  then obtain p where p: "r = Ok (Some p)" "\<not> stops p w" by blast
  with r have sub: "set (VarBinds p) \<subseteq> A" by simp
  then have "oids_of (VarBinds p) \<subseteq> oids_of_set A" by (fastforce simp: oids_of_def oids_of_set_def)
  moreover have "None \<notin> vb_Oid ` set (VarBinds p)" using sub none by auto
  ultimately show ?thesis
    using p Q walk_inv_round [OF w _ sub none] by (simp add: round_ok_def split: outcome.split)
next
  case False
  then show ?thesis using Q by (auto simp: round_ok_def stops_def split: outcome.split option.split)
qed

lemma start_walk_inv:
  assumes "0 \<le> n" "n \<le> int (length oids)"
  shows "walk_inv A (set oids) n (start_walk oids n)"
proof -
  have "set (Oids_UniqBase (Oids_Sort vs)) \<subseteq> set vs" for vs
    using uniq_from_subset [of under_oid None "Oids_Sort vs"] by (simp add: Oids_UniqBase_def uniq_def)
  then have "set (take (nat n) oids @ Oids_UniqBase (Oids_Sort (drop (nat n) oids))) \<subseteq> set oids"
    by (force dest: in_set_takeD in_set_dropD)
  then show ?thesis using assms by (cases oids) (auto simp: walk_inv_def start_walk_def)
qed

lemma walk_result_sorted:
  assumes w: "walk_inv A bases n w" "w_pairs w = []" and none: "None \<notin> vb_Oid ` A" and p: "walk_result ver w = Ok (Some p)"
  shows "PduType p = GetResponse"
    "\<exists>xs. map vb_Oid (drop (nat n) (VarBinds p)) = map Some xs \<and> sorted_wrt (<) xs \<and>
       (\<forall>x \<in> set xs. \<exists>b. Some b \<in> bases \<and> prefix b x)"
    "v \<in> set (drop (nat n) (VarBinds p)) \<Longrightarrow> v \<in> A \<and> \<not> is_exception (vb_Variable v)"
proof -
  let ?vs = "VarBinds_Uniq (VarBinds_Sort (w_resBinds w))"
  let ?xs = "sorted_list_of_set ((\<lambda>v. the (vb_Oid v)) ` set (w_resBinds w))"
  have inv: "\<forall>v \<in> set (w_resBinds w). v \<in> A \<and> \<not> is_exception (vb_Variable v) \<and>
      (\<exists>b x. Some b \<in> bases \<and> vb_Oid v = Some x \<and> prefix b x)"
    using w by (simp add: walk_inv_def)
  have "nat n = length (w_nonRepBinds w)" using w by (auto simp: walk_inv_def)
  then have d: "drop (nat n) (VarBinds p) = ?vs" using walk_result_Ok(1) [OF p] by simp
  have rb: "None \<notin> vb_Oid ` set (w_resBinds w)" using inv by fastforce
  note s = Sort_Uniq_varbinds [OF rb]
  show "PduType p = GetResponse" using walk_result_Ok(1) [OF p] by simp
  have "\<exists>b. Some b \<in> bases \<and> prefix b x" if "x \<in> set ?xs" for x
    using that inv by fastforce
  then show "\<exists>xs. map vb_Oid (drop (nat n) (VarBinds p)) = map Some xs \<and> sorted_wrt (<) xs \<and>
      (\<forall>x \<in> set xs. \<exists>b. Some b \<in> bases \<and> prefix b x)"
    unfolding d using s(1) by (intro exI [of _ ?xs]) simp
  show "v \<in> set (drop (nat n) (VarBinds p)) \<Longrightarrow> v \<in> A \<and> \<not> is_exception (vb_Variable v)"
    unfolding d using s(2) inv by auto
qed


text \<open>An agent that always gives the same answer.\<close>

definition demo_answer_vbs :: "varbind list" where
  "demo_answer_vbs = [\<lparr>vb_Oid = Some [1, 3, 6, 1, 2, 1], vb_Variable = Some (Integer 5)\<rparr>]"

definition demo_requester :: requester where
  "demo_requester s oids n m =
     Some (s, Ok (Some (PduV1 \<lparr>pduType = GetResponse, requestId = 1, errorStatus = 0, errorIndex = 0, varBinds = demo_answer_vbs\<rparr>)))"


end
