(* ===== verification/BulkWalkAgent.thy ===== *)
theory BulkWalkAgent
  imports BulkWalk
begin

text \<open>
  \<open>GetBulkWalk\<close> against an agent that answers \<open>GetBulk\<close> the way the protocol asks (RFC 3416, 4.2.3), for a fixed
  management information base: which bindings the walk returns, and the one it loses.
\<close>

section \<open>The agent\<close>

type_synonym mib = "(oid \<times> variable) list"

definition binding :: "oid \<Rightarrow> variable \<Rightarrow> varbind" where
  "binding e x = \<lparr>vb_Oid = Some e, vb_Variable = Some x\<rparr>"

definition mib_ok :: "mib \<Rightarrow> bool" where
  "mib_ok mib \<longleftrightarrow> sorted_wrt (<) (map fst mib) \<and> (\<forall>(e, x) \<in> set mib. \<not> is_exception (Some x))"

definition successors :: "mib \<Rightarrow> oid \<Rightarrow> mib" where
  "successors mib r = filter (\<lambda>(e, x). r < e) mib"

text \<open>
  The repetitions for one identifier: its successors in order; past the end of the view, the exception, with the
  last identifier reached.
\<close>

definition repetition :: "mib \<Rightarrow> oid \<Rightarrow> nat \<Rightarrow> varbind" where
  "repetition mib r k =
     (let ss = successors mib r in
      if k < length ss then binding (fst (ss ! k)) (snd (ss ! k)) else binding (last (r # map fst ss)) EndOfMibView)"

definition bulk_rows :: "mib \<Rightarrow> oid list \<Rightarrow> nat \<Rightarrow> varbind list" where
  "bulk_rows mib rs m = concat (map (\<lambda>k. map (\<lambda>r. repetition mib r k) rs) [0..<m])"

text \<open>The agent may cut a response short, but gives a complete first repetition.\<close>

definition bulk_agent :: "requester \<Rightarrow> mib \<Rightarrow> nat \<Rightarrow> bool" where
  "bulk_agent request mib m \<longleftrightarrow>
     (\<forall>s rs. rs \<noteq> [] \<longrightarrow>
       (\<exists>s' p n. request s (map Some rs) 0 (int m) = Some (s', Ok (Some p)) \<and>
          a_Version (s_args s') = a_Version (s_args s) \<and> ErrorStatus p = NoError \<and>
          length rs \<le> n \<and> VarBinds p = take n (bulk_rows mib rs m)))"

lemma binding_simps [simp]:
  "vb_Oid (binding e x) = Some e" "vb_Variable (binding e x) = Some x" "binding e x = binding e' x' \<longleftrightarrow> e = e' \<and> x = x'"
  by (simp_all add: binding_def)

section \<open>What an answer holds\<close>

lemma nth_bulk_rows:
  "k < m \<Longrightarrow> i < length rs \<Longrightarrow> k * length rs + i < length (bulk_rows mib rs m) \<and>
     bulk_rows mib rs m ! (k * length rs + i) = repetition mib (rs ! i) k"
proof (induction m)
  case (Suc m)
  have len: "length (bulk_rows mib rs m') = m' * length rs" for m'
    by (induction m') (simp_all add: bulk_rows_def)
  have rows: "bulk_rows mib rs (Suc m) = bulk_rows mib rs m @ map (\<lambda>r. repetition mib r m) rs"
    by (simp add: bulk_rows_def)
  show ?case
  proof (cases "k < m")
    case True
    with Suc show ?thesis by (simp add: rows nth_append)
  next
    case False
    with Suc.prems have "k = m" by simp
    with Suc.prems show ?thesis by (simp add: rows nth_append len)
  qed
qed simp

lemma length_bulk_rows: "length (bulk_rows mib rs m) = length rs * m"
  by (induction m) (simp_all add: bulk_rows_def)

lemma in_answer:
  assumes "V = set (take n (bulk_rows mib rs m))" "length rs \<le> n" "0 < m"
  shows "v \<in> V \<Longrightarrow> \<exists>r \<in> set rs. \<exists>k < m. v = repetition mib r k \<and> (\<forall>j \<le> k. repetition mib r j \<in> V)"
    "r \<in> set rs \<Longrightarrow> repetition mib r 0 \<in> V"
    "r \<in> set rs \<Longrightarrow> length (take n (bulk_rows mib rs m)) = length rs * m \<Longrightarrow> k < m \<Longrightarrow> repetition mib r k \<in> V"
proof -
  let ?L = "length rs"
  have mem: "repetition mib (rs ! i) k \<in> V" if "k < m" "i < ?L" "k * ?L + i < n" for k i
    using nth_bulk_rows [OF that(1,2), of mib] that(3) unfolding assms(1)
    by (auto simp: in_set_conv_nth intro!: exI [of _ "k * ?L + i"])
  {
    assume "v \<in> V"
    then obtain p where p: "p < n" "p < ?L * m" "v = bulk_rows mib rs m ! p"
      by (auto simp: assms(1) in_set_conv_nth length_bulk_rows)
    then have L: "0 < ?L" by (cases ?L) auto
    let ?k = "p div ?L" and ?i = "p mod ?L"
    have k: "?k < m" "?i < ?L" "?k * ?L + ?i = p" using p L by (simp_all add: less_mult_imp_div_less mult.commute)
    then have v: "v = repetition mib (rs ! ?i) ?k" using nth_bulk_rows [OF k(1,2), of mib] p(3) by simp
    have "repetition mib (rs ! ?i) j \<in> V" if "j \<le> ?k" for j
    proof (rule mem)
      have "j * ?L \<le> ?k * ?L" using that by simp
      then show "j * ?L + ?i < n" using k(3) p(1) by linarith
    qed (use that k in auto)
    then show "\<exists>r \<in> set rs. \<exists>k < m. v = repetition mib r k \<and> (\<forall>j \<le> k. repetition mib r j \<in> V)"
      using v k by (intro bexI [of _ "rs ! ?i"] exI [of _ ?k]) auto
  }
  show "repetition mib r 0 \<in> V" if "r \<in> set rs"
    using that assms(2,3) mem [of 0] by (auto simp: in_set_conv_nth)
  show "repetition mib r k \<in> V" if "r \<in> set rs" "length (take n (bulk_rows mib rs m)) = ?L * m" "k < m"
  proof -
    from that(1) obtain i where i: "i < ?L" "r = rs ! i" by (auto simp: in_set_conv_nth)
    have "(k + 1) * ?L \<le> m * ?L" using that(3) by (intro mult_right_mono) simp_all
    then have "k * ?L + i < n" using i that(2) by (simp add: length_bulk_rows algebra_simps)
    with mem i that(3) show ?thesis by simp
  qed
qed

text \<open>The successors of an identifier, in order and without gaps.\<close>

lemma successors_iff: "(e, x) \<in> set (successors mib r) \<longleftrightarrow> (e, x) \<in> set mib \<and> r < e"
  by (auto simp: successors_def)

lemma successors_sorted: "mib_ok mib \<Longrightarrow> sorted_wrt (<) (map fst (successors mib r))"
  by (auto simp: mib_ok_def successors_def sorted_wrt_map intro: sorted_wrt_filter)

lemma successors_below:
  assumes "mib_ok mib" "k < length (successors mib r)" "(e, x) \<in> set mib" "r < e" "e \<le> fst (successors mib r ! k)"
  obtains j where "j \<le> k" "successors mib r ! j = (e, x)"
proof -
  let ?s = "successors mib r"
  obtain j where j: "j < length ?s" "?s ! j = (e, x)"
    using assms(3,4) successors_iff by (metis in_set_conv_nth)
  have "j \<le> k"
  proof (rule ccontr)
    assume "\<not> j \<le> k"
    then have "map fst ?s ! k < map fst ?s ! j"
      using sorted_wrt_nth_less [OF successors_sorted [OF assms(1), of r], of k j] j(1) by simp
    then show False using j assms(2,5) by simp
  qed
  with j show ?thesis by (intro that)
qed

text \<open>
  What is used of an answer \<open>V\<close> to the identifiers \<open>R\<close>: every binding is an entry that some identifier reaches
  without a gap, or says that an identifier has no more; every identifier gets its first successor; and a full
  answer misses a successor only when it holds \<open>m\<close> smaller ones.
\<close>

definition gapless :: "mib \<Rightarrow> varbind set \<Rightarrow> oid \<Rightarrow> oid \<Rightarrow> bool" where
  "gapless mib V r e \<longleftrightarrow> (\<forall>e' x'. (e', x') \<in> set mib \<and> r < e' \<and> e' \<le> e \<longrightarrow> binding e' x' \<in> V)"

definition answers :: "mib \<Rightarrow> oid set \<Rightarrow> nat \<Rightarrow> bool \<Rightarrow> varbind set \<Rightarrow> bool" where
  "answers mib R m full V \<longleftrightarrow>
     (\<forall>v \<in> V. (\<exists>r e x. r \<in> R \<and> v = binding e x \<and> (e, x) \<in> set mib \<and> r < e \<and> gapless mib V r e) \<or>
        (\<exists>r e. r \<in> R \<and> v = binding e EndOfMibView \<and> r \<le> e \<and> (e = r \<or> 2 \<le> m \<and> e \<in> fst ` set mib) \<and>
           gapless mib V r e \<and> (\<forall>e' \<in> fst ` set mib. e' \<le> e))) \<and>
     (\<forall>r \<in> R. \<forall>(e, x) \<in> set mib. r < e \<longrightarrow> (\<exists>(s, y) \<in> set mib. r < s \<and> s \<le> e \<and> binding s y \<in> V)) \<and>
     (full \<longrightarrow> (\<forall>r \<in> R. \<forall>(e, x) \<in> set mib. r < e \<and> binding e x \<notin> V \<longrightarrow>
        (\<exists>S. card S = m \<and> (\<forall>e' \<in> S. r < e' \<and> e' < e \<and> (\<exists>x'. binding e' x' \<in> V)))))"

lemma repetition_entry: "k < length (successors mib r) \<Longrightarrow>
    repetition mib r k = binding (fst (successors mib r ! k)) (snd (successors mib r ! k))"
  by (simp add: repetition_def Let_def)

lemma gapless_repetition:
  assumes "mib_ok mib" "\<forall>j \<le> k. repetition mib r j \<in> V" "k < length (successors mib r)"
  shows "gapless mib V r (fst (successors mib r ! k))"
  unfolding gapless_def
proof (intro allI impI, elim conjE)
  fix e x assume "(e, x) \<in> set mib" "r < e" "e \<le> fst (successors mib r ! k)"
  then obtain j where j: "j \<le> k" "successors mib r ! j = (e, x)" by (rule successors_below [OF assms(1,3)])
  with assms(2,3) repetition_entry [of j mib r] show "binding e x \<in> V" by (metis fst_conv le_less_trans snd_conv)
qed

lemma repetition_end:
  assumes "mib_ok mib" "\<forall>j \<le> k. repetition mib r j \<in> V" "k \<ge> length (successors mib r)" "k < m"
  obtains e where "repetition mib r k = binding e EndOfMibView" "r \<le> e" "e = r \<or> 2 \<le> m \<and> e \<in> fst ` set mib"
    "gapless mib V r e" "\<forall>e' \<in> fst ` set mib. e' \<le> e"
proof -
  let ?s = "successors mib r"
  let ?e = "last (r # map fst ?s)"
  have rep: "repetition mib r k = binding ?e EndOfMibView" using assms(3) by (simp add: repetition_def)
  show thesis
  proof (cases "?s = []")
    case True
    have "e' \<le> r" if "e' \<in> fst ` set mib" for e'
      using that True successors_iff [of e' _ mib r] by (force simp: not_less)
    with True rep show ?thesis by (intro that [of r]) (force simp: gapless_def)+
  next
    case False
    define n where "n = length ?s - 1"
    have n: "n < length ?s" "n \<le> k" using False assms(3) by (simp_all add: n_def)
    have e: "?e = fst (?s ! n)" using False by (simp add: n_def last_map last_conv_nth)
    have in_s: "?s ! n \<in> set ?s" using n by simp
    then have r: "r < ?e" "?e \<in> fst ` set mib" unfolding e by (auto simp: successors_def)
    have m: "2 \<le> m" using False assms(3,4) by (cases ?s) auto
    have g: "gapless mib V r ?e" unfolding e using n assms(2) by (intro gapless_repetition [OF assms(1)]) auto
    have "e' \<le> ?e" if "(e', x') \<in> set mib" for e' x'
    proof (cases "r < e'")
      case True
      with that successors_iff obtain j where j: "j < length ?s" "?s ! j = (e', x')" by (metis in_set_conv_nth)
      then have "map fst ?s ! j \<le> map fst ?s ! n"
        using sorted_wrt_nth_less [OF successors_sorted [OF assms(1), of r], of j n]
        by (cases "j = n") (auto simp: n_def intro: less_imp_le)
      then show ?thesis using j n e by simp
    qed (use r in auto)
    with rep r m g show ?thesis by (intro that [of ?e]) auto
  qed
qed

lemma answers_agent:
  assumes "mib_ok mib" "length rs \<le> n" "0 < m" "vs = take n (bulk_rows mib rs m)"
  shows "answers mib (set rs) m (length vs = length rs * m) (set vs)"
proof -
  note ans = in_answer [OF arg_cong [OF assms(4), of set] assms(2,3)]
  have cases_v: "(\<exists>r e x. r \<in> set rs \<and> v = binding e x \<and> (e, x) \<in> set mib \<and> r < e \<and> gapless mib (set vs) r e) \<or>
        (\<exists>r e. r \<in> set rs \<and> v = binding e EndOfMibView \<and> r \<le> e \<and> (e = r \<or> 2 \<le> m \<and> e \<in> fst ` set mib) \<and>
           gapless mib (set vs) r e \<and> (\<forall>e' \<in> fst ` set mib. e' \<le> e))" if v: "v \<in> set vs" for v
  proof -
    obtain r k where rk: "r \<in> set rs" "k < m" "v = repetition mib r k" "\<forall>j \<le> k. repetition mib r j \<in> set vs"
      using ans(1) [OF v] by blast
    show ?thesis
    proof (cases "k < length (successors mib r)")
      case True
      then have "successors mib r ! k \<in> set (successors mib r)" by simp
      then have "(fst (successors mib r ! k), snd (successors mib r ! k)) \<in> set mib \<and> r < fst (successors mib r ! k)"
        by (auto simp: successors_def)
      with rk gapless_repetition [OF assms(1) rk(4) True] repetition_entry [OF True] show ?thesis by blast
    next
      case False
      then have "k \<ge> length (successors mib r)" by simp
      from repetition_end [OF assms(1) rk(4) this rk(2)] rk(1,3) show ?thesis by metis
    qed
  qed
  have first: "\<exists>(s, y) \<in> set mib. r < s \<and> s \<le> e \<and> binding s y \<in> set vs" if r: "r \<in> set rs" and e: "(e, x) \<in> set mib" "r < e" for r e x
  proof -
    let ?s = "successors mib r"
    obtain j where j: "j < length ?s" "?s ! j = (e, x)" using e successors_iff by (metis in_set_conv_nth)
    then have 0: "0 < length ?s" by linarith
    have "map fst ?s ! 0 \<le> map fst ?s ! j"
      using sorted_wrt_nth_less [OF successors_sorted [OF assms(1), of r], of 0 j] j by (cases "j = 0") (auto intro: less_imp_le)
    then have "fst (?s ! 0) \<le> e" using j 0 by simp
    moreover have "?s ! 0 \<in> set ?s" using 0 by simp
    ultimately show ?thesis
      using ans(2) [OF r] repetition_entry [OF 0] by (intro bexI [of _ "?s ! 0"]) (auto simp: successors_def)
  qed
  have full: "\<exists>S. card S = m \<and> (\<forall>e' \<in> S. r < e' \<and> e' < e \<and> (\<exists>x'. binding e' x' \<in> set vs))"
    if len: "length vs = length rs * m" and r: "r \<in> set rs" and e: "(e, x) \<in> set mib" "r < e" and miss: "binding e x \<notin> set vs" for r e x
  proof -
    let ?s = "successors mib r"
    obtain j where j: "j < length ?s" "?s ! j = (e, x)" using e successors_iff by (metis in_set_conv_nth)
    have all: "repetition mib r k \<in> set vs" if "k < m" for k
      using ans(3) [OF r] that len assms(4) by simp
    have "m \<le> j"
    proof (rule ccontr)
      assume "\<not> m \<le> j"
      with all [of j] repetition_entry [OF j(1)] j(2) miss show False by simp
    qed
    let ?S = "set (take m (map fst ?s))"
    note srt = successors_sorted [OF assms(1), of r]
    have "distinct (map fst ?s)" using srt by (simp add: strict_sorted_iff)
    then have "card ?S = m" using \<open>m \<le> j\<close> j(1) by (simp add: distinct_card)
    moreover have "r < e' \<and> e' < e \<and> (\<exists>x'. binding e' x' \<in> set vs)" if e': "e' \<in> ?S" for e'
    proof -
      obtain k where k: "k < m" "k < length ?s" "e' = fst (?s ! k)" using e' by (auto simp: in_set_conv_nth)
      have "map fst ?s ! k < map fst ?s ! j" using sorted_wrt_nth_less [OF srt, of k j] k \<open>m \<le> j\<close> j(1) by simp
      moreover have "?s ! k \<in> set ?s" using k by simp
      ultimately show ?thesis using all [OF k(1)] repetition_entry [OF k(2)] k j by (auto simp: successors_def)
    qed
    ultimately show ?thesis by blast
  qed
  have "\<forall>r \<in> set rs. \<forall>(e, x) \<in> set mib. r < e \<longrightarrow> (\<exists>(s, y) \<in> set mib. r < s \<and> s \<le> e \<and> binding s y \<in> set vs)"
    using first by (intro ballI case_prodI2 impI) simp
  moreover have "length vs = length rs * m \<longrightarrow> (\<forall>r \<in> set rs. \<forall>(e, x) \<in> set mib. r < e \<and> binding e x \<notin> set vs \<longrightarrow>
      (\<exists>S. card S = m \<and> (\<forall>e' \<in> S. r < e' \<and> e' < e \<and> (\<exists>x'. binding e' x' \<in> set vs))))"
    using full by (intro ballI case_prodI2 impI) simp
  ultimately show ?thesis unfolding answers_def using cases_v by (intro conjI ballI) simp_all
qed

section \<open>A base in a round\<close>

text \<open>
  A base with its identifier to ask for is in order when everything below it up to that identifier has been
  found, or when the base is complete already. With more than one repetition the last entry of the whole view
  is not among what a complete base holds.
\<close>

definition complete :: "mib \<Rightarrow> nat \<Rightarrow> oid \<Rightarrow> varbind list \<Rightarrow> bool" where
  "complete mib m b rb \<longleftrightarrow>
     (\<forall>(e, x) \<in> set mib. strict_prefix b e \<and> (m = 1 \<or> (\<exists>e' \<in> fst ` set mib. e < e')) \<longrightarrow> binding e x \<in> set rb)"

definition reached :: "mib \<Rightarrow> oid \<Rightarrow> oid \<Rightarrow> varbind list \<Rightarrow> bool" where
  "reached mib b r rb \<longleftrightarrow>
     (\<forall>(e, x) \<in> set mib. strict_prefix b e \<and> e \<le> r \<longrightarrow> binding e x \<in> set rb) \<and>
     (\<forall>e \<in> oids_of rb. prefix b e \<longrightarrow> e \<le> r)"

definition in_order :: "mib \<Rightarrow> nat \<Rightarrow> oid \<Rightarrow> oid \<Rightarrow> varbind list \<Rightarrow> bool" where
  "in_order mib m b r rb \<longleftrightarrow> prefix b r \<and> (complete mib m b rb \<or> reached mib b r rb)"

lemma complete_mono: "complete mib m b rb \<Longrightarrow> set rb \<subseteq> set rb' \<Longrightarrow> complete mib m b rb'"
  by (fastforce simp: complete_def)

text \<open>Bases that are not below each other, each with an identifier below it.\<close>

definition independent :: "(oid \<times> oid) list \<Rightarrow> bool" where
  "independent ps \<longleftrightarrow> sorted_wrt (\<lambda>b b'. \<not> prefix b b' \<and> \<not> prefix b' b) (map fst ps) \<and> (\<forall>(b, r) \<in> set ps. prefix b r)"

lemma independent_same:
  assumes "independent ps" "(b, r) \<in> set ps" "(b', r') \<in> set ps" "prefix b r'"
  shows "b = b' \<and> r = r'"
proof -
  have "prefix b' r'" using assms(1,3) by (auto simp: independent_def)
  with assms(4) have "prefix b b' \<or> prefix b' b" using prefix_same_cases by blast
  moreover have "sorted_wrt (\<lambda>p q. \<not> prefix (fst p) (fst q) \<and> \<not> prefix (fst q) (fst p)) ps"
    using assms(1) by (simp add: independent_def sorted_wrt_map)
  ultimately show ?thesis using assms(2,3)
    by (auto simp: in_set_conv_nth sorted_wrt_iff_nth_less) (metis fst_conv linorder_neqE_nat snd_conv)+
qed

text \<open>What a base sees of a sorted answer without repetitions.\<close>

definition prepared :: "varbind set \<Rightarrow> varbind list \<Rightarrow> bool" where
  "prepared V vs \<longleftrightarrow> set vs \<subseteq> V \<and> (\<exists>xs. map vb_Oid vs = map Some xs \<and> sorted_wrt (<) xs \<and> set xs = oids_of_set V)"

lemma prepared_matches:
  assumes "prepared V vs" "M = MatchBaseOids vs (Some b)"
  shows "\<exists>xs. map vb_Oid M = map Some xs \<and> sorted_wrt (<) xs \<and> set xs = {x \<in> oids_of_set V. prefix b x}" "set M \<subseteq> V"
proof -
  obtain xs where xs: "map vb_Oid vs = map Some xs" "sorted_wrt (<) xs" "set xs = oids_of_set V" "set vs \<subseteq> V"
    using assms(1) by (auto simp: prepared_def)
  have "map vb_Oid (MatchBaseOids vs (Some b)) = map Some (filter (prefix b) xs)" if "map vb_Oid vs = map Some xs" for vs xs
    using that by (induction vs arbitrary: xs) (auto simp: MatchBaseOids_def Contains_prefix Cons_eq_map_conv)
  with xs show "\<exists>xs. map vb_Oid M = map Some xs \<and> sorted_wrt (<) xs \<and> set xs = {x \<in> oids_of_set V. prefix b x}"
    unfolding assms(2) by (intro exI [of _ "filter (prefix b) xs"]) (auto intro: sorted_wrt_filter)
  show "set M \<subseteq> V" unfolding assms(2) using xs(4) MatchBaseOids_subset(1) by blast
qed

lemma prepared_answer:
  assumes "None \<notin> vb_Oid ` set vs"
  shows "prepared (set vs) (VarBinds_Uniq (VarBinds_Sort vs))"
proof -
  have "the (vb_Oid v) = x \<longleftrightarrow> vb_Oid v = Some x" if "v \<in> set vs" for v x
  proof -
    have "vb_Oid v \<noteq> None" using assms that by (metis imageI)
    then show ?thesis by (metis option.sel option.exhaust_sel)
  qed
  then have eq: "(\<lambda>v. the (vb_Oid v)) ` set vs = oids_of_set (set vs)"
    by (simp add: oids_of_set_def image_def eq_commute [of _ "the _"] cong: bex_cong)
  have fin: "finite (oids_of_set (set vs))" unfolding eq [symmetric] by simp
  note su = Sort_Uniq_varbinds [OF assms, unfolded eq]
  show ?thesis
    unfolding prepared_def using su fin
    by (intro conjI exI [of _ "sorted_list_of_set (oids_of_set (set vs))"]) simp_all
qed

text \<open>The facts about one base \<open>b\<close> with the identifier \<open>r\<close>, for an answer \<open>V\<close>.\<close>

lemma mib_value: "mib_ok mib \<Longrightarrow> (e, x) \<in> set mib \<Longrightarrow> (e, x') \<in> set mib \<Longrightarrow> x = x'"
  by (rule eq_key_imp_eq_value) (auto simp: mib_ok_def strict_sorted_iff)

lemma answers_binding:
  assumes "answers mib R m full V" "v \<in> V"
  obtains (entry) r e x where "r \<in> R" "v = binding e x" "(e, x) \<in> set mib" "r \<le> e" "gapless mib V r e"
  | (ending) r e where "r \<in> R" "v = binding e EndOfMibView" "r \<le> e" "e = r \<or> 2 \<le> m \<and> e \<in> fst ` set mib" "gapless mib V r e"
      "\<forall>e' \<in> fst ` set mib. e' \<le> e"
proof -
  have "\<forall>v \<in> V. (\<exists>r e x. r \<in> R \<and> v = binding e x \<and> (e, x) \<in> set mib \<and> r < e \<and> gapless mib V r e) \<or>
      (\<exists>r e. r \<in> R \<and> v = binding e EndOfMibView \<and> r \<le> e \<and> (e = r \<or> 2 \<le> m \<and> e \<in> fst ` set mib) \<and>
         gapless mib V r e \<and> (\<forall>e' \<in> fst ` set mib. e' \<le> e))"
    using assms(1) unfolding answers_def by (elim conjE)
  from bspec [OF this assms(2)] show thesis
  proof (elim disjE exE conjE)
    fix r e x assume "r \<in> R" "v = binding e x" "(e, x) \<in> set mib" "r < e" "gapless mib V r e"
    then show thesis by (intro entry) auto
  qed (rule ending; simp)+
qed

lemma first_under:
  assumes ans: "answers mib R m full V" and r: "r \<in> R" "prefix b r" and e: "(e, x) \<in> set mib" "prefix b e" "r < e"
  obtains s where "s \<in> oids_of_set V" "prefix b s" "r < s" "s \<le> e"
proof -
  have "\<forall>r \<in> R. \<forall>(e, x) \<in> set mib. r < e \<longrightarrow> (\<exists>(s, y) \<in> set mib. r < s \<and> s \<le> e \<and> binding s y \<in> V)"
    using ans unfolding answers_def by (elim conjE)
  then obtain s y where s: "r < s" "s \<le> e" "binding s y \<in> V" using r(1) e by fast
  have "b \<le> s" using prefix_le [OF r(2)] s(1) by simp
  from prefix_convex [OF this s(2) e(2)] s show thesis
    by (intro that [of s]) (auto simp: oids_of_set_def intro!: bexI [of _ "binding s y"])
qed

lemma answered_below:
  assumes ans: "answers mib (snd ` set ps) m full V" and ind: "independent ps" "(b, r) \<in> set ps"
    and last: "last_oid \<in> oids_of_set V" "prefix b last_oid"
    and e: "(e, x) \<in> set mib" "prefix b e" "r < e" "e \<le> last_oid"
  shows "binding e x \<in> V"
proof -
  obtain v where v: "v \<in> V" "vb_Oid v = Some last_oid" using last(1) by (auto simp: oids_of_set_def)
  obtain r' where r': "r' \<in> snd ` set ps" "r' \<le> last_oid" "gapless mib V r' last_oid"
    by (rule answers_binding [OF ans v(1)]) (use v(2) in auto)
  show ?thesis
  proof (cases "r' < e")
    case True
    then show ?thesis using r'(3) e by (auto simp: gapless_def)
  next
    case False
    then have "b \<le> r'" using prefix_le [OF e(2)] by simp
    from prefix_convex [OF this r'(2) last(2)] r'(1) have "r' = r" using independent_same [OF ind(1,2)] by fastforce
    with False e(3) show ?thesis by simp
  qed
qed

lemma not_ending:
  assumes ans: "answers mib (snd ` set ps) m full V" and ind: "independent ps" "(b, r) \<in> set ps" and mib: "mib_ok mib"
    and e: "prefix b e" "r < e" "m = 1 \<or> (\<exists>e' \<in> fst ` set mib. e < e')"
  shows "binding e EndOfMibView \<notin> V"
proof
  assume "binding e EndOfMibView \<in> V"
  from ans this show False
  proof (cases rule: answers_binding)
    case (entry r' e' x)
    with mib show False by (auto simp: mib_ok_def is_exception_def)
  next
    case (ending r' e')
    then have "m = 1" "e = r'" using e(3) by auto
    then show False using ending(1) independent_same [OF ind(1,2)] e(1,2) by fastforce
  qed
qed

lemma kept:
  assumes ans: "answers mib R m full V" and mib: "mib_ok mib" and prep: "prepared V vs"
    and e: "(e, x) \<in> set mib" "binding e x \<in> V" "prefix b e" and ne: "binding e EndOfMibView \<notin> set (MatchBaseOids vs (Some b))"
  shows "binding e x \<in> set (filter (\<lambda>v. \<not> is_exception (vb_Variable v)) (MatchBaseOids vs (Some b)))"
proof -
  let ?M = "MatchBaseOids vs (Some b)"
  obtain xs where xs: "map vb_Oid ?M = map Some xs" "set xs = {x \<in> oids_of_set V. prefix b x}" and sub: "set ?M \<subseteq> V"
    using prepared_matches [OF prep refl, of b] by blast
  have "e \<in> set xs" unfolding xs(2) using e(2,3) by (auto simp: oids_of_set_def intro!: bexI [of _ "binding e x"])
  then have "Some e \<in> set (map vb_Oid ?M)" unfolding xs(1) by simp
  then obtain v where v: "v \<in> set ?M" "vb_Oid v = Some e" by auto
  then have "v \<in> V" using sub by auto
  from ans this have "v = binding e x"
  proof (cases rule: answers_binding)
    case (entry r e' x')
    with v(2) mib_value [OF mib e(1)] show ?thesis by auto
  next
    case (ending r e')
    with v ne show ?thesis by auto
  qed
  with v(1) e(1) mib show ?thesis by (auto simp: mib_ok_def)
qed

lemma full_answer:
  assumes ans: "answers mib R m full V" and full and r: "r \<in> R" and prep: "prepared V vs" and b: "prefix b r"
    and e: "(e, x) \<in> set mib" "prefix b e" "r < e" and less: "length (MatchBaseOids vs (Some b)) < m"
  shows "binding e x \<in> V"
proof (rule ccontr)
  assume "binding e x \<notin> V"
  moreover have "\<forall>r \<in> R. \<forall>(e, x) \<in> set mib. r < e \<and> binding e x \<notin> V \<longrightarrow>
      (\<exists>S. card S = m \<and> (\<forall>e' \<in> S. r < e' \<and> e' < e \<and> (\<exists>x'. binding e' x' \<in> V)))"
    using ans \<open>full\<close> unfolding answers_def by (elim conjE) simp
  ultimately obtain S where S: "card S = m" "\<forall>e' \<in> S. r < e' \<and> e' < e \<and> (\<exists>x'. binding e' x' \<in> V)"
    using r e(1,3) by fast
  obtain xs where xs: "map vb_Oid (MatchBaseOids vs (Some b)) = map Some xs" "set xs = {x \<in> oids_of_set V. prefix b x}"
    using prepared_matches [OF prep refl, of b] by blast
  have "S \<subseteq> set xs"
  proof
    fix e' assume "e' \<in> S"
    then obtain x' where e': "r < e'" "e' < e" "binding e' x' \<in> V" using S(2) by blast
    then have "b \<le> e'" "e' \<le> e" using prefix_le [OF b] by simp_all
    from prefix_convex [OF this e(2)] e'(3) show "e' \<in> set xs"
      by (auto simp: xs(2) oids_of_set_def intro!: bexI [of _ "binding e' x'"])
  qed
  then have "m \<le> length xs" using S(1) card_mono [of "set xs" S] card_length [of xs] by simp
  moreover have "length xs = length (MatchBaseOids vs (Some b))" using xs(1) by (metis length_map)
  ultimately show False using less by simp
qed

text \<open>A round: the answer to all bases, sorted and without repetitions.\<close>

definition round_view :: "mib \<Rightarrow> nat \<Rightarrow> bool \<Rightarrow> varbind set \<Rightarrow> varbind list \<Rightarrow> (oid \<times> oid) list \<Rightarrow> bool" where
  "round_view mib m full V vs ps \<longleftrightarrow>
     mib_ok mib \<and> answers mib (snd ` set ps) m full V \<and> prepared V vs \<and> independent ps"

text \<open>The last match of a base is its greatest, and an entry still to come is at or before it.\<close>

lemma last_match:
  assumes "round_view mib m full V vs ps" "M = MatchBaseOids vs (Some b)" "M \<noteq> []"
  obtains x where "vb_Oid (last M) = Some x" "x \<in> oids_of_set V" "prefix b x" "\<forall>e \<in> oids_of M. e \<le> x"
    "\<forall>e \<in> oids_of_set V. prefix b e \<longrightarrow> e \<le> x"
proof -
  obtain xs where xs: "map vb_Oid M = map Some xs" "sorted_wrt (<) xs" "set xs = {x \<in> oids_of_set V. prefix b x}"
    using assms prepared_matches by (metis round_view_def)
  have ne: "xs \<noteq> []" using assms(3) xs(1) by auto
  have "sorted xs" using xs(2) by (simp add: strict_sorted_iff)
  then have top: "x \<le> last xs" if "x \<in> set xs" for x
    using that ne by (cases xs rule: rev_cases) (auto simp: sorted_append)
  have "Some ` oids_of M \<subseteq> set (map vb_Oid M)" by (force simp: oids_of_def)
  then have "oids_of M \<subseteq> set xs" unfolding xs(1) by auto
  then have sub: "\<forall>e \<in> oids_of M. e \<le> last xs" using top by blast
  have "vb_Oid (last M) = Some (last xs)" using ne assms(3) xs(1) by (metis last_map)
  moreover have "last xs \<in> oids_of_set V" "prefix b (last xs)" using last_in_set [OF ne] xs(3) by auto
  ultimately show thesis using sub top xs(3) by (intro that [of "last xs"]) auto
qed

lemma match_ahead:
  assumes v: "round_view mib m full V vs ps" "(b, r) \<in> set ps" and e: "(e, x) \<in> set mib" "prefix b e" "r < e"
    and M: "M = MatchBaseOids vs (Some b)"
  shows "M \<noteq> []" "vb_Oid (last M) = Some l \<Longrightarrow> r < l"
proof -
  have ans: "answers mib (snd ` set ps) m full V" and prep: "prepared V vs" and br: "prefix b r"
    using v by (auto simp: round_view_def independent_def)
  obtain s where s: "s \<in> oids_of_set V" "prefix b s" "r < s"
    by (rule first_under [OF ans _ br e]) (use v(2) in force)
  obtain xs where "map vb_Oid M = map Some xs" "set xs = {x \<in> oids_of_set V. prefix b x}"
    using prepared_matches(1) [OF prep M] by blast
  with s show ne: "M \<noteq> []" by auto
  from last_match [OF v(1) M this] s show "vb_Oid (last M) = Some l \<Longrightarrow> r < l" by (metis less_le_trans option.inject)
qed

text \<open>A base that is dropped because its matches bring nothing new is complete.\<close>

lemma base_finished:
  assumes v: "round_view mib m full V vs ps" "(b, r) \<in> set ps" and re: "reached mib b r rb"
    and M: "M = MatchBaseOids vs (Some b)" "M = [] \<or> (\<exists>x. vb_Oid (last M) = Some x \<and> x \<in> oids_of rb)"
  shows "complete mib m b rb"
proof -
  have "e \<le> r" if e: "(e, x) \<in> set mib" "prefix b e" for e x
  proof (rule ccontr)
    assume "\<not> e \<le> r"
    then have ne: "M \<noteq> []" and l: "\<And>l. vb_Oid (last M) = Some l \<Longrightarrow> r < l" using match_ahead [OF v e _ M(1)] by auto
    obtain x where x: "vb_Oid (last M) = Some x" "prefix b x" by (rule last_match [OF v(1) M(1) ne])
    with M(2) ne have "x \<le> r" using re by (auto simp: reached_def)
    with l [OF x(1)] show False by simp
  qed
  with re show ?thesis by (fastforce simp: reached_def complete_def)
qed

text \<open>A base that goes on has found everything up to its last match, or was complete before.\<close>

lemma base_goes_on:
  assumes v: "round_view mib m full V vs ps" "(b, r) \<in> set ps" and re: "reached mib b r rb"
    and M: "M = MatchBaseOids vs (Some b)" "M \<noteq> []" and no: "\<forall>v \<in> set M. \<not> is_exception (vb_Variable v)"
    and l: "vb_Oid (last M) = Some l"
  shows "in_order mib m b l (rb @ M)"
proof -
  have ans: "answers mib (snd ` set ps) m full V" and prep: "prepared V vs" and ind: "independent ps" and mib: "mib_ok mib"
    using v by (simp_all add: round_view_def)
  have l': "l \<in> oids_of_set V" "prefix b l" "\<forall>e \<in> oids_of M. e \<le> l" using last_match [OF v(1) M] l by auto
  show ?thesis
  proof (cases "l < r")
    case True
    have "e \<le> r" if e: "(e, x) \<in> set mib" "prefix b e" for e x
      using match_ahead(2) [OF v e _ M(1) l] True by (meson not_le order.asym)
    then have "complete mib m b (rb @ M)" using re by (fastforce simp: reached_def complete_def)
    with l'(2) show ?thesis by (simp add: in_order_def)
  next
    case False
    have "binding e x \<in> set (rb @ M)" if e: "(e, x) \<in> set mib" "strict_prefix b e" "e \<le> l" for e x
    proof (cases "e \<le> r")
      case True
      then show ?thesis using e re by (auto simp: reached_def)
    next
      case False
      then have "binding e x \<in> V" using answered_below [OF ans ind v(2) l'(1,2) e(1)] e by auto
      moreover have "binding e EndOfMibView \<notin> set M" using no by (force simp: is_exception_def)
      ultimately show ?thesis using kept [OF ans mib prep e(1)] e(2) M(1) by auto
    qed
    moreover have "e \<le> l" if "e \<in> oids_of (rb @ M)" "prefix b e" for e
      using that l'(3) re False by (auto simp: reached_def intro: order_trans)
    ultimately show ?thesis using l'(2) by (auto simp: in_order_def reached_def)
  qed
qed

text \<open>A base that ends on an exception or on a full answer it does not fill is complete.\<close>

lemma base_ends:
  assumes v: "round_view mib m full V vs ps" "(b, r) \<in> set ps" and re: "reached mib b r rb"
    and M: "M = MatchBaseOids vs (Some b)" "M \<noteq> []"
    and fin: "list_ex (\<lambda>v. is_exception (vb_Variable v)) M \<or> full \<and> int (length M) < int m"
  shows "complete mib m b (rb @ filter (\<lambda>v. \<not> is_exception (vb_Variable v)) M)"
proof -
  have ans: "answers mib (snd ` set ps) m full V" and prep: "prepared V vs" and ind: "independent ps" and mib: "mib_ok mib"
    and br: "prefix b r" and rR: "r \<in> snd ` set ps"
    using v by (force simp: round_view_def independent_def)+
  have subM: "set M \<subseteq> V" unfolding M(1) by (rule prepared_matches(2) [OF prep refl])
  have inV: "binding e x \<in> V" if e: "(e, x) \<in> set mib" "prefix b e" "r < e" for e x
  proof (cases "full \<and> int (length M) < int m")
    case True
    then show ?thesis using full_answer [OF ans _ rR prep br e] M(1) by simp
  next
    case False
    then obtain v where v': "v \<in> set M" "is_exception (vb_Variable v)" using fin by (auto simp: list_ex_iff)
    then have "v \<in> V" using subM by auto
    from ans this show ?thesis
    proof (cases rule: answers_binding)
      case (entry r1 e1 x1)
      with v'(2) mib show ?thesis by (auto simp: mib_ok_def)
    next
      case (ending r1 l1)
      obtain l where l: "l \<in> oids_of_set V" "prefix b l" "\<forall>e \<in> oids_of M. e \<le> l" by (rule last_match [OF v(1) M])
      have "l1 \<in> oids_of M" using v'(1) ending(2) by (auto simp: oids_of_def intro!: bexI [of _ v])
      moreover have "e \<le> l1" using ending(6) e(1) by force
      ultimately show ?thesis using answered_below [OF ans ind v(2) l(1,2) e] l(3) by force
    qed
  qed
  have "binding e x \<in> set (rb @ filter (\<lambda>v. \<not> is_exception (vb_Variable v)) M)"
    if e: "(e, x) \<in> set mib" "strict_prefix b e" "m = 1 \<or> (\<exists>e' \<in> fst ` set mib. e < e')" for e x
  proof (cases "e \<le> r")
    case True
    then show ?thesis using e re by (auto simp: reached_def)
  next
    case False
    then have e': "prefix b e" "r < e" using e(2) by auto
    from not_ending [OF ans ind v(2) mib e' e(3)] subM have "binding e EndOfMibView \<notin> set M" by blast
    with kept [OF ans mib prep e(1) inV [OF e(1) e'] e'(1)] show ?thesis by (simp add: M(1))
  qed
  then show ?thesis by (auto simp: complete_def)
qed

lemma base_step:
  assumes v: "round_view mib m full V vs ps" "(b, r) \<in> set ps" and ok: "in_order mib m b r rb"
    and run: "walk_oid full (int m) vs (Some b) (Some r) rb = (rb', req')"
  shows "case req' of None \<Rightarrow> complete mib m b rb' | Some r' \<Rightarrow> in_order mib m b r' rb'"
proof (cases "complete mib m b rb")
  case True
  from walk_oid_grows [OF run] obtain n where "rb' = rb @ n" by blast
  then have c: "complete mib m b rb'" using True by (auto intro: complete_mono)
  have "prefix b r'" if r': "req' = Some r'" for r'
    using run
  proof (cases rule: walk_oid_cases)
    case matches
    with r' have l: "vb_Oid (last (MatchBaseOids vs (Some b))) = Some r'" by simp
    obtain x where "vb_Oid (last (MatchBaseOids vs (Some b))) = Some x" "prefix b x"
      by (rule last_match [OF v(1) refl matches(1)])
    with l show ?thesis by simp
  qed (use r' in simp)
  with c show ?thesis by (auto simp: in_order_def split: option.split)
next
  case False
  then have re: "reached mib b r rb" using ok by (simp add: in_order_def)
  from run show ?thesis
  proof (cases rule: walk_oid_cases)
    case finished
    with base_finished [OF v re refl] show ?thesis by simp
  next
    case matches
    show ?thesis
    proof (cases req')
      case None
      with base_ends [OF v re refl matches(1)] matches(3,5) show ?thesis by simp
    next
      case (Some r')
      then have no: "\<forall>v \<in> set (MatchBaseOids vs (Some b)). \<not> is_exception (vb_Variable v)"
        and r': "vb_Oid (last (MatchBaseOids vs (Some b))) = Some r'"
        using matches(4) by (auto simp: list_ex_iff)
      from no have "rb' = rb @ MatchBaseOids vs (Some b)" using matches(3) by (simp add: filter_id_conv)
      with base_goes_on [OF v re refl matches(1) no r'] Some show ?thesis by simp
    qed
  qed
qed

section \<open>All bases in a round\<close>

text \<open>What is found below other bases leaves a base in order.\<close>

lemma in_order_append:
  assumes "in_order mib m b r rb" "\<forall>e \<in> oids_of new. \<not> prefix b e"
  shows "in_order mib m b r (rb @ new)"
  using assms complete_mono [of mib m b rb "rb @ new"] by (fastforce simp: in_order_def reached_def)

lemma found_elsewhere:
  assumes "found bases vbs rb g new" "\<forall>b'. Some b' \<in> bases \<longrightarrow> \<not> prefix b b' \<and> \<not> prefix b' b"
  shows "\<forall>e \<in> oids_of new. \<not> prefix b e"
proof
  fix e assume "e \<in> oids_of new"
  then obtain v where "v \<in> set new" "vb_Oid v = Some e" by (auto simp: oids_of_def)
  moreover from this obtain b' where b': "Some b' \<in> bases" "prefix b' e" using assms(1) by (fastforce simp: found_def)
  ultimately show "\<not> prefix b e" using assms(2) b' prefix_same_cases by blast
qed

definition asked :: "(oid \<times> oid) list \<Rightarrow> (oid option \<times> oid option) list" where
  "asked ps = map (\<lambda>(b, r). (Some b, Some r)) ps"

definition after_round :: "mib \<Rightarrow> nat \<Rightarrow> varbind list \<Rightarrow> oid option \<times> oid option \<Rightarrow> bool" where
  "after_round mib m rb q =
     (case q of (Some b, Some r) \<Rightarrow> in_order mib m b r rb | (Some b, None) \<Rightarrow> complete mib m b rb | (None, _) \<Rightarrow> False)"

lemma after_round_append:
  assumes "after_round mib m rb (Some b, r)" "\<forall>e \<in> oids_of new. \<not> prefix b e"
  shows "after_round mib m (rb @ new) (Some b, r)"
  using assms in_order_append complete_mono [of mib m b rb "rb @ new"]
  by (cases r) (simp_all add: after_round_def)

lemma walk_oids_round:
  assumes "round_view mib m full V vs ps"
  shows "set qs \<subseteq> set ps \<Longrightarrow> independent qs \<Longrightarrow> \<forall>(b, r) \<in> set qs. in_order mib m b r rb \<Longrightarrow>
    walk_oids full (int m) vs (asked qs) rb = (rb', qs') \<Longrightarrow> \<forall>q \<in> set qs'. after_round mib m rb' q"
proof (induction qs arbitrary: rb rb' qs')
  case (Cons q qs)
  obtain b r where q: "q = (b, r)" by (cases q)
  obtain rb1 r1 where one: "walk_oid full (int m) vs (Some b) (Some r) rb = (rb1, r1)"
    by (cases "walk_oid full (int m) vs (Some b) (Some r) rb")
  obtain qs1 where rest: "walk_oids full (int m) vs (asked qs) rb1 = (rb', qs1)" "qs' = (Some b, r1) # qs1"
    using Cons.prems(4) by (cases "walk_oids full (int m) vs (asked qs) rb1") (simp add: asked_def q one)
  have apart: "\<not> prefix b b' \<and> \<not> prefix b' b" if "b' \<in> fst ` set qs" for b'
    using Cons.prems(2) that by (auto simp: independent_def q)
  have ind: "independent qs" using Cons.prems(2) by (auto simp: independent_def q)
  obtain n1 where n1: "rb1 = rb @ n1" "found {Some b} vs rb (r1 \<noteq> None) n1" by (rule walk_oid_grows [OF one])
  obtain n2 where n2: "rb' = rb1 @ n2" "found (fst ` set (asked qs)) vs rb1 (\<exists>p \<in> set qs1. snd p \<noteq> None) n2"
    by (rule walk_oids_grow [OF rest(1)])
  have "case r1 of None \<Rightarrow> complete mib m b rb1 | Some r' \<Rightarrow> in_order mib m b r' rb1"
    using Cons.prems(1,3) by (intro base_step [OF assms _ _ one]) (auto simp: q)
  then have "after_round mib m rb1 (Some b, r1)" by (simp add: after_round_def split: option.splits)
  moreover have "\<forall>e \<in> oids_of n2. \<not> prefix b e"
    by (rule found_elsewhere [OF n2(2)]) (use apart in \<open>force simp: asked_def\<close>)
  ultimately have first: "after_round mib m rb' (Some b, r1)" unfolding n2(1) by (rule after_round_append)
  have "in_order mib m b' r' rb1" if "(b', r') \<in> set qs" for b' r'
  proof -
    have "\<not> prefix b b' \<and> \<not> prefix b' b" using apart that by force
    then have "\<forall>e \<in> oids_of n1. \<not> prefix b' e" by (intro found_elsewhere [OF n1(2)]) simp
    with Cons.prems(3) that show ?thesis unfolding n1(1) by (intro in_order_append) auto
  qed
  then have "\<forall>q \<in> set qs1. after_round mib m rb' q"
    using Cons.prems(1) by (intro Cons.IH [OF _ ind _ rest(1)]) auto
  with first show ?case by (simp add: rest(2))
qed (simp add: asked_def)

section \<open>The walk against the agent\<close>

definition view_inv :: "mib \<Rightarrow> nat \<Rightarrow> oid list \<Rightarrow> walk \<Rightarrow> bool" where
  "view_inv mib m bases w \<longleftrightarrow>
     w_nonRepeaters w = 0 \<and> w_nonRepBinds w = [] \<and>
     (\<exists>ps. w_pairs w = asked ps \<and> independent ps \<and> snd ` set ps \<subseteq> fst ` set mib \<union> set bases \<and>
        (\<forall>(b, r) \<in> set ps. in_order mib m b r (w_resBinds w)) \<and>
        (\<forall>b \<in> set bases. b \<in> fst ` set ps \<or> complete mib m b (w_resBinds w)) \<and> fst ` set ps \<subseteq> set bases) \<and>
     (\<forall>v \<in> set (w_resBinds w). \<exists>(e, x) \<in> set mib. v = binding e x \<and> (\<exists>b \<in> set bases. prefix b e))"

lemma walk_oids_asks:
  "walk_oids filled k vs ps rb = (rb', qs) \<Longrightarrow> \<forall>q \<in> set qs. snd q = None \<or> snd q \<in> vb_Oid ` set vs"
proof (induction ps arbitrary: rb qs)
  case (Cons p ps)
  obtain b r where p: "p = (b, r)" by (cases p)
  obtain rb1 r1 where one: "walk_oid filled k vs b r rb = (rb1, r1)" by (cases "walk_oid filled k vs b r rb")
  obtain qs1 where rest: "walk_oids filled k vs ps rb1 = (rb', qs1)" "qs = (b, r1) # qs1"
    using Cons.prems by (cases "walk_oids filled k vs ps rb1") (simp add: p one)
  have "r1 = None \<or> r1 \<in> vb_Oid ` set vs"
    using one
  proof (cases rule: walk_oid_cases)
    case matches
    have "last (MatchBaseOids vs b) \<in> set vs" using last_in_set [OF matches(1)] MatchBaseOids_subset(1) by blast
    with matches(4) show ?thesis by blast
  qed simp
  with Cons.IH [OF rest(1)] show ?case by (simp add: rest(2))
qed simp

lemma asked_filter:
  assumes "map fst qs = map fst (asked ps)" "independent ps" "\<forall>q \<in> set qs. after_round mib m rb q"
  obtains ps' where "filter (\<lambda>(base, req). req \<noteq> None) qs = asked ps'" "independent ps'"
    "\<forall>(b, r) \<in> set ps'. in_order mib m b r rb" "Some ` snd ` set ps' \<subseteq> snd ` set qs"
    "\<forall>b \<in> fst ` set ps. b \<in> fst ` set ps' \<or> complete mib m b rb" "fst ` set ps' \<subseteq> fst ` set ps"
proof -
  let ?f = "filter (\<lambda>(base, req). req \<noteq> None) qs"
  let ?ps = "map (\<lambda>(b, r). (the b, the r)) ?f"
  have q: "\<exists>b. q = (Some b, snd q) \<and> b \<in> fst ` set ps \<and> (case snd q of None \<Rightarrow> complete mib m b rb | Some r \<Rightarrow> in_order mib m b r rb)"
    if "q \<in> set qs" for q
  proof -
    have "fst q \<in> set (map fst (asked ps))" using that unfolding assms(1) [symmetric] by simp
    then obtain b where "fst q = Some b" "b \<in> fst ` set ps" by (force simp: asked_def)
    with assms(3) that show ?thesis by (cases q) (force simp: after_round_def split: option.splits)
  qed
  have eq: "?f = asked ?ps" using q by (force simp: asked_def intro: map_idI [symmetric])
  have "map (the \<circ> fst) qs = map fst ps"
    using arg_cong [OF assms(1), of "map the"] by (simp add: asked_def comp_def split_def)
  then have "sorted_wrt (\<lambda>b b'. \<not> prefix b b' \<and> \<not> prefix b' b) (map (the \<circ> fst) qs)"
    using assms(2) by (simp add: independent_def)
  then have srt: "sorted_wrt (\<lambda>b b'. \<not> prefix b b' \<and> \<not> prefix b' b) (map fst ?ps)"
    by (simp add: sorted_wrt_map sorted_wrt_filter split_def)
  have ok: "\<forall>(b, r) \<in> set ?ps. in_order mib m b r rb" using q by force
  have ind: "independent ?ps" using srt ok by (auto simp: independent_def in_order_def)
  have snds: "Some ` snd ` set ?ps \<subseteq> snd ` set qs" by force
  have "b \<in> fst ` set ?ps \<or> complete mib m b rb" if "b \<in> fst ` set ps" for b
  proof -
    have "Some b \<in> set (map fst (asked ps))" using that by (force simp: asked_def)
    then obtain r where r: "(Some b, r) \<in> set qs" unfolding assms(1) [symmetric] by force
    with q [OF r] show ?thesis by (cases r) force+
  qed
  moreover have "fst ` set ?ps \<subseteq> fst ` set ps" using q by force
  ultimately show thesis by (intro that [OF eq ind ok snds]) blast+
qed

lemma view_inv_round:
  assumes w: "view_inv mib m bases w" and mib: "mib_ok mib" and m: "0 < m"
    and rs: "map snd (w_pairs w) = map Some rs" and n: "length rs \<le> n" and vbs: "vbs = take n (bulk_rows mib rs m)"
  shows "\<exists>w'. walk_round (int m) vbs w = Ok w' \<and> view_inv mib m bases w'" "None \<notin> vb_Oid ` set vbs"
    "oids_of vbs \<subseteq> fst ` set mib \<union> set bases"
proof -
  obtain ps where ps: "w_pairs w = asked ps" "independent ps" "snd ` set ps \<subseteq> fst ` set mib \<union> set bases"
      "\<forall>(b, r) \<in> set ps. in_order mib m b r (w_resBinds w)" "fst ` set ps \<subseteq> set bases"
      "\<forall>b \<in> set bases. b \<in> fst ` set ps \<or> complete mib m b (w_resBinds w)"
    and w0: "w_nonRepeaters w = 0" "w_nonRepBinds w = []"
    and rb: "\<forall>v \<in> set (w_resBinds w). \<exists>(e, x) \<in> set mib. v = binding e x \<and> (\<exists>b \<in> set bases. prefix b e)"
    using w by (auto simp: view_inv_def)
  have "map Some rs = map Some (map snd ps)" using rs by (simp add: ps(1) asked_def comp_def split_def)
  then have rs': "rs = map snd ps" by (metis option.inject list.inj_map_strong)
  have ans: "answers mib (snd ` set ps) m (length vbs = length rs * m) (set vbs)"
    using answers_agent [OF mib n m vbs] by (simp add: rs')
  have entries: "\<exists>e. vb_Oid v = Some e \<and> e \<in> fst ` set mib \<union> snd ` set ps \<and>
      (is_exception (vb_Variable v) \<or> (\<exists>x. (e, x) \<in> set mib \<and> v = binding e x))" if v: "v \<in> set vbs" for v
    using ans v
  proof (cases rule: answers_binding)
    case (entry r e x)
    then show ?thesis by force
  next
    case (ending r e)
    then show ?thesis by (auto simp: is_exception_def)
  qed
  show none: "None \<notin> vb_Oid ` set vbs"
  proof
    assume "None \<in> vb_Oid ` set vbs"
    then obtain v where "v \<in> set vbs" "vb_Oid v = None" by auto
    with entries [of v] show False by auto
  qed
  show oids: "oids_of vbs \<subseteq> fst ` set mib \<union> set bases" 
  proof
    fix e assume "e \<in> oids_of vbs"
    then obtain v where v: "v \<in> set vbs" "vb_Oid v = Some e" by (auto simp: oids_of_def)
    from entries [OF v(1)] v(2) have "e \<in> fst ` set mib \<union> snd ` set ps" by auto
    with ps(3) show "e \<in> fst ` set mib \<union> set bases" by blast
  qed
  let ?vs = "VarBinds_Uniq (VarBinds_Sort vbs)"
  let ?f = "length vbs = length rs * m"
  have view: "round_view mib m ?f (set vbs) ?vs ps"
    unfolding round_view_def using mib ans prepared_answer [OF none] ps(2) by simp
  obtain rb' qs where run: "walk_oids ?f (int m) ?vs (asked ps) (w_resBinds w) = (rb', qs)"
    by (cases "walk_oids ?f (int m) ?vs (asked ps) (w_resBinds w)")
  let ?w = "w\<lparr>w_resBinds := rb', w_pairs := filter (\<lambda>(base, req). req \<noteq> None) qs\<rparr>"
  have "(int (length vbs) = int (length (asked ps)) * int m) = ?f" by (simp add: rs' asked_def flip: of_nat_mult)
  then have r: "walk_round (int m) vbs w = Ok ?w"
    using run by (simp add: walk_round_def split_non_repeaters_def w0 ps(1))
  have after: "\<forall>q \<in> set qs. after_round mib m rb' q" by (rule walk_oids_round [OF view order_refl ps(2,4) run])
  obtain new where new: "rb' = w_resBinds w @ new" "found (fst ` set (asked ps)) ?vs (w_resBinds w) (\<exists>p \<in> set qs. snd p \<noteq> None) new"
    and fsts: "map fst qs = map fst (asked ps)" by (rule walk_oids_grow [OF run])
  obtain ps' where ps': "filter (\<lambda>(base, req). req \<noteq> None) qs = asked ps'" "independent ps'"
    "\<forall>(b, r) \<in> set ps'. in_order mib m b r rb'" "Some ` snd ` set ps' \<subseteq> snd ` set qs"
    "\<forall>b \<in> fst ` set ps. b \<in> fst ` set ps' \<or> complete mib m b rb'" "fst ` set ps' \<subseteq> fst ` set ps"
    by (rule asked_filter [OF fsts ps(2) after])
  have sub: "set ?vs \<subseteq> set vbs" by (rule Sort_Uniq_varbinds(2) [OF none])
  have "snd ` set ps' \<subseteq> fst ` set mib \<union> set bases"
  proof
    fix r assume "r \<in> snd ` set ps'"
    then have "Some r \<in> snd ` set qs" using ps'(4) by blast
    with walk_oids_asks [OF run] have "Some r \<in> vb_Oid ` set ?vs" by force
    then obtain v where "v \<in> set vbs" "vb_Oid v = Some r" using sub by auto
    then have "r \<in> oids_of vbs" by (auto simp: oids_of_def)
    with oids show "r \<in> fst ` set mib \<union> set bases" by blast
  qed
  moreover have "\<forall>b \<in> set bases. b \<in> fst ` set ps' \<or> complete mib m b rb'"
    using ps(6) ps'(5) complete_mono [of mib m _ "w_resBinds w" rb'] new(1) by auto
  moreover have "\<exists>(e, x) \<in> set mib. v = binding e x \<and> (\<exists>b \<in> set bases. prefix b e)" if "v \<in> set new" for v
  proof -
    have "v \<in> set vbs" "\<not> is_exception (vb_Variable v)" "\<exists>b x. Some b \<in> fst ` set (asked ps) \<and> vb_Oid v = Some x \<and> prefix b x"
      using new(2) that sub unfolding found_def by auto
    with entries [of v] obtain e x b where "(e, x) \<in> set mib" "v = binding e x" "prefix b e" "Some b \<in> fst ` set (asked ps)"
      by (metis binding_simps(1) option.inject)
    moreover from this(4) have "b \<in> set bases" using ps(5) by (auto simp: asked_def)
    ultimately show ?thesis by blast
  qed
  ultimately have "view_inv mib m bases ?w"
    unfolding view_inv_def new(1) using ps' ps(5) rb w0 new(1)
    by (intro conjI exI [of _ ps']) (simp_all add: ball_Un subset_trans [OF ps'(6) ps(5)])
  with r show "\<exists>w'. walk_round (int m) vbs w = Ok w' \<and> view_inv mib m bases w'" by blast
qed

text \<open>The PDU a walk against the agent ends with.\<close>

definition subtrees :: "mib \<Rightarrow> nat \<Rightarrow> oid list \<Rightarrow> varbind list \<Rightarrow> bool" where
  "subtrees mib m bases vs \<longleftrightarrow>
     (\<forall>(e, x) \<in> set mib. (\<exists>b \<in> set bases. strict_prefix b e) \<and> (m = 1 \<or> (\<exists>e' \<in> fst ` set mib. e < e')) \<longrightarrow> binding e x \<in> set vs) \<and>
     (\<forall>v \<in> set vs. \<exists>(e, x) \<in> set mib. v = binding e x \<and> (\<exists>b \<in> set bases. prefix b e))"

lemma subtrees_sorted:
  assumes mib: "mib_ok mib" and vs: "subtrees mib m bases vs"
  shows "subtrees mib m bases (VarBinds_Uniq (VarBinds_Sort vs))"
proof -
  have vals: "\<exists>e x. (e, x) \<in> set mib \<and> v = binding e x" if "v \<in> set vs" for v
    using vs that unfolding subtrees_def by blast
  have none: "None \<notin> vb_Oid ` set vs"
  proof
    assume "None \<in> vb_Oid ` set vs"
    then obtain v where "v \<in> set vs" "vb_Oid v = None" by auto
    with vals [of v] show False by auto
  qed
  have prep: "prepared (set vs) (VarBinds_Uniq (VarBinds_Sort vs))" by (rule prepared_answer [OF none])
  then have sub: "set (VarBinds_Uniq (VarBinds_Sort vs)) \<subseteq> set vs" by (simp add: prepared_def)
  have "binding e x \<in> set (VarBinds_Uniq (VarBinds_Sort vs))" if e: "(e, x) \<in> set mib" "binding e x \<in> set vs" for e x
  proof -
    have "e \<in> oids_of_set (set vs)" using e(2) by (auto simp: oids_of_set_def intro!: bexI [of _ "binding e x"])
    moreover obtain xs where "map vb_Oid (VarBinds_Uniq (VarBinds_Sort vs)) = map Some xs" "set xs = oids_of_set (set vs)"
      using prep by (auto simp: prepared_def)
    ultimately have "Some e \<in> set (map vb_Oid (VarBinds_Uniq (VarBinds_Sort vs)))" by simp
    then obtain v where v: "v \<in> set (VarBinds_Uniq (VarBinds_Sort vs))" "vb_Oid v = Some e" by auto
    then obtain e' x' where "(e', x') \<in> set mib" "v = binding e' x'" using sub vals by blast
    with v mib_value [OF mib e(1)] show ?thesis by auto
  qed
  with sub vs show ?thesis unfolding subtrees_def by fast
qed

lemma view_inv_start:
  obtains bases where "view_inv mib m bases (start_walk (map Some bs) 0)" "set bases \<subseteq> set bs"
    "\<forall>b \<in> set bs. \<exists>b' \<in> set bases. prefix b' b"
proof -
  obtain ys where ys: "Oids_UniqBase (Oids_Sort (map Some bs)) = map Some ys" "set ys \<subseteq> set bs"
     "\<forall>v \<in> set bs. \<exists>y \<in> set ys. prefix y v" "sorted_wrt (\<lambda>x y. \<not> prefix x y \<and> \<not> prefix y x) ys"
  proof -
    have none: "None \<notin> (\<lambda>x. x) ` set (map Some bs)" by auto
    obtain ys where "uniq under_oid (map (\<lambda>x. x) (Oids_Sort (map Some bs))) = map Some ys" "set ys \<subseteq> the ` set (map Some bs)"
      "\<forall>x \<in> set (map Some bs). \<exists>y \<in> set ys. prefix y (the x)" "sorted_wrt (\<lambda>x y. \<not> prefix x y \<and> \<not> prefix y x) ys"
      by (rule oids.base_keys [OF none])
    then show thesis by (intro that [of ys]) (auto simp: Oids_UniqBase_def image_image)
  qed
  let ?ps = "map (\<lambda>y. (y, y)) ys"
  have "independent ?ps" using ys(4) by (auto simp: independent_def comp_def)
  moreover have "\<forall>(b, r) \<in> set ?ps. in_order mib m b r []"
    by (auto simp: in_order_def reached_def oids_of_def strict_prefix_def dest!: prefix_le)
  ultimately have "view_inv mib m ys (start_walk (map Some bs) 0)"
    unfolding view_inv_def by (auto simp: start_walk_def asked_def ys(1) image_image intro!: exI [of _ ?ps])
  with ys show thesis by (intro that)
qed

lemma agent_round:
  assumes mib: "mib_ok mib" and ag: "bulk_agent request mib m" and m: "0 < m"
    and w: "view_inv mib m bases w" "w_pairs w \<noteq> []"
    and I: "\<And>(s' :: snmp) w'. a_Version (s_args s') = a_Version (s_args (s :: snmp)) \<Longrightarrow> view_inv mib m bases w' \<Longrightarrow> I s' w'"
  shows "\<exists>s' r. request s (map snd (w_pairs w)) (w_nonRepeaters w) (int m) = Some (s', r) \<and>
    round_ok (int m) (fst ` set mib \<union> set bases) (I s') Q w r"
proof -
  obtain rs where rs: "map snd (w_pairs w) = map Some rs" "rs \<noteq> []" and w0: "w_nonRepeaters w = 0"
  proof -
    obtain ps where "w_pairs w = asked ps" "w_nonRepeaters w = 0" using w(1) unfolding view_inv_def by blast
    with w(2) show thesis by (intro that [of "map snd ps"]) (simp_all add: asked_def comp_def split_def)
  qed
  from ag rs(2) obtain s' p n where req: "request s (map Some rs) 0 (int m) = Some (s', Ok (Some p))"
      "a_Version (s_args s') = a_Version (s_args s)" "ErrorStatus p = NoError" "length rs \<le> n" "VarBinds p = take n (bulk_rows mib rs m)"
    unfolding bulk_agent_def by meson
  obtain w' where w': "walk_round (int m) (VarBinds p) w = Ok w'" "view_inv mib m bases w'"
    using view_inv_round(1) [OF w(1) mib m rs(1) req(4,5)] by blast
  have "round_ok (int m) (fst ` set mib \<union> set bases) (I s') Q w (Ok (Some p))"
    unfolding round_ok_def using view_inv_round(2,3) [OF w(1) mib m rs(1) req(4,5)] w' I [OF req(2) w'(2)] req(3)
    by (simp add: stops_def)
  with req(1) show ?thesis unfolding rs(1) w0 by blast
qed

lemma agent_result:
  assumes mib: "mib_ok mib" and w: "view_inv mib m bases w" "w_pairs w = []" and ver: "ver = V2c \<or> ver = V3"
  shows "\<exists>p. walk_result ver w = Ok (Some p) \<and> ErrorStatus p = NoError \<and> subtrees mib m bases (VarBinds p)"
proof -
  obtain p where p: "walk_result ver w = Ok (Some p)" "ErrorStatus p = NoError" using walk_result_Ok(2) ver by blast
  have "subtrees mib m bases (w_resBinds w)"
    using w by (fastforce simp: view_inv_def asked_def subtrees_def complete_def)
  from subtrees_sorted [OF mib this] walk_result_Ok(1) [OF p(1)] w(1) p show ?thesis by (auto simp: view_inv_def)
qed


section \<open>Concrete walks\<close>

text \<open>An agent that never cuts a response short.\<close>

definition full_agent :: "mib \<Rightarrow> requester" where
  "full_agent mib s oids n k =
     Some (s, Ok (Some (PduV1 \<lparr>pduType = GetResponse, requestId = 1, errorStatus = 0, errorIndex = 0,
       varBinds = bulk_rows mib (map the oids) (nat k)\<rparr>)))"

lemma full_agent: "bulk_agent (full_agent mib) mib m"
  unfolding bulk_agent_def
proof (intro allI impI)
  fix s :: snmp and rs :: "oid list" assume "rs \<noteq> []"
  show "\<exists>s' p n. full_agent mib s (map Some rs) 0 (int m) = Some (s', Ok (Some p)) \<and>
      a_Version (s_args s') = a_Version (s_args s) \<and> ErrorStatus p = NoError \<and>
      length rs \<le> n \<and> VarBinds p = take n (bulk_rows mib rs m)"
    by (rule exI, rule exI, rule exI [of _ "length rs + length rs * m"])
      (auto simp: full_agent_def pdu_accessors NoError_def comp_def length_bulk_rows)
qed

definition demo_mib :: mib where
  "demo_mib = [([1, 3, 6, 1, 2, 1, 0], Integer 5), ([1, 3, 6, 1, 2, 2, 0], Integer 6), ([1, 3, 6, 1, 4, 1], Integer 7)]"


text \<open>
  The sort puts the later of two bindings with the same identifier first, and \<open>Uniq\<close> keeps the first: an
  exception that names the last entry of the view replaces it.
\<close>

lemma go_sort_rev: "(\<And>x y. x \<in> set xs \<Longrightarrow> y \<in> set xs \<Longrightarrow> lt x y) \<Longrightarrow> go_sort lt xs = rev xs"
proof -
  assume lt: "\<And>x y. x \<in> set xs \<Longrightarrow> y \<in> set xs \<Longrightarrow> lt x y"
  have move: "move_left lt x ys = ys @ [x]" if "x \<in> set xs" "set ys \<subseteq> set xs" for x ys
    using that by (induction ys) (auto simp: lt)
  have "foldl (\<lambda>acc x. move_left lt x acc) acc zs = acc @ zs" if "set acc \<subseteq> set xs" "set zs \<subseteq> set xs" for acc zs
    using that by (induction zs arbitrary: acc) (simp_all add: move)
  then show ?thesis by (simp add: go_sort_def)
qed

lemma uniq_from_all: "(\<And>y. y \<in> set ys \<Longrightarrow> same b y) \<Longrightarrow> uniq_from same b ys = []"
  by (induction ys) auto

lemma ending_replaces:
  "VarBinds_Uniq (VarBinds_Sort (binding e x # replicate (Suc k) (binding e EndOfMibView))) = [binding e EndOfMibView]"
proof -
  let ?v = "binding e EndOfMibView"
  have "VarBinds_Sort (binding e x # replicate (Suc k) ?v) = rev (binding e x # replicate (Suc k) ?v)"
    unfolding VarBinds_Sort_def by (rule go_sort_rev) (auto simp: VarBinds_Less_iff split: if_splits)
  also have "\<dots> = ?v # replicate k ?v @ [binding e x]" by (simp add: replicate_append_same)
  finally have srt: "VarBinds_Sort (binding e x # replicate (Suc k) ?v) = ?v # replicate k ?v @ [binding e x]" .
  have "uniq_from same_varbind (Some ?v) (map Some (replicate k ?v @ [binding e x])) = []"
    by (rule uniq_from_all) (auto simp: same_varbind_def Equal_def split: if_splits)
  then show ?thesis unfolding srt by (simp add: VarBinds_Uniq_def uniq_def same_varbind_def)
qed

text \<open>The last entry of an agent's view is lost when it comes in one response with the exception that marks the
  end: walking a subtree that holds the only entry of the view, with two to six repetitions per request,
  returns no binding at all.\<close>

theorem GetBulkWalk_loses_last:
  assumes "strict_prefix b e" and "2 \<le> m" and "m \<le> 6" and "a_Version (s_args s) = V2c \<or> a_Version (s_args s) = V3" and "2 \<le> fuel"
  shows "\<exists>p. GetBulkWalk (full_agent [(e, x)]) fuel s [Some b] 0 (int m) = Some (s, Ok (Some p)) \<and>
    ErrorStatus p = NoError \<and> VarBinds p = []"
proof -
  obtain f where f: "fuel = Suc (Suc f)" using assms(5) by (metis add_2_eq_Suc le_Suc_ex)
  obtain k where k: "m = Suc (Suc k)" using assms(2) by (metis add_2_eq_Suc le_Suc_ex)
  let ?v = "binding e EndOfMibView"
  have be: "b < e" "prefix b e" using assms(1) prefix_le [of b e] by (auto simp: strict_prefix_def)
  then have "successors [(e, x)] b = [(e, x)]" by (simp add: successors_def)
  then have rep: "repetition [(e, x)] b 0 = binding e x" "repetition [(e, x)] b (Suc j) = ?v" for j
    by (simp_all add: repetition_def)
  have "bulk_rows [(e, x)] [b] m = map (repetition [(e, x)] b) [0..<m]"
    by (simp only: bulk_rows_def list.map concat_map_singleton)
  also have "[0..<m] = 0 # map Suc [0..<Suc k]" unfolding k map_Suc_upt by (rule upt_conv_Cons) simp
  finally have "bulk_rows [(e, x)] [b] m = binding e x # replicate (Suc k) ?v"
    by (simp only: list.map rep map_map comp_def map_replicate_const length_upt minus_nat.diff_0)
  then have vbs: "VarBinds_Uniq (VarBinds_Sort (bulk_rows [(e, x)] [b] m)) = [?v]"
    by (simp only: ending_replaces)
  have "walk_oid g (int m) [?v] (Some b) (Some b) [] = ([], None)" for g
    using be(2) by (simp add: walk_oid_def MatchBaseOids_def Contains_prefix MatchOid_def is_exception_def)
  moreover have start: "start_walk [Some b] 0 = \<lparr>w_pairs = [(Some b, Some b)], w_nonRepeaters = 0, w_nonRepBinds = [], w_resBinds = []\<rparr>"
    by (simp add: start_walk_def Oids_UniqBase_def uniq_def Oids_Sort_def go_sort_def under_oid_def Contains_def)
  ultimately have round_ends: "walk_round (int m) (bulk_rows [(e, x)] [b] m) (start_walk [Some b] 0) = Ok ((start_walk [Some b] 0)\<lparr>w_pairs := []\<rparr>)"
    using vbs by (simp add: walk_round_def split_non_repeaters_def)
  obtain p where p: "walk_result (a_Version (s_args s)) ((start_walk [Some b] 0)\<lparr>w_pairs := []\<rparr>) = Ok (Some p)" "ErrorStatus p = NoError"
    using walk_result_Ok(2) assms(4) by blast
  have "VarBinds p = []"
    using walk_result_Ok(1) [OF p(1)] by (simp add: start VarBinds_Uniq_def VarBinds_Sort_def go_sort_def uniq_def)
  with p round_ends show ?thesis by (simp add: GetBulkWalk_eq f full_agent_def start pdu_accessors NoError_def)
qed

theorem GetBulkWalk_loses_last_witness:
  "\<exists>p. GetBulkWalk (full_agent [([1, 3, 6, 1, 4, 1], Integer 7)]) 2 demo_client [Some [1, 3, 6, 1, 4]] 0 (int 2) =
     Some (demo_client, Ok (Some p)) \<and> ErrorStatus p = NoError \<and> VarBinds p = []"
  by (rule GetBulkWalk_loses_last) (simp_all add: strict_prefix_def demo_client_def demo_args_def)

end
