(* ===== verification/SnmpRoute.thy ===== *)
theory SnmpRoute
  imports PingAgent SessionPool OidPool BulkWalkAgent
begin

text \<open>
  The SNMP request of the agent: \<open>httpagent/route/snmp.go\<close> and \<open>httpagent/route/snmpagent.go\<close>, with the probe of
  \<open>httpagent/util/pool.go\<close>. A session pointer is a number; the clients behind the pointers, the pool and the
  identifier cache are the shared state. The goroutines of one round hold the channel \<open>async_c\<close>, of capacity
  one, while they run: they run one after the other, in the order they get hold of it, which is an argument.
\<close>

section \<open>Arguments of a request\<close>

definition getsecuritylevel :: "string \<Rightarrow> int" where
  "getsecuritylevel s =
     (if to_upper s = ''NOAUTHNOPRIV'' then NoAuthNoPriv
      else if to_upper s = ''AUTHNOPRIV'' then AuthNoPriv
      else if to_upper s = ''AUTHPRIV'' then AuthPriv
      else - 1)"

definition authProtcol :: "string \<Rightarrow> string" where
  "authProtcol p = (if to_upper p = ''MD5'' then Md5 else if to_upper p = ''SHA'' then Sha else [])"

definition privProtcol :: "string \<Rightarrow> string" where
  "privProtcol p = (if to_upper p = ''DES'' then Des else if to_upper p = ''AES'' then Aes else [])"

text \<open>\<open>regexp.MatchString(`^[\.\d,]+$`, s)\<close>\<close>

definition oid_chars :: "string \<Rightarrow> bool" where
  "oid_chars s \<longleftrightarrow> s \<noteq> [] \<and> list_all (\<lambda>c. c = CHR ''.'' \<or> is_digit c \<or> c = CHR '','') s"

text \<open>The check of one \<open>oids\<close> parameter; the first fault ends it.\<close>

fun check_mibs :: "string list \<Rightarrow> string" where
  "check_mibs [] = []"
| "check_mibs (mib # mibs) =
     (let m = split_on CHR '':'' mib in
      if hd m \<noteq> ''table'' \<and> hd m \<noteq> ''get'' then
        ''parameter error: unsupport snmp method '' @ [CHR 0x27] @ hd m @ [CHR 0x27]
      else if length m > 1 \<and> \<not> oid_chars (m ! 1) then ''parameter error: snmp oid('' @ m ! 1 @ '') format error''
      else check_mibs mibs)"

text \<open>
  The map is given in the order the \<open>range\<close> statement visits it. A null parameter ends the loop; a fault of
  \<open>oids\<close> does not, the loop goes on with the next key.
\<close>

fun check_params :: "(string \<times> string) list \<Rightarrow> string \<Rightarrow> string" where
  "check_params [] err = err"
| "check_params ((k, v) # m) err =
     (if v = [] then ''parameter error: '' @ [CHR 0x27] @ k @ [CHR 0x27] @ '' is null''
      else if k = ''oids'' then
        (let e = check_mibs (split_on CHR ''!'' v) in check_params m (if e = [] then err else e))
      else check_params m err)"

definition ParameterCheck :: "(string \<times> string) list \<Rightarrow> string" where
  "ParameterCheck m = check_params m []"

section \<open>Results\<close>

record UnitResult =
  u_Index :: string
  u_Value :: string
  u_Error :: string

record SnmpResult =
  sr_Data :: "UnitResult list"
  sr_Starttime :: string
  sr_Endtime :: string
  sr_Error :: string

record UnitResultMulti =
  m_Index :: string
  m_Value :: "string list"
  m_Error :: string

record SnmpResultMulti =
  mr_Data :: "UnitResultMulti list"
  mr_Starttime :: string
  mr_Endtime :: string
  mr_Error :: string

definition snmp_error :: "string \<Rightarrow> SnmpResult" where
  "snmp_error e = \<lparr>sr_Data = [], sr_Starttime = [], sr_Endtime = [], sr_Error = e\<rparr>"

text \<open>\<open>UnitResult{fmt.Sprint(v.Oid), fmt.Sprint(v.Variable), ""}\<close>\<close>

definition unit_result :: "varbind \<Rightarrow> UnitResult" where
  "unit_result v =
     \<lparr>u_Index = (case vb_Oid v of None \<Rightarrow> ''<nil>'' | Some x \<Rightarrow> Oid_String x),
      u_Value = (case vb_Variable v of None \<Rightarrow> ''<nil>'' | Some x \<Rightarrow> Variable_String x), u_Error = []\<rparr>"

section \<open>The shared state and the session of a request\<close>

record route =
  r_pool :: "nat pool"
  r_clients :: "nat \<rightharpoonup> snmp"
  r_next :: nat
  r_cache :: oid_cache

text \<open>
  What a request meets: the cryptography, what the network does for each client, the fuel of a client call, the
  limit of sessions, the random message id of a new client, the clock at \<open>Get\<close> and at \<open>Free\<close>, the formatted
  start and end times, and the order in which the tasks of a round run.
\<close>

record route_env =
  e_crypto :: crypto
  e_net :: "nat \<Rightarrow> network"
  e_fuel :: nat
  e_Maxsesspool :: int
  e_mesId :: int
  e_got :: int
  e_freed :: int
  e_started :: string
  e_ended :: string
  e_order :: "nat \<Rightarrow> nat \<Rightarrow> nat list"

definition sender_of :: "route_env \<Rightarrow> nat \<Rightarrow> sender" where
  "sender_of env c = sendPdu (e_crypto env) (e_net env c) (e_fuel env)"

text \<open>
  \<open>SessPool.Get\<close> on the shared state: a new client has the next pointer, and is opened exactly when the pool
  is not full and has no idle session for the address.
\<close>

definition get_session :: "route_env \<Rightarrow> SNMPArguments \<Rightarrow> string \<Rightarrow> route \<Rightarrow> (route \<times> (nat \<times> int) outcome) option" where
  "get_session env args ip rt =
     (let new = NewSNMP (e_mesId env) args;
          opens = int (PoolLen (r_pool rt)) < e_Maxsesspool env \<and>
            fst (snd (GetCacheSess (r_pool rt) ip (e_got env))) = None \<and> is_ok new;
          run = (if opens then (case new of Ok s \<Rightarrow> Open (e_crypto env) (e_net env (r_next rt)) (sender_of env (r_next rt)) s
                   | _ \<Rightarrow> None) else None)
      in if opens \<and> run = None then None
         else
           (case Get (e_Maxsesspool env) (and_then new (\<lambda>_. Ok (r_next rt)))
                   (\<lambda>_. case run of Some (_, r) \<Rightarrow> r | None \<Rightarrow> Ok ()) (e_got env) ip (r_pool rt) of
              (p, r) \<Rightarrow>
                Some (case run of
                        None \<Rightarrow> rt\<lparr>r_pool := p\<rparr>
                      | Some (s, _) \<Rightarrow> rt\<lparr>r_pool := p, r_clients := (r_clients rt)(r_next rt \<mapsto> s), r_next := Suc (r_next rt)\<rparr>, r)))"

fun close_all :: "nat list \<Rightarrow> (nat \<rightharpoonup> snmp) \<Rightarrow> (nat \<rightharpoonup> snmp)" where
  "close_all [] cl = cl"
| "close_all (c # cs) cl = close_all cs (case cl c of None \<Rightarrow> cl | Some s \<Rightarrow> cl(c \<mapsto> Close s))"

definition kick_session :: "string \<Rightarrow> int \<Rightarrow> route \<Rightarrow> route outcome" where
  "kick_session ip c rt =
     and_then (Kick (r_pool rt) ip c) (\<lambda>(p, closed). Ok (rt\<lparr>r_pool := p, r_clients := close_all closed (r_clients rt)\<rparr>))"

section \<open>One task\<close>

text \<open>
  \<open>SnmpGet\<close> for the client \<open>c\<close>, with the slot number \<open>cflag\<close> the tasks share. The client calls are \<open>None\<close> when
  they run out of fuel. A nil PDU is dereferenced.
\<close>

definition snmp_request ::
  "route_env \<Rightarrow> nat \<Rightarrow> string \<Rightarrow> snmp \<Rightarrow> oid list \<Rightarrow> (snmp \<times> pdu option outcome) option"
where
  "snmp_request env c method s oids =
     (if method = ''get'' then
        client_GetRequest (e_crypto env) (e_net env c) (e_fuel env) s (map Some oids)
      else client_GetBulkWalk (e_crypto env) (e_net env c) (e_fuel env) s (map Some oids) 0 1)"

definition SnmpGet ::
  "route_env \<Rightarrow> string \<Rightarrow> nat \<Rightarrow> string \<Rightarrow> int \<Rightarrow> route \<Rightarrow> (route \<times> int \<times> SnmpResult outcome) option"
where
  "SnmpGet env oid c method cflag rt =
     (case GetParseOids (r_cache rt) (split_on CHR '','' oid) of
        (cache, Err e) \<Rightarrow> Some (rt\<lparr>r_cache := cache\<rparr>, cflag, Ok (snmp_error (Error e)))
      | (cache, Panic x) \<Rightarrow> Some (rt\<lparr>r_cache := cache\<rparr>, cflag, Panic x)
      | (cache, Ok oids) \<Rightarrow>
          (let rt = rt\<lparr>r_cache := cache\<rparr> in
           if method \<noteq> ''get'' \<and> method \<noteq> ''walk'' then
             Some (rt, cflag, Ok (snmp_error (''unsupport method('' @ method @ '')'')))
           else
             (case r_clients rt c of
                None \<Rightarrow> Some (rt, cflag, Panic NilDereference)
              | Some s \<Rightarrow>
                  (case snmp_request env c method s oids of
                     None \<Rightarrow> None
                   | Some (s', r) \<Rightarrow>
                       (let rt = rt\<lparr>r_clients := (r_clients rt)(c \<mapsto> s')\<rparr> in
                        case r of
                          Panic x \<Rightarrow> Some (rt, cflag, Panic x)
                        | Err e \<Rightarrow>
                            (case kick_session (hd (split_on CHR '':'' (a_Address (s_args s')))) cflag rt of
                               Ok rt' \<Rightarrow> Some (rt', - 1, Ok (snmp_error (Error e)))
                             | Err e' \<Rightarrow> Some (rt, cflag, Err e')
                             | Panic x \<Rightarrow> Some (rt, cflag, Panic x))
                        | Ok None \<Rightarrow> Some (rt, cflag, Panic NilDereference)
                        | Ok (Some p) \<Rightarrow>
                            if ErrorStatus p \<noteq> NoError then Some (rt, cflag, Ok (snmp_error ''<nil>''))
                            else Some (rt, cflag, Ok ((snmp_error [])\<lparr>sr_Data := map unit_result (VarBinds p)\<rparr>)))))))"

section \<open>A request\<close>

fun snmp_tasks :: "string list \<Rightarrow> (string \<times> string) list outcome" where
  "snmp_tasks [] = Ok []"
| "snmp_tasks (mib # mibs) =
     (let mo = split_on CHR '':'' mib in
      if hd mo = ''table'' then and_then (idx mo 1) (\<lambda>x. and_then (snmp_tasks mibs) (\<lambda>ts. Ok ((x, ''walk'') # ts)))
      else if hd mo = ''get'' then and_then (idx mo 1) (\<lambda>x. and_then (snmp_tasks mibs) (\<lambda>ts. Ok ((x, ''get'') # ts)))
      else snmp_tasks mibs)"

definition add_result :: "SnmpResult \<Rightarrow> SnmpResult \<Rightarrow> SnmpResult" where
  "add_result res tmp =
     res\<lparr>sr_Data := sr_Data res @ sr_Data tmp, sr_Error := (if sr_Error res = [] then sr_Error tmp else sr_Error res)\<rparr>"

fun run_tasks ::
  "route_env \<Rightarrow> nat \<Rightarrow> (string \<times> string) list \<Rightarrow> int \<Rightarrow> route \<Rightarrow> SnmpResult \<Rightarrow> (route \<times> int \<times> SnmpResult outcome) option"
where
  "run_tasks env c [] cflag rt res = Some (rt, cflag, Ok res)"
| "run_tasks env c ((oid, method) # ts) cflag rt res =
     (case SnmpGet env oid c method cflag rt of
        None \<Rightarrow> None
      | Some (rt', cflag', Ok tmp) \<Rightarrow> run_tasks env c ts cflag' rt' (add_result res tmp)
      | Some (rt', cflag', Err e) \<Rightarrow> Some (rt', cflag', Err e)
      | Some (rt', cflag', Panic x) \<Rightarrow> Some (rt', cflag', Panic x))"

text \<open>The rounds of a request; the pause between them changes nothing. The tasks are split anew in each round.\<close>

fun rounds ::
  "route_env \<Rightarrow> nat \<Rightarrow> string \<Rightarrow> nat \<Rightarrow> nat \<Rightarrow> int \<Rightarrow> route \<Rightarrow> SnmpResult \<Rightarrow> (route \<times> int \<times> SnmpResult outcome) option"
where
  "rounds env c oids i 0 cflag rt res = Some (rt, cflag, Ok res)"
| "rounds env c oids i (Suc n) cflag rt res =
     (case snmp_tasks (split_on CHR ''!'' oids) of
        Panic x \<Rightarrow> Some (rt, cflag, Panic x)
      | Err e \<Rightarrow> Some (rt, cflag, Err e)
      | Ok ts \<Rightarrow>
          (case run_tasks env c (map ((!) ts) (e_order env i (length ts))) cflag rt res of
             None \<Rightarrow> None
           | Some (rt', cflag', Ok res') \<Rightarrow> rounds env c oids (Suc i) n cflag' rt' res'
           | r \<Rightarrow> r))"

definition col_args ::
  "string \<Rightarrow> string \<Rightarrow> int \<Rightarrow> int \<Rightarrow> string \<Rightarrow> string \<Rightarrow> string \<Rightarrow> string \<Rightarrow> string \<Rightarrow> string \<Rightarrow> SNMPArguments"
where
  "col_args ip community timeout rtry username securitylevel authpass authprotcol privpass privprotcol =
     \<lparr>a_Version = 0, a_Network = [], a_Address = ip @ '':161'', a_Timeout = timeout, a_Retries = word_of_int rtry,
      a_MessageMaxSize = 0, a_Community = community, a_UserName = username, a_SecurityLevel = getsecuritylevel securitylevel,
      a_AuthPassword = authpass, a_AuthProtocol = authProtcol authprotcol, a_PrivPassword = privpass,
      a_PrivProtocol = privProtcol privprotcol, a_SecurityEngineId = [], a_ContextEngineId = [], a_ContextName = [],
      a_authEngineBoots = 0, a_authEngineTime = 0\<rparr>"

definition col_version :: "string \<Rightarrow> int" where
  "col_version v = (if v = ''v1'' then V1 else if v = ''v2c'' then V2c else if v = ''v3'' then V3 else V2c)"

text \<open>
  \<open>SnmpCol\<close>, for the arguments \<open>args\<close> built from the request. The deferred \<open>Free\<close> has the slot number \<open>Get\<close>
  returned, whatever the tasks make of \<open>cacheflag\<close>. A panic in a task ends the process; one of the handler
  itself (a method without an identifier) is raised after \<open>Free\<close>, and tasks started before are not followed.
\<close>

definition free_session :: "route_env \<Rightarrow> string \<Rightarrow> int \<Rightarrow> route \<Rightarrow> route outcome" where
  "free_session env ip c rt = and_then (Free (r_pool rt) ip c (e_freed env)) (\<lambda>p. Ok (rt\<lparr>r_pool := p\<rparr>))"

definition SnmpCol ::
  "route_env \<Rightarrow> string \<Rightarrow> string \<Rightarrow> string \<Rightarrow> SNMPArguments \<Rightarrow> string \<Rightarrow> int \<Rightarrow> route \<Rightarrow> (route \<times> SnmpResult outcome) option"
where
  "SnmpCol env ip oids snmpversion args securitylevel cnt rt =
     (let result = (snmp_error [])\<lparr>sr_Starttime := e_started env\<rparr>;
          args = args\<lparr>a_Version := col_version snmpversion\<rparr>
      in if snmpversion = ''v3'' \<and> a_SecurityLevel args < 0 then
           Some (rt, Ok (result\<lparr>sr_Error := ''unsupport securitylevel('' @ securitylevel @ '')''\<rparr>))
         else
           (case get_session env args ip rt of
              None \<Rightarrow> None
            | Some (rt1, Err e) \<Rightarrow> Some (rt1, Ok (result\<lparr>sr_Error := Error e\<rparr>))
            | Some (rt1, Panic x) \<Rightarrow> Some (rt1, Panic x)
            | Some (rt1, Ok (c, cacheflag)) \<Rightarrow>
                (case rounds env c oids 0 (nat cnt) cacheflag rt1 result of
                   None \<Rightarrow> None
                 | Some (rt2, _, r) \<Rightarrow>
                     (case free_session env ip cacheflag rt2 of
                        Ok rt3 \<Rightarrow> Some (rt3, and_then r (\<lambda>res. Ok (res\<lparr>sr_Endtime := e_ended env\<rparr>)))
                      | Err e \<Rightarrow> Some (rt2, Err e)
                      | Panic x \<Rightarrow> Some (rt2, Panic x)))))"

text \<open>With more than one round the values of an index are collected: \<open>retmap\<close> holds its position.\<close>

fun group_results :: "UnitResult list \<Rightarrow> (string \<rightharpoonup> nat) \<Rightarrow> nat \<Rightarrow> UnitResultMulti list \<Rightarrow> UnitResultMulti list" where
  "group_results [] retmap pos data = data"
| "group_results (v # vs) retmap pos data =
     (case retmap (u_Index v) of
        Some valuepos \<Rightarrow>
          group_results vs retmap pos
            (data[valuepos := (data ! valuepos)\<lparr>m_Value := m_Value (data ! valuepos) @ [u_Value v]\<rparr>])
      | None \<Rightarrow>
          group_results vs (retmap(u_Index v \<mapsto> pos)) (Suc pos)
            (data @ [\<lparr>m_Index = u_Index v, m_Value = [u_Value v], m_Error = u_Error v\<rparr>]))"

definition multi_result :: "SnmpResult \<Rightarrow> SnmpResultMulti" where
  "multi_result res =
     \<lparr>mr_Data = group_results (sr_Data res) Map.empty 0 [], mr_Starttime = sr_Starttime res,
      mr_Endtime = sr_Endtime res, mr_Error = sr_Error res\<rparr>"

text \<open>
  The handler: the form values, the order in which the check visits the parameter map, and the value handed to
  \<open>RouteJson\<close>.
\<close>

definition SnmpAgent ::
  "config \<Rightarrow> route_env \<Rightarrow> ((string \<times> string) list \<Rightarrow> (string \<times> string) list) \<Rightarrow> (string \<Rightarrow> string) \<Rightarrow> route \<Rightarrow>
     (route \<times> (SnmpResult + SnmpResultMulti) outcome) option"
where
  "SnmpAgent cfg env visit form rt =
     (let ip = form ''ip'';
          err = ParameterCheck (visit [(''seq'', form ''seq''), (''ip'', ip), (''oids'', form ''oids''), (''version'', form ''version'')])
      in if err \<noteq> [] then Some (rt, Ok (Inl (snmp_error err)))
         else
           (let timeout = Gettimeout (form ''timeout'') (Timeout cfg);
                rtry = Getretry (form ''retry'') (Retry cfg);
                cnt = GetparaStrtoInt (form ''count'') 1;
                args = col_args ip (form ''community'') timeout rtry (form ''username'') (form ''securitylevel'')
                  (form ''authpass'') (form ''authprotcol'') (form ''privpass'') (form ''privprotcol'')
            in map_option
                 (\<lambda>(rt', r). (rt', and_then r (\<lambda>res. Ok (if cnt > 1 then Inr (multi_result res) else Inl res))))
                 (SnmpCol env ip (form ''oids'') (form ''version'') args (form ''securitylevel'') cnt rt)))"

section \<open>The probe of the pool\<close>

definition testoid :: "oid list" where
  "testoid = (case NewOids [''.1.3.6.1.2.1.1.2.0''] of Ok os \<Rightarrow> os | _ \<Rightarrow> [])"

definition snmptest :: "crypto \<Rightarrow> network \<Rightarrow> nat \<Rightarrow> snmp \<Rightarrow> (snmp \<times> bool outcome) option" where
  "snmptest cr nt fuel s =
     (case client_GetRequest cr nt fuel s (map Some testoid) of
        None \<Rightarrow> None
      | Some (s', Panic x) \<Rightarrow> Some (s', Panic x)
      | Some (s', Err e) \<Rightarrow> Some (s', Ok False)
      | Some (s', Ok None) \<Rightarrow> Some (s', Ok False)
      | Some (s', Ok (Some p)) \<Rightarrow> Some (s', Ok (ErrorStatus p = NoError)))"

end
