(* ===== verification/SnmpRouteFacts.thy ===== *)
theory SnmpRouteFacts
  imports SnmpRoute
begin

text \<open>
  The properties of the SNMP request: which parameters are accepted, how repeated values are grouped, that a
  request gives its session back, and the two kinds of request that bring the agent down.
\<close>

section \<open>Parameters\<close>

definition mib_accepted :: "string \<Rightarrow> bool" where
  "mib_accepted mib =
     (case split_on CHR '':'' mib of
        [] \<Rightarrow> False
      | [x] \<Rightarrow> x \<in> {''table'', ''get''}
      | x # y # _ \<Rightarrow> x \<in> {''table'', ''get''} \<and> oid_chars y)"

lemma check_mibs_iff: "check_mibs mibs = [] \<longleftrightarrow> list_all mib_accepted mibs"
proof (induction mibs)
  case (Cons mib mibs)
  obtain x xs where "split_on CHR '':'' mib = x # xs" by (metis split_on_not_Nil neq_Nil_conv)
  then have "check_mibs (mib # mibs) = [] \<longleftrightarrow> mib_accepted mib \<and> check_mibs mibs = []"
    by (cases xs) (simp_all add: mib_accepted_def Let_def)
  with Cons.IH show ?case by simp
qed simp

lemma check_params_iff:
  "check_params m err = [] \<longleftrightarrow> err = [] \<and>
     list_all (\<lambda>(k, v). v \<noteq> [] \<and> (if k = ''oids'' then list_all mib_accepted (split_on CHR ''!'' v) else True)) m"
  by (induction m err rule: check_params.induct) (auto simp: check_mibs_iff Let_def)

text \<open>The parameter check accepts a request exactly when no parameter is empty and every entry of \<open>oids\<close> names
  the method \<open>table\<close> or \<open>get\<close> and, if it has an identifier part, only digits, dots and commas in it; the order in
  which the map is visited does not matter.\<close>

theorem ParameterCheck_iff:
  "ParameterCheck m = [] \<longleftrightarrow>
     list_all (\<lambda>(k, v). v \<noteq> [] \<and> (if k = ''oids'' then list_all mib_accepted (split_on CHR ''!'' v) else True)) m"
  by (simp add: ParameterCheck_def check_params_iff)

section \<open>Grouping\<close>

definition first_keys :: "UnitResult list \<Rightarrow> string list" where
  "first_keys data = rev (remdups (rev (map u_Index data)))"

definition grouped :: "UnitResult list \<Rightarrow> UnitResultMulti list" where
  "grouped data =
     map (\<lambda>k. \<lparr>m_Index = k, m_Value = map u_Value (filter (\<lambda>u. u_Index u = k) data),
       m_Error = u_Error (hd (filter (\<lambda>u. u_Index u = k) data))\<rparr>) (first_keys data)"

lemma set_first_keys [simp]: "set (first_keys data) = u_Index ` set data"
  by (simp add: first_keys_def)

lemma first_keys_snoc:
  "first_keys (data @ [v]) = (if u_Index v \<in> u_Index ` set data then first_keys data else first_keys data @ [u_Index v])"
  by (simp add: first_keys_def)

lemma grouped_new:
  "u_Index v \<notin> u_Index ` set data \<Longrightarrow>
     grouped (data @ [v]) = grouped data @ [\<lparr>m_Index = u_Index v, m_Value = [u_Value v], m_Error = u_Error v\<rparr>]"
proof -
  assume new: "u_Index v \<notin> u_Index ` set data"
  then have "filter (\<lambda>u. u_Index u = u_Index v) data = []"
    unfolding filter_empty_conv by (metis imageI)
  then show ?thesis using new by (auto simp: grouped_def first_keys_snoc)
qed

lemma grouped_known:
  assumes "p < length (grouped data)" "m_Index (grouped data ! p) = u_Index v"
  shows "grouped (data @ [v]) = (grouped data)[p := (grouped data ! p)\<lparr>m_Value := m_Value (grouped data ! p) @ [u_Value v]\<rparr>]"
proof -
  let ?ks = "first_keys data"
  have len: "length (grouped data) = length ?ks" by (simp add: grouped_def)
  have p: "p < length ?ks" "?ks ! p = u_Index v" using assms by (simp_all add: len) (simp add: grouped_def len)
  then have known: "u_Index v \<in> u_Index ` set data" by (metis nth_mem set_first_keys)
  have keys: "first_keys (data @ [v]) = ?ks" using known by (simp add: first_keys_snoc)
  have dist: "i = p" if "i < length ?ks" "?ks ! i = u_Index v" for i
    using that p by (metis distinct_remdups distinct_rev first_keys_def nth_eq_iff_index_eq)
  have ne: "filter (\<lambda>u. u_Index u = u_Index v) data \<noteq> []" using known by (auto simp: filter_empty_conv)
  show ?thesis
  proof (rule nth_equalityI)
    fix i assume "i < length (grouped (data @ [v]))"
    then have i: "i < length ?ks" by (simp add: grouped_def keys)
    show "grouped (data @ [v]) ! i =
        (grouped data)[p := (grouped data ! p)\<lparr>m_Value := m_Value (grouped data ! p) @ [u_Value v]\<rparr>] ! i"
      using i p dist [OF i] ne by (auto simp: grouped_def keys nth_list_update)
  qed (simp add: grouped_def keys)
qed

lemma group_results_from:
  assumes "\<And>k p. retmap k = Some p \<longleftrightarrow> p < length (grouped done') \<and> m_Index (grouped done' ! p) = k"
  shows "group_results vs retmap (length (grouped done')) (grouped done') = grouped (done' @ vs)"
  using assms
proof (induction vs arbitrary: done' retmap)
  case (Cons v vs)
  note inv = Cons.prems
  have keys: "map m_Index (grouped done') = first_keys done'" by (simp add: grouped_def comp_def)
  show ?case
  proof (cases "retmap (u_Index v)")
    case None
    have "u_Index v \<notin> set (map m_Index (grouped done'))"
    proof
      assume "u_Index v \<in> set (map m_Index (grouped done'))"
      then obtain p where "p < length (grouped done')" "m_Index (grouped done' ! p) = u_Index v" by (auto simp: in_set_conv_nth)
      with inv None show False by (metis option.distinct(1))
    qed
    then have new: "u_Index v \<notin> u_Index ` set done'" unfolding keys by simp
    note g = grouped_new [OF new]
    have "group_results vs (retmap(u_Index v \<mapsto> length (grouped done'))) (length (grouped (done' @ [v]))) (grouped (done' @ [v])) =
        grouped ((done' @ [v]) @ vs)"
    proof (rule Cons.IH)
      fix k p
      show "(retmap(u_Index v \<mapsto> length (grouped done'))) k = Some p \<longleftrightarrow>
          p < length (grouped (done' @ [v])) \<and> m_Index (grouped (done' @ [v]) ! p) = k"
        using inv [of k p] inv [of "u_Index v" p] None by (auto simp: g nth_append less_Suc_eq)
    qed
    then show ?thesis using None by (simp add: g)
  next
    case (Some p)
    then have p: "p < length (grouped done')" "m_Index (grouped done' ! p) = u_Index v" using inv by auto
    note g = grouped_known [OF p]
    have "group_results vs retmap (length (grouped (done' @ [v]))) (grouped (done' @ [v])) = grouped ((done' @ [v]) @ vs)"
    proof (rule Cons.IH)
      fix k q
      show "retmap k = Some q \<longleftrightarrow> q < length (grouped (done' @ [v])) \<and> m_Index (grouped (done' @ [v]) ! q) = k"
        using inv [of k q] p(1) by (cases "q = p") (simp_all add: g)
    qed
    then show ?thesis using Some by (simp add: g)
  qed
qed simp

text \<open>With several rounds the handler collects, for every index in the order of its first appearance, all its
  values in their order of arrival.\<close>

theorem group_results_eq: "group_results data Map.empty 0 [] = grouped data"
  using group_results_from [of Map.empty "[]" data] by (simp add: grouped_def first_keys_def)

section \<open>The session goes back to the pool\<close>

text \<open>What a part of a request may do to the pool: keep it well formed and make no further session busy.\<close>

definition releases :: "'s pool \<Rightarrow> 's pool \<Rightarrow> bool" where
  "releases sp sp' \<longleftrightarrow>
     pool_ok sp' \<and> (\<forall>ip i. case slot sp' ip i of None \<Rightarrow> True | Some s \<Rightarrow> Idle s \<or> slot sp ip i = Some s)"

lemma releases_refl: "pool_ok sp \<Longrightarrow> releases sp sp"
  by (simp add: releases_def split: option.split)

lemma releasesD:
  assumes "releases sp sp'" "slot sp' ip i = Some s"
  shows "Idle s \<or> slot sp ip i = Some s"
proof -
  have "case slot sp' ip i of None \<Rightarrow> True | Some s \<Rightarrow> Idle s \<or> slot sp ip i = Some s"
    using assms(1) by (simp add: releases_def)
  with assms(2) show ?thesis by simp
qed

lemma releases_trans: "releases sp sp' \<Longrightarrow> releases sp' sp'' \<Longrightarrow> releases sp sp''"
proof -
  assume a: "releases sp sp'" "releases sp' sp''"
  have "Idle s \<or> slot sp ip i = Some s" if s: "slot sp'' ip i = Some s" for ip i s
    using releasesD [OF a(2) s] releasesD [OF a(1)] by blast
  with a show ?thesis unfolding releases_def by (auto split: option.split)
qed

lemma Kick_releases:
  assumes "pool_ok sp" "Kick sp ip c = Ok (sp', closed)"
  shows "releases sp sp'"
proof -
  consider "sp' = sp" | l where "map_of sp ip = Some l" "sp' = AList.update ip (l[nat c := None]) sp" "nat c < length l"
  proof (cases "c \<ge> 0 \<and> map_of sp ip \<noteq> None")
    case True
    then obtain l where l: "map_of sp ip = Some l" by blast
    then obtain x where "idx l (nat c) = Ok x" "sp' = AList.update ip (l[nat c := None]) sp"
      using assms(2) True by (cases "idx l (nat c)") (auto simp: Kick_def split: option.splits)
    with l show thesis by (intro that(2)) (simp_all add: idx_def split: if_splits)
  next
    case False
    with assms(2) show thesis by (intro that(1)) (auto simp: Kick_def split: if_splits)
  qed
  then show ?thesis
  proof cases
    case 1
    with assms(1) show ?thesis by (simp add: releases_refl)
  next
    case (2 l)
    then have "slot sp' = set_slot (slot sp) ip (nat c) None" by (simp add: slot_list_update)
    moreover have "pool_ok sp'" using assms(1) 2 by (simp add: pool_ok_update pool_ok_length)
    ultimately show ?thesis
      by (auto simp: releases_def set_slot_def split: option.splits)
  qed
qed

lemma kick_session_releases:
  "pool_ok (r_pool rt) \<Longrightarrow> kick_session ip c rt = Ok rt' \<Longrightarrow> releases (r_pool rt) (r_pool rt')"
  by (auto simp: kick_session_def outcome_simps Kick_releases)

lemma SnmpGet_releases:
  assumes "pool_ok (r_pool rt)" "SnmpGet env oid c method cflag rt = Some (rt', cflag', Ok res)"
  shows "releases (r_pool rt) (r_pool rt')"
proof (cases "r_pool rt' = r_pool rt")
  case True
  with assms(1) show ?thesis by (simp add: releases_refl)
next
  case False
  then have "\<exists>cache cl ip. kick_session ip cflag (rt\<lparr>r_cache := cache, r_clients := cl\<rparr>) = Ok rt'"
    using assms(2) by (auto simp: SnmpGet_def Let_def split: prod.splits outcome.splits option.splits if_splits)
  then obtain cache cl ip where k: "kick_session ip cflag (rt\<lparr>r_cache := cache, r_clients := cl\<rparr>) = Ok rt'" by blast
  from kick_session_releases [OF _ k] assms(1) show ?thesis by simp
qed

lemma run_tasks_releases:
  "pool_ok (r_pool rt) \<Longrightarrow> run_tasks env c ts cflag rt res = Some (rt', cflag', Ok res') \<Longrightarrow> releases (r_pool rt) (r_pool rt')"
proof (induction ts arbitrary: cflag rt res)
  case (Cons t ts)
  obtain oid meth where t: "t = (oid, meth)" by (cases t)
  obtain rt1 cflag1 res1 where one: "SnmpGet env oid c meth cflag rt = Some (rt1, cflag1, Ok res1)"
      "run_tasks env c ts cflag1 rt1 (add_result res res1) = Some (rt', cflag', Ok res')"
    using Cons.prems(2) by (auto simp: t split: option.splits prod.splits outcome.splits)
  have r: "releases (r_pool rt) (r_pool rt1)" by (rule SnmpGet_releases [OF Cons.prems(1) one(1)])
  then have "pool_ok (r_pool rt1)" by (simp add: releases_def)
  from releases_trans [OF r Cons.IH [OF this one(2)]] show ?case .
qed (simp add: releases_refl)

lemma rounds_releases:
  "pool_ok (r_pool rt) \<Longrightarrow> rounds env c oids i n cflag rt res = Some (rt', cflag', Ok res') \<Longrightarrow> releases (r_pool rt) (r_pool rt')"
proof (induction n arbitrary: i cflag rt res)
  case (Suc n)
  obtain ts rt1 cflag1 res1 where one: "run_tasks env c ts cflag rt res = Some (rt1, cflag1, Ok res1)"
      "rounds env c oids (Suc i) n cflag1 rt1 res1 = Some (rt', cflag', Ok res')"
    using Suc.prems(2) by (auto split: option.splits prod.splits outcome.splits)
  have r: "releases (r_pool rt) (r_pool rt1)" by (rule run_tasks_releases [OF Suc.prems(1) one(1)])
  then have "pool_ok (r_pool rt1)" by (simp add: releases_def)
  from releases_trans [OF r Suc.IH [OF this one(2)]] show ?case .
qed (simp add: releases_refl)

text \<open>\<open>Get\<close> makes at most the slot it reports busy, and \<open>Free\<close> makes that one idle.\<close>

lemma Get_busy:
  assumes "pool_ok sp" "Get mx new open_sess now ip sp = (sp', Ok (h, c))"
  shows "pool_ok sp'" "slot sp' jp j = Some s \<Longrightarrow> Idle s \<or> slot sp jp j = Some s \<or> (jp = ip \<and> c = int j)"
proof -
  obtain sp1 hit c1 where g: "GetCacheSess sp ip now = (sp1, hit, c1)" by (cases "GetCacheSess sp ip now")
  have "pool_ok sp' \<and> (slot sp' jp j = Some s \<longrightarrow> Idle s \<or> slot sp jp j = Some s \<or> (jp = ip \<and> c = int j))"
  proof (cases hit)
    case (Some s1)
    with assms(2) g have "sp' = sp1" "c = c1" by (auto simp: Get_def split: if_splits)
    with g Some have "GetCacheSess sp ip now = (sp', Some s1, c)" by simp
    from GetCacheSess_hit [OF assms(1) this] show ?thesis by (auto simp: set_slot_def split: if_splits)
  next
    case None
    with g GetCacheSess_miss have miss: "sp1 = sp" by blast
    from assms(2) g None miss consider "sp' = sp" | "Save sp ip \<lparr>Sess = h, Idle = False, Atime = 0\<rparr> now = (sp', c)"
      by (auto simp: Get_def split: if_splits outcome.splits prod.splits)
    then show ?thesis
    proof cases
      case 1
      with assms(1) show ?thesis by simp
    next
      case 2
      show ?thesis
      proof (cases "has_room sp ip")
        case True
        from Save_room [OF assms(1) this 2] show ?thesis by (auto simp: set_slot_def split: if_splits)
      next
        case False
        then obtain l where l: "map_of sp ip = Some l" "None \<notin> set l"
          by (auto simp: has_room_def split: option.splits)
        then have "find_slot is_nil l = None" unfolding find_slot_None is_nil_def by (metis (mono_tags, lifting) option.case(2) option.exhaust)
        with l(1) 2 have "sp' = AList.update ip (Some \<lparr>Sess = h, Idle = False, Atime = now\<rparr> # replicate (MaxIdleSess - 1) None) sp" "c = 0"
          by (auto simp: Save_def Let_def)
        with assms(1) show ?thesis
          by (auto simp: pool_ok_update MaxIdleSess_def slot_update nth_Cons' split: if_splits)
      qed
    qed
  qed
  then show "pool_ok sp'" "slot sp' jp j = Some s \<Longrightarrow> Idle s \<or> slot sp jp j = Some s \<or> (jp = ip \<and> c = int j)" by auto
qed

lemma Get_Err: "Get mx new open_sess now ip sp = (sp', Err e) \<Longrightarrow> sp' = sp"
  by (auto simp: Get_def split: if_splits prod.splits option.splits outcome.splits dest: GetCacheSess_miss)

lemma get_session_Get:
  "get_session env args ip rt = Some (rt1, r) \<Longrightarrow> \<exists>new op. Get (e_Maxsesspool env) new op (e_got env) ip (r_pool rt) = (r_pool rt1, r)"
  by (auto simp: get_session_def Let_def split: if_splits prod.splits option.splits) (intro exI, assumption)+

lemma Free_pool_ok:
  assumes "pool_ok sp" "Free sp ip c now = Ok sp'"
  shows "pool_ok sp'"
proof (cases "0 \<le> c \<and> map_of sp ip \<noteq> None")
  case True
  then obtain l where l: "map_of sp ip = Some l" by blast
  with assms(2) True consider "sp' = sp" | x where "sp' = AList.update ip (l[nat c := x]) sp"
    by (cases "idx l (nat c)") (auto simp: Free_def split: option.splits)
  then show ?thesis using assms(1) l by cases (simp_all add: pool_ok_update pool_ok_length)
qed (use assms in \<open>auto simp: Free_def split: option.splits\<close>)

lemma Free_idle:
  assumes "pool_ok sp" "Free sp ip c now = Ok sp'" "slot sp' jp j = Some s"
  shows "(Idle s \<or> (slot sp jp j = Some s \<and> \<not> (jp = ip \<and> c = int j)))"
proof (cases "\<exists>u. 0 \<le> c \<and> slot sp ip (nat c) = Some u")
  case True
  then obtain u where u: "0 \<le> c" "slot sp ip (nat c) = Some u" by blast
  from Free_slot [OF assms(1) u(2), of now] u(1) assms(2,3) show ?thesis by (auto simp: set_slot_def split: if_splits)
next
  case False
  have "sp' = sp"
  proof (cases "0 \<le> c \<and> map_of sp ip \<noteq> None")
    case True
    then obtain l where l: "map_of sp ip = Some l" by blast
    with False True have "nat c < length l \<Longrightarrow> l ! nat c = None" by (auto simp: slot_def)
    with assms(2) True l show ?thesis by (cases "nat c < length l") (simp_all add: Free_def idx_def)
  qed (use assms(2) in \<open>auto simp: Free_def split: option.splits\<close>)
  with assms(1,3) False show ?thesis by auto
qed

lemma SnmpCol_cases:
  assumes "SnmpCol env ip oids version args level cnt rt = Some (rt', Ok res)"
  obtains (level) "r_pool rt' = r_pool rt"
  | (get) rt1 e where "get_session env (args\<lparr>a_Version := col_version version\<rparr>) ip rt = Some (rt1, Err e)" "rt' = rt1"
  | (full) rt1 c cf rt2 cf2 start res2 where
      "get_session env (args\<lparr>a_Version := col_version version\<rparr>) ip rt = Some (rt1, Ok (c, cf))"
      "rounds env c oids 0 (nat cnt) cf rt1 start = Some (rt2, cf2, Ok res2)" "free_session env ip cf rt2 = Ok rt'"
proof (cases "version = ''v3'' \<and> a_SecurityLevel args < 0")
  case True
  with assms show thesis by (intro level) (simp add: SnmpCol_def Let_def)
next
  case False
  note col = assms [unfolded SnmpCol_def Let_def]
  show thesis
  proof (cases "get_session env (args\<lparr>a_Version := col_version version\<rparr>) ip rt")
    case None
    with False col show thesis by auto
  next
    case (Some x)
    obtain rt1 r where x: "x = (rt1, r)" by (cases x)
    show thesis
    proof (cases r)
      case (Ok y)
      obtain c cf where y: "y = (c, cf)" by (cases y)
      show thesis
        using col False Some by (auto simp: x Ok y outcome_simps split: option.splits prod.splits outcome.splits
            intro: full [of rt1 c cf])
    qed (use get col False Some x in auto)
  qed
qed

text \<open>C8: A request that ends without a panic, with any number of rounds, tasks and errors, leaves the pool well formed
  and no session busy that was not busy before: its own session is idle again or was kicked.\<close>

theorem SnmpCol_returns_session:
  assumes "pool_ok (r_pool rt)" and "SnmpCol env ip oids version args level cnt rt = Some (rt', Ok res)"
  shows "pool_ok (r_pool rt') \<and>
    (\<forall>jp j. case slot (r_pool rt') jp j of None \<Rightarrow> True | Some s \<Rightarrow> Idle s \<or> slot (r_pool rt) jp j = Some s)"
proof -
  let ?args = "args\<lparr>a_Version := col_version version\<rparr>"
  consider "r_pool rt' = r_pool rt"
    | rt1 e where "get_session env ?args ip rt = Some (rt1, Err e)" "rt' = rt1"
    | rt1 c cf rt2 cf2 start res2 where "get_session env ?args ip rt = Some (rt1, Ok (c, cf))"
        "rounds env c oids 0 (nat cnt) cf rt1 start = Some (rt2, cf2, Ok res2)" "free_session env ip cf rt2 = Ok rt'"
    by (rule SnmpCol_cases [OF assms(2)])
  then show ?thesis
  proof cases
    case 1
    with assms(1) show ?thesis by (simp split: option.split)
  next
    case 2
    from get_session_Get [OF 2(1)] have "r_pool rt' = r_pool rt" using Get_Err 2(2) by blast
    with assms(1) show ?thesis by (simp split: option.split)
  next
    case 3
    from get_session_Get [OF 3(1)] obtain new op where get: "Get (e_Maxsesspool env) new op (e_got env) ip (r_pool rt) = (r_pool rt1, Ok (c, cf))"
      by blast
    note got = Get_busy [OF assms(1) get]
    have rel: "releases (r_pool rt1) (r_pool rt2)" by (rule rounds_releases [OF got(1) 3(2)])
    then have ok: "pool_ok (r_pool rt2)" by (simp add: releases_def)
    from 3(3) have free: "Free (r_pool rt2) ip cf (e_freed env) = Ok (r_pool rt')"
      by (auto simp: free_session_def outcome_simps)
    have "Idle s \<or> slot (r_pool rt) jp j = Some s" if s: "slot (r_pool rt') jp j = Some s" for jp j s
    proof (rule ccontr)
      assume "\<not> ?thesis"
      then have busy: "\<not> Idle s" "slot (r_pool rt) jp j \<noteq> Some s" by auto
      with Free_idle [OF ok free s] have "slot (r_pool rt2) jp j = Some s" "\<not> (jp = ip \<and> cf = int j)" by auto
      moreover from this(1) rel busy(1) have "slot (r_pool rt1) jp j = Some s"
        using releasesD by blast
      ultimately show False using got(2) busy by blast
    qed
    moreover have "pool_ok (r_pool rt')" by (rule Free_pool_ok [OF ok free])
    ultimately show ?thesis by (auto split: option.split)
  qed
qed

section \<open>Requests that bring the agent down\<close>

lemma split_on_length: "1 < length (split_on c s) \<longleftrightarrow> c \<in> set s"
  by (induction s) (auto simp: Let_def split: list.splits)

lemma snmp_tasks_missing:
  "list_all mib_accepted mibs \<Longrightarrow> \<exists>mib \<in> set mibs. CHR '':'' \<notin> set mib \<Longrightarrow> snmp_tasks mibs = Panic IndexOutOfRange"
proof (induction mibs)
  case (Cons mib mibs)
  obtain x xs where sp: "split_on CHR '':'' mib = x # xs" by (metis split_on_not_Nil neq_Nil_conv)
  then have x: "x = ''table'' \<or> x = ''get''" using Cons.prems(1) by (cases xs) (auto simp: mib_accepted_def)
  show ?case
  proof (cases "CHR '':'' \<in> set mib")
    case True
    then have "xs \<noteq> []" using split_on_length [of "CHR '':''" mib] sp by auto
    moreover have "snmp_tasks mibs = Panic IndexOutOfRange" using Cons True by auto
    ultimately show ?thesis using x by (cases xs) (auto simp: sp idx_def)
  next
    case False
    then have "xs = []" using split_on_length [of "CHR '':''" mib] sp by (cases xs) auto
    with x show ?thesis by (auto simp: sp idx_def)
  qed
qed simp

lemma Free_no_err: "Free sp ip c now \<noteq> Err e"
  by (auto simp: Free_def idx_def outcome_simps split: option.splits)

lemma SnmpCol_panics:
  assumes "get_session env (args\<lparr>a_Version := col_version version\<rparr>) ip rt = Some (rt1, Ok (c, cf))"
    and "version \<noteq> ''v3''" and "rounds env c oids 0 (nat cnt) cf rt1 ((snmp_error [])\<lparr>sr_Starttime := e_started env\<rparr>) = Some (rt2, cf2, Panic x)"
  shows "\<exists>rt' y. SnmpCol env ip oids version args level cnt rt = Some (rt', Panic y)"
proof (cases "Free (r_pool rt2) ip cf (e_freed env)")
  case (Err e)
  with Free_no_err show ?thesis by blast
qed (use assms in \<open>simp_all add: SnmpCol_def Let_def free_session_def\<close>)

text \<open>A request that passes the parameter check can name a method without an identifier; if a session is
  obtained the handler panics on it.\<close>

theorem missing_oid_panics:
  assumes "ParameterCheck [(''seq'', sq), (''ip'', ip), (''oids'', oids), (''version'', version)] = []"
    and "\<exists>mib \<in> set (split_on CHR ''!'' oids). CHR '':'' \<notin> set mib"
    and "get_session env (args\<lparr>a_Version := col_version version\<rparr>) ip rt = Some (rt1, Ok (c, cf))"
    and "version \<noteq> ''v3''" and "0 < cnt"
  shows "\<exists>rt' x. SnmpCol env ip oids version args level cnt rt = Some (rt', Panic x)"
proof -
  obtain n where n: "nat cnt = Suc n" using assms(5) by (cases "nat cnt") auto
  have "list_all mib_accepted (split_on CHR ''!'' oids)"
    using assms(1) unfolding ParameterCheck_def check_params_iff by simp
  then have "snmp_tasks (split_on CHR ''!'' oids) = Panic IndexOutOfRange" using assms(2) by (rule snmp_tasks_missing)
  then show ?thesis by (intro SnmpCol_panics [OF assms(3,4)]) (simp add: n)
qed

text \<open>A client with a negative retry count and no connection.\<close>

definition idle_client :: "snmp \<Rightarrow> bool" where
  "idle_client s \<longleftrightarrow> \<not> s_conn s \<and> int_Retries s < 0 \<and> a_Version (s_args s) = V2c"

lemma idle_client_Open:
  assumes "idle_client s"
  shows "\<exists>s'. Open cr nt send s = Some (s', Ok ()) \<and> idle_client s' \<and> int_Retries s' = int_Retries s"
  using assms
  by (auto simp: idle_client_def Open_def dial_negative Discover_def newSNMPEngine_def newSecurity_def int_Retries_def
      version_defs Let_def is_ok_iff)

lemma idle_client_sendPdu:
  assumes "idle_client s"
  shows "\<exists>s'. sendPdu cr nt (Suc f) s p = Some (s', Ok None) \<and> idle_client s'"
proof -
  obtain s' where s': "Open cr nt (sendPdu cr nt f) s = Some (s', Ok ())" "idle_client s'"
    using idle_client_Open [OF assms] by blast
  then have "nat (int_Retries s' + 1) = 0" by (simp add: idle_client_def)
  with s' show ?thesis by (simp add: sendPdu.simps(2))
qed

lemma start_walk_pairs: "bs \<noteq> [] \<Longrightarrow> w_pairs (start_walk (map Some bs) 0) \<noteq> []"
proof -
  assume "bs \<noteq> []"
  have none: "None \<notin> (\<lambda>x. x) ` set (map Some bs)" by auto
  obtain ys where "uniq under_oid (map (\<lambda>x. x) (Oids_Sort (map Some bs))) = map Some ys"
    "\<forall>x \<in> set (map Some bs). \<exists>y \<in> set ys. prefix y (the x)"
    by (rule oids.base_keys [OF none])
  with \<open>bs \<noteq> []\<close> show ?thesis by (cases bs) (auto simp: start_walk_def Oids_UniqBase_def)
qed

lemma idle_client_request:
  assumes s: "idle_client s" and m: "method = ''get'' \<or> method = ''walk''" and fuel: "e_fuel env = Suc f" and os: "os \<noteq> []"
  shows "\<exists>s' r. snmp_request env c method s os = Some (s', r) \<and> (r = Ok None \<or> r = Panic NilDereference)"
proof -
  have ver: "a_Version (s_args s) = V2c" using s by (simp add: idle_client_def)
  have new: "\<exists>p. NewPduWithOids V2c t xs = Ok (Some p)" for t xs
    using append_all_Some by (simp add: NewPduWithOids_def NewPdu_def Let_def) blast
  show ?thesis
  proof (cases "method = ''get''")
    case True
    obtain p where "NewPduWithOids V2c GetRequest (map Some os) = Ok (Some p)" using new by blast
    with idle_client_sendPdu [OF s, of "e_crypto env" "e_net env c" f p] True ver fuel show ?thesis
      by (auto simp: snmp_request_def client_GetRequest_def send_new_def)
  next
    case False
    obtain p where p: "NewPduWithOids V2c GetBulkRequest xs = Ok (Some (p xs))" for xs using new by metis
    have "\<exists>s'. client_GetBulkRequest (e_crypto env) (e_net env c) (Suc f) s xs 0 1 = Some (s', Ok None)" for xs
      using idle_client_sendPdu [OF s, of "e_crypto env" "e_net env c" f "SetMaxRepetitions 1 (SetNonrepeaters 0 (p xs))"]
      by (auto simp: client_GetBulkRequest_def ver version_defs MaxInt32_def p [unfolded version_defs] send_new_def)
    then obtain s' where "client_GetBulkRequest (e_crypto env) (e_net env c) (Suc f) s (map snd (w_pairs (start_walk (map Some os) 0))) 0 1 =
        Some (s', Ok None)"
      by blast
    moreover have "w_nonRepeaters (start_walk (map Some os) 0) = 0" by (simp add: start_walk_def)
    ultimately show ?thesis
      using False fuel start_walk_pairs [OF os] by (auto simp: snmp_request_def client_GetBulkWalk_def GetBulkWalk_eq)
  qed
qed

lemma idle_client_SnmpGet:
  assumes "r_clients rt c = Some s" and s: "idle_client s" and "cache_ok (r_cache rt)"
    and "NewOids (split_on CHR '','' oid) = Ok os" and m: "method = ''get'' \<or> method = ''walk''" and fuel: "e_fuel env = Suc f"
  shows "\<exists>rt'. SnmpGet env oid c method cflag rt = Some (rt', cflag, Panic NilDereference)"
proof -
  obtain cache where cache: "GetParseOids (r_cache rt) (split_on CHR '','' oid) = (cache, Ok os)"
    using GetParseOids_eq [OF assms(3), of "split_on CHR '','' oid"] assms(4) by (metis prod.exhaust_sel)
  have "os \<noteq> []" using assms(4) by (cases "split_on CHR '','' oid") (auto simp: outcome_simps)
  then obtain s' r where "snmp_request env c method s os = Some (s', r)" "r = Ok None \<or> r = Panic NilDereference"
    using idle_client_request [OF s m fuel] by blast
  then show ?thesis using m by (auto simp: SnmpGet_def cache assms(1))
qed

text \<open>A negative retry count in the request brings the agent down: with version 2c, a new address and well-formed
  identifiers the session opens without a connection and without an error, every request returns neither a
  PDU nor an error, and the task dereferences it.\<close>

theorem negative_retry_crashes:
  assumes "rtry < 0" and "in_int64 rtry" and "pool_ok (r_pool rt)" and "int (PoolLen (r_pool rt)) < e_Maxsesspool env"
    and "map_of (r_pool rt) ip = None" and "cache_ok (r_cache rt)" and "0 < cnt" and "e_fuel env = Suc f"
    and "snmp_tasks (split_on CHR ''!'' oids) = Ok ts" and "ts \<noteq> []" and "mset (e_order env 0 (length ts)) = mset [0..<length ts]"
    and "list_all (\<lambda>(x, method). (method = ''get'' \<or> method = ''walk'') \<and> is_ok (NewOids (split_on CHR '','' x))) ts"
  shows "\<exists>rt' x. SnmpCol env ip oids ''v2c'' (col_args ip community timeout rtry user level authp auth privp priv) level cnt rt =
    Some (rt', Panic x)"
proof -
  let ?args = "(col_args ip community timeout rtry user level authp auth privp priv)\<lparr>a_Version := col_version ''v2c''\<rparr>"
  have ver: "col_version ''v2c'' = V2c" by (simp add: col_version_def)
  have "sint (word_of_int rtry :: 64 word) = rtry" using assms(2) by (simp add: sint_sbintrunc' signed_take_bit_int_eq_self in_int64_def)
  moreover have "a_Retries (setDefault ?args) = word_of_int rtry" "a_Version (setDefault ?args) = V2c"
    by (simp_all add: setDefault_def Let_def col_args_def ver)
  moreover have "validate ?args = Ok ?args" by (simp add: validate_def col_args_def ver version_defs MaxInt32_def)
  ultimately obtain s where new: "NewSNMP (e_mesId env) ?args = Ok s" "idle_client s"
    using assms(1) by (simp add: NewSNMP_def idle_client_def int_Retries_def)
  obtain s' where op: "Open (e_crypto env) (e_net env (r_next rt)) (sender_of env (r_next rt)) s = Some (s', Ok ())" "idle_client s'"
    using idle_client_Open [OF new(2)] by blast
  obtain p cf where sv: "Save (r_pool rt) ip \<lparr>Sess = r_next rt, Idle = False, Atime = 0\<rparr> (e_got env) = (p, cf)"
    by (metis surj_pair)
  define rt1 where "rt1 = rt\<lparr>r_pool := p, r_clients := (r_clients rt)(r_next rt \<mapsto> s'), r_next := Suc (r_next rt)\<rparr>"
  have miss: "GetCacheSess (r_pool rt) ip (e_got env) = (r_pool rt, None, - 1)" using assms(5) by (simp add: GetCacheSess_def)
  have got: "get_session env ?args ip rt = Some (rt1, Ok (r_next rt, cf))"
    using assms(4) by (simp add: get_session_def Let_def new op miss Get_def sv rt1_def)
  obtain i js where order: "e_order env 0 (length ts) = i # js"
  proof -
    have "length (e_order env 0 (length ts)) = length ts" using arg_cong [OF assms(11), of size] by simp
    with assms(10) show thesis by (cases "e_order env 0 (length ts)") (auto intro: that)
  qed
  then have "i < length ts" using assms(11) by (metis add_mset_commute atLeastLessThan_iff list.set_intros(1) mset_eq_setD set_upt)
  obtain x meth where t: "ts ! i = (x, meth)" by (cases "ts ! i")
  then have "meth = ''get'' \<or> meth = ''walk''" "is_ok (NewOids (split_on CHR '','' x))"
    using assms(12) \<open>i < length ts\<close> by (auto simp: list_all_length)
  then obtain os where os: "NewOids (split_on CHR '','' x) = Ok os" "meth = ''get'' \<or> meth = ''walk''" by (auto simp: is_ok_iff)
  have "cache_ok (r_cache rt1)" "r_clients rt1 (r_next rt) = Some s'" using assms(6) by (simp_all add: rt1_def)
  from idle_client_SnmpGet [OF this(2) op(2) this(1) os assms(8)]
  obtain rt2 where one: "SnmpGet env x (r_next rt) meth cf rt1 = Some (rt2, cf, Panic NilDereference)" by blast
  obtain n where n: "nat cnt = Suc n" using assms(7) by (cases "nat cnt") auto
  have "rounds env (r_next rt) oids 0 (nat cnt) cf rt1 ((snmp_error [])\<lparr>sr_Starttime := e_started env\<rparr>) =
      Some (rt2, cf, Panic NilDereference)"
    by (simp add: n assms(9) order t one)
  from SnmpCol_panics [OF got _ this] show ?thesis by simp
qed

section \<open>Concrete requests\<close>

definition demo_route :: route where
  "demo_route = \<lparr>r_pool = [], r_clients = Map.empty, r_next = 0, r_cache = Map.empty\<rparr>"

definition demo_route_env :: route_env where
  "demo_route_env =
     \<lparr>e_crypto = demo_crypto, e_net = (\<lambda>_. demo_network), e_fuel = 2, e_Maxsesspool = 10, e_mesId = 0, e_got = 1, e_freed = 2,
      e_started = ''start'', e_ended = ''end'', e_order = (\<lambda>i n. [0..<n])\<rparr>"

definition demo_col_args :: "int \<Rightarrow> SNMPArguments" where
  "demo_col_args rtry = col_args ''10.0.0.1'' ''public'' Second rtry [] [] [] [] [] []"

text \<open>Every write times out: the request reports the error and its session is kicked.\<close>

lemma demo_col_run:
  "\<exists>rt' res. SnmpCol demo_route_env ''10.0.0.1'' ''get:1.3.6.1'' ''v2c'' (demo_col_args 0) [] 1 demo_route = Some (rt', Ok res)"
proof -
  have "case SnmpCol demo_route_env ''10.0.0.1'' ''get:1.3.6.1'' ''v2c'' (demo_col_args 0) [] 1 demo_route of
      Some (rt', r) \<Rightarrow> is_ok r | None \<Rightarrow> False"
    by code_simp
  then show ?thesis by (auto simp: is_ok_iff split: option.splits)
qed

theorem SnmpCol_returns_session_witness:
  "\<exists>rt' res. SnmpCol demo_route_env ''10.0.0.1'' ''get:1.3.6.1'' ''v2c'' (demo_col_args 0) [] 1 demo_route = Some (rt', Ok res) \<and>
     pool_ok (r_pool rt')"
proof -
  have "pool_ok (r_pool demo_route)" by (simp add: demo_route_def pool_ok_def)
  with demo_col_run SnmpCol_returns_session show ?thesis by blast
qed

theorem missing_oid_panics_witness:
  "\<exists>rt' x. SnmpCol demo_route_env ''10.0.0.1'' ''get'' ''v2c'' (demo_col_args 0) [] 1 demo_route = Some (rt', Panic x)"
proof -
  have "case get_session demo_route_env ((demo_col_args 0)\<lparr>a_Version := col_version ''v2c''\<rparr>) ''10.0.0.1'' demo_route of
      Some (rt', r) \<Rightarrow> is_ok r | None \<Rightarrow> False"
    by code_simp
  then obtain rt1 c cf where
    "get_session demo_route_env ((demo_col_args 0)\<lparr>a_Version := col_version ''v2c''\<rparr>) ''10.0.0.1'' demo_route = Some (rt1, Ok (c, cf))"
    by (auto simp: is_ok_iff split: option.splits)
  moreover have "ParameterCheck [(''seq'', ''1''), (''ip'', ''10.0.0.1''), (''oids'', ''get''), (''version'', ''v2c'')] = []"
    by code_simp
  moreover have "\<exists>mib \<in> set (split_on CHR ''!'' ''get''). CHR '':'' \<notin> set mib" by code_simp
  ultimately show ?thesis using missing_oid_panics by simp
qed

theorem negative_retry_crashes_witness:
  "\<exists>rt' x. SnmpCol demo_route_env ''10.0.0.1'' ''get:1.3.6.1'' ''v2c'' (demo_col_args (- 1)) [] 1 demo_route = Some (rt', Panic x)"
  unfolding demo_col_args_def
proof (rule negative_retry_crashes)
  show "snmp_tasks (split_on CHR ''!'' ''get:1.3.6.1'') = Ok [(''1.3.6.1'', ''get'')]" by code_simp
  show "list_all (\<lambda>(x, method). (method = ''get'' \<or> method = ''walk'') \<and> is_ok (NewOids (split_on CHR '','' x)))
      [(''1.3.6.1'', ''get'')]"
    by code_simp
  show "e_fuel demo_route_env = Suc 1" by (simp add: demo_route_env_def)
qed (simp_all add: demo_route_def demo_route_env_def pool_ok_def in_int64_def PoolLen_def cache_ok_def)

end
