(* ===== verification/TrapServer.thy ===== *)
theory TrapServer
  imports ClientFacts
begin

text \<open>
  The trap receiver of \<open>snmpgo\<close>: \<open>server.go\<close>, \<open>transport.go\<close> and \<open>newSecurityFromEntry\<close> of \<open>security.go\<close>. The first
  half is what happens to one packet; the goroutines of \<open>Serve\<close> and \<open>Close\<close> are in \<open>TrapServing\<close>. Each packet
  is handled in a goroutine of its own; one handling is one step here. (In the code the state of a user is
  shared without a lock.)
\<close>

section \<open>Arguments\<close>

definition maxTrapSize :: int where "maxTrapSize = 4096"

record ServerArguments =
  sa_Network :: string
  sa_LocalAddr :: string
  sa_WriteTimeout :: int
  sa_MessageMaxSize :: int

definition server_setDefault :: "ServerArguments \<Rightarrow> ServerArguments" where
  "server_setDefault a =
     (let a = (if sa_Network a = [] then a\<lparr>sa_Network := ''udp''\<rparr> else a);
          a = (if sa_WriteTimeout a \<le> 0 then a\<lparr>sa_WriteTimeout := timeoutDefault\<rparr> else a)
      in if sa_MessageMaxSize a = 0 then a\<lparr>sa_MessageMaxSize := maxTrapSize\<rparr> else a)"

definition server_validate :: "ServerArguments \<Rightarrow> unit outcome" where
  "server_validate a =
     (if sa_Network a \<notin> {[], ''udp'', ''udp4'', ''udp6''} then
        argument_error (sa_Network a) (''Unsupported Network: '' @ sa_Network a)
      else if (sa_MessageMaxSize a \<noteq> 0 \<and> sa_MessageMaxSize a < msgSizeMinimum) \<or> sa_MessageMaxSize a > MaxInt32 then
        argument_error (itoa (sa_MessageMaxSize a))
          (''MessageMaxSize is range '' @ itoa msgSizeMinimum @ ''..'' @ itoa MaxInt32)
      else Ok ())"

record SecurityEntry =
  se_Version :: int
  se_Community :: string
  se_UserName :: string
  se_SecurityLevel :: int
  se_AuthPassword :: string
  se_AuthProtocol :: string
  se_PrivPassword :: string
  se_PrivProtocol :: string
  se_SecurityEngineId :: string

definition entry_credentials :: "SecurityEntry \<Rightarrow> unit outcome" where
  "entry_credentials a =
     (if length (se_UserName a) < 1 \<or> length (se_UserName a) > 32 then
        argument_error (se_UserName a) ''UserName length is range 1..32''
      else if se_SecurityLevel a > NoAuthNoPriv \<and> length (se_AuthPassword a) < 8 then
        argument_error (se_AuthPassword a) ''AuthPassword is at least 8 characters in length''
      else if se_SecurityLevel a > NoAuthNoPriv \<and> se_AuthProtocol a \<noteq> Md5 \<and> se_AuthProtocol a \<noteq> Sha then
        argument_error (se_AuthProtocol a) ''Illegal AuthProtocol''
      else if se_SecurityLevel a > AuthNoPriv \<and> length (se_PrivPassword a) < 8 then
        argument_error (se_PrivPassword a) ''PrivPassword is at least 8 characters in length''
      else if se_SecurityLevel a > AuthNoPriv \<and> se_PrivProtocol a \<noteq> Des \<and> se_PrivProtocol a \<noteq> Aes then
        argument_error (se_PrivProtocol a) ''Illegal PrivProtocol''
      else Ok ())"

text \<open>\<open>validate\<close> also strips the prefix of the engine id, so it returns the entry.\<close>

definition entry_validate :: "SecurityEntry \<Rightarrow> SecurityEntry outcome" where
  "entry_validate a =
     (if se_Version a \<noteq> V2c \<and> se_Version a \<noteq> V3 then
        argument_error (SNMPVersion_String (se_Version a)) ''Unsupported SNMP Version''
      else if se_Version a = V3 then
        and_then (entry_credentials a) (\<lambda>_.
          if se_SecurityEngineId a \<noteq> [] then
            (let s = stripHexPrefix (se_SecurityEngineId a) in
             and_then (engineIdToBytes s) (\<lambda>_. Ok (a\<lparr>se_SecurityEngineId := s\<rparr>)))
          else Ok a)
      else Ok a)"

definition newSecurityFromEntry :: "crypto \<Rightarrow> SecurityEntry \<Rightarrow> security option outcome" where
  "newSecurityFromEntry cr entry =
     (if se_Version entry = V1 \<or> se_Version entry = V2c then Ok (Some (Community (bytes_of_string (se_Community entry))))
      else if se_Version entry = V3 then
        (let sec = set_credentials (se_SecurityLevel entry) (se_AuthPassword entry) (se_AuthProtocol entry)
               (se_PrivPassword entry) (se_PrivProtocol entry) (new_usm (se_UserName entry))
         in if length (se_SecurityEngineId entry) > 0 then
              and_then (SetAuthEngineId cr (case engineIdToBytes (se_SecurityEngineId entry) of Ok b \<Rightarrow> b | _ \<Rightarrow> []) sec)
                (\<lambda>sec. Ok (Some (Usm (sec\<lparr>u_DiscoveryStatus := remoteReference\<rparr>))))
            else Ok (Some (Usm sec)))
      else Ok None)"

section \<open>The server\<close>

record trap_server =
  ts_args :: ServerArguments
  ts_mps :: "int \<rightharpoonup> messageProcessing"
  ts_secs :: "int \<rightharpoonup> securityMap"

definition NewTrapServer :: "ServerArguments \<Rightarrow> trap_server outcome" where
  "NewTrapServer args =
     and_then (server_validate args) (\<lambda>_.
       Ok \<lparr>ts_args = server_setDefault args, ts_mps = [V2c \<mapsto> MpV1 V2c, V3 \<mapsto> MpV3 V3], ts_secs = [V2c \<mapsto> [], V3 \<mapsto> []]\<rparr>)"

text \<open>The maps of securities have the two versions an entry can have.\<close>

definition change_security ::
  "crypto \<Rightarrow> (security \<Rightarrow> securityMap \<Rightarrow> securityMap) \<Rightarrow> SecurityEntry \<Rightarrow> trap_server \<Rightarrow> trap_server outcome"
where
  "change_security cr change entry s =
     and_then (entry_validate entry) (\<lambda>entry.
     and_then (newSecurityFromEntry cr entry) (\<lambda>sec.
       case (sec, ts_secs s (se_Version entry)) of
         (Some sec, Some m) \<Rightarrow> Ok (s\<lparr>ts_secs := (ts_secs s)(se_Version entry \<mapsto> change sec m)\<rparr>)
       | _ \<Rightarrow> Panic NilDereference))"

definition AddSecurity :: "crypto \<Rightarrow> SecurityEntry \<Rightarrow> trap_server \<Rightarrow> trap_server outcome" where
  "AddSecurity cr entry s = change_security cr securityMap_Set entry s"

definition DeleteSecurity :: "crypto \<Rightarrow> SecurityEntry \<Rightarrow> trap_server \<Rightarrow> trap_server outcome" where
  "DeleteSecurity cr entry s = change_security cr securityMap_Delete entry s"

section \<open>The transport\<close>

text \<open>
  What a call of the packet connection gives; an error is temporary or a time-out or not. The loops end at the
  first result that is no temporary error; \<open>None\<close> is the end of the fuel.
\<close>

datatype io_error = IoError (temporary: bool) (timeout: bool) (is_net: bool) (io_text: string)

datatype 'a io = IoOk 'a | IoErr io_error

definition io_go :: "io_error \<Rightarrow> go_error" where
  "io_go e = (if is_net e then NetError (timeout e) (io_text e) else PlainError (io_text e))"

fun packet_ReadFrom :: "nat \<Rightarrow> (nat \<Rightarrow> (string \<times> bytes) io) \<Rightarrow> nat \<Rightarrow> (string \<times> bytes) io option" where
  "packet_ReadFrom 0 recv i = None"
| "packet_ReadFrom (Suc fuel) recv i =
     (case recv i of
        IoErr e \<Rightarrow> if is_net e \<and> temporary e then packet_ReadFrom fuel recv (Suc i) else Some (IoErr e)
      | r \<Rightarrow> Some r)"

text \<open>\<open>Read\<close>: the packet is cut to the buffer and decoded; a message that does not decode is nil.\<close>

definition packet_decode :: "nat \<Rightarrow> bytes \<Rightarrow> (message option \<times> go_error option) outcome" where
  "packet_decode len pkt =
     (case unmarshalMessage (take len pkt) of
        Ok (msg, _) \<Rightarrow> Ok (Some msg, None)
      | Err e \<Rightarrow> Ok (None, Some e)
      | Panic x \<Rightarrow> Panic x)"

fun packet_WriteTo :: "nat \<Rightarrow> (nat \<Rightarrow> io_error option) \<Rightarrow> nat \<Rightarrow> unit outcome option" where
  "packet_WriteTo 0 wr i = None"
| "packet_WriteTo (Suc fuel) wr i =
     (case wr i of
        None \<Rightarrow> Some (Ok ())
      | Some e \<Rightarrow>
          if is_net e \<and> temporary e \<and> \<not> timeout e then packet_WriteTo fuel wr (Suc i) else Some (Err (io_go e)))"

definition packet_Write :: "nat \<Rightarrow> io_error option \<Rightarrow> (nat \<Rightarrow> io_error option) \<Rightarrow> unit outcome option" where
  "packet_Write fuel deadline wr =
     (case deadline of Some e \<Rightarrow> Some (Err (io_go e)) | None \<Rightarrow> packet_WriteTo fuel wr 0)"

section \<open>One message\<close>

record TrapRequest =
  t_Pdu :: "pdu option"
  t_Source :: string
  t_Error :: "go_error option"

text \<open>
  What handling a message leaves: what the listener got, the responses written, and the text of a panic, which
  \<open>handle\<close> recovers from and logs, or of an error in the response.
\<close>

record handled =
  h_trap :: "TrapRequest option"
  h_sent :: "bytes list"
  h_panic :: "go_panic option"
  h_failed :: "go_error option"

definition store_security :: "int \<Rightarrow> message \<Rightarrow> security \<Rightarrow> trap_server \<Rightarrow> trap_server" where
  "store_security v msg sec s =
     s\<lparr>ts_secs := (ts_secs s)(v := map_option (\<lambda>m. AList.update (message_id msg) sec m) (ts_secs s v))\<rparr>"

text \<open>The look-up of the processing model and the user; a user's state lives in its entry of the map.\<close>

definition handle_message :: "crypto \<Rightarrow> draws \<Rightarrow> trap_server \<Rightarrow> message \<Rightarrow> trap_server \<times> pdu outcome" where
  "handle_message cr d s msg =
     (let v = Version msg in
      case ts_mps s v of
        None \<Rightarrow> (s, Err (MessageError None (''Unsupported SNMP version: '' @ SNMPVersion_String v)))
      | Some mp \<Rightarrow>
          (case ts_secs s v of
             None \<Rightarrow> (s, Panic NilDereference)
           | Some m \<Rightarrow>
               (case securityMap_Lookup msg m of
                  None \<Rightarrow> (s, Err (MessageError None ''Authentication failure''))
                | Some sec \<Rightarrow>
                    (case PrepareDataElements cr d mp sec msg None of
                       (sec', r) \<Rightarrow> (store_security v msg sec' s, r)))))"

definition accepted_type :: "pdu \<Rightarrow> pdu outcome" where
  "accepted_type p =
     (if PduType p = SNMPTrapV2 \<or> PduType p = InformRequest then Ok p
      else Err (MessageError None (''Invalid PduType: '' @ PduType_String (PduType p) @ '' '')))"

text \<open>
  \<open>informResponse\<close>, for the PDU \<open>p\<close> decoded into the message. Version 3 has no response yet: its nil message is
  marshalled.
\<close>

fun PrepareResponseMessage ::
  "crypto \<Rightarrow> draws \<Rightarrow> messageProcessing \<Rightarrow> security \<Rightarrow> pdu \<Rightarrow> message \<Rightarrow> security \<times> message option outcome"
where
  "PrepareResponseMessage cr d (MpV1 version) sec p recvMsg =
     (case V1_PrepareResponseMessage cr d version sec p recvMsg of
        (sec', _, r) \<Rightarrow> (sec', and_then r (\<lambda>m. Ok (Some m))))"
| "PrepareResponseMessage cr d (MpV3 version) sec p recvMsg = (sec, Ok None)"

fun with_pdu :: "pdu \<Rightarrow> message \<Rightarrow> message" where
  "with_pdu p (MsgV1 m) = MsgV1 (m\<lparr>msg_pdu := p\<rparr>)"
| "with_pdu p (MsgV3 m) = MsgV3 (m\<lparr>msg_base := (msg_base m)\<lparr>msg_pdu := p\<rparr>\<rparr>)"

definition informResponse :: "crypto \<Rightarrow> draws \<Rightarrow> messageProcessing \<Rightarrow> security \<Rightarrow> message \<Rightarrow> pdu \<Rightarrow> security \<times> bytes outcome" where
  "informResponse cr d mp sec msg p =
     (case NewPduWithVarBinds (Version msg) GetResponse (VarBinds p) of
        Ok (Some respPdu) \<Rightarrow>
          (case PrepareResponseMessage cr d mp sec respPdu (with_pdu p msg) of
             (sec', r) \<Rightarrow>
               (sec', and_then r (\<lambda>m. case m of None \<Rightarrow> Panic NilDereference | Some m \<Rightarrow> Ok (Message_Marshal m))))
      | _ \<Rightarrow> (sec, Panic NilDereference))"

definition answer_inform ::
  "crypto \<Rightarrow> draws \<Rightarrow> (bytes \<Rightarrow> unit outcome) \<Rightarrow> trap_server \<Rightarrow> message \<Rightarrow> TrapRequest \<Rightarrow> pdu \<Rightarrow> trap_server \<times> handled"
where
  "answer_inform cr d send s msg trap p =
     (let v = Version msg; done' = \<lparr>h_trap = Some trap, h_sent = [], h_panic = None, h_failed = None\<rparr> in
      case (ts_mps s v, map_option (securityMap_Lookup msg) (ts_secs s v)) of
        (Some mp, Some (Some sec)) \<Rightarrow>
          (case informResponse cr d mp sec msg p of
             (sec', r) \<Rightarrow>
               (store_security v msg sec' s,
                case r of
                  Panic x \<Rightarrow> done'\<lparr>h_panic := Some x\<rparr>
                | Err e \<Rightarrow> done'\<lparr>h_failed := Some e\<rparr>
                | Ok pkt \<Rightarrow>
                    (case send pkt of
                       Ok _ \<Rightarrow> done'\<lparr>h_sent := [pkt]\<rparr>
                     | Err e \<Rightarrow> done'\<lparr>h_failed := Some e\<rparr>
                     | Panic x \<Rightarrow> done'\<lparr>h_panic := Some x\<rparr>)))
      | _ \<Rightarrow> (s, done'))"

definition handle ::
  "crypto \<Rightarrow> draws \<Rightarrow> (TrapRequest \<Rightarrow> go_panic option) \<Rightarrow> (bytes \<Rightarrow> unit outcome) \<Rightarrow> trap_server \<Rightarrow> string \<Rightarrow>
     message option \<times> go_error option \<Rightarrow> trap_server \<times> handled"
where
  "handle cr d OnTRAP send s src arrived =
     (let finish = (\<lambda>s pdu err.
            let trap = \<lparr>t_Pdu = pdu, t_Source = src, t_Error = err\<rparr>;
                h = \<lparr>h_trap = Some trap, h_sent = [], h_panic = OnTRAP trap, h_failed = None\<rparr>
            in case (OnTRAP trap, pdu, fst arrived) of
                 (None, Some p, Some msg) \<Rightarrow>
                   if PduType p = InformRequest then answer_inform cr d send s msg trap p else (s, h)
               | _ \<Rightarrow> (s, h))
      in case arrived of
           (None, err) \<Rightarrow> finish s None err
         | (Some msg, _) \<Rightarrow>
             (case handle_message cr d s msg of
                (s', r) \<Rightarrow>
                  (case and_then r accepted_type of
                     Ok p \<Rightarrow> finish s' (Some p) None
                   | Err e \<Rightarrow> finish s' None (Some e)
                   | Panic x \<Rightarrow> (s', \<lparr>h_trap = None, h_sent = [], h_panic = Some x, h_failed = None\<rparr>))))"

end
