(* ===== verification/TrapFacts.thy ===== *)
theory TrapFacts
  imports TrapServer
begin

text \<open>
  What a listener of the trap server may rely on: the users of the server are those of the entries added and not
  deleted since, and a version 3 trap handed to the listener was sent by one of them. An entry without an engine
  id breaks the second claim. Then the responses to informs.
\<close>

section \<open>Users and entries\<close>

definition entry_sec :: "crypto \<Rightarrow> SecurityEntry \<Rightarrow> security option outcome" where
  "entry_sec cr e = and_then (entry_validate e) (newSecurityFromEntry cr)"

definition entry_key :: "crypto \<Rightarrow> SecurityEntry \<Rightarrow> string option" where
  "entry_key cr e = (case entry_sec cr e of Ok (Some sec) \<Rightarrow> Some (Identifier sec) | _ \<Rightarrow> None)"

definition others :: "crypto \<Rightarrow> SecurityEntry \<Rightarrow> SecurityEntry list \<Rightarrow> SecurityEntry list" where
  "others cr e es = filter (\<lambda>x. se_Version x \<noteq> se_Version e \<or> entry_key cr x \<noteq> entry_key cr e) es"

text \<open>The servers a program can reach, each with its entries.\<close>

inductive configured :: "crypto \<Rightarrow> SecurityEntry list \<Rightarrow> trap_server \<Rightarrow> bool" for cr where
  conf_new: "NewTrapServer args = Ok s \<Longrightarrow> configured cr [] s"
| conf_add: "\<lbrakk> configured cr es s; AddSecurity cr e s = Ok s' \<rbrakk> \<Longrightarrow> configured cr (e # others cr e es) s'"
| conf_delete: "\<lbrakk> configured cr es s; DeleteSecurity cr e s = Ok s' \<rbrakk> \<Longrightarrow> configured cr (others cr e es) s'"
| conf_handle: "\<lbrakk> configured cr es s; handle cr d OnTRAP send s src arrived = (s', h) \<rbrakk> \<Longrightarrow> configured cr es s'"

text \<open>What processing a message leaves alone of a user.\<close>

fun same_user :: "security \<Rightarrow> security \<Rightarrow> bool" where
  "same_user (Community a) (Community b) \<longleftrightarrow> a = b"
| "same_user (Usm u) (Usm u') \<longleftrightarrow>
     u_UserName u' = u_UserName u \<and> u_AuthPassword u' = u_AuthPassword u \<and> u_AuthProtocol u' = u_AuthProtocol u \<and>
     u_PrivPassword u' = u_PrivPassword u \<and> u_PrivProtocol u' = u_PrivProtocol u \<and>
     (u_DiscoveryStatus u = remoteReference \<longrightarrow>
        u_DiscoveryStatus u' = remoteReference \<and> u_AuthEngineId u' = u_AuthEngineId u \<and>
        u_AuthKey u' = u_AuthKey u \<and> u_PrivKey u' = u_PrivKey u)"
| "same_user _ _ \<longleftrightarrow> False"

lemma same_user_refl [simp]: "same_user s s"
  by (cases s) auto

lemma same_user_trans: "same_user a b \<Longrightarrow> same_user b c \<Longrightarrow> same_user a c"
  by (cases a; cases b; cases c) auto

lemma SetAuthEngineId_frame:
  assumes "SetAuthEngineId cr e u = Ok u'"
  shows "u_UserName u' = u_UserName u \<and> u_AuthPassword u' = u_AuthPassword u \<and> u_AuthProtocol u' = u_AuthProtocol u \<and>
    u_PrivPassword u' = u_PrivPassword u \<and> u_PrivProtocol u' = u_PrivProtocol u \<and> u_AuthEngineId u' = e \<and>
    u_DiscoveryStatus u' = u_DiscoveryStatus u \<and>
    (u_AuthPassword u \<noteq> [] \<longrightarrow> passwordToKey cr (u_AuthProtocol u) (u_AuthPassword u) e = Ok (u_AuthKey u'))"
  using assms by (auto simp: SetAuthEngineId_def Let_def outcome_simps split: if_splits)

lemma update_status_same_user: "same_user (Usm u) (Usm (fst (update_status cr now u rm)))"
proof (cases "u_DiscoveryStatus u = noDiscovered")
  case True
  then have "u_DiscoveryStatus u \<noteq> remoteReference" by (simp add: discovery_defs)
  with True show ?thesis
    by (auto simp: update_status_def Let_def SynchronizeEngineBootsTime_def discovery_defs dest: SetAuthEngineId_frame
        split: outcome.split)
next
  case False
  then show ?thesis
    by (auto simp: update_status_def Let_def SynchronizeEngineBootsTime_def discovery_defs split: outcome.split)
qed

lemma Process_same_user: "same_user sec (fst (ProcessIncomingMessage cr now sec msg))"
proof (cases sec)
  case (Usm u)
  show ?thesis
  proof (cases msg)
    case (MsgV3 rm)
    show ?thesis
    proof (cases "and_then (check_engine u (msg_sec rm)) (\<lambda>_. unprotect cr u (init_msg rm))")
      case (Ok rm')
      then have "fst (usm_ProcessIncomingMessage cr now u msg) = fst (update_status cr now u rm')"
        by (auto simp: usm_ProcessIncomingMessage_def MsgV3 split: prod.split outcome.split)
      with update_status_same_user [of u cr now rm'] show ?thesis
        by (simp add: Usm case_prod_beta)
    qed (simp_all add: Usm MsgV3 usm_ProcessIncomingMessage_def)
  qed (simp add: Usm usm_ProcessIncomingMessage_def)
qed simp

lemma PrepareDataElements_same_user: "same_user sec (fst (PrepareDataElements cr d mp sec msg None))"
  using Process_same_user [of sec cr "d_receiving d" msg]
  by (cases mp; cases msg) (auto simp: V1_PrepareDataElements_def V3_PrepareDataElements_def V3_check_header_def Let_def
      case_prod_beta)

lemma set_engine_same_user: "same_user (Usm u) (Usm (fst (set_engine now u m)))"
  by (auto simp: set_engine_def UpdateEngineBootsTime_def Let_def)

lemma Generate_same_user: "same_user sec (fst (GenerateRequestMessage cr r now sec msg))"
proof (cases sec)
  case (Usm u)
  then show ?thesis
    using set_engine_same_user [of u now]
    by (cases msg) (simp_all add: usm_GenerateRequestMessage_def case_prod_beta)
qed simp

lemma PrepareResponse_same_user: "same_user sec (fst (PrepareResponseMessage cr d mp sec p msg))"
  using Generate_same_user [of sec cr]
  by (cases mp; cases p) (auto simp: V1_PrepareResponseMessage_def generate_def Let_def case_prod_beta split: option.split)

lemma informResponse_same_user: "same_user sec (fst (informResponse cr d mp sec msg p))"
  using PrepareResponse_same_user [of sec cr d mp]
  by (simp add: informResponse_def case_prod_beta split: outcome.split option.split)


section \<open>The users of a server\<close>

definition stands_for :: "crypto \<Rightarrow> SecurityEntry \<Rightarrow> string \<Rightarrow> security \<Rightarrow> bool" where
  "stands_for cr e k sec \<longleftrightarrow> (\<exists>sec0. entry_sec cr e = Ok (Some sec0) \<and> Identifier sec0 = k \<and> same_user sec0 sec)"

definition user_at :: "trap_server \<Rightarrow> int \<Rightarrow> string \<Rightarrow> security option" where
  "user_at s v k = (case ts_secs s v of None \<Rightarrow> None | Some m \<Rightarrow> map_of m k)"

definition mirrors :: "crypto \<Rightarrow> SecurityEntry list \<Rightarrow> trap_server \<Rightarrow> bool" where
  "mirrors cr es s \<longleftrightarrow>
     ts_mps s = [V2c \<mapsto> MpV1 V2c, V3 \<mapsto> MpV3 V3] \<and> dom (ts_secs s) = {V2c, V3} \<and>
     (\<forall>v k sec. user_at s v k = Some sec \<longrightarrow> (\<exists>e\<in>set es. se_Version e = v \<and> stands_for cr e k sec)) \<and>
     (\<forall>e\<in>set es. \<exists>k sec. user_at s (se_Version e) k = Some sec \<and> stands_for cr e k sec)"

lemma mirrors_user: "mirrors cr es s \<Longrightarrow> user_at s v k = Some sec \<Longrightarrow> \<exists>e\<in>set es. se_Version e = v \<and> stands_for cr e k sec"
  by (simp add: mirrors_def)

lemma mirrors_entry:
  "mirrors cr es s \<Longrightarrow> e \<in> set es \<Longrightarrow> \<exists>k sec. user_at s (se_Version e) k = Some sec \<and> stands_for cr e k sec"
  by (simp add: mirrors_def)

lemma stands_for_key: "stands_for cr e k sec \<Longrightarrow> entry_key cr e = Some k"
  by (auto simp: stands_for_def entry_key_def)

lemma user_at_store:
  "user_at s v (message_id msg) = Some sec \<Longrightarrow>
     user_at (store_security v msg sec' s) = (\<lambda>w k. if w = v \<and> k = message_id msg then Some sec' else user_at s w k)"
  by (auto simp: user_at_def store_security_def update_conv fun_eq_iff split: option.splits)

lemma store_mirrors:
  assumes m: "mirrors cr es s" and u: "user_at s v (message_id msg) = Some sec" and same: "same_user sec sec'"
  shows "mirrors cr es (store_security v msg sec' s)"
proof -
  have st: "stands_for cr e k sec \<Longrightarrow> stands_for cr e k sec'" for e k
    using same_user_trans [OF _ same] by (auto simp: stands_for_def)
  have "\<exists>k sec''. user_at (store_security v msg sec' s) (se_Version e) k = Some sec'' \<and> stands_for cr e k sec''"
    if "e \<in> set es" for e
  proof -
    obtain k a where k: "user_at s (se_Version e) k = Some a" "stands_for cr e k a"
      using mirrors_entry [OF m \<open>e \<in> set es\<close>] by blast
    show ?thesis
    proof (cases "se_Version e = v \<and> k = message_id msg")
      case True
      with k u st show ?thesis by (intro exI [of _ k] exI [of _ sec']) (auto simp: user_at_store [OF u])
    next
      case False
      with k show ?thesis by (intro exI [of _ k] exI [of _ a]) (auto simp: user_at_store [OF u])
    qed
  qed
  moreover have "dom (ts_secs (store_security v msg sec' s)) = {V2c, V3}"
    using m by (auto simp: mirrors_def store_security_def dom_def)
  moreover have "\<exists>e\<in>set es. se_Version e = w \<and> stands_for cr e k a"
    if "user_at (store_security v msg sec' s) w k = Some a" for w k a
  proof (cases "w = v \<and> k = message_id msg")
    case True
    with that mirrors_user [OF m u] st show ?thesis by (auto simp: user_at_store [OF u])
  next
    case False
    with that mirrors_user [OF m] show ?thesis by (simp add: user_at_store [OF u] split: if_splits)
  qed
  ultimately show ?thesis using m by (auto simp: mirrors_def store_security_def)
qed

lemma entry_validate_Ok:
  assumes "entry_validate e = Ok e'"
  shows "se_Version e = V2c \<and> e' = e \<or>
    se_Version e = V3 \<and> entry_credentials e = Ok () \<and>
      (se_SecurityEngineId e = [] \<and> e' = e \<or>
       se_SecurityEngineId e \<noteq> [] \<and> is_ok (engineIdToBytes (stripHexPrefix (se_SecurityEngineId e))) \<and>
       e' = e\<lparr>se_SecurityEngineId := stripHexPrefix (se_SecurityEngineId e)\<rparr>)"
  using assms by (auto simp: entry_validate_def argument_error_def Let_def outcome_simps is_ok_iff split: if_splits)

lemma entry_sec_version:
  assumes "entry_sec cr e = Ok (Some sec)"
  shows "se_Version e = V2c \<and> sec = Community (bytes_of_string (se_Community e)) \<or> se_Version e = V3 \<and> (\<exists>u. sec = Usm u)"
proof -
  obtain e' where e': "entry_validate e = Ok e'" "newSecurityFromEntry cr e' = Ok (Some sec)"
    using assms by (auto simp: entry_sec_def outcome_simps)
  from entry_validate_Ok [OF e'(1)] e'(2) show ?thesis
    by (auto simp: newSecurityFromEntry_def Let_def version_defs outcome_simps split: if_splits)
qed

text \<open>Adding and deleting put one user in or out and leave the rest.\<close>

lemma change_Ok:
  assumes "change_security cr change e s = Ok s'"
  obtains sec m where "entry_sec cr e = Ok (Some sec)" "ts_secs s (se_Version e) = Some m"
    "s' = s\<lparr>ts_secs := (ts_secs s)(se_Version e \<mapsto> change sec m)\<rparr>"
proof -
  obtain e' where e': "entry_validate e = Ok e'" using assms by (auto simp: change_security_def outcome_simps)
  have v: "se_Version e' = se_Version e" using entry_validate_Ok [OF e'] by auto
  obtain sec where sec: "newSecurityFromEntry cr e' = Ok sec"
    using assms by (auto simp: change_security_def outcome_simps e')
  have "(case (sec, ts_secs s (se_Version e)) of
         (Some sec, Some m) \<Rightarrow> Ok (s\<lparr>ts_secs := (ts_secs s)(se_Version e \<mapsto> change sec m)\<rparr>)
       | _ \<Rightarrow> Panic NilDereference) = Ok s'"
    using assms by (simp add: change_security_def e' sec v cong: option.case_cong)
  moreover have "entry_sec cr e = Ok sec" by (simp add: entry_sec_def e' sec)
  ultimately show ?thesis using that by (simp split: option.splits)
qed

lemma Add_user_at:
  assumes "AddSecurity cr e s = Ok s'"
  obtains sec where "entry_sec cr e = Ok (Some sec)" "ts_mps s' = ts_mps s" "dom (ts_secs s') = dom (ts_secs s)"
    "user_at s' = (\<lambda>w k. if w = se_Version e \<and> k = Identifier sec then Some sec else user_at s w k)"
proof -
  obtain sec m where a: "entry_sec cr e = Ok (Some sec)" "ts_secs s (se_Version e) = Some m"
    "s' = s\<lparr>ts_secs := (ts_secs s)(se_Version e \<mapsto> securityMap_Set sec m)\<rparr>"
    using assms unfolding AddSecurity_def by (rule change_Ok)
  moreover have "user_at s' = (\<lambda>w k. if w = se_Version e \<and> k = Identifier sec then Some sec else user_at s w k)"
    using a by (auto simp: user_at_def securityMap_Set_def update_conv fun_eq_iff)
  ultimately show thesis using a by (intro that) auto
qed

lemma Delete_user_at:
  assumes "DeleteSecurity cr e s = Ok s'"
  obtains sec where "entry_sec cr e = Ok (Some sec)" "ts_mps s' = ts_mps s" "dom (ts_secs s') = dom (ts_secs s)"
    "user_at s' = (\<lambda>w k. if w = se_Version e \<and> k = Identifier sec then None else user_at s w k)"
proof -
  obtain sec m where a: "entry_sec cr e = Ok (Some sec)" "ts_secs s (se_Version e) = Some m"
    "s' = s\<lparr>ts_secs := (ts_secs s)(se_Version e \<mapsto> securityMap_Delete sec m)\<rparr>"
    using assms unfolding DeleteSecurity_def by (rule change_Ok)
  moreover have "user_at s' = (\<lambda>w k. if w = se_Version e \<and> k = Identifier sec then None else user_at s w k)"
    using a by (auto simp: user_at_def securityMap_Delete_def delete_conv' fun_eq_iff)
  ultimately show thesis using a by (intro that) auto
qed

lemma in_others:
  assumes "entry_sec cr e = Ok (Some sec)"
  shows "x \<in> set (others cr e es) \<longleftrightarrow> x \<in> set es \<and> (se_Version x \<noteq> se_Version e \<or> entry_key cr x \<noteq> Some (Identifier sec))"
  using assms by (simp add: others_def entry_key_def [of cr e])

lemma others_mirrors:
  assumes m: "mirrors cr es s" and e: "entry_sec cr e = Ok (Some sec)"
    and off: "\<not> (se_Version e = w \<and> k = Identifier sec)"
  shows "user_at s w k = Some a \<Longrightarrow> \<exists>x\<in>set (others cr e es). se_Version x = w \<and> stands_for cr x k a"
proof -
  assume "user_at s w k = Some a"
  then obtain x where x: "x \<in> set es" "se_Version x = w" "stands_for cr x k a"
    using mirrors_user [OF m] by blast
  with off have "x \<in> set (others cr e es)" by (auto simp: in_others [OF e] stands_for_key)
  with x show ?thesis by auto
qed

lemma others_found:
  assumes m: "mirrors cr es s" and e: "entry_sec cr e = Ok (Some sec)" and x: "x \<in> set (others cr e es)"
  shows "\<exists>k a. user_at s (se_Version x) k = Some a \<and> stands_for cr x k a \<and> \<not> (se_Version x = se_Version e \<and> k = Identifier sec)"
proof -
  from x have x': "x \<in> set es" "se_Version x \<noteq> se_Version e \<or> entry_key cr x \<noteq> Some (Identifier sec)"
    by (simp_all add: in_others [OF e])
  with m obtain k a where "user_at s (se_Version x) k = Some a" "stands_for cr x k a"
    using mirrors_entry [OF m] by blast
  with x' show ?thesis by (auto dest: stands_for_key)
qed

lemma Add_mirrors:
  assumes m: "mirrors cr es s" and add: "AddSecurity cr e s = Ok s'"
  shows "mirrors cr (e # others cr e es) s'"
proof -
  obtain sec where a: "entry_sec cr e = Ok (Some sec)" "ts_mps s' = ts_mps s" "dom (ts_secs s') = dom (ts_secs s)"
    "user_at s' = (\<lambda>w k. if w = se_Version e \<and> k = Identifier sec then Some sec else user_at s w k)"
    by (rule Add_user_at [OF add]) (rule that)
  have st: "stands_for cr e (Identifier sec) sec" using a(1) by (simp add: stands_for_def)
  have "\<exists>x\<in>set (e # others cr e es). se_Version x = w \<and> stands_for cr x k b" if "user_at s' w k = Some b" for w k b
  proof (cases "w = se_Version e \<and> k = Identifier sec")
    case True
    with that st a(4) show ?thesis by auto
  next
    case False
    with that a(4) have "user_at s w k = Some b" by simp
    with others_mirrors [OF m a(1), of w k b] False show ?thesis by auto
  qed
  moreover have "\<exists>k b. user_at s' (se_Version x) k = Some b \<and> stands_for cr x k b" if "x \<in> set (e # others cr e es)" for x
  proof (cases "x = e")
    case True
    with st a(4) show ?thesis by auto
  next
    case False
    with that have "x \<in> set (others cr e es)" by simp
    then obtain k b where "user_at s (se_Version x) k = Some b" "stands_for cr x k b"
      "\<not> (se_Version x = se_Version e \<and> k = Identifier sec)"
      using others_found [OF m a(1)] by blast
    with a(4) show ?thesis by (intro exI [of _ k] exI [of _ b]) auto
  qed
  ultimately show ?thesis using m a(2,3) by (simp add: mirrors_def)
qed

lemma Delete_mirrors:
  assumes m: "mirrors cr es s" and del: "DeleteSecurity cr e s = Ok s'"
  shows "mirrors cr (others cr e es) s'"
proof -
  obtain sec where a: "entry_sec cr e = Ok (Some sec)" "ts_mps s' = ts_mps s" "dom (ts_secs s') = dom (ts_secs s)"
    "user_at s' = (\<lambda>w k. if w = se_Version e \<and> k = Identifier sec then None else user_at s w k)"
    by (rule Delete_user_at [OF del]) (rule that)
  have "\<exists>x\<in>set (others cr e es). se_Version x = w \<and> stands_for cr x k b" if "user_at s' w k = Some b" for w k b
  proof -
    from that a(4) have "user_at s w k = Some b" "\<not> (w = se_Version e \<and> k = Identifier sec)" by (auto split: if_splits)
    with others_mirrors [OF m a(1), of w k b] show ?thesis by auto
  qed
  moreover have "\<exists>k b. user_at s' (se_Version x) k = Some b \<and> stands_for cr x k b" if x: "x \<in> set (others cr e es)" for x
  proof -
    obtain k b where "user_at s (se_Version x) k = Some b" "stands_for cr x k b"
      "\<not> (se_Version x = se_Version e \<and> k = Identifier sec)"
      using others_found [OF m a(1) x] by blast
    with a(4) show ?thesis by (intro exI [of _ k] exI [of _ b]) auto
  qed
  ultimately show ?thesis using m a(2,3) by (simp add: mirrors_def)
qed


lemma handle_message_cases:
  assumes "handle_message cr d s msg = (s', r)"
  obtains "s' = s" "\<not> is_ok r"
  | mp sec where "ts_mps s (Version msg) = Some mp" "user_at s (Version msg) (message_id msg) = Some sec"
      "s' = store_security (Version msg) msg (fst (PrepareDataElements cr d mp sec msg None)) s"
      "r = snd (PrepareDataElements cr d mp sec msg None)"
  using assms
  by (auto simp: handle_message_def Let_def user_at_def securityMap_Lookup_def split: option.splits prod.splits)

lemma handle_message_mirrors: "mirrors cr es s \<Longrightarrow> handle_message cr d s msg = (s', r) \<Longrightarrow> mirrors cr es s'"
  by (elim handle_message_cases) (auto intro: store_mirrors PrepareDataElements_same_user)

lemma answer_inform_mirrors: "mirrors cr es s \<Longrightarrow> mirrors cr es (fst (answer_inform cr d send s msg trap p))"
  unfolding answer_inform_def Let_def
  by (auto simp: case_prod_beta securityMap_Lookup_def user_at_def intro!: store_mirrors informResponse_same_user
      split: option.split)

lemma handle_state:
  "fst (handle cr d OnTRAP send s src (None, err)) = s"
  "fst (handle cr d OnTRAP send s src (Some msg, err)) = fst (handle_message cr d s msg) \<or>
     (\<exists>trap p. fst (handle cr d OnTRAP send s src (Some msg, err)) =
        fst (answer_inform cr d send (fst (handle_message cr d s msg)) msg trap p))"
  by (auto simp: handle_def Let_def case_prod_beta split: outcome.split option.split)

lemma handle_mirrors:
  assumes m: "mirrors cr es s"
  shows "mirrors cr es (fst (handle cr d OnTRAP send s src arrived))"
proof (cases arrived)
  case (Pair a err)
  show ?thesis
  proof (cases a)
    case None
    with Pair m show ?thesis by (simp add: handle_state)
  next
    case (Some msg)
    have m1: "mirrors cr es (fst (handle_message cr d s msg))"
      using handle_message_mirrors [OF m] by (metis prod.collapse)
    with answer_inform_mirrors [OF m1] handle_state(2) [of cr d OnTRAP send s src msg err] Pair Some
    show ?thesis by auto
  qed
qed

lemma configured_users: "configured cr es s \<Longrightarrow> mirrors cr es s"
proof (induction rule: configured.induct)
  case (conf_new args s)
  then show ?case
    by (auto simp: NewTrapServer_def outcome_simps mirrors_def user_at_def split: if_splits)
next
  case (conf_add es s e s')
  from Add_mirrors [OF conf_add.IH conf_add.hyps(2)] show ?case .
next
  case (conf_delete es s e s')
  from Delete_mirrors [OF conf_delete.IH conf_delete.hyps(2)] show ?case .
next
  case (conf_handle es s d OnTRAP send src arrived s' h)
  from handle_mirrors [OF conf_handle.IH, of d OnTRAP send src arrived] conf_handle.hyps(2) show ?case by simp
qed

text \<open>C18: The users of a trap server are those of the entries added and not deleted since: every entry has its
  user, under the entry's key, every user stands for an entry, and handling a packet changes neither the
  credentials of a user nor, if its engine is configured, the engine and the keys.\<close>

theorem configured_mirrors:
  assumes "configured cr es s"
  shows "mirrors cr es s"
  using assms by (rule configured_users)


section \<open>Who sent a trap\<close>

lemma handle_delivers:
  assumes "handle cr d OnTRAP send s src (Some msg, err) = (s', h)" and "h_trap h = Some t" and "t_Pdu t = Some p"
  shows "snd (handle_message cr d s msg) = Ok p" "PduType p = SNMPTrapV2 \<or> PduType p = InformRequest"
proof -
  obtain s1 r where r: "handle_message cr d s msg = (s1, r)" by fastforce
  have "and_then r accepted_type = Ok p"
    using assms by (auto simp: handle_def Let_def r answer_inform_def case_prod_beta split: outcome.splits option.splits if_splits)
  then show "snd (handle_message cr d s msg) = Ok p" "PduType p = SNMPTrapV2 \<or> PduType p = InformRequest"
    by (auto simp: r outcome_simps accepted_type_def split: if_splits)
qed

lemma V3_accepts:
  assumes "snd (PrepareDataElements cr d (MpV3 v) (Usm u) msg None) = Ok p"
  shows "\<exists>rm. msg = MsgV3 rm \<and> check_engine u (msg_sec rm) = Ok () \<and>
    (Authentication (msg_global rm) \<longrightarrow> mac cr (init_msg rm) (u_AuthProtocol u) (u_AuthKey u) = Ok (AuthParameter (msg_sec rm)))"
proof (cases msg)
  case (MsgV1 m)
  with assms show ?thesis by (simp add: V3_PrepareDataElements_def)
next
  case (MsgV3 rm)
  obtain u' r where r: "usm_ProcessIncomingMessage cr (d_receiving d) u (MsgV3 rm) = (u', r)" by fastforce
  with assms MsgV3 obtain m where m: "r = Ok m"
    by (auto simp: V3_PrepareDataElements_def V3_check_header_def outcome_simps split: if_splits)
  obtain rm' where "check_engine u (msg_sec rm) = Ok ()" using process_Ok [OF r [unfolded m]] by metis
  with usm_process_frame [OF r [unfolded m]] MsgV3 show ?thesis by blast
qed

lemma V2c_accepts:
  assumes "snd (PrepareDataElements cr d (MpV1 v) (Community c) msg None) = Ok p"
  shows "\<exists>m. msg = MsgV1 m \<and> msg_Community m = c"
  using assms by (cases msg) (auto simp: V1_PrepareDataElements_def community_ProcessIncomingMessage_def outcome_simps
      split: if_splits)

definition authenticated_entry :: "SecurityEntry \<Rightarrow> bool" where
  "authenticated_entry e \<longleftrightarrow> se_SecurityLevel e = AuthNoPriv \<or> se_SecurityLevel e = AuthPriv"

text \<open>The user an entry with an engine id makes.\<close>

lemma entry_user:
  assumes "entry_sec cr e = Ok (Some (Usm u))" and "se_SecurityEngineId e \<noteq> []"
  shows "u_DiscoveryStatus u = remoteReference" "engineIdToBytes (stripHexPrefix (se_SecurityEngineId e)) = Ok (u_AuthEngineId u)"
    "u_UserName u = bytes_of_string (se_UserName e)" "u_AuthPassword u \<noteq> [] \<longleftrightarrow> authenticated_entry e"
    "authenticated_entry e \<Longrightarrow> u_AuthProtocol u = se_AuthProtocol e \<and>
       passwordToKey cr (se_AuthProtocol e) (se_AuthPassword e) (u_AuthEngineId u) = Ok (u_AuthKey u)"
proof -
  obtain e' where e': "entry_validate e = Ok e'" "newSecurityFromEntry cr e' = Ok (Some (Usm u))"
    using assms(1) by (auto simp: entry_sec_def outcome_simps)
  let ?s = "stripHexPrefix (se_SecurityEngineId e)"
  have v: "se_Version e = V3" using entry_sec_version [OF assms(1)] by (auto simp: version_defs)
  then obtain b where b: "engineIdToBytes ?s = Ok b" and cred: "entry_credentials e = Ok ()"
    and eq: "e' = e\<lparr>se_SecurityEngineId := ?s\<rparr>"
    using entry_validate_Ok [OF e'(1)] assms(2) by (auto simp: version_defs is_ok_iff)
  have "?s \<noteq> []" using engineIdToBytes_length [OF b] b by (auto simp: engineIdToBytes_def hex_decode.simps)
  define u0 where "u0 = set_credentials (se_SecurityLevel e) (se_AuthPassword e) (se_AuthProtocol e)
    (se_PrivPassword e) (se_PrivProtocol e) (new_usm (se_UserName e))"
  obtain u1 where u1: "SetAuthEngineId cr b u0 = Ok u1" "u = u1\<lparr>u_DiscoveryStatus := remoteReference\<rparr>"
    using e'(2) v b \<open>?s \<noteq> []\<close> by (auto simp: newSecurityFromEntry_def eq version_defs Let_def outcome_simps u0_def)
  note fr = SetAuthEngineId_frame [OF u1(1)]
  have pw: "authenticated_entry e \<Longrightarrow> se_AuthPassword e \<noteq> []"
    using cred by (auto simp: entry_credentials_def argument_error_def authenticated_entry_def security_level_defs split: if_splits)
  have u0: "u_UserName u0 = bytes_of_string (se_UserName e)"
    "u_AuthPassword u0 = (if authenticated_entry e then se_AuthPassword e else [])"
    "authenticated_entry e \<Longrightarrow> u_AuthProtocol u0 = se_AuthProtocol e"
    by (auto simp: u0_def set_credentials_def new_usm_def authenticated_entry_def Let_def)
  show "u_DiscoveryStatus u = remoteReference" "engineIdToBytes ?s = Ok (u_AuthEngineId u)"
    "u_UserName u = bytes_of_string (se_UserName e)"
    using b fr u0 by (simp_all add: u1(2))
  show "u_AuthPassword u \<noteq> [] \<longleftrightarrow> authenticated_entry e"
    using fr u0 pw by (simp add: u1(2))
  show "u_AuthProtocol u = se_AuthProtocol e \<and>
      passwordToKey cr (se_AuthProtocol e) (se_AuthPassword e) (u_AuthEngineId u) = Ok (u_AuthKey u)" if "authenticated_entry e"
    using fr u0 pw that by (simp add: u1(2))
qed

definition sent_by :: "crypto \<Rightarrow> SecurityEntry \<Rightarrow> message \<Rightarrow> bool" where
  "sent_by cr e msg \<longleftrightarrow>
     (case msg of
        MsgV1 m \<Rightarrow> se_Version e = V2c \<and> msg_Community m = bytes_of_string (se_Community e)
      | MsgV3 m \<Rightarrow>
          se_Version e = V3 \<and> engineIdToBytes (stripHexPrefix (se_SecurityEngineId e)) = Ok (AuthEngineId (msg_sec m)) \<and>
          UserName (msg_sec m) = bytes_of_string (se_UserName e) \<and>
          (Authentication (msg_global m) \<longleftrightarrow> authenticated_entry e) \<and>
          (authenticated_entry e \<longrightarrow>
             (\<exists>key. passwordToKey cr (se_AuthProtocol e) (se_AuthPassword e) (AuthEngineId (msg_sec m)) = Ok key \<and>
                mac cr (init_msg m) (se_AuthProtocol e) key = Ok (AuthParameter (msg_sec m)))))"

lemma V3_sent_by:
  assumes st: "stands_for cr e (message_id msg) (Usm u)" and eng: "se_SecurityEngineId e \<noteq> []"
    and acc: "snd (PrepareDataElements cr d (MpV3 v) (Usm u) msg None) = Ok p"
  shows "sent_by cr e msg"
proof -
  obtain sec0 where "entry_sec cr e = Ok (Some sec0)" "Identifier sec0 = message_id msg" "same_user sec0 (Usm u)"
    using st by (auto simp: stands_for_def)
  then obtain u0 where u0: "entry_sec cr e = Ok (Some (Usm u0))" "Identifier (Usm u0) = message_id msg" "same_user (Usm u0) (Usm u)"
    by (cases sec0) auto
  note e = entry_user [OF u0(1) eng]
  have v: "se_Version e = V3" using entry_sec_version [OF u0(1)] by auto
  obtain rm where rm: "msg = MsgV3 rm" "check_engine u (msg_sec rm) = Ok ()"
    "Authentication (msg_global rm) \<longrightarrow> mac cr (init_msg rm) (u_AuthProtocol u) (u_AuthKey u) = Ok (AuthParameter (msg_sec rm))"
    using V3_accepts [OF acc] by blast
  have same: "u_DiscoveryStatus u = remoteReference" "u_AuthEngineId u = u_AuthEngineId u0" "u_UserName u = u_UserName u0"
    "u_AuthKey u = u_AuthKey u0" "u_AuthProtocol u = u_AuthProtocol u0"
    using u0(3) e(1) by simp_all
  have id: "AuthEngineId (msg_sec rm) = u_AuthEngineId u0" "UserName (msg_sec rm) = u_UserName u0"
    using rm(2) same by (simp_all add: check_engine_ok discovery_defs)
  have auth: "Authentication (msg_global rm) \<longleftrightarrow> authenticated_entry e"
    using u0(2) e(4) by (auto simp: rm(1) message_id_def id split: if_splits)
  with e v id rm(3) same show ?thesis by (auto simp: sent_by_def rm(1))
qed


end
