(* ===== verification/TrapInform.thy ===== *)
theory TrapInform
  imports TrapFacts
begin

text \<open>
  The trap server, continued: what it answers, and the user it lets anyone be when an entry names no engine.
\<close>

section \<open>Forging a trap\<close>

text \<open>
  The key of a user is engine id, colon, user name, and \<open>:auth\<close> for an authenticated one; a message is looked up
  by the same text. Without an engine id the key of \<open>alice\<close> is \<open>:alice:auth\<close>, which is also the key of the
  user \<open>auth\<close> at the engine \<open>:alice\<close> without authentication.
\<close>

lemma key_collision:
  "message_id (MsgV3 m) = Identifier (Usm u)"
  if "AuthEngineId (msg_sec m) = bytes_of_string ('':'' @ string_of_bytes (u_UserName u))"
    "UserName (msg_sec m) = bytes_of_string ''auth''" "\<not> Authentication (msg_global m)"
    "u_AuthEngineId u = []" "u_AuthPassword u \<noteq> []"
proof -
  have "string_of_bytes [] = []" by (simp add: string_of_bytes_def)
  with that show ?thesis by (simp add: message_id_def)
qed

lemma entry_user_open:
  assumes "entry_sec cr e = Ok (Some (Usm u))" and "se_SecurityEngineId e = []"
  shows "u = set_credentials (se_SecurityLevel e) (se_AuthPassword e) (se_AuthProtocol e)
      (se_PrivPassword e) (se_PrivProtocol e) (new_usm (se_UserName e))"
    and "entry_credentials e = Ok ()"
proof -
  obtain e' where e': "entry_validate e = Ok e'" "newSecurityFromEntry cr e' = Ok (Some (Usm u))"
    using assms(1) by (auto simp: entry_sec_def outcome_simps)
  have v: "se_Version e = V3" using entry_sec_version [OF assms(1)] by (auto simp: version_defs)
  then have "e' = e" "entry_credentials e = Ok ()"
    using entry_validate_Ok [OF e'(1)] assms(2) by (auto simp: version_defs)
  then show "u = set_credentials (se_SecurityLevel e) (se_AuthPassword e) (se_AuthProtocol e)
      (se_PrivPassword e) (se_PrivProtocol e) (new_usm (se_UserName e))" "entry_credentials e = Ok ()"
    using e'(2) v assms(2) by (simp_all add: newSecurityFromEntry_def version_defs Let_def)
qed

lemma set_credentials_new:
  "authenticated_entry e \<Longrightarrow>
     set_credentials (se_SecurityLevel e) (se_AuthPassword e) (se_AuthProtocol e) (se_PrivPassword e) (se_PrivProtocol e)
       (new_usm (se_UserName e)) = u \<Longrightarrow>
     u_UserName u = bytes_of_string (se_UserName e) \<and> u_AuthPassword u = se_AuthPassword e \<and> u_AuthProtocol u = se_AuthProtocol e \<and>
     u_AuthEngineId u = [] \<and> u_DiscoveryStatus u = noDiscovered"
  by (auto simp: set_credentials_def new_usm_def authenticated_entry_def Let_def security_level_defs)

lemma SetAuthEngineId_total: "u_AuthProtocol u = Md5 \<or> u_AuthProtocol u = Sha \<Longrightarrow> \<exists>u'. SetAuthEngineId cr e u = Ok u'"
  by (auto simp: SetAuthEngineId_def passwordToKey_def hash_of_def Let_def bytes_of_string_def)

text \<open>An undiscovered user accepts any unauthenticated message in range.\<close>

lemma undiscovered_accepts:
  assumes u: "u_DiscoveryStatus u = noDiscovered" "u_AuthProtocol u = Md5 \<or> u_AuthProtocol u = Sha"
    and m: "SecurityModel (msg_global m) = securityUsm" "\<not> Authentication (msg_global m)"
      "5 \<le> length (AuthEngineId (msg_sec m))" "length (AuthEngineId (msg_sec m)) \<le> 32"
      "0 \<le> AuthEngineBoots (msg_sec m)" "AuthEngineBoots (msg_sec m) \<le> MaxInt32"
      "0 \<le> AuthEngineTime (msg_sec m)" "AuthEngineTime (msg_sec m) \<le> MaxInt32"
    and p: "Pdu_Unmarshal (msg_pdu (msg_base m)) (msg_pduBytes (msg_base m)) = Ok (p, rest)" "PduType p = SNMPTrapV2"
  shows "snd (PrepareDataElements cr d (MpV3 V3) (Usm u) (MsgV3 m) None) = Ok p"
proof -
  have "check_engine u (msg_sec m) = Ok ()" using u m by (simp add: check_engine_ok)
  moreover have "unprotect cr u (init_msg m) = Ok (init_msg m)" using m(2) by (simp add: unprotect_def)
  moreover obtain u' where "SetAuthEngineId cr (AuthEngineId (msg_sec m)) u = Ok u'" using SetAuthEngineId_total [OF u(2)] by metis
  ultimately show ?thesis
    using u(1) m(1) p
    by (simp add: V3_PrepareDataElements_def V3_check_header_def usm_ProcessIncomingMessage_def update_status_def Let_def
        discovery_defs V3_check_pdu_def check_request_type_def)
qed



section \<open>Responses\<close>

definition response_of :: "pdu \<Rightarrow> pdu" where
  "response_of p =
     PduV1 \<lparr>pduType = GetResponse, requestId = RequestId p, errorStatus = 0, errorIndex = 0, varBinds = VarBinds p\<rparr>"

lemma append_bindings:
  "append_all (map (\<lambda>v. (vb_Oid v, vb_Variable v)) vs) (Some (PduV1 q)) = Ok (Some (PduV1 (q\<lparr>varBinds := varBinds q @ vs\<rparr>)))"
  by (induction vs arbitrary: q) (simp_all add: AppendVarBind_def)

lemma append_scoped: "\<exists>q. append_all vs (Some (ScopedPdu e n p)) = Ok (Some q)"
  using append_all_Some [of vs "ScopedPdu e n p"] by auto

lemma V2c_informResponse:
  assumes "Version msg = V2c" and "Pdu_Marshal (response_of p) = Ok b"
  shows "informResponse cr d (MpV1 V2c) (Community c) msg p =
    (Community c, Ok (Message_Marshal (MsgV1 \<lparr>msg_version = V2c, msg_Community = c, msg_pduBytes = b, msg_pdu = response_of p\<rparr>)))"
proof -
  have id: "RequestId (Msg_Pdu (with_pdu p msg)) = RequestId p" by (cases msg) (simp_all add: Msg_Pdu_def)
  have resp: "NewPduWithVarBinds V2c GetResponse (VarBinds p) =
      Ok (Some (PduV1 \<lparr>pduType = GetResponse, requestId = 0, errorStatus = 0, errorIndex = 0, varBinds = VarBinds p\<rparr>))"
    by (simp add: NewPduWithVarBinds_def NewPdu_def version_defs append_bindings zero_pduV1_def)
  have new: "newMessageWithPdu V2c q = Some (MsgV1 \<lparr>msg_version = V2c, msg_Community = [], msg_pduBytes = [], msg_pdu = q\<rparr>)" for q
    by (simp add: newMessageWithPdu_def)
  show ?thesis
    using assms(2)
    by (simp add: informResponse_def assms(1) resp V1_PrepareResponseMessage_def id generate_def new Let_def
        community_GenerateRequestMessage_def response_of_def SetRequestId_def)
qed

lemma V3_informResponse:
  assumes "Version msg = V3"
  shows "snd (informResponse cr d (MpV3 v) sec msg p) = Panic NilDereference"
proof -
  have "NewPdu V3 GetResponse = Some (ScopedPdu [] [] (zero_pduV1\<lparr>pduType := GetResponse\<rparr>))" by (simp add: NewPdu_def version_defs)
  then obtain q where "NewPduWithVarBinds V3 GetResponse (VarBinds p) = Ok (Some q)"
    using append_scoped [of "map (\<lambda>v. (vb_Oid v, vb_Variable v)) (VarBinds p)" "[]" "[]" "zero_pduV1\<lparr>pduType := GetResponse\<rparr>"]
    by (auto simp: NewPduWithVarBinds_def)
  then show ?thesis by (simp add: informResponse_def assms)
qed

text \<open>A delivered PDU, once the listener has returned.\<close>

lemma delivered:
  assumes "configured cr es s" and "handle cr d OnTRAP send s src (Some msg, err) = (s', h)" and "h_trap h = Some t" "t_Pdu t = Some p"
    and "OnTRAP t = None"
  obtains s1 mp sec where "mirrors cr es s1" "ts_mps s1 (Version msg) = Some mp" "user_at s1 (Version msg) (message_id msg) = Some sec"
    "h = (if PduType p = InformRequest then snd (answer_inform cr d send s1 msg t p)
          else \<lparr>h_trap = Some t, h_sent = [], h_panic = None, h_failed = None\<rparr>)"
    "\<exists>sec0. snd (PrepareDataElements cr d mp sec0 msg None) = Ok p \<and> same_user sec0 sec"
proof -
  have m: "mirrors cr es s" using assms(1) by (rule configured_users)
  obtain s1 where hm: "handle_message cr d s msg = (s1, Ok p)"
    using handle_delivers(1) [OF assms(2-4)] by (metis prod.collapse)
  obtain mp sec where mp: "ts_mps s (Version msg) = Some mp" "user_at s (Version msg) (message_id msg) = Some sec"
    "s1 = store_security (Version msg) msg (fst (PrepareDataElements cr d mp sec msg None)) s"
    "Ok p = snd (PrepareDataElements cr d mp sec msg None)"
    by (rule handle_message_cases [OF hm]) (auto intro: that)
  have ty: "accepted_type p = Ok p" using handle_delivers(2) [OF assms(2-4)] by (auto simp: accepted_type_def)
  have t: "t = \<lparr>t_Pdu = Some p, t_Source = src, t_Error = None\<rparr>"
    using assms(2,3) by (auto simp: handle_def hm ty Let_def answer_inform_def case_prod_beta split: option.splits if_splits outcome.splits)
  show ?thesis
  proof (rule that [of s1 mp "fst (PrepareDataElements cr d mp sec msg None)"])
    show "mirrors cr es s1" by (rule handle_message_mirrors [OF m hm])
    show "ts_mps s1 (Version msg) = Some mp" using mp by (simp add: store_security_def)
    show "user_at s1 (Version msg) (message_id msg) = Some (fst (PrepareDataElements cr d mp sec msg None))"
      by (simp add: mp(3) user_at_store [OF mp(2)])
    show "h = (if PduType p = InformRequest then snd (answer_inform cr d send s1 msg t p)
        else \<lparr>h_trap = Some t, h_sent = [], h_panic = None, h_failed = None\<rparr>)"
      using assms(2,5) by (auto simp: handle_def hm ty t Let_def)
    show "\<exists>sec0. snd (PrepareDataElements cr d mp sec0 msg None) = Ok p \<and>
        same_user sec0 (fst (PrepareDataElements cr d mp sec msg None))"
      using mp(4) PrepareDataElements_same_user by metis
  qed
qed

lemma answer_inform_user:
  assumes "ts_mps s (Version msg) = Some mp" and "user_at s (Version msg) (message_id msg) = Some sec"
  shows "snd (answer_inform cr d send s msg t p) =
    (case snd (informResponse cr d mp sec msg p) of
       Panic x \<Rightarrow> \<lparr>h_trap = Some t, h_sent = [], h_panic = Some x, h_failed = None\<rparr>
     | Err e \<Rightarrow> \<lparr>h_trap = Some t, h_sent = [], h_panic = None, h_failed = Some e\<rparr>
     | Ok pkt \<Rightarrow>
         (case send pkt of
            Ok _ \<Rightarrow> \<lparr>h_trap = Some t, h_sent = [pkt], h_panic = None, h_failed = None\<rparr>
          | Err e \<Rightarrow> \<lparr>h_trap = Some t, h_sent = [], h_panic = None, h_failed = Some e\<rparr>
          | Panic x \<Rightarrow> \<lparr>h_trap = Some t, h_sent = [], h_panic = Some x, h_failed = None\<rparr>))"
  using assms
  by (auto simp: answer_inform_def user_at_def securityMap_Lookup_def case_prod_beta Let_def split: option.splits outcome.split)

text \<open>A version 2c inform that is handed to the listener is answered once, with a response that has its request
  id, its bindings and the sender's community; a trap is not answered.\<close>

theorem inform_response:
  assumes "configured cr es s" and "handle cr d OnTRAP send s src (Some msg, err) = (s', h)" and "h_trap h = Some t" "t_Pdu t = Some p"
    and "OnTRAP t = None" and "Version msg = V2c" and "Pdu_Marshal (response_of p) = Ok b" and "\<And>pkt. send pkt = Ok ()"
  shows "\<exists>m. msg = MsgV1 m \<and> h_failed h = None \<and> h_panic h = None \<and>
    h_sent h = (if PduType p = InformRequest
      then [Message_Marshal (MsgV1 \<lparr>msg_version = V2c, msg_Community = msg_Community m, msg_pduBytes = b, msg_pdu = response_of p\<rparr>)]
      else [])"
proof -
  obtain s1 mp sec where s1: "mirrors cr es s1" "ts_mps s1 (Version msg) = Some mp"
    "user_at s1 (Version msg) (message_id msg) = Some sec"
    "h = (if PduType p = InformRequest then snd (answer_inform cr d send s1 msg t p)
          else \<lparr>h_trap = Some t, h_sent = [], h_panic = None, h_failed = None\<rparr>)"
    "\<exists>sec0. snd (PrepareDataElements cr d mp sec0 msg None) = Ok p \<and> same_user sec0 sec"
    by (rule delivered [OF assms(1-5)]) (rule that)
  have mp: "mp = MpV1 V2c" using s1(1,2) assms(6) by (auto simp: mirrors_def version_defs)
  obtain e where e: "se_Version e = V2c" "stands_for cr e (message_id msg) sec"
    using mirrors_user [OF s1(1) s1(3)] assms(6) by auto
  then obtain c where c: "sec = Community c"
    using entry_sec_version [of cr e] by (cases sec) (auto simp: stands_for_def version_defs)
  obtain sec0 where sec0: "snd (PrepareDataElements cr d mp sec0 msg None) = Ok p" "same_user sec0 sec" using s1(5) by blast
  then have "sec0 = Community c" using c by (cases sec0) auto
  with V2c_accepts sec0(1) mp obtain m where m: "msg = MsgV1 m" "msg_Community m = c" by blast
  show ?thesis
    using s1(4) m answer_inform_user [OF s1(2,3), of cr d send t p] V2c_informResponse [OF assms(6,7)]
    by (simp add: mp c assms(8))
qed

text \<open>A version 3 inform is never answered: after the listener has returned, the handler panics on the nil
  response message, which is logged.\<close>

theorem v3_inform_panics:
  assumes "configured cr es s" and "handle cr d OnTRAP send s src (Some msg, err) = (s', h)" and "h_trap h = Some t" "t_Pdu t = Some p"
    and "OnTRAP t = None" and "Version msg = V3" and "PduType p = InformRequest"
  shows "h_sent h = [] \<and> h_panic h = Some NilDereference"
proof -
  obtain s1 mp sec where s1: "mirrors cr es s1" "ts_mps s1 (Version msg) = Some mp"
    "user_at s1 (Version msg) (message_id msg) = Some sec"
    "h = (if PduType p = InformRequest then snd (answer_inform cr d send s1 msg t p)
          else \<lparr>h_trap = Some t, h_sent = [], h_panic = None, h_failed = None\<rparr>)"
    "\<exists>sec0. snd (PrepareDataElements cr d mp sec0 msg None) = Ok p \<and> same_user sec0 sec"
    by (rule delivered [OF assms(1-5)]) (rule that)
  have mp: "mp = MpV3 V3" using s1(1,2) assms(6) by (auto simp: mirrors_def version_defs)
  show ?thesis
    using s1(4) assms(7) answer_inform_user [OF s1(2,3), of cr d send t p] V3_informResponse [OF assms(6), of cr d V3 sec p]
    by (simp add: mp)
qed


section \<open>Examples\<close>

text \<open>A hash function that ignores its input keeps the key of a pass phrase, a hash of a mebibyte, computable.\<close>

definition const_crypto :: crypto where
  "const_crypto = demo_crypto\<lparr>md5_sum := (\<lambda>m. replicate 16 0x5a)\<rparr>"

lemma const_key: "p \<noteq> [] \<Longrightarrow> passwordToKey const_crypto Md5 p e = Ok (replicate 16 0x5a)"
  by (simp add: passwordToKey_def const_crypto_def hash_of_def Let_def bytes_of_string_def)

definition trap_entry :: "int \<Rightarrow> string \<Rightarrow> SecurityEntry" where
  "trap_entry v engine =
     \<lparr>se_Version = v, se_Community = ''public'', se_UserName = ''alice'', se_SecurityLevel = AuthNoPriv,
      se_AuthPassword = ''password'', se_AuthProtocol = Md5, se_PrivPassword = [], se_PrivProtocol = [],
      se_SecurityEngineId = engine\<rparr>"

definition trap_arguments :: ServerArguments where
  "trap_arguments = \<lparr>sa_Network = [], sa_LocalAddr = ''0.0.0.0:162'', sa_WriteTimeout = 0, sa_MessageMaxSize = 0\<rparr>"

definition alice :: usm where
  "alice = (new_usm ''alice'')\<lparr>u_AuthPassword := ''password'', u_AuthProtocol := Md5, u_AuthEngineId := [1, 2, 3, 4, 5],
     u_AuthKey := replicate 16 0x5a, u_DiscoveryStatus := remoteReference\<rparr>"

definition new_server :: trap_server where
  "new_server = \<lparr>ts_args = server_setDefault trap_arguments, ts_mps = [V2c \<mapsto> MpV1 V2c, V3 \<mapsto> MpV3 V3], ts_secs = [V2c \<mapsto> [], V3 \<mapsto> []]\<rparr>"

definition v3_server :: trap_server where
  "v3_server = new_server\<lparr>ts_secs := [V2c \<mapsto> [], V3 \<mapsto> [(Identifier (Usm alice), Usm alice)]]\<rparr>"

definition v2_server :: trap_server where
  "v2_server = new_server\<lparr>ts_secs := [V2c \<mapsto> [(''public'', Community (bytes_of_string ''public''))], V3 \<mapsto> []]\<rparr>"

lemma new_server_configured: "configured cr [] new_server"
proof (rule conf_new)
  have "is_ok (server_validate trap_arguments)" by code_simp
  then show "NewTrapServer trap_arguments = Ok new_server"
    by (auto simp: NewTrapServer_def new_server_def is_ok_iff)
qed

lemma new_server_simps [simp]:
  "ts_secs new_server = [V2c \<mapsto> [], V3 \<mapsto> []]" "V2c \<noteq> V3" "V3 \<noteq> V2c" "se_Version (trap_entry v engine) = v"
  by (simp_all add: new_server_def version_defs trap_entry_def)

lemma v3_server_configured: "configured const_crypto [trap_entry V3 ''0x0102030405''] v3_server"
proof -
  have val: "entry_validate (trap_entry V3 ''0x0102030405'') = Ok (trap_entry V3 ''0102030405'')" by code_simp
  have eng: "engineIdToBytes ''0102030405'' = Ok [1, 2, 3, 4, 5]" by code_simp
  have sec: "newSecurityFromEntry const_crypto (trap_entry V3 ''0102030405'') = Ok (Some (Usm alice))"
    by (simp add: newSecurityFromEntry_def trap_entry_def version_defs eng SetAuthEngineId_def set_credentials_def new_usm_def
        alice_def const_key Let_def security_level_defs)
  have "AddSecurity const_crypto (trap_entry V3 ''0x0102030405'') new_server = Ok v3_server"
    by (simp add: AddSecurity_def change_security_def val sec v3_server_def securityMap_Set_def)
  from conf_add [OF new_server_configured this] show ?thesis by (simp add: others_def)
qed

lemma v2_server_configured: "configured cr [trap_entry V2c []] v2_server"
proof -
  have val: "entry_validate (trap_entry V2c []) = Ok (trap_entry V2c [])" by code_simp
  have sec: "newSecurityFromEntry cr (trap_entry V2c []) = Ok (Some (Community (bytes_of_string ''public'')))"
    by (simp add: newSecurityFromEntry_def trap_entry_def)
  have "AddSecurity cr (trap_entry V2c []) new_server = Ok v2_server"
    by (simp add: AddSecurity_def change_security_def val sec v2_server_def securityMap_Set_def fun_upd_twist)
  from conf_add [OF new_server_configured this] show ?thesis by (simp add: others_def)
qed

theorem configured_mirrors_witness:
  "mirrors const_crypto [trap_entry V3 ''0x0102030405''] v3_server \<and> user_at v3_server V2c ''public'' = None"
proof -
  have "user_at v3_server V2c ''public'' = None" by code_simp
  then show ?thesis using configured_mirrors [OF v3_server_configured] by simp
qed

definition trap_pdu :: "int \<Rightarrow> pduV1" where
  "trap_pdu t = \<lparr>pduType = t, requestId = 7, errorStatus = 0, errorIndex = 0,
     varBinds = [\<lparr>vb_Oid = Some [1, 3, 6, 1, 6, 3, 1, 1, 4, 1, 0], vb_Variable = Some Null\<rparr>]\<rparr>"

definition v3_trap :: "byte \<Rightarrow> string \<Rightarrow> string \<Rightarrow> int \<Rightarrow> messageV3" where
  "v3_trap flags engine user t =
     \<lparr>msg_global = \<lparr>MessageId = 1, MessageMaxSize = 1400, MessageFlags = [flags], SecurityModel = securityUsm\<rparr>,
      msg_sec = zero_securityParameterV3\<lparr>AuthEngineId := bytes_of_string engine, UserName := bytes_of_string user,
        AuthParameter := replicate 12 0x5a\<rparr>,
      msg_base = \<lparr>msg_version = V3, msg_Community = [],
        msg_pduBytes = (case Pdu_Marshal (ScopedPdu [1, 2, 3, 4, 5] [] (trap_pdu t)) of Ok b \<Rightarrow> b | _ \<Rightarrow> []),
        msg_pdu = ScopedPdu [] [] zero_pduV1\<rparr>\<rparr>"

definition v2_trap :: "int \<Rightarrow> messageV1" where
  "v2_trap t = \<lparr>msg_version = V2c, msg_Community = bytes_of_string ''public'',
     msg_pduBytes = (case PduV1_Marshal (trap_pdu t) of Ok b \<Rightarrow> b | _ \<Rightarrow> []), msg_pdu = PduV1 zero_pduV1\<rparr>"

definition alice_engine :: string where
  "alice_engine = string_of_bytes [1, 2, 3, 4, 5]"

text \<open>A listener that returns and a write that succeeds.\<close>

definition run_trap :: "trap_server \<Rightarrow> message \<Rightarrow> handled" where
  "run_trap s msg = snd (handle const_crypto demo_draws (\<lambda>t. None) (\<lambda>b. Ok ()) s ''10.0.0.9'' (Some msg, None))"

definition delivered_pdu :: "handled \<Rightarrow> pdu option" where
  "delivered_pdu h = (case h_trap h of Some t \<Rightarrow> t_Pdu t | None \<Rightarrow> None)"

lemma run_trap_delivers:
  assumes "delivered_pdu (run_trap s msg) \<noteq> None"
  obtains s' t p where "handle const_crypto demo_draws (\<lambda>t. None) (\<lambda>b. Ok ()) s ''10.0.0.9'' (Some msg, None) = (s', run_trap s msg)"
    "h_trap (run_trap s msg) = Some t" "t_Pdu t = Some p" "delivered_pdu (run_trap s msg) = Some p"
proof -
  obtain t p where "h_trap (run_trap s msg) = Some t" "t_Pdu t = Some p"
    using assms by (auto simp: delivered_pdu_def split: option.splits)
  then show ?thesis
    by (intro that [of "fst (handle const_crypto demo_draws (\<lambda>t. None) (\<lambda>b. Ok ()) s ''10.0.0.9'' (Some msg, None))"])
      (simp_all add: run_trap_def delivered_pdu_def)
qed



theorem inform_response_witness:
  "length (h_sent (run_trap v2_server (MsgV1 (v2_trap InformRequest)))) = 1"
proof -
  let ?h = "run_trap v2_server (MsgV1 (v2_trap InformRequest))"
  have d: "case delivered_pdu ?h of Some p \<Rightarrow> PduType p = InformRequest \<and> is_ok (Pdu_Marshal (response_of p)) | None \<Rightarrow> False"
    by code_simp
  then have "delivered_pdu ?h \<noteq> None" by (auto split: option.splits)
  from run_trap_delivers [OF this] obtain s' t p where
    t: "handle const_crypto demo_draws (\<lambda>t. None) (\<lambda>b. Ok ()) v2_server ''10.0.0.9'' (Some (MsgV1 (v2_trap InformRequest)), None) =
      (s', ?h)" "h_trap ?h = Some t" "t_Pdu t = Some p" "delivered_pdu ?h = Some p" .
  from d t(4) obtain b where b: "Pdu_Marshal (response_of p) = Ok b" "PduType p = InformRequest" by (auto simp: is_ok_iff)
  have v: "Version (MsgV1 (v2_trap InformRequest)) = V2c" by code_simp
  from inform_response [OF v2_server_configured t(1-3) refl v b(1) refl] b(2) show ?thesis by auto
qed

theorem v3_inform_panics_witness:
  "delivered_pdu (run_trap v3_server (MsgV3 (v3_trap 1 alice_engine ''alice'' InformRequest))) \<noteq> None \<and>
    h_panic (run_trap v3_server (MsgV3 (v3_trap 1 alice_engine ''alice'' InformRequest))) = Some NilDereference"
proof -
  let ?h = "run_trap v3_server (MsgV3 (v3_trap 1 alice_engine ''alice'' InformRequest))"
  have d: "case delivered_pdu ?h of Some p \<Rightarrow> PduType p = InformRequest | None \<Rightarrow> False" by code_simp
  then have n: "delivered_pdu ?h \<noteq> None" by (auto split: option.splits)
  from run_trap_delivers [OF n] obtain s' t p where
    t: "handle const_crypto demo_draws (\<lambda>t. None) (\<lambda>b. Ok ()) v3_server ''10.0.0.9''
      (Some (MsgV3 (v3_trap 1 alice_engine ''alice'' InformRequest)), None) = (s', ?h)" "h_trap ?h = Some t" "t_Pdu t = Some p"
    "delivered_pdu ?h = Some p" .
  have v: "Version (MsgV3 (v3_trap 1 alice_engine ''alice'' InformRequest)) = V3" by code_simp
  have "PduType p = InformRequest" using d t(4) by simp
  from v3_inform_panics [OF v3_server_configured t(1-3) refl v this] n show ?thesis by simp
qed

end
