(* ===== verification/TrapServing.thy ===== *)
theory TrapServing
  imports Main
begin

text \<open>
  The goroutines around a running trap server: \<open>Serve\<close>, the readers it starts, one call of \<open>Close\<close>, and the
  lock and the unbuffered channel \<open>anchor\<close> of \<open>packetTransport\<close> between them. An event is one atomic action of
  one goroutine: a critical section, a system call, a send that meets its receiver. Packets change nothing of
  this state and are left out; what is done with them is in \<open>TrapServer\<close>. Sockets are numbered in the order
  they are opened.
\<close>

section \<open>States\<close>

text \<open>
  Where \<open>Serve\<close> is: before \<open>serving = true\<close>; about to lock in \<open>Listen\<close>; receiving from \<open>anchor\<close>; about to bind a
  socket; about to store what binding gave; about to check \<open>serving\<close>; returned, with a nil error or not. An error
  of binding is given by whether it is temporary.
\<close>

datatype serve_pc =
    SStart
  | SListen
  | SWait
  | SBind
  | SStore "nat option" "bool option"
  | SCheck "nat option" "bool option"
  | SReturned bool

text \<open>
  A reader: started with its connection; in \<open>Read\<close>; about to lock in the deferred \<open>transport.Close\<close>; sending on
  \<open>anchor\<close>, with the lock held, before it closes a socket; ended. The flag tells whether it panics.
\<close>

datatype reader_pc = RStart "nat option" | Reading nat | RClosing bool | RSending nat bool | REnded bool

datatype close_pc = CNotCalled | CClosing | CSending nat | CDone

record serving_state =
  serving :: bool
  t_conn :: "nat option"
  serve_at :: serve_pc
  readers :: "reader_pc list"
  close_at :: close_pc
  sockets :: "nat set"
  opened :: nat

definition serving_init :: serving_state where
  "serving_init = \<lparr>serving = False, t_conn = None, serve_at = SStart, readers = [], close_at = CNotCalled, sockets = {}, opened = 0\<rparr>"

text \<open>The lock is held across events only by a goroutine that sends on \<open>anchor\<close>.\<close>

definition lock_free :: "serving_state \<Rightarrow> bool" where
  "lock_free s \<longleftrightarrow> (case close_at s of CSending _ \<Rightarrow> False | _ \<Rightarrow> True) \<and>
     list_all (\<lambda>r. case r of RSending _ _ \<Rightarrow> False | _ \<Rightarrow> True) (readers s)"

text \<open>A goroutine that panics ends the process, once its deferred call has returned.\<close>

definition crashed :: "serving_state \<Rightarrow> bool" where
  "crashed s \<longleftrightarrow> REnded True \<in> set (readers s)"

section \<open>Events\<close>

datatype serving_event =
    StartServe
  | Listen
  | Bind
  | BindError bool
  | Store
  | Check
  | StartReader nat
  | ReadClosed nat
  | ReadError nat
  | ReaderClose nat
  | ReaderMeets nat
  | CallClose
  | CloseLock
  | CloseMeets

text \<open>\<open>Serve\<close> and \<open>Listen\<close>. Woken by \<open>anchor\<close>, \<open>Listen\<close> returns a nil connection and a nil error.\<close>

fun fire_serve :: "serving_event \<Rightarrow> serving_state \<Rightarrow> serving_state option" where
  "fire_serve StartServe s =
     (if serve_at s = SStart then Some (s\<lparr>serving := True, serve_at := SListen\<rparr>) else None)"
| "fire_serve Listen s =
     (if serve_at s = SListen \<and> lock_free s then Some (s\<lparr>serve_at := (if t_conn s = None then SBind else SWait)\<rparr>) else None)"
| "fire_serve Bind s =
     (if serve_at s = SBind then
        Some (s\<lparr>sockets := insert (opened s) (sockets s), opened := Suc (opened s), serve_at := SStore (Some (opened s)) None\<rparr>)
      else None)"
| "fire_serve (BindError temporary) s =
     (if serve_at s = SBind then Some (s\<lparr>serve_at := SStore None (Some temporary)\<rparr>) else None)"
| "fire_serve Store s =
     (case serve_at s of
        SStore c e \<Rightarrow> if lock_free s then Some (s\<lparr>t_conn := c, serve_at := SCheck c e\<rparr>) else None
      | _ \<Rightarrow> None)"
| "fire_serve Check s =
     (case serve_at s of
        SCheck c e \<Rightarrow>
          Some (if \<not> serving s then s\<lparr>serve_at := SReturned True\<rparr>
                else case e of
                       Some temporary \<Rightarrow> s\<lparr>serve_at := (if temporary then SListen else SReturned False)\<rparr>
                     | None \<Rightarrow> s\<lparr>readers := readers s @ [RStart c], serve_at := SListen\<rparr>)
      | _ \<Rightarrow> None)"
| "fire_serve _ s = None"

text \<open>
  \<open>packetTransport.Close\<close>: under the lock the connection is taken; if there was none the call returns, else it
  sends on \<open>anchor\<close> (and closes the socket and unlocks when \<open>Serve\<close> has received).
\<close>

definition set_reader :: "nat \<Rightarrow> reader_pc \<Rightarrow> serving_state \<Rightarrow> serving_state" where
  "set_reader i r s = s\<lparr>readers := (readers s)[i := r]\<rparr>"

definition reader_at :: "nat \<Rightarrow> serving_state \<Rightarrow> reader_pc option" where
  "reader_at i s = (if i < length (readers s) then Some (readers s ! i) else None)"

definition meet :: "nat \<Rightarrow> serving_state \<Rightarrow> serving_state" where
  "meet c s = s\<lparr>serve_at := SCheck None None, sockets := sockets s - {c}\<rparr>"

text \<open>
  A reader. \<open>conn.(net.PacketConn)\<close> panics on a nil connection. Reading a closed socket fails, reading an open one
  can fail; temporary errors are retried in \<open>Read\<close>.
\<close>

fun fire_reader :: "serving_event \<Rightarrow> serving_state \<Rightarrow> serving_state option" where
  "fire_reader (StartReader i) s =
     (case reader_at i s of
        Some (RStart (Some c)) \<Rightarrow> Some (set_reader i (Reading c) s)
      | Some (RStart None) \<Rightarrow> Some (set_reader i (RClosing True) s)
      | _ \<Rightarrow> None)"
| "fire_reader (ReadClosed i) s =
     (case reader_at i s of
        Some (Reading c) \<Rightarrow> if c \<notin> sockets s then Some (set_reader i (RClosing False) s) else None
      | _ \<Rightarrow> None)"
| "fire_reader (ReadError i) s =
     (case reader_at i s of
        Some (Reading c) \<Rightarrow> if c \<in> sockets s then Some (set_reader i (RClosing False) s) else None
      | _ \<Rightarrow> None)"
| "fire_reader (ReaderClose i) s =
     (case reader_at i s of
        Some (RClosing b) \<Rightarrow>
          if lock_free s then
            Some (case t_conn s of
                    None \<Rightarrow> set_reader i (REnded b) s
                  | Some c \<Rightarrow> set_reader i (RSending c b) (s\<lparr>t_conn := None\<rparr>))
          else None
      | _ \<Rightarrow> None)"
| "fire_reader (ReaderMeets i) s =
     (case reader_at i s of
        Some (RSending c b) \<Rightarrow> if serve_at s = SWait then Some (set_reader i (REnded b) (meet c s)) else None
      | _ \<Rightarrow> None)"
| "fire_reader _ s = None"

fun fire_close :: "serving_event \<Rightarrow> serving_state \<Rightarrow> serving_state option" where
  "fire_close CallClose s =
     (if close_at s = CNotCalled then Some (s\<lparr>serving := False, close_at := CClosing\<rparr>) else None)"
| "fire_close CloseLock s =
     (if close_at s = CClosing \<and> lock_free s then
        Some (case t_conn s of
                None \<Rightarrow> s\<lparr>close_at := CDone\<rparr>
              | Some c \<Rightarrow> s\<lparr>t_conn := None, close_at := CSending c\<rparr>)
      else None)"
| "fire_close CloseMeets s =
     (case close_at s of
        CSending c \<Rightarrow> if serve_at s = SWait then Some (meet c (s\<lparr>close_at := CDone\<rparr>)) else None
      | _ \<Rightarrow> None)"
| "fire_close _ s = None"

definition fire :: "serving_event \<Rightarrow> serving_state \<Rightarrow> serving_state option" where
  "fire e s =
     (case e of
        CallClose \<Rightarrow> fire_close e s | CloseLock \<Rightarrow> fire_close e s | CloseMeets \<Rightarrow> fire_close e s
      | StartServe \<Rightarrow> fire_serve e s | Listen \<Rightarrow> fire_serve e s | Bind \<Rightarrow> fire_serve e s | BindError _ \<Rightarrow> fire_serve e s
      | Store \<Rightarrow> fire_serve e s | Check \<Rightarrow> fire_serve e s
      | _ \<Rightarrow> fire_reader e s)"

fun run_events :: "serving_event list \<Rightarrow> serving_state \<Rightarrow> serving_state option" where
  "run_events [] s = Some s"
| "run_events (e # es) s = (case fire e s of Some s' \<Rightarrow> run_events es s' | None \<Rightarrow> None)"

section \<open>Runs\<close>

text \<open>
  What the environment does: \<open>faults\<close>, whether reading an open socket may fail for good; \<open>early\<close>, whether \<open>Close\<close>
  may be called before \<open>Serve\<close> has set \<open>serving\<close>.
\<close>

fun allowed :: "bool \<Rightarrow> bool \<Rightarrow> serving_event \<Rightarrow> serving_state \<Rightarrow> bool" where
  "allowed faults early (ReadError i) s \<longleftrightarrow> faults"
| "allowed faults early CallClose s \<longleftrightarrow> early \<or> serve_at s \<noteq> SStart"
| "allowed faults early _ s \<longleftrightarrow> True"

inductive serving_step :: "bool \<Rightarrow> bool \<Rightarrow> serving_state \<Rightarrow> serving_state \<Rightarrow> bool" for faults early where
  step_fire: "fire e s = Some s' \<Longrightarrow> allowed faults early e s \<Longrightarrow> serving_step faults early s s'"

inductive_cases serving_stepE: "serving_step faults early s s'"

inductive serving_run :: "bool \<Rightarrow> bool \<Rightarrow> serving_state \<Rightarrow> nat \<Rightarrow> serving_state \<Rightarrow> bool" for faults early s where
  run_refl: "serving_run faults early s 0 s"
| run_step: "\<lbrakk> serving_run faults early s n s'; serving_step faults early s' s'' \<rbrakk> \<Longrightarrow> serving_run faults early s (Suc n) s''"

fun all_allowed :: "bool \<Rightarrow> bool \<Rightarrow> serving_event list \<Rightarrow> serving_state \<Rightarrow> bool" where
  "all_allowed faults early [] s \<longleftrightarrow> True"
| "all_allowed faults early (e # es) s \<longleftrightarrow>
     allowed faults early e s \<and> (case fire e s of Some s' \<Rightarrow> all_allowed faults early es s' | None \<Rightarrow> True)"

lemma run_events_run:
  assumes "serving_run faults early s n s1" and "run_events es s1 = Some s2" and "all_allowed faults early es s1"
  shows "\<exists>m. serving_run faults early s m s2"
  using assms
proof (induction es arbitrary: s1 n)
  case Nil
  then show ?case by auto
next
  case (Cons e es)
  then obtain s' where s': "fire e s1 = Some s'" "run_events es s' = Some s2" "allowed faults early e s1"
    "all_allowed faults early es s'"
    by (auto split: option.splits)
  have "serving_run faults early s (Suc n) s'"
    using Cons.prems(1) s' by (intro run_step step_fire)
  from Cons.IH [OF this s'(2,4)] show ?case .
qed

definition reachable :: "bool \<Rightarrow> bool \<Rightarrow> serving_state \<Rightarrow> bool" where
  "reachable faults early s \<longleftrightarrow> (\<exists>n. serving_run faults early serving_init n s)"

lemma reachable_events:
  "run_events es serving_init = Some s \<Longrightarrow> all_allowed faults early es serving_init \<Longrightarrow> reachable faults early s"
  unfolding reachable_def by (rule run_events_run [OF run_refl])

lemma reachable_induct [consumes 1, case_names init step]:
  assumes "reachable faults early s" and "P serving_init"
    and "\<And>s s'. P s \<Longrightarrow> serving_step faults early s s' \<Longrightarrow> P s'"
  shows "P s"
proof -
  have "serving_run faults early serving_init n s \<Longrightarrow> P s" for n s
    by (induction rule: serving_run.induct) (auto intro: assms(2,3))
  with assms(1) show ?thesis by (auto simp: reachable_def)
qed


section \<open>Runs without faults\<close>

text \<open>The phases of a server: no socket; a socket without reader; served by a reader; shut down.\<close>

definition idle_phase :: "serving_state \<Rightarrow> bool" where
  "idle_phase s \<longleftrightarrow> readers s = [] \<and> sockets s = {} \<and> t_conn s = None \<and> close_at s \<in> {CNotCalled, CClosing, CDone} \<and>
     (case serve_at s of
        SStart \<Rightarrow> True | SListen \<Rightarrow> True | SBind \<Rightarrow> True | SWait \<Rightarrow> False
      | SStore c e \<Rightarrow> c = None \<and> e \<noteq> None | SCheck c e \<Rightarrow> c = None \<and> e \<noteq> None
      | SReturned ok \<Rightarrow> ok \<longrightarrow> close_at s \<noteq> CNotCalled)"

definition bound_phase :: "serving_state \<Rightarrow> nat \<Rightarrow> bool" where
  "bound_phase s c \<longleftrightarrow> readers s = [] \<and> sockets s = {c} \<and>
     (t_conn s = None \<and> close_at s \<in> {CNotCalled, CClosing, CDone} \<and> serve_at s = SStore (Some c) None \<or>
      (t_conn s = Some c \<and> close_at s \<in> {CNotCalled, CClosing, CDone} \<or> t_conn s = None \<and> close_at s = CSending c) \<and>
        (serve_at s = SCheck (Some c) None \<or> serve_at s = SReturned True \<and> close_at s \<noteq> CNotCalled))"

definition up_phase :: "serving_state \<Rightarrow> nat \<Rightarrow> bool" where
  "up_phase s c \<longleftrightarrow> sockets s = {c} \<and> (readers s = [RStart (Some c)] \<or> readers s = [Reading c]) \<and>
     (t_conn s = Some c \<and> close_at s \<in> {CNotCalled, CClosing} \<or> t_conn s = None \<and> close_at s = CSending c) \<and>
     (serve_at s = SListen \<or> serve_at s = SWait)"

definition down_phase :: "serving_state \<Rightarrow> nat \<Rightarrow> bool" where
  "down_phase s c \<longleftrightarrow> sockets s = {} \<and> readers s \<in> {[RStart (Some c)], [Reading c], [RClosing False], [REnded False]} \<and>
     t_conn s = None \<and> close_at s = CDone \<and> (serve_at s = SCheck None None \<or> serve_at s = SReturned True)"

definition called_ok :: "serving_state \<Rightarrow> bool" where
  "called_ok s \<longleftrightarrow> (if serve_at s = SStart then close_at s = CNotCalled else serving s \<longleftrightarrow> close_at s = CNotCalled)"

definition serving_ok :: "serving_state \<Rightarrow> bool" where
  "serving_ok s \<longleftrightarrow> called_ok s \<and> (idle_phase s \<or> (\<exists>c. bound_phase s c \<or> up_phase s c \<or> down_phase s c))"

lemmas reader_simps = reader_at_def set_reader_def meet_def

lemma fire_cases:
  "fire e s = Some s' \<Longrightarrow> fire_serve e s = Some s' \<or> fire_reader e s = Some s' \<or> fire_close e s = Some s'"
  by (cases e) (simp_all add: fire_def)

lemma no_reader: "readers s = [] \<Longrightarrow> fire_reader e s = None"
  by (cases e) (simp_all add: reader_at_def)

lemma fire_reader_keeps:
  "fire_reader e s = Some s' \<Longrightarrow> close_at s' = close_at s \<and> serving s' = serving s \<and> (serve_at s' = SStart \<longleftrightarrow> serve_at s = SStart)"
  by (cases e) (auto simp: reader_simps split: option.splits reader_pc.splits if_splits)

lemma called_serve: "called_ok s \<Longrightarrow> fire_serve e s = Some s' \<Longrightarrow> called_ok s'"
  by (cases e) (auto simp: called_ok_def split: serve_pc.splits option.splits if_splits)

lemma called_close: "called_ok s \<Longrightarrow> fire_close e s = Some s' \<Longrightarrow> allowed False False e s \<Longrightarrow> called_ok s'"
  by (cases e) (auto simp: called_ok_def meet_def split: close_pc.splits option.splits if_splits)

lemma called_step: "serving_step False False s s' \<Longrightarrow> called_ok s \<Longrightarrow> called_ok s'"
proof (elim serving_stepE)
  fix e assume ok: "called_ok s" and e: "fire e s = Some s'" "allowed False False e s"
  from fire_cases [OF e(1)] show "called_ok s'"
  proof (elim disjE)
    assume "fire_reader e s = Some s'"
    with ok fire_reader_keeps show ?thesis unfolding called_ok_def by metis
  qed (use ok e(2) in \<open>auto intro: called_serve called_close\<close>)
qed

text \<open>The steps of \<open>Serve\<close> by the place they start from.\<close>

lemma fire_serve_cases [consumes 1, case_names start listen bind bind_error store check]:
  assumes "fire_serve e s = Some s'"
  obtains "serve_at s = SStart" "s' = s\<lparr>serving := True, serve_at := SListen\<rparr>"
  | "serve_at s = SListen" "lock_free s" "s' = s\<lparr>serve_at := (if t_conn s = None then SBind else SWait)\<rparr>"
  | "serve_at s = SBind"
      "s' = s\<lparr>sockets := insert (opened s) (sockets s), opened := Suc (opened s), serve_at := SStore (Some (opened s)) None\<rparr>"
  | t where "serve_at s = SBind" "s' = s\<lparr>serve_at := SStore None (Some t)\<rparr>"
  | c e where "serve_at s = SStore c e" "lock_free s" "s' = s\<lparr>t_conn := c, serve_at := SCheck c e\<rparr>"
  | c e where "serve_at s = SCheck c e"
      "s' = (if \<not> serving s then s\<lparr>serve_at := SReturned True\<rparr>
             else case e of
                    Some t \<Rightarrow> s\<lparr>serve_at := (if t then SListen else SReturned False)\<rparr>
                  | None \<Rightarrow> s\<lparr>readers := readers s @ [RStart c], serve_at := SListen\<rparr>)"
proof (cases e)
  case StartServe
  with assms that(1) show ?thesis by (simp split: if_splits)
next
  case Listen
  with assms that(2) show ?thesis by (simp split: if_splits)
next
  case Bind
  with assms that(3) show ?thesis by (simp split: if_splits)
next
  case (BindError t)
  with assms that(4) [of t] show ?thesis by (simp split: if_splits)
next
  case Store
  with assms that(5) show ?thesis by (simp split: serve_pc.splits if_splits)
next
  case Check
  with assms that(6) show ?thesis by (simp split: serve_pc.splits)
qed (use assms in simp_all)

lemma fire_close_cases [consumes 1, case_names call lock_none lock_some meets]:
  assumes "fire_close e s = Some s'"
  obtains "close_at s = CNotCalled" "s' = s\<lparr>serving := False, close_at := CClosing\<rparr>" "e = CallClose"
  | "close_at s = CClosing" "lock_free s" "t_conn s = None" "s' = s\<lparr>close_at := CDone\<rparr>"
  | c where "close_at s = CClosing" "lock_free s" "t_conn s = Some c" "s' = s\<lparr>t_conn := None, close_at := CSending c\<rparr>"
  | c where "close_at s = CSending c" "serve_at s = SWait" "s' = meet c (s\<lparr>close_at := CDone\<rparr>)"
  using assms by (cases e) (auto split: close_pc.splits option.splits if_splits)

lemma idle_serve:
  assumes idle: "idle_phase s" and call: "called_ok s" and "fire_serve e s = Some s'"
  shows "idle_phase s' \<or> bound_phase s' (opened s)"
  using assms(3)
proof (cases rule: fire_serve_cases)
  case (bind)
  with idle have "bound_phase s' (opened s)" by (simp add: idle_phase_def bound_phase_def)
  then show ?thesis ..
next
  case (store c e)
  with idle have "idle_phase s'" by (simp add: idle_phase_def)
  then show ?thesis ..
next
  case (check c e)
  with idle obtain t where e: "c = None" "e = Some t" by (auto simp: idle_phase_def)
  have "idle_phase s'" using idle call check e by (cases "serving s") (simp_all add: idle_phase_def called_ok_def)
  then show ?thesis ..
qed (use idle in \<open>simp_all add: idle_phase_def\<close>)

lemma idle_close:
  assumes "idle_phase s" and "fire_close e s = Some s'"
  shows "idle_phase s'"
  using assms(2)
  by (cases rule: fire_close_cases) (use assms(1) in \<open>auto simp: idle_phase_def split: serve_pc.splits\<close>)

lemma bound_serve:
  assumes "bound_phase s c" and "called_ok s" and "fire_serve e s = Some s'"
  shows "bound_phase s' c \<or> up_phase s' c"
  using assms(3)
  by (cases rule: fire_serve_cases) (use assms(1,2) in \<open>auto simp: bound_phase_def up_phase_def called_ok_def\<close>)

lemma bound_close:
  assumes "bound_phase s c" and "fire_close e s = Some s'"
  shows "bound_phase s' c"
  using assms(2)
  by (cases rule: fire_close_cases) (use assms(1) in \<open>auto simp: bound_phase_def meet_def\<close>)

lemma up_serve:
  assumes "up_phase s c" and "fire_serve e s = Some s'"
  shows "up_phase s' c"
  using assms(2)
  by (cases rule: fire_serve_cases) (use assms(1) in \<open>auto simp: up_phase_def lock_free_def\<close>)

lemma up_close:
  assumes "up_phase s c" and "fire_close e s = Some s'"
  shows "up_phase s' c \<or> down_phase s' c"
  using assms(2)
  by (cases rule: fire_close_cases) (use assms(1) in \<open>auto simp: up_phase_def down_phase_def meet_def\<close>)


lemma fire_reader_cases [consumes 1, case_names start start_nil closed error ends takes meets]:
  assumes "fire_reader e s = Some s'"
  obtains i c where "reader_at i s = Some (RStart (Some c))" "s' = set_reader i (Reading c) s"
  | i where "reader_at i s = Some (RStart None)" "s' = set_reader i (RClosing True) s"
  | i c where "reader_at i s = Some (Reading c)" "c \<notin> sockets s" "s' = set_reader i (RClosing False) s"
  | i c where "reader_at i s = Some (Reading c)" "c \<in> sockets s" "s' = set_reader i (RClosing False) s" "e = ReadError i"
  | i b where "reader_at i s = Some (RClosing b)" "lock_free s" "t_conn s = None" "s' = set_reader i (REnded b) s"
  | i b c where "reader_at i s = Some (RClosing b)" "lock_free s" "t_conn s = Some c"
      "s' = set_reader i (RSending c b) (s\<lparr>t_conn := None\<rparr>)"
  | i c b where "reader_at i s = Some (RSending c b)" "serve_at s = SWait" "s' = set_reader i (REnded b) (meet c s)"
  using assms by (cases e) (auto split: option.splits reader_pc.splits if_splits)

lemma reader_at_single: "readers s = [r] \<Longrightarrow> reader_at i s = Some r' \<longleftrightarrow> i = 0 \<and> r' = r"
  by (auto simp: reader_at_def)

lemma up_reader:
  assumes up: "up_phase s c" and "fire_reader e s = Some s'" and allow: "allowed False early e s"
  shows "up_phase s' c \<and> serve_at s' = serve_at s"
proof -
  have at: "i = 0 \<and> (r = RStart (Some c) \<or> r = Reading c)" if "reader_at i s = Some r" for i r
    using up that unfolding up_phase_def by (elim conjE disjE) (simp_all add: reader_at_single)
  from assms(2) show ?thesis
  proof (cases rule: fire_reader_cases)
    case (start i c')
    with at [OF start(1)] up show ?thesis by (auto simp: up_phase_def set_reader_def)
  next
    case (closed i c')
    with at [OF closed(1)] up show ?thesis by (simp add: up_phase_def)
  next
    case (error i c')
    with allow show ?thesis by simp
  qed (use at in fastforce)+
qed

lemma down_reader:
  assumes down: "down_phase s c" and "fire_reader e s = Some s'"
  shows "down_phase s' c"
proof -
  have at: "i = 0 \<and> r \<in> {RStart (Some c), Reading c, RClosing False, REnded False}" if "reader_at i s = Some r" for i r
    using down that unfolding down_phase_def by (auto simp: reader_at_single)
  have one: "length (readers s) = 1" "t_conn s = None" using down by (auto simp: down_phase_def)
  have set: "down_phase (set_reader i r s) c" if "i = 0" "r \<in> {RStart (Some c), Reading c, RClosing False, REnded False}" for i r
    using down that one(1) by (cases "readers s") (auto simp: down_phase_def set_reader_def)
  from assms(2) show ?thesis
    by (cases rule: fire_reader_cases) (use one(2) in \<open>auto dest!: at intro: set\<close>)
qed

lemma down_serve:
  assumes "down_phase s c" and "called_ok s" and "fire_serve e s = Some s'"
  shows "down_phase s' c"
  using assms(3)
  by (cases rule: fire_serve_cases) (use assms(1,2) in \<open>auto simp: down_phase_def called_ok_def\<close>)

lemma down_close: "down_phase s c \<Longrightarrow> fire_close e s = None"
  by (cases e) (auto simp: down_phase_def)

lemma up_step:
  assumes "serving_step False False s s'" and "up_phase s c"
  shows "up_phase s' c \<or> down_phase s' c"
  using assms(1)
proof (rule serving_stepE)
  fix e assume e: "fire e s = Some s'" "allowed False False e s"
  from fire_cases [OF e(1)] up_serve [OF assms(2)] up_close [OF assms(2)] up_reader [OF assms(2) _ e(2)]
  show ?thesis by blast
qed

lemma down_step:
  assumes "serving_step False False s s'" and "down_phase s c" and "called_ok s"
  shows "down_phase s' c"
  using assms(1)
proof (rule serving_stepE)
  fix e assume e: "fire e s = Some s'" "allowed False False e s"
  have "fire_close e s \<noteq> Some s'" by (simp add: down_close [OF assms(2)])
  with fire_cases [OF e(1)] down_serve [OF assms(2,3)] down_reader [OF assms(2)] show ?thesis by blast
qed

lemma serving_ok_step:
  assumes ok: "serving_ok s" and step: "serving_step False False s s'"
  shows "serving_ok s'"
proof -
  have call: "called_ok s" "called_ok s'" using ok called_step [OF step] by (simp_all add: serving_ok_def)
  obtain e where e: "fire e s = Some s'" using step by (elim serving_stepE)
  from ok consider "idle_phase s" | c where "bound_phase s c" | c where "up_phase s c" | c where "down_phase s c"
    by (auto simp: serving_ok_def)
  then show ?thesis
  proof cases
    case 1
    then have "fire_reader e s \<noteq> Some s'" by (simp add: no_reader idle_phase_def)
    with fire_cases [OF e] idle_serve [OF 1 call(1)] idle_close [OF 1] have "idle_phase s' \<or> bound_phase s' (opened s)" by blast
    with call(2) show ?thesis unfolding serving_ok_def by blast
  next
    case 2
    then have "fire_reader e s \<noteq> Some s'" by (simp add: no_reader bound_phase_def)
    with fire_cases [OF e] bound_serve [OF 2 call(1)] bound_close [OF 2] have "bound_phase s' c \<or> up_phase s' c" by blast
    with call(2) show ?thesis unfolding serving_ok_def by blast
  next
    case 3
    with up_step [OF step 3] call(2) show ?thesis unfolding serving_ok_def by blast
  next
    case 4
    with down_step [OF step 4 call(1)] call(2) show ?thesis unfolding serving_ok_def by blast
  qed
qed

lemma reachable_ok: "reachable False False s \<Longrightarrow> serving_ok s"
proof (induction rule: reachable_induct)
  case init
  then show ?case by (simp add: serving_ok_def called_ok_def idle_phase_def serving_init_def)
next
  case (step s s')
  then show ?case by (rule serving_ok_step)
qed


text \<open>When reading never fails on an open socket and \<open>Close\<close> is called after \<open>Serve\<close> has begun, the process does
  not crash, at most one socket is open, one reader runs at most, and \<open>Serve\<close> returns a nil error only after
  \<open>Close\<close> was called.\<close>

theorem serving_safe:
  assumes "reachable False False s"
  shows "\<not> crashed s \<and> (\<exists>c. sockets s \<subseteq> {c}) \<and> length (readers s) \<le> 1 \<and>
    (serve_at s = SReturned True \<longrightarrow> close_at s \<noteq> CNotCalled)"
proof -
  from reachable_ok [OF assms] consider "idle_phase s" | c where "bound_phase s c" | c where "up_phase s c" | c where "down_phase s c"
    by (auto simp: serving_ok_def)
  then show ?thesis
  proof cases
    case 1
    then show ?thesis by (auto simp: idle_phase_def crashed_def)
  next
    case 2
    then show ?thesis by (auto simp: bound_phase_def crashed_def)
  next
    case 3
    then show ?thesis by (auto simp: up_phase_def crashed_def)
  next
    case 4
    then show ?thesis by (auto simp: down_phase_def crashed_def)
  qed
qed

section \<open>Shutting down a waiting server\<close>

definition waiting_phase :: "serving_state \<Rightarrow> nat \<Rightarrow> bool" where
  "waiting_phase s c \<longleftrightarrow> called_ok s \<and> (up_phase s c \<and> serve_at s = SWait \<or> down_phase s c)"

definition shut_down :: "serving_state \<Rightarrow> bool" where
  "shut_down s \<longleftrightarrow> serve_at s = SReturned True \<and> close_at s = CDone \<and> sockets s = {} \<and> set (readers s) \<subseteq> {REnded False}"

text \<open>How far the three goroutines are from their ends.\<close>

fun close_rank :: "close_pc \<Rightarrow> nat" where
  "close_rank CNotCalled = 3" | "close_rank CClosing = 2" | "close_rank (CSending _) = 1" | "close_rank CDone = 0"

fun serve_rank :: "serve_pc \<Rightarrow> nat" where
  "serve_rank (SReturned _) = 0" | "serve_rank _ = 1"

fun reader_rank :: "reader_pc \<Rightarrow> nat" where
  "reader_rank (RStart _) = 3" | "reader_rank (Reading _) = 2" | "reader_rank (RClosing _) = 1" | "reader_rank _ = 0"

definition rank :: "serving_state \<Rightarrow> nat" where
  "rank s = close_rank (close_at s) + serve_rank (serve_at s) + sum_list (map reader_rank (readers s))"

lemma up_waiting_step:
  assumes up: "up_phase s c" "serve_at s = SWait" and e: "fire e s = Some s'" "allowed False False e s"
  shows "(up_phase s' c \<and> serve_at s' = SWait \<or> down_phase s' c) \<and> rank s = Suc (rank s')"
  using fire_cases [OF e(1)]
proof (elim disjE)
  assume "fire_serve e s = Some s'"
  then show ?thesis using up(2) by (cases rule: fire_serve_cases) simp_all
next
  assume r: "fire_reader e s = Some s'"
  have at: "i = 0 \<and> (x = RStart (Some c) \<or> x = Reading c)" if "reader_at i s = Some x" for i x
    using up(1) that unfolding up_phase_def by (elim conjE disjE) (simp_all add: reader_at_single)
  have "rank s = Suc (rank s')"
    using r
  proof (cases rule: fire_reader_cases)
    case (start i c')
    with at [OF start(1)] up(1) show ?thesis
      by (auto simp: up_phase_def set_reader_def rank_def reader_at_single)
  next
    case (closed i c')
    with at [OF closed(1)] up(1) show ?thesis by (simp add: up_phase_def)
  next
    case (error i c')
    with e(2) show ?thesis by simp
  qed (use at in fastforce)+
  with up_reader [OF up(1) r e(2)] up(2) show ?thesis by simp
next
  assume c: "fire_close e s = Some s'"
  then have "rank s = Suc (rank s') \<and> (serve_at s' = SWait \<or> close_at s' = CDone)"
    using up(2)
  proof (cases rule: fire_close_cases)
    case lock_none
    with up(1) show ?thesis by (simp add: up_phase_def)
  qed (use up(2) in \<open>simp_all add: rank_def meet_def\<close>)
  with up_close [OF up(1) c] show ?thesis by (auto simp: up_phase_def)
qed

lemma down_waiting_step:
  assumes down: "down_phase s c" "called_ok s" and e: "fire e s = Some s'"
  shows "rank s = Suc (rank s')"
  using fire_cases [OF e(1)]
proof (elim disjE)
  assume "fire_serve e s = Some s'"
  then show ?thesis
    by (cases rule: fire_serve_cases) (use down in \<open>simp_all add: down_phase_def called_ok_def rank_def\<close>)
next
  assume r: "fire_reader e s = Some s'"
  obtain x where x: "readers s = [x]" "t_conn s = None" "x \<in> {RStart (Some c), Reading c, RClosing False, REnded False}"
    using down(1) by (auto simp: down_phase_def)
  from r show ?thesis
    by (cases rule: fire_reader_cases) (use x in \<open>auto simp: rank_def set_reader_def reader_at_single\<close>)
next
  assume "fire_close e s = Some s'"
  with down_close [OF down(1)] show ?thesis by simp
qed

lemma waiting_step:
  assumes "waiting_phase s c" and "serving_step False False s s'"
  shows "waiting_phase s' c \<and> rank s = Suc (rank s')"
proof -
  obtain e where e: "fire e s = Some s'" "allowed False False e s" using assms(2) by (elim serving_stepE)
  have call: "called_ok s" "called_ok s'" using assms called_step by (auto simp: waiting_phase_def)
  show ?thesis
  proof (cases "up_phase s c \<and> serve_at s = SWait")
    case True
    with up_waiting_step [of s c, OF _ _ e] call show ?thesis by (simp add: waiting_phase_def)
  next
    case False
    with assms(1) have "down_phase s c" by (simp add: waiting_phase_def)
    with down_waiting_step [OF _ call(1) e(1)] down_step [OF assms(2) _ call(1)] call(2) show ?thesis
      by (simp add: waiting_phase_def)
  qed
qed


lemma waiting_run:
  "serving_run False False s n s' \<Longrightarrow> waiting_phase s c \<Longrightarrow> waiting_phase s' c \<and> rank s = n + rank s'"
proof (induction rule: serving_run.induct)
  case (run_step n s' s'')
  then show ?case using waiting_step [of s' c s''] by simp
qed simp

lemma step_fireI: "fire e s = Some s' \<Longrightarrow> allowed False False e s \<Longrightarrow> \<exists>s'. serving_step False False s s'"
  by (blast intro: step_fire)

text \<open>Some goroutine can move until all three have ended.\<close>

lemma waiting_progress:
  assumes "waiting_phase s c"
  shows "shut_down s \<or> (\<exists>s'. serving_step False False s s')"
proof (cases "up_phase s c \<and> serve_at s = SWait")
  case True
  then consider "close_at s = CNotCalled" | "close_at s = CClosing" "t_conn s = Some c" "lock_free s" | "close_at s = CSending c"
    by (auto simp: up_phase_def lock_free_def)
  then have "\<exists>s'. serving_step False False s s'"
  proof cases
    case 1
    with True show ?thesis by (intro step_fireI [of CallClose]) (simp_all add: fire_def)
  next
    case 2
    then show ?thesis by (intro step_fireI [of CloseLock]) (simp_all add: fire_def)
  next
    case 3
    with True show ?thesis by (intro step_fireI [of CloseMeets]) (simp_all add: fire_def)
  qed
  then show ?thesis ..
next
  case False
  with assms have down: "down_phase s c" by (simp add: waiting_phase_def)
  then consider "serve_at s = SCheck None None" | "readers s = [RStart (Some c)]" | "readers s = [Reading c]" "sockets s = {}"
    | "readers s = [RClosing False]" "lock_free s" "t_conn s = None" | "serve_at s = SReturned True" "readers s = [REnded False]"
    by (auto simp: down_phase_def lock_free_def)
  then show ?thesis
  proof cases
    case 1
    then show ?thesis by (intro disjI2 step_fireI [of Check]) (simp_all add: fire_def)
  next
    case 2
    then show ?thesis by (intro disjI2 step_fireI [of "StartReader 0"]) (simp_all add: fire_def reader_at_def)
  next
    case 3
    then show ?thesis by (intro disjI2 step_fireI [of "ReadClosed 0"]) (simp_all add: fire_def reader_at_def)
  next
    case 4
    then show ?thesis by (intro disjI2 step_fireI [of "ReaderClose 0"]) (simp_all add: fire_def reader_at_def)
  next
    case 5
    with down show ?thesis by (simp add: shut_down_def down_phase_def)
  qed
qed

lemma waits_in_phase:
  assumes "reachable False False s" and "serve_at s = SWait"
  obtains c where "waiting_phase s c"
proof -
  from reachable_ok [OF assms(1)] obtain c where "called_ok s" "up_phase s c"
    using assms(2) by (auto simp: serving_ok_def idle_phase_def bound_phase_def down_phase_def)
  with assms(2) show ?thesis by (intro that [of c]) (simp add: waiting_phase_def)
qed


section \<open>Where it goes wrong\<close>

definition close_hangs :: "serving_state \<Rightarrow> bool" where
  "close_hangs s \<longleftrightarrow> (\<exists>c. close_at s = CSending c) \<and>
     (\<forall>faults early n s'. serving_run faults early s n s' \<longrightarrow> close_at s' = close_at s \<and> serve_at s' = serve_at s)"

lemma hanging_step:
  assumes "close_at s = CSending c" and "serve_at s = SListen \<or> (\<exists>ok. serve_at s = SReturned ok)" and "fire e s = Some s'"
  shows "close_at s' = CSending c \<and> serve_at s' = serve_at s"
  using fire_cases [OF assms(3)]
proof (elim disjE)
  assume "fire_serve e s = Some s'"
  then show ?thesis by (cases rule: fire_serve_cases) (use assms(1,2) in \<open>auto simp: lock_free_def\<close>)
next
  assume "fire_reader e s = Some s'"
  then show ?thesis
    by (cases rule: fire_reader_cases) (use assms(1,2) in \<open>auto simp: lock_free_def set_reader_def\<close>)
next
  assume "fire_close e s = Some s'"
  then show ?thesis by (cases rule: fire_close_cases) (use assms(1,2) in auto)
qed

lemma hangs:
  assumes "close_at s = CSending c" and "serve_at s = SListen \<or> (\<exists>ok. serve_at s = SReturned ok)"
  shows "close_hangs s"
proof -
  have "serving_run faults early s n s' \<Longrightarrow> close_at s' = CSending c \<and> serve_at s' = serve_at s" for faults early n s'
  proof (induction rule: serving_run.induct)
    case (run_step n s' s'')
    then obtain e where "fire e s' = Some s''" by (elim serving_stepE)
    with run_step.IH hanging_step [of s' c e s''] assms(2) show ?case by simp
  qed (use assms in simp)
  with assms show ?thesis by (auto simp: close_hangs_def)
qed

lemma event_run:
  assumes "case run_events es serving_init of Some s \<Rightarrow> P s | None \<Rightarrow> False" and "all_allowed faults early es serving_init"
  shows "\<exists>s. reachable faults early s \<and> P s"
proof (cases "run_events es serving_init")
  case (Some s)
  with assms(1) reachable_events [OF Some assms(2)] show ?thesis by auto
qed (use assms(1) in simp)

text \<open>Without any fault, \<open>Close\<close> can fail to stop the server. Called when \<open>Serve\<close> has started its reader and is
  about to lock in \<open>Listen\<close>, it takes the connection, and with the lock held waits on the channel for \<open>Serve\<close>, which
  waits for the lock: both hang for ever. Called between binding and the check of \<open>serving\<close>, it hangs after \<open>Serve\<close>
  has returned, or returns and leaves the socket open.\<close>

theorem close_hazards:
  "(\<exists>s. reachable False False s \<and> serve_at s = SListen \<and> close_hangs s) \<and>
   (\<exists>s. reachable False False s \<and> serve_at s = SReturned True \<and> close_hangs s) \<and>
   (\<exists>s. reachable False False s \<and> serve_at s = SReturned True \<and> close_at s = CDone \<and> sockets s = {0})"
proof (intro conjI)
  have "\<exists>s. reachable False False s \<and> serve_at s = SListen \<and> close_at s = CSending 0"
    by (rule event_run [where es = "[StartServe, Listen, Bind, Store, Check, CallClose, CloseLock]"]) code_simp+
  then show "\<exists>s. reachable False False s \<and> serve_at s = SListen \<and> close_hangs s" using hangs by blast
  have "\<exists>s. reachable False False s \<and> serve_at s = SReturned True \<and> close_at s = CSending 0"
    by (rule event_run [where es = "[StartServe, Listen, Bind, CallClose, Store, Check, CloseLock]"]) code_simp+
  then show "\<exists>s. reachable False False s \<and> serve_at s = SReturned True \<and> close_hangs s" using hangs by blast
  show "\<exists>s. reachable False False s \<and> serve_at s = SReturned True \<and> close_at s = CDone \<and> sockets s = {0}"
    by (rule event_run [where es = "[StartServe, Listen, Bind, CallClose, CloseLock, Store, Check]"]) code_simp+
qed

text \<open>A waiting server can be brought down by one read error, or by a \<open>Close\<close> that overlaps the start of \<open>Serve\<close>: the
  channel wakes \<open>Listen\<close>, which returns a nil connection while \<open>serving\<close> still holds, and the reader started on it
  panics, which ends the process.\<close>

theorem server_crashes:
  "(\<exists>s. reachable True False s \<and> close_at s = CNotCalled \<and> crashed s) \<and>
   (\<exists>s. reachable False True s \<and> close_at s = CDone \<and> crashed s)"
proof
  show "\<exists>s. reachable True False s \<and> close_at s = CNotCalled \<and> crashed s"
    by (rule event_run [where es = "[StartServe, Listen, Bind, Store, Check, Listen, StartReader 0, ReadError 0, ReaderClose 0,
      ReaderMeets 0, Check, StartReader 1, ReaderClose 1]"]) code_simp+
  show "\<exists>s. reachable False True s \<and> close_at s = CDone \<and> crashed s"
    by (rule event_run [where es = "[CallClose, StartServe, Listen, Bind, Store, Check, Listen, CloseLock, CloseMeets, Check,
      StartReader 1, ReaderClose 1]"]) code_simp+
qed

section \<open>Examples\<close>

theorem serving_safe_witness:
  "\<exists>s. reachable False False s \<and> serve_at s = SReturned True \<and> close_at s \<noteq> CNotCalled \<and> \<not> crashed s"
proof -
  have "\<exists>s. reachable False False s \<and> serve_at s = SReturned True"
    by (rule event_run [where es = "[StartServe, Listen, Bind, Store, Check, Listen, CallClose, CloseLock, CloseMeets, Check]"]) code_simp+
  then show ?thesis using serving_safe by blast
qed


end
