(* ===== verification/Icmp.thy ===== *)
theory Icmp
  imports Prelude
begin

text \<open>
  ICMP messages: \<open>golang.org/x/net/icmp\<close>, as far as the pinger uses it. Every kind of received message is parsed
  (\<open>message.go\<close>, \<open>messagebody.go\<close>, \<open>echo.go\<close>, \<open>dstunreach.go\<close>, \<open>timeexceeded.go\<close>, \<open>paramprob.go\<close>, \<open>packettoobig.go\<close>,
  \<open>multipart.go\<close>, \<open>extension.go\<close>, \<open>mpls.go\<close>, \<open>interface.go\<close>); of the encoders only those of an echo are modelled. Indexing
  and slicing check their bounds, so that a panic of the parser would be a value.
\<close>

section \<open>Bytes and addresses\<close>

definition be_int :: "bytes \<Rightarrow> int" where
  "be_int b = foldl (\<lambda>n x. n * 256 + uint x) 0 b"

definition uint_at :: "bytes \<Rightarrow> nat \<Rightarrow> nat \<Rightarrow> int outcome" where
  "uint_at b lo hi = and_then (slice b lo hi) (\<lambda>s. Ok (be_int s))"

definition byte_at :: "bytes \<Rightarrow> nat \<Rightarrow> int outcome" where
  "byte_at b i = and_then (idx b i) (\<lambda>x. Ok (uint x))"

definition tail_from :: "bytes \<Rightarrow> nat \<Rightarrow> bytes outcome" where
  "tail_from b lo = slice b lo (length b)"

definition put16 :: "int \<Rightarrow> bytes" where
  "put16 i = [word_of_int (i div 256), word_of_int i]"

text \<open>\<open>net.IPAddr\<close> and the conversions \<open>To4\<close>, \<open>To16\<close> of \<open>net.IP\<close>; the fields of \<open>net.Interface\<close> that are used.\<close>

record IPAddr =
  ip_IP :: bytes
  ip_Zone :: string

record Interface =
  if_Index :: int
  if_MTU :: int
  if_Name :: string

definition v4_prefix :: bytes where
  "v4_prefix = replicate 10 0 @ [0xff, 0xff]"

definition To4 :: "bytes \<Rightarrow> bytes option" where
  "To4 ip =
     (if length ip = 4 then Some ip
      else if length ip = 16 \<and> take 12 ip = v4_prefix then Some (drop 12 ip)
      else None)"

definition To16 :: "bytes \<Rightarrow> bytes option" where
  "To16 ip = (if length ip = 4 then Some (v4_prefix @ ip) else if length ip = 16 then Some ip else None)"

section \<open>Checksum\<close>

fun csum :: "bytes \<Rightarrow> 32 word \<Rightarrow> 32 word" where
  "csum (a # b # xs) s = csum xs (s + (push_bit 8 (ucast b) OR ucast a))"
| "csum [a] s = s + ucast a"
| "csum [] s = s"

definition checksum :: "bytes \<Rightarrow> 16 word" where
  "checksum b =
     (let s = csum b 0;
          s = drop_bit 16 s + (s AND 0xffff);
          s = s + drop_bit 16 s
      in NOT (ucast s))"

section \<open>Messages\<close>

text \<open>A type is one of \<open>ipv4.ICMPType\<close> or of \<open>ipv6.ICMPType\<close>.\<close>

datatype icmp_type = T4 int | T6 int

definition ProtocolICMP :: int where "ProtocolICMP = 1"
definition ProtocolIPv6ICMP :: int where "ProtocolIPv6ICMP = 58"

fun Protocol :: "icmp_type \<Rightarrow> int" where
  "Protocol (T4 _) = ProtocolICMP"
| "Protocol (T6 _) = ProtocolIPv6ICMP"

record MPLSLabel =
  ml_Label :: int
  ml_TC :: int
  ml_S :: bool
  ml_TTL :: int

datatype extension =
    MPLSLabelStack int int "MPLSLabel list"
  | InterfaceInfo int int "Interface option" "IPAddr option"

datatype message_body =
    DefaultMessageBody bytes
  | Echo int int bytes
  | DstUnreach bytes "extension list"
  | TimeExceeded bytes "extension list"
  | ParamProb int bytes "extension list"
  | PacketTooBig int bytes

record icmp_message =
  m_Type :: icmp_type
  m_Code :: int
  m_Checksum :: int
  m_Body :: message_body

definition errMessageTooShort :: go_error where "errMessageTooShort = PlainError ''message too short''"
definition errNoExtension :: go_error where "errNoExtension = PlainError ''no extension''"
definition errInvalidExtension :: go_error where "errInvalidExtension = PlainError ''invalid extension''"
definition EINVAL :: go_error where "EINVAL = PlainError ''invalid argument''"

section \<open>Encoding an echo\<close>

definition Echo_Marshal :: "int \<Rightarrow> int \<Rightarrow> bytes \<Rightarrow> bytes" where
  "Echo_Marshal ID Seq Data = put16 ID @ put16 Seq @ Data"

text \<open>
  \<open>Message.Marshal\<close>, for the encoding of its body. \<open>psh\<close> is the pseudo header, \<open>None\<close> for nil: the checksum of an
  IPv6 message is then left to the kernel.
\<close>

definition put_checksum :: "nat \<Rightarrow> bytes \<Rightarrow> bytes" where
  "put_checksum i b =
     (let s = checksum b
      in (b[i + 2 := b ! (i + 2) XOR ucast s])[i + 3 := b ! (i + 3) XOR ucast (drop_bit 8 s)])"

definition Message_Marshal :: "bytes option \<Rightarrow> icmp_type \<Rightarrow> int \<Rightarrow> bytes \<Rightarrow> bytes outcome" where
  "Message_Marshal psh ty code body =
     (let mtype = (case ty of T4 t \<Rightarrow> t | T6 t \<Rightarrow> t);
          hdr = [word_of_int mtype, word_of_int code, 0, 0];
          p = (case psh of Some h \<Rightarrow> h | None \<Rightarrow> []);
          b = (if Protocol ty = ProtocolIPv6ICMP then p @ hdr else hdr) @ body
      in if Protocol ty = ProtocolIPv6ICMP then
           (case psh of
              None \<Rightarrow> Ok b
            | Some h \<Rightarrow>
                and_then (slice b 32 36) (\<lambda>_.
                  let l = int (length b - length h);
                      b = take 32 b @ put16 (l div 65536) @ put16 l @ drop 36 b
                  in Ok (drop (length h) (put_checksum (length h) b))))
         else if length b < length p + 4 then Panic IndexOutOfRange
         else Ok (drop (length p) (put_checksum (length p) b)))"

section \<open>Parsing\<close>

definition parseDefaultMessageBody :: "bytes \<Rightarrow> message_body outcome" where
  "parseDefaultMessageBody b = Ok (DefaultMessageBody b)"

definition parseEcho :: "bytes \<Rightarrow> message_body outcome" where
  "parseEcho b =
     (if length b < 4 then Err errMessageTooShort
      else and_then (uint_at b 0 2) (\<lambda>ID. and_then (uint_at b 2 4) (\<lambda>Seq.
             and_then (if length b > 4 then tail_from b 4 else Ok []) (\<lambda>Data. Ok (Echo ID Seq Data)))))"

definition parsePacketTooBig :: "bytes \<Rightarrow> message_body outcome" where
  "parsePacketTooBig b =
     (if length b < 4 then Err errMessageTooShort
      else and_then (uint_at b 0 4) (\<lambda>MTU.
             and_then (if length b > 4 then tail_from b 4 else Ok []) (\<lambda>Data. Ok (PacketTooBig MTU Data))))"

text \<open>Extensions: label stacks.\<close>

fun parse_labels :: "bytes \<Rightarrow> MPLSLabel list" where
  "parse_labels (b0 # b1 # b2 # b3 # b) =
     \<lparr>ml_Label = push_bit 12 (uint b0) OR push_bit 4 (uint b1) OR drop_bit 4 (uint b2),
      ml_TC = drop_bit 1 (uint (b2 AND 0x0e)), ml_S = (b2 AND 0x1 \<noteq> 0), ml_TTL = uint b3\<rparr> # parse_labels b"
| "parse_labels _ = []"

definition parseMPLSLabelStack :: "bytes \<Rightarrow> extension outcome" where
  "parseMPLSLabelStack b =
     and_then (byte_at b 2) (\<lambda>c. and_then (byte_at b 3) (\<lambda>t. and_then (tail_from b 4) (\<lambda>rest.
       Ok (MPLSLabelStack c t (parse_labels rest)))))"

text \<open>
  Interface information: the attributes present are the bits of the type, parsed in a fixed order as long as bytes
  are left.
\<close>

definition attrMTU :: int where "attrMTU = 1"
definition attrName :: int where "attrName = 2"
definition attrIPAddr :: int where "attrIPAddr = 4"
definition attrIfIndex :: int where "attrIfIndex = 8"

type_synonym interface_info = "Interface option \<times> IPAddr option"

definition set_interface :: "(Interface \<Rightarrow> Interface) \<Rightarrow> interface_info \<Rightarrow> interface_info outcome" where
  "set_interface f ifi = (case fst ifi of None \<Rightarrow> Panic NilDereference | Some i \<Rightarrow> Ok (Some (f i), snd ifi))"

definition set_addr :: "bytes \<Rightarrow> interface_info \<Rightarrow> interface_info outcome" where
  "set_addr ip ifi = (case snd ifi of None \<Rightarrow> Panic NilDereference | Some a \<Rightarrow> Ok (fst ifi, Some (a\<lparr>ip_IP := ip\<rparr>)))"

definition parse_uint32 :: "(int \<Rightarrow> Interface \<Rightarrow> Interface) \<Rightarrow> bytes \<Rightarrow> interface_info \<Rightarrow> (bytes \<times> interface_info) outcome" where
  "parse_uint32 f b ifi =
     (if length b < 4 then Err errMessageTooShort
      else and_then (uint_at b 0 4) (\<lambda>n. and_then (set_interface (f n) ifi) (\<lambda>ifi. and_then (tail_from b 4) (\<lambda>b. Ok (b, ifi)))))"

definition parseIfIndex :: "bytes \<Rightarrow> interface_info \<Rightarrow> (bytes \<times> interface_info) outcome" where
  "parseIfIndex = parse_uint32 (\<lambda>n i. i\<lparr>if_Index := n\<rparr>)"

definition parseMTU :: "bytes \<Rightarrow> interface_info \<Rightarrow> (bytes \<times> interface_info) outcome" where
  "parseMTU = parse_uint32 (\<lambda>n i. i\<lparr>if_MTU := n\<rparr>)"

definition parse_addr :: "nat \<Rightarrow> bytes \<Rightarrow> interface_info \<Rightarrow> (bytes \<times> interface_info) outcome" where
  "parse_addr n b ifi =
     (if length b < n then Err errMessageTooShort
      else and_then (slice b 0 n) (\<lambda>ip. and_then (set_addr ip ifi) (\<lambda>ifi. and_then (tail_from b n) (\<lambda>b. Ok (b, ifi)))))"

definition parseIPAddr :: "bytes \<Rightarrow> interface_info \<Rightarrow> (bytes \<times> interface_info) outcome" where
  "parseIPAddr b ifi =
     (if length b < 4 then Err errMessageTooShort
      else and_then (uint_at b 0 2) (\<lambda>afi. and_then (tail_from b 4) (\<lambda>b.
             if afi = 1 then parse_addr 4 b ifi else if afi = 2 then parse_addr 16 b ifi else Ok (b, ifi))))"

definition trim_nul :: "string \<Rightarrow> string" where
  "trim_nul s = rev (dropWhile (\<lambda>c. c = CHR 0x00) (rev (dropWhile (\<lambda>c. c = CHR 0x00) s)))"

definition parseName :: "bytes \<Rightarrow> interface_info \<Rightarrow> (bytes \<times> interface_info) outcome" where
  "parseName b ifi =
     (if 4 > length b then Err errMessageTooShort
      else and_then (byte_at b 0) (\<lambda>l.
        if int (length b) < l then Err errMessageTooShort
        else if l mod 4 \<noteq> 0 \<or> 4 > l \<or> l > 64 then Err errInvalidExtension
        else and_then (slice b 1 (nat l)) (\<lambda>n.
          let name = take 63 n @ replicate (63 - length n) 0 in
          and_then (set_interface (\<lambda>i. i\<lparr>if_Name := trim_nul (string_of_bytes name)\<rparr>) ifi) (\<lambda>ifi.
          and_then (tail_from b (nat l)) (\<lambda>b. Ok (b, ifi))))))"

definition parse_attr :: "int \<Rightarrow> bytes \<Rightarrow> interface_info \<Rightarrow> (bytes \<times> interface_info) outcome" where
  "parse_attr a b ifi =
     (if a = attrIfIndex then parseIfIndex b ifi
      else if a = attrIPAddr then parseIPAddr b ifi
      else if a = attrName then parseName b ifi
      else parseMTU b ifi)"

fun parse_attrs :: "int list \<Rightarrow> bytes \<Rightarrow> interface_info \<Rightarrow> interface_info outcome" where
  "parse_attrs [] b ifi = Ok ifi"
| "parse_attrs (a # attrs) b ifi =
     (if b = [] then Ok ifi else and_then (parse_attr a b ifi) (\<lambda>(b, ifi). parse_attrs attrs b ifi))"

definition set_zone :: "interface_info \<Rightarrow> interface_info" where
  "set_zone ifi =
     (case ifi of
        (Some i, Some a) \<Rightarrow>
          if if_Name i \<noteq> [] \<and> To16 (ip_IP a) \<noteq> None \<and> To4 (ip_IP a) = None then (Some i, Some (a\<lparr>ip_Zone := if_Name i\<rparr>)) else ifi
      | _ \<Rightarrow> ifi)"

definition attrs_in :: "int \<Rightarrow> int list" where
  "attrs_in t = filter (\<lambda>a. t AND a \<noteq> 0) [attrIfIndex, attrIPAddr, attrName, attrMTU]"

definition parts_of :: "int \<Rightarrow> interface_info" where
  "parts_of t =
     (if t AND (attrIfIndex OR attrName OR attrMTU) \<noteq> 0 then Some \<lparr>if_Index = 0, if_MTU = 0, if_Name = []\<rparr> else None,
      if t AND attrIPAddr \<noteq> 0 then Some \<lparr>ip_IP = [], ip_Zone = []\<rparr> else None)"

definition parseInterfaceInfo :: "bytes \<Rightarrow> extension outcome" where
  "parseInterfaceInfo b =
     and_then (byte_at b 2) (\<lambda>c. and_then (byte_at b 3) (\<lambda>t. and_then (tail_from b 4) (\<lambda>rest.
       and_then (parse_attrs (attrs_in t) rest (parts_of t)) (\<lambda>ifi.
         let ifi = set_zone ifi in Ok (InterfaceInfo c t (fst ifi) (snd ifi))))))"

text \<open>The list of extensions; the loop ends at the first object of impossible length.\<close>

definition parse_object :: "byte \<Rightarrow> bytes \<Rightarrow> extension list outcome" where
  "parse_object c b =
     (if c = 1 then and_then (parseMPLSLabelStack b) (\<lambda>e. Ok [e])
      else if c = 2 then and_then (parseInterfaceInfo b) (\<lambda>e. Ok [e])
      else Ok [])"

function (sequential) parse_objects :: "bytes \<Rightarrow> extension list outcome" where
  "parse_objects (b0 # b1 # c # d # b) =
     (let ol = nat (be_int [b0, b1]); all = b0 # b1 # c # d # b in
      if 4 > ol \<or> ol > length all then Ok []
      else and_then (parse_object c (take ol all)) (\<lambda>e. and_then (parse_objects (drop ol all)) (\<lambda>es. Ok (e @ es))))"
| "parse_objects _ = Ok []"
  by pat_completeness auto
termination by (relation "measure length") auto

definition validExtensionHeader :: "bytes \<Rightarrow> bool outcome" where
  "validExtensionHeader b =
     and_then (byte_at b 0) (\<lambda>b0. and_then (uint_at b 2 4) (\<lambda>s.
       let v = drop_bit 4 (b0 AND 0xf0); s = (if s \<noteq> 0 then uint (checksum b) else s)
       in Ok (\<not> (v \<noteq> 2 \<or> s \<noteq> 0))))"

definition extensions_at :: "bytes \<Rightarrow> nat \<Rightarrow> (extension list \<times> nat) outcome" where
  "extensions_at b l = and_then (tail_from b (l + 4)) (\<lambda>r. and_then (parse_objects r) (\<lambda>exts. Ok (exts, l)))"

definition parseExtensions :: "bytes \<Rightarrow> nat \<Rightarrow> (extension list \<times> nat) outcome" where
  "parseExtensions b l =
     (let l = (if 128 > l \<or> l + 8 > length b then 128 else l) in
      if l + 8 > length b then Err errNoExtension
      else and_then (tail_from b l) (\<lambda>h. and_then (validExtensionHeader h) (\<lambda>ok.
        if ok then extensions_at b l
        else if l = 128 then Err errNoExtension
        else and_then (tail_from b 128) (\<lambda>h. and_then (validExtensionHeader h) (\<lambda>ok.
               if ok then extensions_at b 128 else Err errNoExtension)))))"

definition parseMultipartMessageBody :: "int \<Rightarrow> bytes \<Rightarrow> (bytes \<times> extension list) outcome" where
  "parseMultipartMessageBody proto b =
     and_then
       (if proto = ProtocolICMP then and_then (byte_at b 1) (\<lambda>n. Ok (4 * nat n))
        else if proto = ProtocolIPv6ICMP then and_then (byte_at b 0) (\<lambda>n. Ok (8 * nat n))
        else Ok 0)
       (\<lambda>l. if length b = 4 then Ok ([], [])
            else and_then (tail_from b 4) (\<lambda>rest.
              case parseExtensions rest l of
                Ok (exts, l) \<Rightarrow> Ok (take l rest @ replicate (l - length rest) 0, exts)
              | Err _ \<Rightarrow> Ok (rest, [])
              | Panic p \<Rightarrow> Panic p))"

definition parseDstUnreach :: "int \<Rightarrow> bytes \<Rightarrow> message_body outcome" where
  "parseDstUnreach proto b =
     (if length b < 4 then Err errMessageTooShort
      else and_then (parseMultipartMessageBody proto b) (\<lambda>(d, exts). Ok (DstUnreach d exts)))"

definition parseTimeExceeded :: "int \<Rightarrow> bytes \<Rightarrow> message_body outcome" where
  "parseTimeExceeded proto b =
     (if length b < 4 then Err errMessageTooShort
      else and_then (parseMultipartMessageBody proto b) (\<lambda>(d, exts). Ok (TimeExceeded d exts)))"

definition parseParamProb :: "int \<Rightarrow> bytes \<Rightarrow> message_body outcome" where
  "parseParamProb proto b =
     (if length b < 4 then Err errMessageTooShort
      else if proto = ProtocolIPv6ICMP then
        and_then (uint_at b 0 4) (\<lambda>ptr. and_then (tail_from b 4) (\<lambda>d. Ok (ParamProb ptr d [])))
      else and_then (byte_at b 0) (\<lambda>ptr.
             and_then (parseMultipartMessageBody proto b) (\<lambda>(d, exts). Ok (ParamProb ptr d exts))))"

text \<open>\<open>parseFns\<close>.\<close>

fun parseFns :: "icmp_type \<Rightarrow> int \<Rightarrow> bytes \<Rightarrow> message_body outcome" where
  "parseFns (T4 t) proto b =
     (if t = 3 then parseDstUnreach proto b
      else if t = 11 then parseTimeExceeded proto b
      else if t = 12 then parseParamProb proto b
      else if t = 8 \<or> t = 0 then parseEcho b
      else parseDefaultMessageBody b)"
| "parseFns (T6 t) proto b =
     (if t = 1 then parseDstUnreach proto b
      else if t = 2 then parsePacketTooBig b
      else if t = 3 then parseTimeExceeded proto b
      else if t = 4 then parseParamProb proto b
      else if t = 128 \<or> t = 129 then parseEcho b
      else parseDefaultMessageBody b)"

definition ParseMessage :: "int \<Rightarrow> bytes \<Rightarrow> icmp_message outcome" where
  "ParseMessage proto b =
     (if length b < 4 then Err errMessageTooShort
      else and_then (byte_at b 1) (\<lambda>code. and_then (uint_at b 2 4) (\<lambda>sum.
        if proto \<noteq> ProtocolICMP \<and> proto \<noteq> ProtocolIPv6ICMP then Err EINVAL
        else and_then (byte_at b 0) (\<lambda>t. and_then (tail_from b 4) (\<lambda>rest.
          let ty = (if proto = ProtocolICMP then T4 t else T6 t) in
          and_then (parseFns ty proto rest) (\<lambda>body.
            Ok \<lparr>m_Type = ty, m_Code = code, m_Checksum = sum, m_Body = body\<rparr>))))))"

end
