(* ===== verification/IcmpFacts.thy ===== *)
theory IcmpFacts
  imports Icmp
begin

text \<open>
  What the ICMP code guarantees: no received bytes make the parser panic, an encoded echo is parsed back, and the
  checksum put into a message verifies.
\<close>

section \<open>The parser does not panic\<close>

lemma access_panics [simp]:
  "panics (uint_at b lo hi) \<longleftrightarrow> \<not> (lo \<le> hi \<and> hi \<le> length b)"
  "panics (byte_at b i) \<longleftrightarrow> length b \<le> i"
  "panics (tail_from b lo) \<longleftrightarrow> length b < lo"
  by (auto simp: uint_at_def byte_at_def tail_from_def not_le)

lemma tail_from_Ok [simp]: "lo \<le> length b \<Longrightarrow> tail_from b lo = Ok (drop lo b)"
  by (simp add: tail_from_def slice_def)

lemma simple_bodies [simp]:
  "\<not> panics (parseEcho b)" "\<not> panics (parsePacketTooBig b)" "\<not> panics (parseDefaultMessageBody b)"
  by (auto simp: parseEcho_def parsePacketTooBig_def parseDefaultMessageBody_def)

text \<open>The parts of an interface that the attributes still to be parsed write to are there.\<close>

definition parts_for :: "int list \<Rightarrow> interface_info \<Rightarrow> bool" where
  "parts_for attrs ifi \<longleftrightarrow>
     (\<forall>a\<in>set attrs. if a = attrIPAddr then snd ifi \<noteq> None else fst ifi \<noteq> None)"

definition keeps_parts :: "interface_info \<Rightarrow> interface_info \<Rightarrow> bool" where
  "keeps_parts ifi ifi' \<longleftrightarrow> (fst ifi' = None \<longleftrightarrow> fst ifi = None) \<and> (snd ifi' = None \<longleftrightarrow> snd ifi = None)"

lemma keeps_refl: "keeps_parts ifi ifi"
  by (simp add: keeps_parts_def)

lemma set_part_panics [simp]:
  "panics (set_interface f ifi) \<longleftrightarrow> fst ifi = None" "panics (set_addr ip ifi) \<longleftrightarrow> snd ifi = None"
  by (auto simp: set_interface_def set_addr_def split: option.split)

lemma set_part_keeps:
  "set_interface f ifi = Ok ifi' \<Longrightarrow> keeps_parts ifi ifi'" "set_addr ip ifi = Ok ifi' \<Longrightarrow> keeps_parts ifi ifi'"
  by (auto simp: set_interface_def set_addr_def keeps_parts_def split: option.splits)

lemma attr_distinct: "attrIPAddr \<noteq> attrIfIndex" "attrIPAddr \<noteq> attrName" "attrIPAddr \<noteq> attrMTU"
  by (simp_all add: attrIPAddr_def attrIfIndex_def attrName_def attrMTU_def)

lemma parse_addr_no_panic: "snd ifi \<noteq> None \<Longrightarrow> \<not> panics (parse_addr n b ifi)"
  by (auto simp: parse_addr_def)

lemma parse_addr_keeps: "parse_addr n b ifi = Ok (b', ifi') \<Longrightarrow> keeps_parts ifi ifi'"
  by (auto simp: parse_addr_def outcome_simps intro: set_part_keeps split: if_splits)

lemma byte_at_nat: "i < length b \<Longrightarrow> \<exists>n < 256. byte_at b i = Ok (int n)"
  using unsigned_less [of "b ! i"] by (intro exI [of _ "unat (b ! i)"]) (simp add: byte_at_def)

lemma parseName_no_panic:
  assumes "fst ifi \<noteq> None"
  shows "\<not> panics (parseName b ifi)"
proof (cases "4 > length b")
  case False
  then have "0 < length b" by linarith
  then obtain n where "byte_at b 0 = Ok (int n)" using byte_at_nat by blast
  with assms show ?thesis by (auto simp: parseName_def Let_def)
qed (simp add: parseName_def)

lemma parse_attr_no_panic:
  assumes "if a = attrIPAddr then snd ifi \<noteq> None else fst ifi \<noteq> None"
  shows "\<not> panics (parse_attr a b ifi)"
proof (cases "a = attrIPAddr")
  case True
  with assms parse_addr_no_panic [of ifi] show ?thesis
    by (auto simp: parse_attr_def attr_distinct parseIPAddr_def)
next
  case False
  with assms parseName_no_panic [of ifi b] show ?thesis
    by (auto simp: parse_attr_def parseIfIndex_def parseMTU_def parse_uint32_def)
qed

lemma parse_attr_keeps:
  assumes "parse_attr a b ifi = Ok (b', ifi')"
  shows "keeps_parts ifi ifi'"
proof -
  have u: "parse_uint32 f b ifi = Ok (b', ifi') \<Longrightarrow> keeps_parts ifi ifi'" for f
    by (auto simp: parse_uint32_def outcome_simps intro: set_part_keeps split: if_splits)
  have n: "parseName b ifi = Ok (b', ifi') \<Longrightarrow> keeps_parts ifi ifi'"
    by (auto simp: parseName_def outcome_simps Let_def intro: set_part_keeps split: if_splits)
  have i: "parseIPAddr b ifi = Ok (b', ifi') \<Longrightarrow> keeps_parts ifi ifi'"
    by (auto simp: parseIPAddr_def outcome_simps intro: parse_addr_keeps keeps_refl split: if_splits)
  from assms u n i show ?thesis by (auto simp: parse_attr_def parseIfIndex_def parseMTU_def split: if_splits)
qed

lemma parse_attrs_no_panic: "parts_for attrs ifi \<Longrightarrow> \<not> panics (parse_attrs attrs b ifi)"
proof (induction attrs b ifi rule: parse_attrs.induct)
  case (2 a attrs b ifi)
  have "\<not> panics (parse_attr a b ifi)" using "2.prems" by (intro parse_attr_no_panic) (simp add: parts_for_def)
  moreover have "\<not> panics (parse_attrs attrs b' ifi')" if r: "parse_attr a b ifi = Ok (b', ifi')" and "b \<noteq> []" for b' ifi'
  proof (rule "2.IH" [OF \<open>b \<noteq> []\<close> r refl])
    show "parts_for attrs ifi'"
      using "2.prems" parse_attr_keeps [OF r] by (auto simp: parts_for_def keeps_parts_def)
  qed
  ultimately show ?case by auto
qed simp

lemma and_mask_zero: "t AND m = 0 \<Longrightarrow> m AND a = a \<Longrightarrow> t AND a = 0" for t m a :: int
  by (metis and.assoc and_zero_eq and.commute)

lemma parts_of_attrs: "parts_for (attrs_in t) (parts_of t)"
proof -
  let ?m = "attrIfIndex OR attrName OR attrMTU"
  have "?m AND attrIfIndex = attrIfIndex" "?m AND attrName = attrName" "?m AND attrMTU = attrMTU"
    by (simp_all add: attrIfIndex_def attrName_def attrMTU_def)
  then have "fst (parts_of t) \<noteq> None" if "t AND a \<noteq> 0" "a \<in> {attrIfIndex, attrName, attrMTU}" for a
    using that and_mask_zero [of t ?m] unfolding parts_of_def by fastforce
  moreover have "snd (parts_of t) \<noteq> None" if "t AND attrIPAddr \<noteq> 0"
    using that by (simp add: parts_of_def)
  ultimately show ?thesis unfolding parts_for_def attrs_in_def by auto
qed

lemma parseInterfaceInfo_no_panic: "4 \<le> length b \<Longrightarrow> \<not> panics (parseInterfaceInfo b)"
  by (simp add: parseInterfaceInfo_def Let_def parse_attrs_no_panic [OF parts_of_attrs])

lemma parse_object_no_panic: "4 \<le> length b \<Longrightarrow> \<not> panics (parse_object c b)"
  using parseInterfaceInfo_no_panic [of b] by (auto simp: parse_object_def parseMPLSLabelStack_def)

lemma parse_objects_no_panic: "\<not> panics (parse_objects b)"
proof (induction b rule: parse_objects.induct)
  case (1 b0 b1 c d b)
  let ?ol = "nat (be_int [b0, b1])" and ?all = "b0 # b1 # c # d # b"
  show ?case
  proof (cases "4 > ?ol \<or> ?ol > length ?all")
    case False
    then have "\<not> panics (parse_object c (take ?ol ?all))" by (intro parse_object_no_panic) simp
    moreover have "\<not> panics (parse_objects (drop ?ol ?all))" if "parse_object c (take ?ol ?all) = Ok a" for a
      using "1.IH" [OF refl refl False that] .
    ultimately show ?thesis using False by (auto simp: Let_def)
  qed simp
qed simp_all

lemma extensions_no_panic: "l + 8 \<le> length b \<Longrightarrow> \<not> panics (extensions_at b l)"
  using parse_objects_no_panic by (auto simp: extensions_at_def)

lemma validExtensionHeader_no_panic: "4 \<le> length b \<Longrightarrow> \<not> panics (validExtensionHeader b)"
  by (auto simp: validExtensionHeader_def Let_def)

lemma parseExtensions_no_panic: "\<not> panics (parseExtensions b l)"
proof -
  define l' where "l' = (if 128 > l \<or> l + 8 > length b then 128 else l)"
  have "128 \<le> l'" by (simp add: l'_def)
  then show ?thesis
    using validExtensionHeader_no_panic extensions_no_panic [of _ b]
    by (auto simp: parseExtensions_def l'_def [symmetric] Let_def)
qed

lemma parseMultipart_no_panic: "4 \<le> length b \<Longrightarrow> \<not> panics (parseMultipartMessageBody proto b)"
  using parseExtensions_no_panic [unfolded panics_iff]
  by (auto simp: parseMultipartMessageBody_def split: outcome.split)

lemma parseFns_no_panic: "\<not> panics (parseFns ty proto b)"
  using parseMultipart_no_panic [of b proto]
  by (cases ty) (auto simp: parseDstUnreach_def parseTimeExceeded_def parseParamProb_def)

lemma ParseMessage_no_panic_raw: "\<not> panics (ParseMessage proto b)"
  using parseFns_no_panic by (auto simp: ParseMessage_def Let_def)

text \<open>C25: Whatever bytes arrive, for ICMP and for ICMPv6, parsing them as a message ends with a message or an error and
  never with a panic: every index and every slice of the parser of echoes, errors and their extensions is in
  range, and the parts of an interface are there when its attributes are read.\<close>

theorem ParseMessage_no_panic: "\<not> panics (ParseMessage proto b)"
  by (rule ParseMessage_no_panic_raw)


section \<open>Echoes\<close>

lemma be_int_put16 [simp]: "0 \<le> i \<Longrightarrow> i < 65536 \<Longrightarrow> be_int (put16 i) = i"
  by (simp add: be_int_def put16_def uint_word_of_int)

lemma parseEcho_Marshal:
  assumes "0 \<le> ID" "ID < 65536" "0 \<le> Seq" "Seq < 65536"
  shows "parseEcho (Echo_Marshal ID Seq Data) = Ok (Echo ID Seq Data)"
proof -
  have l: "length (put16 i) = 2" for i by (simp add: put16_def)
  have "uint_at (put16 ID @ put16 Seq @ Data) 0 2 = Ok ID" "uint_at (put16 ID @ put16 Seq @ Data) 2 4 = Ok Seq"
    using assms by (simp_all add: uint_at_def slice_def l)
  then show ?thesis by (simp add: parseEcho_def Echo_Marshal_def l)
qed

definition icmp_bytes :: "icmp_type \<Rightarrow> int \<Rightarrow> bytes \<Rightarrow> bytes" where
  "icmp_bytes ty code body =
     (let t = (case ty of T4 t \<Rightarrow> t | T6 t \<Rightarrow> t);
          c = (case ty of T4 _ \<Rightarrow> checksum ([word_of_int t, word_of_int code, 0, 0] @ body) | T6 _ \<Rightarrow> 0)
      in [word_of_int t, word_of_int code, ucast c, ucast (drop_bit 8 c)] @ body)"

lemma Message_Marshal_bytes: "Message_Marshal None ty code body = Ok (icmp_bytes ty code body)"
  by (cases ty) (simp_all add: Message_Marshal_def icmp_bytes_def ProtocolICMP_def ProtocolIPv6ICMP_def Let_def put_checksum_def)

definition is_echo :: "icmp_type \<Rightarrow> bool" where
  "is_echo ty \<longleftrightarrow> ty \<in> {T4 0, T4 8, T6 128, T6 129}"

text \<open>An echo message is parsed back as it was: type, code, identifier, sequence number and data.\<close>

theorem echo_roundtrip:
  assumes "is_echo ty" "0 \<le> code" "code < 256" "0 \<le> ID" "ID < 65536" "0 \<le> Seq" "Seq < 65536"
  shows "\<exists>b sum. Message_Marshal None ty code (Echo_Marshal ID Seq Data) = Ok b \<and>
    ParseMessage (Protocol ty) b = Ok \<lparr>m_Type = ty, m_Code = code, m_Checksum = sum, m_Body = Echo ID Seq Data\<rparr>"
proof -
  define c where "c = (case ty of T4 t \<Rightarrow> checksum ([word_of_int t, word_of_int code, 0, 0] @ Echo_Marshal ID Seq Data) | T6 _ \<Rightarrow> 0)"
  have b: "icmp_bytes ty code (Echo_Marshal ID Seq Data) =
      [word_of_int (case ty of T4 t \<Rightarrow> t | T6 t \<Rightarrow> t), word_of_int code, ucast c, ucast (drop_bit 8 c)] @ Echo_Marshal ID Seq Data"
    by (cases ty) (simp_all add: icmp_bytes_def c_def Let_def)
  have code: "uint (word_of_int code :: byte) = code" using assms(2,3) by (simp add: uint_word_of_int)
  obtain sum where sum: "uint_at (icmp_bytes ty code (Echo_Marshal ID Seq Data)) 2 4 = Ok sum"
    by (simp add: b uint_at_def slice_def)
  have "ParseMessage (Protocol ty) (icmp_bytes ty code (Echo_Marshal ID Seq Data)) =
      Ok \<lparr>m_Type = ty, m_Code = code, m_Checksum = sum, m_Body = Echo ID Seq Data\<rparr>"
    using assms(1) parseEcho_Marshal [OF assms(4-7), of Data]
    unfolding ParseMessage_def sum
    using assms(2,3)
    by (auto simp: b is_echo_def byte_at_def code ProtocolICMP_def ProtocolIPv6ICMP_def Let_def uint_word_of_int)
  then show ?thesis using Message_Marshal_bytes by blast
qed

theorem echo_roundtrip_witness:
  "\<exists>b sum. Message_Marshal None (T4 8) 0 (Echo_Marshal 513 7 [1, 2, 3]) = Ok b \<and>
    ParseMessage 1 b = Ok \<lparr>m_Type = T4 8, m_Code = 0, m_Checksum = sum, m_Body = Echo 513 7 [1, 2, 3]\<rparr>"
  using echo_roundtrip [of "T4 8" 0 513 7 "[1, 2, 3]"] by (simp add: is_echo_def ProtocolICMP_def)

section \<open>Checksums\<close>

text \<open>The sum without wrap-around, and the two foldings of the carries.\<close>

fun csum_nat :: "bytes \<Rightarrow> nat" where
  "csum_nat (a # b # xs) = 256 * unat b + unat a + csum_nat xs"
| "csum_nat [a] = unat a"
| "csum_nat [] = 0"

definition fold_carry :: "nat \<Rightarrow> nat" where
  "fold_carry s = (let f = s div 65536 + s mod 65536 in (f + f div 65536) mod 65536)"

lemma unat_byte: "unat (b :: byte) < 256"
  using unsigned_less [of b] by simp

lemma csum_nat_bound: "csum_nat b \<le> 65535 * ((length b + 1) div 2)"
proof (induction b rule: csum_nat.induct)
  case (1 a b xs)
  with unat_byte [of a] unat_byte [of b] show ?case by simp
next
  case (2 a)
  with unat_byte [of a] show ?case by simp
qed simp

lemma unat_ucast32 [simp]: "unat (ucast a :: 32 word) = unat a" for a :: byte
  using unat_byte [of a] by (simp add: unsigned_ucast_eq take_bit_nat_eq_self)

lemma word16: "unat (push_bit 8 (ucast b) OR ucast a :: 32 word) = 256 * unat b + unat a" for a b :: byte
proof -
  have "push_bit 8 (ucast b) OR ucast a = (push_bit 8 (ucast b) + ucast a :: 32 word)"
  proof (rule disjunctive_add [symmetric])
    show "\<not> bit (push_bit 8 (ucast b) :: 32 word) n \<or> \<not> bit (ucast a :: 32 word) n" for n
      by (auto simp: bit_simps dest: bit_imp_le_length)
  qed
  moreover have "unat (push_bit 8 (ucast b) :: 32 word) = 256 * unat b"
    using unat_byte [of b] by (simp add: push_bit_eq_mult unat_word_ariths)
  ultimately show ?thesis
    using unat_byte [of a] unat_byte [of b] by (simp add: unat_word_ariths)
qed

lemma unat_csum: "unat s + csum_nat b < 2 ^ 32 \<Longrightarrow> unat (csum b s) = unat s + csum_nat b"
proof (induction b s rule: csum.induct)
  case (1 a b xs s)
  then have "unat (s + (push_bit 8 (ucast b) OR ucast a)) = unat s + (256 * unat b + unat a)"
    by (simp add: unat_word_ariths word16)
  with 1 show ?case by simp
next
  case (2 a s)
  then show ?case by (simp add: unat_word_ariths)
qed simp

lemma unat_halves: "unat (drop_bit 16 s) = unat s div 65536" "unat (s AND 0xffff) = unat s mod 65536" for s :: "32 word"
proof -
  have "s AND 0xffff = take_bit 16 s" by (simp add: take_bit_eq_mask mask_eq_exp_minus_1)
  then have "unat (s AND 0xffff) = take_bit 16 (unat s)" by (simp add: unsigned_take_bit_eq del: take_bit_eq_mod)
  then show "unat (s AND 0xffff) = unat s mod 65536" by (simp add: take_bit_eq_mod)
  have "unat (drop_bit 16 s) = drop_bit 16 (unat s)" by (rule unat_drop_bit_eq)
  then show "unat (drop_bit 16 s) = unat s div 65536" by (simp add: drop_bit_eq_div)
qed

lemma unat_not16: "unat (NOT x) = 65535 - unat x" for x :: "16 word"
proof -
  have r: "0 \<le> uint x" "uint x < 65536" using uint_lt2p [of x] by simp_all
  have "uint (NOT x) = take_bit 16 (NOT (uint x))" by (simp add: unsigned_not_eq del: take_bit_not_take_bit)
  also have "\<dots> = take_bit 16 (- uint x - 1)" by (simp only: not_eq_complement)
  also have "\<dots> = (65535 - uint x) mod 65536"
    by (simp add: take_bit_eq_mod mod_eq_dvd_iff)
  also have "\<dots> = 65535 - uint x" using r by (intro mod_pos_pos_trivial) linarith+
  finally have "uint (NOT x) = 65535 - uint x" .
  then have "nat (uint (NOT x)) = nat (65535 - uint x)" by simp
  then show ?thesis by (simp add: nat_diff_distrib')
qed

lemma checksum_fold:
  assumes "csum_nat b < 2 ^ 32"
  shows "unat (checksum b) = 65535 - fold_carry (csum_nat b)"
proof -
  define s where "s = csum b 0"
  have s: "unat s = csum_nat b" using unat_csum [of 0 b] assms by (simp add: s_def)
  define f where "f = drop_bit 16 s + (s AND 0xffff)"
  have lt: "unat s < 2 ^ 32" using assms s by simp
  then have b1: "unat s div 65536 \<le> 65535" by (simp add: div_le_mono2 less_mult_imp_div_less)
  have f: "unat f = unat s div 65536 + unat s mod 65536"
    using b1 by (simp add: f_def unat_word_ariths unat_halves)
  define g where "g = f + drop_bit 16 f"
  have fb: "unat f \<le> 131070" using f b1 by (simp add: add_mono)
  have g: "unat g = unat f + unat f div 65536"
    using fb by (simp add: g_def unat_word_ariths unat_halves)
  have "unat (ucast g :: 16 word) = fold_carry (csum_nat b)"
    by (simp add: unsigned_ucast_eq g f s fold_carry_def Let_def take_bit_eq_mod)
  moreover have "checksum b = NOT (ucast g)" by (simp add: checksum_def Let_def s_def f_def g_def)
  ultimately show ?thesis by (simp add: unat_not16)
qed


lemma fold_carry_mod:
  assumes "s < 2 ^ 32"
  shows "fold_carry s = (if s = 0 then 0 else (s - 1) mod 65535 + 1)"
proof -
  let ?f = "s div 65536 + s mod 65536"
  have s: "s = 65536 * (s div 65536) + s mod 65536" by simp
  have hi: "s div 65536 \<le> 65535" "s mod 65536 \<le> 65535" using assms by simp_all
  have f: "s = 65535 * (s div 65536) + ?f" using s by simp
  show ?thesis
  proof (cases "s = 0")
    case False
    then have pos: "0 < ?f" using s by linarith
    have "s - 1 = 65535 * (s div 65536) + (?f - 1)" using f pos by linarith
    then have m: "(s - 1) mod 65535 = (?f - 1) mod 65535" by (metis mod_mult_self4)
    consider "?f \<le> 65535" | "65536 \<le> ?f" "?f \<le> 131070" using hi by linarith
    then have "fold_carry s = (?f - 1) mod 65535 + 1"
    proof cases
      case 1
      then show ?thesis using pos by (simp add: fold_carry_def Let_def)
    next
      case 2
      then have "?f div 65536 = 1" by linarith
      moreover from 2 obtain k where k: "?f = 65536 + k" "k \<le> 65534" using le_Suc_ex [of 65536 ?f] by auto
      then have "(?f - 1) mod 65535 = k" by simp
      moreover have "fold_carry s = (?f + ?f div 65536) mod 65536" by (simp only: fold_carry_def Let_def)
      moreover have "(65536 + Suc k) mod 65536 = Suc k" using k(2) by (simp only: mod_add_self1) simp
      ultimately show ?thesis using k(1) by simp
    qed
    with m False show ?thesis by simp
  qed (simp add: fold_carry_def)
qed

lemma csum_nat_field: "csum_nat ([t, c, x, y] @ body) = csum_nat ([t, c, 0, 0] @ body) + (unat x + 256 * unat y)"
  by simp

lemma halves16: "unat (ucast c :: byte) + 256 * unat (ucast (drop_bit 8 c) :: byte) = unat c" for c :: "16 word"
proof -
  have lt: "unat c < 65536" using unsigned_less [of c] by simp
  have "unat (ucast c :: byte) = unat c mod 256" by (simp add: unsigned_ucast_eq take_bit_eq_mod)
  moreover have "unat (drop_bit 8 c) = unat c div 256"
  proof -
    have "unat (drop_bit 8 c) = drop_bit 8 (unat c)" by (rule unat_drop_bit_eq)
    then show ?thesis by (simp add: drop_bit_eq_div)
  qed
  then have "unat (ucast (drop_bit 8 c) :: byte) = unat c div 256"
    using lt by (simp add: unsigned_ucast_eq take_bit_eq_mod)
  ultimately show ?thesis by simp
qed

text \<open>The checksum written into an ICMP message of at most 128 KiB verifies: the checksum of the whole message, its
  checksum field included, is zero.\<close>

theorem checksum_verifies:
  assumes "Message_Marshal None (T4 t) code body = Ok b" and "length body \<le> 131064"
  shows "checksum b = 0"
proof -
  define z :: bytes where "z = [word_of_int t, word_of_int code, 0, 0] @ body"
  define S where "S = csum_nat z"
  let ?c = "checksum z"
  have b: "b = [word_of_int t, word_of_int code, ucast ?c, ucast (drop_bit 8 ?c)] @ body"
    using assms(1) by (simp add: Message_Marshal_bytes icmp_bytes_def z_def Let_def)
  have "csum_nat body \<le> 65535 * 65532" using csum_nat_bound [of body] assms(2) by (simp add: order_trans)
  then have S: "S \<le> 65535 * 65533"
    using unat_byte [of "word_of_int t"] unat_byte [of "word_of_int code"] by (simp add: S_def z_def)
  have r: "fold_carry S \<le> 65535" "0 < S \<Longrightarrow> 0 < fold_carry S"
    using S by (auto simp: fold_carry_mod Suc_le_eq)
  have c: "unat ?c = 65535 - fold_carry S" using checksum_fold [of z] S by (simp add: S_def)
  have sum: "csum_nat b = S + (65535 - fold_carry S)"
    using csum_nat_field [of "word_of_int t" "word_of_int code" "ucast ?c" "ucast (drop_bit 8 ?c)" body]
    unfolding halves16 c by (simp add: b S_def z_def)
  have "fold_carry (csum_nat b) = 65535"
  proof (cases "S = 0")
    case True
    then show ?thesis by (simp add: sum fold_carry_mod)
  next
    case False
    then have f: "fold_carry S = (S - 1) mod 65535 + 1" using S by (simp add: fold_carry_mod)
    have "S - 1 = 65535 * ((S - 1) div 65535) + (S - 1) mod 65535" by simp
    then have "csum_nat b - 1 = 65535 * ((S - 1) div 65535) + 65534"
      using False r f unfolding sum by linarith
    moreover have "(65535 * q + 65534) mod 65535 = 65534" for q :: nat by (simp only: mod_mult_self4) simp
    ultimately have "(csum_nat b - 1) mod 65535 = 65534" by (simp only:)
    moreover have "csum_nat b < 2 ^ 32" using S unfolding sum by simp
    moreover have "csum_nat b \<noteq> 0" using False unfolding sum by simp
    ultimately show ?thesis by (simp add: fold_carry_mod)
  qed
  then have "unat (checksum b) = 0" using checksum_fold [of b] S r unfolding sum by simp
  then show ?thesis by (simp add: unat_eq_zero)
qed

theorem checksum_verifies_witness:
  "\<exists>b. Message_Marshal None (T4 8) 0 (Echo_Marshal 513 7 [1, 2, 3]) = Ok b \<and> checksum b = 0"
proof -
  have "length (Echo_Marshal 513 7 [1, 2, 3]) \<le> 131064" by (simp add: Echo_Marshal_def put16_def)
  from checksum_verifies [OF Message_Marshal_bytes this] Message_Marshal_bytes show ?thesis by blast
qed

end
