(* ===== verification/Fastping.thy ===== *)
theory Fastping
  imports IcmpFacts "HOL-Library.AList"
begin

text \<open>
  The ICMP pinger \<open>fastping.go\<close>. Addresses, pings and the processing of a received packet are functions; the
  goroutines of a run (the main loop and one receiver for each address family) are a machine over events. The
  network, the clock, the random draws and the order in which Go visits the map of addresses are arguments. The
  debug output is left out.
\<close>

section \<open>Time stamps and payloads\<close>

definition TimeSliceLength :: nat where "TimeSliceLength = 8"

definition byteSliceOfSize :: "int \<Rightarrow> bytes outcome" where
  "byteSliceOfSize n = (if n < 0 then Panic (ExplicitPanic ''makeslice: len out of range'') else Ok (replicate (nat n) 1))"

text \<open>A time is its \<open>UnixNano\<close>, an \<open>int64\<close>.\<close>

definition timeToBytes :: "int \<Rightarrow> bytes" where
  "timeToBytes nsec = map (\<lambda>i. word_of_int (drop_bit ((7 - i) * 8) nsec AND 0xff)) [0..<8]"

text \<open>\<open>bytesToTime\<close> of eight bytes; the sum wraps around.\<close>

definition bytesToTime :: "bytes \<Rightarrow> int" where
  "bytesToTime b = foldl (\<lambda>nsec i. wrap64 (nsec + wrap64 (push_bit ((7 - i) * 8) (uint (b ! i))))) 0 [0..<8]"

text \<open>\<open>time.Since\<close>: the difference saturates.\<close>

definition Since :: "int \<Rightarrow> int \<Rightarrow> int" where
  "Since now t = max (- (2 ^ 63)) (min (2 ^ 63 - 1) (now - t))"

definition isIPv4 :: "bytes \<Rightarrow> bool" where "isIPv4 ip \<longleftrightarrow> To4 ip \<noteq> None"
definition isIPv6 :: "bytes \<Rightarrow> bool" where "isIPv6 ip \<longleftrightarrow> length ip = 16"

definition ipv4Payload :: "bytes \<Rightarrow> bytes outcome" where
  "ipv4Payload b =
     (if length b < 20 then Ok b
      else and_then (byte_at b 0) (\<lambda>b0. tail_from b (nat (push_bit 2 (b0 AND 0x0f)))))"

section \<open>The pinger\<close>

text \<open>
  The map of addresses has the text of an address as key. Two addresses have the same text if their zones agree
  and their \<open>To4\<close> forms, or else their bytes, do; that is the key here.
\<close>

type_synonym addr_key = "bytes \<times> string"

definition key_of :: "IPAddr \<Rightarrow> addr_key" where
  "key_of a = (case To4 (ip_IP a) of Some v4 \<Rightarrow> v4 | None \<Rightarrow> ip_IP a, ip_Zone a)"

record Pinger =
  pg_id :: int
  pg_seq :: int
  pg_addrs :: "(addr_key \<times> IPAddr) list"
  pg_network :: string
  pg_source :: string
  pg_source6 :: string
  hasIPv4 :: bool
  hasIPv6 :: bool
  pg_Size :: int

definition NewPinger :: "int \<Rightarrow> int \<Rightarrow> Pinger" where
  "NewPinger id' seq =
     \<lparr>pg_id = id' mod 0xffff, pg_seq = seq mod 0xffff, pg_addrs = [], pg_network = ''ip'', pg_source = [], pg_source6 = [],
      hasIPv4 = False, hasIPv6 = False, pg_Size = int TimeSliceLength\<rparr>"

definition Network :: "string \<Rightarrow> Pinger \<Rightarrow> Pinger \<times> string \<times> go_error option" where
  "Network nw p =
     (if nw = ''ip'' \<or> nw = ''udp'' then (p\<lparr>pg_network := nw\<rparr>, pg_network p, None)
      else (p, pg_network p, Some (PlainError (nw @ '' can't be used as ICMP endpoint''))))"

text \<open>\<open>ParseIP\<close> is \<open>net.ParseIP\<close>, with \<open>None\<close> for nil.\<close>

definition Source :: "(string \<Rightarrow> bytes option) \<Rightarrow> string \<Rightarrow> Pinger \<Rightarrow> Pinger \<times> string \<times> go_error option" where
  "Source ParseIP src p =
     (let bad = Some (PlainError (src @ '' is not a valid textual representation of an IPv4/IPv6 address'')) in
      if src = [] then (p\<lparr>pg_source := [], pg_source6 := []\<rparr>, pg_source p, None)
      else case ParseIP src of
             None \<Rightarrow> (p, pg_source p, bad)
           | Some addr \<Rightarrow>
               if isIPv4 addr then (p\<lparr>pg_source := src\<rparr>, pg_source p, None)
               else if isIPv6 addr then (p\<lparr>pg_source6 := src\<rparr>, pg_source6 p, None)
               else (p, pg_source p, bad))"

definition AddIPAddr :: "IPAddr \<Rightarrow> Pinger \<Rightarrow> Pinger" where
  "AddIPAddr ip p =
     (let p = p\<lparr>pg_addrs := AList.update (key_of ip) ip (pg_addrs p)\<rparr> in
      if isIPv4 (ip_IP ip) then p\<lparr>hasIPv4 := True\<rparr>
      else if isIPv6 (ip_IP ip) then p\<lparr>hasIPv6 := True\<rparr>
      else p)"

definition invalid_ip :: "string \<Rightarrow> go_error" where
  "invalid_ip s = PlainError (s @ '' is not a valid textual representation of an IP address'')"

definition AddIP :: "(string \<Rightarrow> bytes option) \<Rightarrow> string \<Rightarrow> Pinger \<Rightarrow> Pinger outcome" where
  "AddIP ParseIP ipaddr p =
     (case ParseIP ipaddr of
        None \<Rightarrow> Err (invalid_ip ipaddr)
      | Some addr \<Rightarrow> Ok (AddIPAddr \<lparr>ip_IP = addr, ip_Zone = []\<rparr> p))"

definition RemoveIPAddr :: "IPAddr \<Rightarrow> Pinger \<Rightarrow> Pinger" where
  "RemoveIPAddr ip p = p\<lparr>pg_addrs := AList.delete (key_of ip) (pg_addrs p)\<rparr>"

definition RemoveIP :: "(string \<Rightarrow> bytes option) \<Rightarrow> string \<Rightarrow> Pinger \<Rightarrow> Pinger outcome" where
  "RemoveIP ParseIP ipaddr p =
     (case ParseIP ipaddr of
        None \<Rightarrow> Err (invalid_ip ipaddr)
      | Some addr \<Rightarrow> Ok (RemoveIPAddr \<lparr>ip_IP = addr, ip_Zone = []\<rparr> p))"

section \<open>Sending\<close>

datatype net_addr = AddrIP IPAddr | AddrUDP IPAddr | AddrOther

type_synonym queue = "(addr_key \<times> IPAddr) list"

definition echo_data :: "int \<Rightarrow> int \<Rightarrow> bytes outcome" where
  "echo_data size' now =
     (if size' - int TimeSliceLength \<noteq> 0
      then and_then (byteSliceOfSize (size' - int TimeSliceLength)) (\<lambda>s. Ok (timeToBytes now @ s))
      else Ok (timeToBytes now))"

text \<open>
  One turn of the loop of \<open>sendICMP\<close>, with the connections that are open: the packet to send, or nothing for an
  address without a connection. What \<open>WriteTo\<close> returns is not looked at, but for a full buffer, when it is called
  again.
\<close>

definition send_one ::
  "bool \<Rightarrow> bool \<Rightarrow> int \<Rightarrow> Pinger \<Rightarrow> IPAddr \<Rightarrow> (net_addr \<times> bytes) option outcome"
where
  "send_one conn conn6 now p addr =
     (let family = (if isIPv4 (ip_IP addr) then Some (T4 8, conn)
                    else if isIPv6 (ip_IP addr) then Some (T6 128, conn6) else None)
      in case family of
           None \<Rightarrow> Ok None
         | Some (ty, cn) \<Rightarrow>
             if \<not> cn then Ok None
             else and_then (echo_data (pg_Size p) now) (\<lambda>t.
                    and_then (Message_Marshal None ty 0 (Echo_Marshal (pg_id p) (pg_seq p) t)) (\<lambda>b.
                      Ok (Some (if pg_network p = ''udp'' then AddrUDP addr else AddrIP addr, b)))))"

fun send_all ::
  "bool \<Rightarrow> bool \<Rightarrow> Pinger \<Rightarrow> (addr_key \<times> IPAddr \<times> int) list \<Rightarrow> (queue \<times> (net_addr \<times> bytes) list) outcome"
where
  "send_all conn conn6 p [] = Ok ([], [])"
| "send_all conn conn6 p ((key, addr, now) # visits) =
     and_then (send_one conn conn6 now p addr) (\<lambda>r.
     and_then (send_all conn conn6 p visits) (\<lambda>(queue, sent).
       case r of None \<Rightarrow> Ok (queue, sent) | Some x \<Rightarrow> Ok ((key, addr) # queue, x # sent)))"

text \<open>What one call of \<open>sendICMP\<close> meets: two draws, the order of the addresses and the clock at each of them.\<close>

record send_env =
  e_id :: int
  e_seq :: int
  e_visits :: "(addr_key \<times> IPAddr \<times> int) list"

definition sendICMP :: "bool \<Rightarrow> bool \<Rightarrow> send_env \<Rightarrow> Pinger \<Rightarrow> (Pinger \<times> queue \<times> (net_addr \<times> bytes) list) outcome" where
  "sendICMP conn conn6 e p =
     (let p = p\<lparr>pg_id := e_id e mod 0xffff, pg_seq := e_seq e mod 0xffff\<rparr> in
      and_then (send_all conn conn6 p (e_visits e)) (\<lambda>(queue, sent). Ok (p, queue, sent)))"

section \<open>Receiving\<close>

text \<open>The buffer of \<open>recvICMP\<close> has 512 bytes and is passed on whole, whatever was read.\<close>

definition recv_buffer :: "bytes \<Rightarrow> bytes" where
  "recv_buffer pkt = take 512 pkt @ replicate (512 - length pkt) 0"

definition sender_of :: "net_addr \<Rightarrow> IPAddr option" where
  "sender_of a = (case a of AddrIP ip \<Rightarrow> Some ip | AddrUDP ip \<Rightarrow> Some ip | AddrOther \<Rightarrow> None)"

text \<open>The part of \<open>procRecv\<close> up to the switch over the body: the message of a packet from a known address.\<close>

definition parse_reply :: "Pinger \<Rightarrow> IPAddr \<Rightarrow> bytes \<Rightarrow> icmp_message outcome" where
  "parse_reply p ipaddr b =
     (if isIPv4 (ip_IP ipaddr) then
        and_then (if pg_network p = ''ip'' then ipv4Payload b else Ok b) (ParseMessage ProtocolICMP)
      else if isIPv6 (ip_IP ipaddr) then ParseMessage ProtocolIPv6ICMP b
      else Err EINVAL)"

definition echo_rtt :: "Pinger \<Rightarrow> int \<Rightarrow> int \<Rightarrow> int \<Rightarrow> bytes \<Rightarrow> int outcome" where
  "echo_rtt p now ID Seq Data =
     (if ID = pg_id p \<and> Seq = pg_seq p then and_then (slice Data 0 TimeSliceLength) (\<lambda>b. Ok (Since now (bytesToTime b)))
      else Ok 0)"

text \<open>\<open>procRecv\<close>: the queue it leaves and the call of \<open>OnRecv\<close> it makes, if any.\<close>

definition procRecv :: "Pinger \<Rightarrow> bytes \<Rightarrow> net_addr \<Rightarrow> int \<Rightarrow> queue \<Rightarrow> (queue \<times> (IPAddr \<times> int) option) outcome" where
  "procRecv p b src now queue =
     (case sender_of src of
        None \<Rightarrow> Ok (queue, None)
      | Some ipaddr \<Rightarrow>
          if map_of (pg_addrs p) (key_of ipaddr) = None then Ok (queue, None)
          else (case parse_reply p ipaddr b of
                  Err e \<Rightarrow> Ok (queue, None)
                | Panic x \<Rightarrow> Panic x
                | Ok m \<Rightarrow>
                    if m_Type m \<noteq> T4 0 \<and> m_Type m \<noteq> T6 129 then Ok (queue, None)
                    else (case m_Body m of
                            Echo ID Seq Data \<Rightarrow>
                              and_then (echo_rtt p now ID Seq Data) (\<lambda>rtt.
                                if map_of queue (key_of ipaddr) = None then Ok (queue, None)
                                else Ok (AList.delete (key_of ipaddr) queue, Some (ipaddr, rtt)))
                          | _ \<Rightarrow> Ok (queue, None))))"


section \<open>Runs\<close>

text \<open>
  \<open>run\<close> after its connections are open: a receiver for each of them, and the main loop with its \<open>select\<close>. The
  channel \<open>recvCtx.done\<close> is closed by a receiver whose read fails for another reason than a time-out.
\<close>

record run_state =
  r_pinger :: Pinger
  r_queue :: queue
  r_err :: "go_error option"
  r_recv_err :: "go_error option"
  r_recv_done :: bool
  r_receivers :: nat
  r_looping :: bool
  r_calls :: "(IPAddr \<times> int) list"
  r_idle :: nat
  r_sent :: "(net_addr \<times> bytes) list"

datatype run_event =
    StopEvent
  | RecvDoneEvent
  | TickEvent send_env
  | PacketEvent bytes net_addr int
  | ReadFails go_error
  | ReceiverStops

definition run_start :: "bool \<Rightarrow> bool \<Rightarrow> send_env \<Rightarrow> Pinger \<Rightarrow> run_state outcome" where
  "run_start conn conn6 e p =
     and_then (sendICMP conn conn6 e p) (\<lambda>(p, queue, sent).
       Ok \<lparr>r_pinger = p, r_queue = queue, r_err = None, r_recv_err = None, r_recv_done = False,
           r_receivers = (if conn then 1 else 0) + (if conn6 then 1 else 0), r_looping = True, r_calls = [], r_idle = 0,
           r_sent = sent\<rparr>)"

text \<open>\<open>None\<close>: the event cannot happen. Closing a closed channel panics.\<close>

fun run_step :: "bool \<Rightarrow> bool \<Rightarrow> bool \<Rightarrow> run_event \<Rightarrow> run_state \<Rightarrow> run_state outcome option" where
  "run_step once conn conn6 StopEvent r = (if r_looping r then Some (Ok (r\<lparr>r_looping := False\<rparr>)) else None)"
| "run_step once conn conn6 RecvDoneEvent r =
     (if r_looping r \<and> r_recv_done r then Some (Ok (r\<lparr>r_err := r_recv_err r, r_looping := False\<rparr>)) else None)"
| "run_step once conn conn6 (TickEvent e) r =
     (if \<not> r_looping r then None
      else let r = r\<lparr>r_idle := Suc (r_idle r)\<rparr> in
           if once \<or> r_err r \<noteq> None then Some (Ok (r\<lparr>r_looping := False\<rparr>))
           else Some (and_then (sendICMP conn conn6 e (r_pinger r)) (\<lambda>(p, queue, sent).
                  Ok (r\<lparr>r_pinger := p, r_queue := queue, r_sent := r_sent r @ sent\<rparr>))))"
| "run_step once conn conn6 (PacketEvent b src now) r =
     (if \<not> r_looping r then None
      else Some (and_then (procRecv (r_pinger r) b src now (r_queue r)) (\<lambda>(queue, call).
             Ok (r\<lparr>r_queue := queue, r_calls := r_calls r @ (case call of None \<Rightarrow> [] | Some c \<Rightarrow> [c])\<rparr>))))"
| "run_step once conn conn6 (ReadFails e) r =
     (if r_receivers r = 0 then None
      else if r_recv_done r then Some (Panic (ExplicitPanic ''close of closed channel''))
      else Some (Ok (r\<lparr>r_recv_err := Some e, r_recv_done := True, r_receivers := r_receivers r - 1\<rparr>)))"
| "run_step once conn conn6 ReceiverStops r =
     (if \<not> r_looping r \<and> r_receivers r > 0 then Some (Ok (r\<lparr>r_receivers := r_receivers r - 1\<rparr>)) else None)"

fun run_all :: "bool \<Rightarrow> bool \<Rightarrow> bool \<Rightarrow> run_event list \<Rightarrow> run_state \<Rightarrow> run_state outcome option" where
  "run_all once conn conn6 [] r = Some (Ok r)"
| "run_all once conn conn6 (e # es) r =
     (case run_step once conn conn6 e r of
        None \<Rightarrow> None
      | Some (Ok r') \<Rightarrow> run_all once conn conn6 es r'
      | Some x \<Rightarrow> Some x)"

definition run_finished :: "run_state \<Rightarrow> bool" where
  "run_finished r \<longleftrightarrow> \<not> r_looping r \<and> r_receivers r = 0"

text \<open>
  \<open>Run\<close>: opening the connections, which \<open>listen\<close> may refuse, then a run with \<open>once\<close>. The result is the calls of
  \<open>OnRecv\<close> and the error; \<open>None\<close> when the events given are not a whole run.
\<close>

definition ipv4Proto :: "string \<Rightarrow> string" where
  "ipv4Proto nw = (if nw = ''ip'' then ''ip4:icmp'' else if nw = ''udp'' then ''udp4'' else [])"

definition ipv6Proto :: "string \<Rightarrow> string" where
  "ipv6Proto nw = (if nw = ''ip'' then ''ip6:ipv6-icmp'' else if nw = ''udp'' then ''udp6'' else [])"

definition Pinger_Run ::
  "(string \<Rightarrow> string \<Rightarrow> go_error option) \<Rightarrow> send_env \<Rightarrow> run_event list \<Rightarrow> Pinger \<Rightarrow>
     ((IPAddr \<times> int) list \<times> go_error option) outcome option"
where
  "Pinger_Run listen e es p =
     (let refused = (if hasIPv4 p then listen (ipv4Proto (pg_network p)) (pg_source p) else None);
          refused6 = (if hasIPv6 p then listen (ipv6Proto (pg_network p)) (pg_source6 p) else None)
      in if refused \<noteq> None then Some (Ok ([], refused))
         else if refused6 \<noteq> None then Some (Ok ([], refused6))
         else (case run_start (hasIPv4 p) (hasIPv6 p) e p of
                 Err x \<Rightarrow> Some (Err x)
               | Panic x \<Rightarrow> Some (Panic x)
               | Ok r \<Rightarrow>
                   (case run_all True (hasIPv4 p) (hasIPv6 p) es r of
                      None \<Rightarrow> None
                    | Some (Ok r') \<Rightarrow> if run_finished r' then Some (Ok (r_calls r', r_err r')) else None
                    | Some (Err x) \<Rightarrow> Some (Err x)
                    | Some (Panic x) \<Rightarrow> Some (Panic x))))"

end
