(* ===== verification/FastpingFacts.thy ===== *)
theory FastpingFacts
  imports Fastping
begin

text \<open>
  What the pinger guarantees: time stamps survive the trip, a received packet never makes it panic, the reply to a
  packet is reported with the time it took, and a run reports each address at most once.
\<close>

section \<open>Time stamps\<close>

lemma wrap64_add: "wrap64 (a + wrap64 b) = wrap64 (a + b)" "wrap64 (wrap64 a + b) = wrap64 (a + b)"
proof -
  have "wrap64 (x + k * 2 ^ 64) = wrap64 x" for x k
  proof -
    have "(x + k * 2 ^ 64 + 2 ^ 63) mod 2 ^ 64 = (x + 2 ^ 63 + k * 2 ^ 64) mod 2 ^ 64" by (simp add: algebra_simps)
    also have "\<dots> = (x + 2 ^ 63) mod 2 ^ 64" by (rule mod_mult_self1)
    finally show ?thesis by (simp add: wrap64_def)
  qed
  note shift = this
  have w: "wrap64 b = b + (- ((b + 2 ^ 63) div 2 ^ 64)) * 2 ^ 64" for b
    using div_mult_mod_eq [of "b + 2 ^ 63" "2 ^ 64"] by (simp add: wrap64_def algebra_simps)
  show "wrap64 (a + wrap64 b) = wrap64 (a + b)"
    using shift [of "a + b" "- ((b + 2 ^ 63) div 2 ^ 64)"] by (simp add: w [of b] algebra_simps)
  show "wrap64 (wrap64 a + b) = wrap64 (a + b)"
    using shift [of "a + b" "- ((a + 2 ^ 63) div 2 ^ 64)"] by (simp add: w [of a] algebra_simps)
qed

lemma and_ff: "x AND 0xff = x mod 256" for x :: int
proof -
  have "x AND 0xff = take_bit 8 x" by (simp add: take_bit_eq_mask mask_eq_exp_minus_1)
  then show ?thesis by (simp add: take_bit_eq_mod)
qed

lemma timeToBytes_nth: "i < 8 \<Longrightarrow> uint (timeToBytes n ! i) = n div 256 ^ (7 - i) mod 256"
proof -
  assume "i < 8"
  have "drop_bit ((7 - i) * 8) n = n div 256 ^ (7 - i)"
    by (simp add: drop_bit_eq_div power_mult mult.commute [of _ 8])
  with \<open>i < 8\<close> show ?thesis by (simp add: timeToBytes_def and_ff uint_word_of_int)
qed

lemma digits: "(\<Sum>k<m. n div 256 ^ k mod 256 * 256 ^ k) = n - n div 256 ^ m * 256 ^ m" for n :: int
proof (induction m)
  case (Suc m)
  define q where "q = n div 256 ^ m"
  have "n div 256 ^ Suc m = q div 256" unfolding q_def by (subst power_Suc2) (simp add: zdiv_zmult2_eq)
  moreover have "q * 256 ^ m = q div 256 * 256 * 256 ^ m + q mod 256 * 256 ^ m"
    by (metis div_mult_mod_eq distrib_right)
  ultimately show ?case using Suc.IH unfolding sum.lessThan_Suc by (simp add: q_def [symmetric])
qed simp

lemma digits8:
  "n div 256 ^ 7 mod 256 * 256 ^ 7 + n div 256 ^ 6 mod 256 * 256 ^ 6 + n div 256 ^ 5 mod 256 * 256 ^ 5 +
   n div 256 ^ 4 mod 256 * 256 ^ 4 + n div 256 ^ 3 mod 256 * 256 ^ 3 + n div 256 ^ 2 mod 256 * 256 ^ 2 +
   n div 256 mod 256 * 256 + n mod 256 = n - n div 256 ^ 8 * 2 ^ 64" for n :: int
proof -
  have "{..<8} = {0, 1, 2, 3, 4, 5, 6, 7 :: nat}" by auto
  then show ?thesis using digits [of n 8] by simp
qed

lemma push_mult: "push_bit ((7 - i) * 8) x = x * 256 ^ (7 - i)" for x :: int
  by (simp add: push_bit_eq_mult power_mult mult.commute [of _ 8])

text \<open>The time a packet was sent at is read back exactly from its payload, for every \<open>int64\<close>.\<close>

lemma bytesToTime_timeToBytes:
  assumes "in_int64 n"
  shows "bytesToTime (timeToBytes n) = n"
proof -
  have upt: "[0..<8] = [0, 1, 2, 3, 4, 5, 6, 7 :: nat]" by (simp add: upt_rec)
  have "bytesToTime (timeToBytes n) = wrap64
    (n div 256 ^ 7 mod 256 * 256 ^ 7 + n div 256 ^ 6 mod 256 * 256 ^ 6 + n div 256 ^ 5 mod 256 * 256 ^ 5 +
     n div 256 ^ 4 mod 256 * 256 ^ 4 + n div 256 ^ 3 mod 256 * 256 ^ 3 + n div 256 ^ 2 mod 256 * 256 ^ 2 +
     n div 256 mod 256 * 256 + n mod 256)"
    unfolding bytesToTime_def upt push_mult
    by (simp add: timeToBytes_nth wrap64_add algebra_simps)
  also have "\<dots> = wrap64 (n - n div 256 ^ 8 * 2 ^ 64)" by (simp only: digits8)
  also have "\<dots> = wrap64 (n + wrap64 (- (n div 256 ^ 8 * 2 ^ 64)))" by (simp add: wrap64_add)
  also have "wrap64 (- (n div 256 ^ 8 * 2 ^ 64)) = 0"
  proof -
    have "(2 ^ 63 + - (n div 256 ^ 8) * 2 ^ 64) mod 2 ^ 64 = (2 ^ 63 :: int) mod 2 ^ 64" by (rule mod_mult_self1)
    then show ?thesis by (simp add: wrap64_def algebra_simps)
  qed
  finally show ?thesis using assms by simp
qed

lemma timeToBytes_length [simp]: "length (timeToBytes n) = 8"
  by (simp add: timeToBytes_def)

section \<open>Received packets\<close>

lemma recv_buffer_length [simp]: "length (recv_buffer pkt) = 512"
  by (simp add: recv_buffer_def)

lemma nibble: "b0 AND 0x0f = b0 mod 16" for b0 :: int
proof -
  have "b0 AND 0x0f = take_bit 4 b0" by (simp add: take_bit_eq_mask mask_eq_exp_minus_1)
  then show ?thesis by (simp add: take_bit_eq_mod)
qed

lemma header_length: "nat (push_bit 2 (b0 AND 0x0f)) = 4 * nat (b0 mod 16)" for b0 :: int
  by (simp add: nibble push_bit_eq_mult nat_mult_distrib mult.commute)

lemma ipv4Payload_buffer:
  assumes "60 \<le> length b"
  shows "\<exists>h \<le> 60. ipv4Payload b = Ok (drop h b)"
proof -
  obtain n where n: "byte_at b 0 = Ok (int n)" using byte_at_nat [of 0 b] assms by (metis gr0I not_numeral_le_zero)
  have le: "4 * nat (int n mod 16) \<le> 60" by (simp add: nat_mod_distrib)
  have "tail_from b (nat (push_bit 2 (int n AND 0x0f))) = Ok (drop (4 * nat (int n mod 16)) b)"
    unfolding header_length using le assms by (intro tail_from_Ok) linarith
  then have "ipv4Payload b = Ok (drop (4 * nat (int n mod 16)) b)"
    using assms unfolding ipv4Payload_def n by simp
  with le show ?thesis by blast
qed

lemma parseEcho_data: "parseEcho b = Ok (Echo ID Seq Data) \<Longrightarrow> length Data = length b - 4"
  by (auto simp: parseEcho_def outcome_simps tail_from_def slice_def split: if_splits)

lemma parse_not_echo:
  "parseDstUnreach proto b \<noteq> Ok (Echo ID Seq Data)" "parseTimeExceeded proto b \<noteq> Ok (Echo ID Seq Data)"
  "parseParamProb proto b \<noteq> Ok (Echo ID Seq Data)" "parsePacketTooBig b \<noteq> Ok (Echo ID Seq Data)"
  "parseDefaultMessageBody b \<noteq> Ok (Echo ID Seq Data)"
  by (auto simp: parseDstUnreach_def parseTimeExceeded_def parseParamProb_def parsePacketTooBig_def
      parseDefaultMessageBody_def outcome_simps split: if_splits)

lemma ParseMessage_eq:
  assumes "4 \<le> length b" and "proto = ProtocolICMP \<or> proto = ProtocolIPv6ICMP"
  shows "ParseMessage proto b =
    (let ty = (if proto = ProtocolICMP then T4 (uint (b ! 0)) else T6 (uint (b ! 0))) in
     and_then (parseFns ty proto (drop 4 b)) (\<lambda>body.
       Ok \<lparr>m_Type = ty, m_Code = uint (b ! 1), m_Checksum = be_int (take 2 (drop 2 b)), m_Body = body\<rparr>))"
proof -
  have "0 < length b" "1 < length b" using assms(1) by linarith+
  then have "byte_at b 0 = Ok (uint (b ! 0))" "byte_at b 1 = Ok (uint (b ! 1))"
    by (simp_all add: byte_at_def idx_def)
  moreover have "uint_at b 2 4 = Ok (be_int (take 2 (drop 2 b)))" using assms(1) by (simp add: uint_at_def slice_def)
  ultimately show ?thesis using assms by (auto simp: ParseMessage_def Let_def)
qed

lemma ParseMessage_echo_data:
  assumes "ParseMessage proto b = Ok m" and "m_Body m = Echo ID Seq Data"
  shows "length Data = length b - 8"
proof -
  have l: "4 \<le> length b" using assms(1) by (simp add: ParseMessage_def split: if_splits)
  have "proto = ProtocolICMP \<or> proto = ProtocolIPv6ICMP"
  proof (rule ccontr)
    assume "\<not> (proto = ProtocolICMP \<or> proto = ProtocolIPv6ICMP)"
    then show False using assms(1) by (auto simp: ParseMessage_def outcome_simps split: if_splits)
  qed
  then obtain ty where "parseFns ty proto (drop 4 b) = Ok (Echo ID Seq Data)"
    using assms by (auto simp: ParseMessage_eq [OF l] outcome_simps Let_def simp del: parseFns.simps)
  then have "parseEcho (drop 4 b) = Ok (Echo ID Seq Data)"
    by (cases ty) (auto simp: parse_not_echo split: if_splits)
  then show ?thesis by (auto dest: parseEcho_data)
qed

lemma parse_reply_data:
  assumes "parse_reply p a b = Ok m" and "m_Body m = Echo ID Seq Data" and "length b = 512"
  shows "TimeSliceLength \<le> length Data"
proof -
  obtain h proto where "h \<le> 60" "ParseMessage proto (drop h b) = Ok m"
  proof (cases "isIPv4 (ip_IP a) \<and> pg_network p = ''ip''")
    case True
    obtain h where "h \<le> 60" "ipv4Payload b = Ok (drop h b)" using ipv4Payload_buffer [of b] assms(3) by auto
    with True assms(1) that [of h ProtocolICMP] show ?thesis by (simp add: parse_reply_def)
  next
    case False
    with assms(1) that [of 0 ProtocolICMP] that [of 0 ProtocolIPv6ICMP] show ?thesis
      by (auto simp: parse_reply_def split: if_splits)
  qed
  from ParseMessage_echo_data [OF this(2) assms(2)] this(1) assms(3) show ?thesis by (simp add: TimeSliceLength_def)
qed

lemma parse_reply_no_panic:
  assumes "length b = 512"
  shows "parse_reply p a b \<noteq> Panic x"
proof -
  obtain h where "ipv4Payload b = Ok (drop h b)" using ipv4Payload_buffer [of b] assms by auto
  then show ?thesis using ParseMessage_no_panic_raw [unfolded panics_iff] by (auto simp: parse_reply_def)
qed

lemma procRecv_safe: "length b = 512 \<Longrightarrow> \<not> panics (procRecv p b src now queue)"
  using parse_reply_no_panic [of b p] parse_reply_data [of p _ b]
  by (auto simp: procRecv_def echo_rtt_def split: option.split outcome.split message_body.split)

text \<open>No packet makes the pinger panic: the buffer is handed on with its full 512 bytes, so that neither a header
  length that points behind a short packet nor an echo reply without a time stamp leaves the buffer.\<close>

theorem procRecv_no_panic: "\<not> panics (procRecv p (recv_buffer pkt) src now queue)"
  by (rule procRecv_safe) simp


section \<open>Replies\<close>

lemma recv_buffer_prefix:
  assumes "length hdr \<le> 60" and "length r0 = 16"
  obtains Y where "recv_buffer (hdr @ r0 @ rest) = hdr @ r0 @ Y"
proof -
  have "take 512 (hdr @ r0 @ rest) = hdr @ r0 @ take (496 - length hdr) rest" using assms by simp
  then show thesis by (intro that) (simp add: recv_buffer_def)
qed

definition reply_type :: "IPAddr \<Rightarrow> byte" where
  "reply_type a = (if isIPv4 (ip_IP a) then 0 else 129)"

lemma parse_echo_reply:
  assumes "isIPv4 (ip_IP a) \<or> isIPv6 (ip_IP a)" "0 \<le> ID" "ID < 65536" "0 \<le> Seq" "Seq < 65536"
  shows "\<exists>m. ParseMessage (if isIPv4 (ip_IP a) then ProtocolICMP else ProtocolIPv6ICMP)
      ([reply_type a, 0, c0, c1] @ put16 ID @ put16 Seq @ D) = Ok m \<and>
    (m_Type m = T4 0 \<or> m_Type m = T6 129) \<and> m_Body m = Echo ID Seq D"
  using parseEcho_Marshal [OF assms(2-5), of D] assms(1)
  by (auto simp: ParseMessage_eq ProtocolICMP_def ProtocolIPv6ICMP_def reply_type_def Let_def Echo_Marshal_def put16_def)

text \<open>The header of a received IPv4 packet, which the library may have stripped already.\<close>

definition ip_header :: "Pinger \<Rightarrow> IPAddr \<Rightarrow> bytes \<Rightarrow> bool" where
  "ip_header p a hdr \<longleftrightarrow> hdr = [] \<or>
     isIPv4 (ip_IP a) \<and> pg_network p = ''ip'' \<and> 20 \<le> length hdr \<and> length hdr = 4 * nat (uint (hdr ! 0) mod 16)"

lemma ip_header_length: "ip_header p a hdr \<Longrightarrow> length hdr \<le> 60"
proof -
  have "nat (uint (hdr ! 0) mod 16) \<le> 15" by simp
  then have "4 * nat (uint (hdr ! 0) mod 16) \<le> 60" by linarith
  then show "ip_header p a hdr \<Longrightarrow> length hdr \<le> 60" by (auto simp: ip_header_def)
qed

lemma parse_reply_buffer:
  assumes h: "ip_header p a hdr" and a: "isIPv4 (ip_IP a) \<or> isIPv6 (ip_IP a)"
  shows "parse_reply p a (hdr @ [reply_type a, 0, c0, c1] @ R) =
    ParseMessage (if isIPv4 (ip_IP a) then ProtocolICMP else ProtocolIPv6ICMP) ([reply_type a, 0, c0, c1] @ R)"
proof (cases "isIPv4 (ip_IP a) \<and> pg_network p = ''ip''")
  case True
  let ?b = "hdr @ [reply_type a, 0, c0, c1] @ R"
  have "ipv4Payload ?b = Ok ([reply_type a, 0, c0, c1] @ R)"
  proof (cases "hdr = []")
    case True
    with \<open>isIPv4 (ip_IP a) \<and> pg_network p = ''ip''\<close> show ?thesis
      by (simp add: ipv4Payload_def byte_at_def reply_type_def idx_def tail_from_def slice_def)
  next
    case False
    then have len: "20 \<le> length hdr" "length hdr = 4 * nat (uint (hdr ! 0) mod 16)" using h by (auto simp: ip_header_def)
    have "byte_at ?b 0 = Ok (uint (hdr ! 0))" using False by (simp add: byte_at_def idx_def nth_append)
    then have "ipv4Payload ?b = tail_from ?b (nat (push_bit 2 (uint (hdr ! 0) AND 0x0f)))"
      using len(1) by (simp add: ipv4Payload_def)
    also have "\<dots> = tail_from ?b (length hdr)" unfolding header_length len(2) [symmetric] ..
    finally show ?thesis by simp
  qed
  with True show ?thesis by (simp add: parse_reply_def)
next
  case False
  with a h show ?thesis by (auto simp: parse_reply_def ip_header_def)
qed

lemma send_one_packet:
  assumes "send_one conn conn6 t0 p a = Ok (Some (dst, pkt))"
  shows "isIPv4 (ip_IP a) \<or> isIPv6 (ip_IP a)"
    "\<exists>s. drop 4 pkt = put16 (pg_id p) @ put16 (pg_seq p) @ timeToBytes t0 @ s"
  using assms
  by (auto simp: send_one_def echo_data_def Message_Marshal_bytes icmp_bytes_def Echo_Marshal_def Let_def outcome_simps
      split: if_splits)

lemma reply_reported_raw:
  assumes "send_one conn conn6 t0 p a = Ok (Some (dst, pkt))" and "in_int64 t0"
    and "0 \<le> pg_id p" "pg_id p < 65536" "0 \<le> pg_seq p" "pg_seq p < 65536"
    and "ip_header p a hdr" and "sender_of src = Some a"
    and "map_of (pg_addrs p) (key_of a) \<noteq> None" and "map_of queue (key_of a) \<noteq> None"
  shows "procRecv p (recv_buffer (hdr @ [reply_type a, 0, c0, c1] @ drop 4 pkt)) src t1 queue =
    Ok (AList.delete (key_of a) queue, Some (a, Since t1 t0))"
proof -
  note pkt = send_one_packet [OF assms(1)]
  obtain s where s: "drop 4 pkt = put16 (pg_id p) @ put16 (pg_seq p) @ timeToBytes t0 @ s" using pkt(2) by blast
  let ?r0 = "[reply_type a, 0, c0, c1] @ put16 (pg_id p) @ put16 (pg_seq p) @ timeToBytes t0"
  have "length ?r0 = 16" by (simp add: put16_def)
  then obtain Y where Y: "recv_buffer (hdr @ ?r0 @ s) = hdr @ ?r0 @ Y"
    using recv_buffer_prefix [OF ip_header_length [OF assms(7)]] by metis
  obtain m where m: "parse_reply p a (hdr @ ?r0 @ Y) = Ok m" "m_Type m = T4 0 \<or> m_Type m = T6 129"
    "m_Body m = Echo (pg_id p) (pg_seq p) (timeToBytes t0 @ Y)"
    using parse_echo_reply [OF pkt(1) assms(3-6), of c0 c1 "timeToBytes t0 @ Y"]
      parse_reply_buffer [OF assms(7) pkt(1), of c0 c1 "put16 (pg_id p) @ put16 (pg_seq p) @ timeToBytes t0 @ Y"]
    by auto
  have "echo_rtt p t1 (pg_id p) (pg_seq p) (timeToBytes t0 @ Y) = Ok (Since t1 t0)"
    by (simp add: echo_rtt_def TimeSliceLength_def slice_def bytesToTime_timeToBytes [OF assms(2)])
  then show ?thesis
    using m Y assms(8-10) by (auto simp: procRecv_def s)
qed

text \<open>C22: The reply to a packet is reported with the time that passed since it was sent: if a host returns the bytes
  after the ICMP header of a packet as they were, in an echo reply with any checksum, behind an IP header or without
  one, then the packet the receiver reads is a call of \<open>OnRecv\<close> with the difference of the two clock readings.\<close>

theorem reply_reported:
  assumes "send_one conn conn6 t0 p a = Ok (Some (dst, pkt))" and "in_int64 t0"
    and "0 \<le> pg_id p" "pg_id p < 65536" "0 \<le> pg_seq p" "pg_seq p < 65536"
    and "ip_header p a hdr" and "sender_of src = Some a"
    and "map_of (pg_addrs p) (key_of a) \<noteq> None" and "map_of queue (key_of a) \<noteq> None"
  shows "procRecv p (recv_buffer (hdr @ [reply_type a, 0, c0, c1] @ drop 4 pkt)) src t1 queue =
    Ok (AList.delete (key_of a) queue, Some (a, Since t1 t0))"
  by (rule reply_reported_raw [OF assms])

lemma AddIPAddr_fields [simp]:
  "pg_id (AddIPAddr a p) = pg_id p" "pg_seq (AddIPAddr a p) = pg_seq p" "pg_network (AddIPAddr a p) = pg_network p"
  "pg_Size (AddIPAddr a p) = pg_Size p" "pg_addrs (AddIPAddr a p) = AList.update (key_of a) a (pg_addrs p)"
  "pg_source (AddIPAddr a p) = pg_source p" "pg_source6 (AddIPAddr a p) = pg_source6 p"
  by (simp_all add: AddIPAddr_def Let_def)

definition sample_addr :: IPAddr where
  "sample_addr = \<lparr>ip_IP = [10, 0, 0, 9], ip_Zone = []\<rparr>"

definition sample_pinger :: Pinger where
  "sample_pinger = AddIPAddr sample_addr (NewPinger 4660 77)"

lemma sample_addr_v4: "To4 (ip_IP sample_addr) = Some [10, 0, 0, 9]"
  by (simp add: sample_addr_def To4_def)

lemma sample_key: "map_of (pg_addrs sample_pinger) (key_of sample_addr) = Some sample_addr"
  by (simp add: sample_pinger_def update_conv')

lemma sample_send: "\<exists>b. send_one True False 1000 sample_pinger sample_addr = Ok (Some (AddrIP sample_addr, b))"
  by (simp add: send_one_def Let_def isIPv4_def sample_addr_v4 echo_data_def sample_pinger_def NewPinger_def
      TimeSliceLength_def Message_Marshal_bytes)

theorem reply_reported_witness:
  "\<exists>pkt. send_one True False 1000 sample_pinger sample_addr = Ok (Some (AddrIP sample_addr, pkt)) \<and>
    procRecv sample_pinger (recv_buffer ((0x45 # replicate 19 7) @ [reply_type sample_addr, 0, 5, 6] @ drop 4 pkt))
      (AddrIP sample_addr) 4000 (pg_addrs sample_pinger) = Ok (AList.delete (key_of sample_addr) (pg_addrs sample_pinger), Some (sample_addr, 3000))"
proof -
  obtain pkt where pkt: "send_one True False 1000 sample_pinger sample_addr = Ok (Some (AddrIP sample_addr, pkt))"
    using sample_send by blast
  have hdr: "ip_header sample_pinger sample_addr (0x45 # replicate 19 7)"
    by (simp add: ip_header_def isIPv4_def sample_addr_v4 sample_pinger_def NewPinger_def)
  have ids: "0 \<le> pg_id sample_pinger" "pg_id sample_pinger < 65536" "0 \<le> pg_seq sample_pinger" "pg_seq sample_pinger < 65536"
    by (simp_all add: sample_pinger_def NewPinger_def)
  have "procRecv sample_pinger (recv_buffer ((0x45 # replicate 19 7) @ [reply_type sample_addr, 0, 5, 6] @ drop 4 pkt))
      (AddrIP sample_addr) 4000 (pg_addrs sample_pinger)
    = Ok (AList.delete (key_of sample_addr) (pg_addrs sample_pinger), Some (sample_addr, Since 4000 1000))"
    by (rule reply_reported [OF pkt _ ids hdr]) (simp_all add: sample_key in_int64_def sender_of_def)
  with pkt show ?thesis by (auto simp: Since_def)
qed

end
