(* ===== verification/FastpingRun.thy ===== *)
theory FastpingRun
  imports FastpingFacts PingAgent
begin

text \<open>
  What one run of the pinger guarantees, and the ping of the request on top of it: the addresses asked and not yet
  reported, and those reported, are always the addresses a packet was sent to; a run over one address family never
  panics; a host is alive exactly if an echo reply of it arrived and the run ended without an error.
\<close>

section \<open>The states of a run\<close>

definition reported :: "run_state \<Rightarrow> addr_key list" where
  "reported r = map (\<lambda>(a, _). key_of a) (r_calls r)"

text \<open>The packets waited for and those reported share out the addresses \<open>ks\<close>.\<close>

definition run_inv :: "addr_key list \<Rightarrow> Pinger \<Rightarrow> run_state \<Rightarrow> bool" where
  "run_inv ks p r \<longleftrightarrow> r_pinger r = p \<and> distinct (map fst (r_queue r)) \<and> mset (reported r) + mset (map fst (r_queue r)) = mset ks"

lemma mset_delete:
  assumes "distinct (map fst q)" and "map_of q k \<noteq> None"
  shows "mset (map fst q) = add_mset k (mset (map fst (AList.delete k q)))"
  using assms
proof (induction q)
  case (Cons x q)
  show ?case
  proof (cases "fst x = k")
    case True
    then have "AList.delete k q = q" using Cons.prems(1) by (cases x) (auto intro!: delete_idem)
    with True show ?thesis by (cases x) simp
  next
    case False
    with Cons show ?thesis by (cases x) auto
  qed
qed simp

lemma procRecv_queue:
  assumes "procRecv p b src now q = Ok (q', call)"
  shows "(case call of None \<Rightarrow> q' = q | Some (a, rtt) \<Rightarrow> map_of q (key_of a) \<noteq> None \<and> q' = AList.delete (key_of a) q)"
  using assms
  by (auto simp: procRecv_def outcome_simps split: option.splits outcome.splits message_body.splits if_splits)

text \<open>The moves of a run that sends once.\<close>

lemma once_step_cases [consumes 1, case_names Stops Receives Fails]:
  assumes "run_step True conn conn6 e r = Some (Ok r')"
  obtains (Stops) "r_pinger r' = r_pinger r" "r_queue r' = r_queue r" "r_calls r' = r_calls r"
      "\<nexists>x. e = ReadFails x" "\<nexists>b src now. e = PacketEvent b src now" "r_recv_done r' = r_recv_done r" "r_receivers r' \<le> r_receivers r"
  | (Receives) b src now q call where "e = PacketEvent b src now"
      "procRecv (r_pinger r) b src now (r_queue r) = Ok (q, call)"
      "r' = r\<lparr>r_queue := q, r_calls := r_calls r @ (case call of None \<Rightarrow> [] | Some c \<Rightarrow> [c])\<rparr>"
  | (Fails) x where "e = ReadFails x" "r_receivers r > 0" "\<not> r_recv_done r"
      "r' = r\<lparr>r_recv_err := Some x, r_recv_done := True, r_receivers := r_receivers r - 1\<rparr>"
proof (cases e)
  case (PacketEvent b src now)
  with assms Receives show thesis by (auto simp: outcome_simps split: if_splits)
next
  case (ReadFails x)
  with assms Fails show thesis by (auto split: if_splits)
qed (use assms Stops in \<open>auto simp: Let_def split: if_splits\<close>)

lemma run_inv_step:
  assumes "run_step True conn conn6 e r = Some (Ok r')" and inv: "run_inv ks p r"
  shows "run_inv ks p r'"
  using assms(1)
proof (cases rule: once_step_cases)
  case (Receives b src now q call)
  show ?thesis
  proof (cases call)
    case None
    with Receives inv procRecv_queue [OF Receives(2)] show ?thesis by (simp add: run_inv_def reported_def)
  next
    case (Some c)
    obtain a rtt where c: "c = (a, rtt)" by fastforce
    with Some procRecv_queue [OF Receives(2)]
    have q: "map_of (r_queue r) (key_of a) \<noteq> None" "q = AList.delete (key_of a) (r_queue r)" by auto
    with inv have "mset (map fst (r_queue r)) = add_mset (key_of a) (mset (map fst q))"
      using mset_delete [of "r_queue r" "key_of a"] by (simp add: run_inv_def)
    with inv Receives(3) Some c q(2) show ?thesis by (auto simp: run_inv_def reported_def distinct_delete)
  qed
qed (use inv in \<open>simp_all add: run_inv_def reported_def\<close>)

lemma run_all_Cons:
  "run_all once conn conn6 (e # es) r = Some (Ok r') \<longleftrightarrow>
    (\<exists>s. run_step once conn conn6 e r = Some (Ok s) \<and> run_all once conn conn6 es s = Some (Ok r'))"
  by (auto split: option.split outcome.split)

lemma run_all_inv:
  "run_all True conn conn6 es r = Some (Ok r') \<Longrightarrow> run_inv ks p r \<Longrightarrow> run_inv ks p r'"
proof (induction es arbitrary: r)
  case (Cons e es)
  from Cons.prems(1) obtain s where "run_step True conn conn6 e r = Some (Ok s)" "run_all True conn conn6 es s = Some (Ok r')"
    by (subst (asm) run_all_Cons) blast
  with Cons.IH Cons.prems(2) run_inv_step show ?case by blast
qed simp

text \<open>The addresses that are sent a packet: those of a family with a connection.\<close>

definition asked :: "bool \<Rightarrow> bool \<Rightarrow> IPAddr \<Rightarrow> bool" where
  "asked conn conn6 a \<longleftrightarrow> (if isIPv4 (ip_IP a) then conn else isIPv6 (ip_IP a) \<and> conn6)"

definition asked_keys :: "bool \<Rightarrow> bool \<Rightarrow> (addr_key \<times> IPAddr \<times> int) list \<Rightarrow> addr_key list" where
  "asked_keys conn conn6 vs = map fst (filter (\<lambda>(_, a, _). asked conn conn6 a) vs)"

lemma echo_data_cases:
  "echo_data sz now = (if sz < 8 then Panic (ExplicitPanic ''makeslice: len out of range'')
     else Ok (timeToBytes now @ replicate (nat (sz - 8)) 1))"
  by (auto simp: echo_data_def byteSliceOfSize_def TimeSliceLength_def)

lemma send_one_cases:
  "send_one conn conn6 now p a =
     (if \<not> asked conn conn6 a then Ok None
      else if pg_Size p < 8 then Panic (ExplicitPanic ''makeslice: len out of range'')
      else Ok (Some (if pg_network p = ''udp'' then AddrUDP a else AddrIP a,
        icmp_bytes (if isIPv4 (ip_IP a) then T4 8 else T6 128) 0
          (Echo_Marshal (pg_id p) (pg_seq p) (timeToBytes now @ replicate (nat (pg_Size p - 8)) 1)))))"
  by (simp add: send_one_def Let_def asked_def echo_data_cases Message_Marshal_bytes)

lemma send_all_Ok:
  "8 \<le> pg_Size p \<or> asked_keys conn conn6 vs = [] \<Longrightarrow>
    \<exists>q sent. send_all conn conn6 p vs = Ok (q, sent) \<and> map fst q = asked_keys conn conn6 vs \<and> length sent = length q"
proof (induction vs)
  case (Cons v vs)
  then have "8 \<le> pg_Size p \<or> asked_keys conn conn6 vs = []" by (auto simp: asked_keys_def split: if_splits)
  with Cons show ?case by (cases v) (fastforce simp: send_one_cases asked_keys_def)
qed (simp add: asked_keys_def)

lemma send_all_panics:
  "pg_Size p < 8 \<Longrightarrow> asked_keys conn conn6 vs \<noteq> [] \<Longrightarrow> panics (send_all conn conn6 p vs)"
proof (induction vs)
  case (Cons v vs)
  then show ?case by (cases v) (auto simp: send_one_cases asked_keys_def split: if_splits)
qed (simp add: asked_keys_def)

text \<open>Starting a run fails in one way only: it panics exactly if the payload is set smaller than the eight bytes of
  the time stamp and there is an address to send to. Otherwise every address of a family with a connection is sent one
  packet and is waited for.\<close>

theorem run_start_total:
  "(if pg_Size p < 8 \<and> asked_keys conn conn6 (e_visits e) \<noteq> [] then panics (run_start conn conn6 e p)
    else \<exists>r. run_start conn conn6 e p = Ok r \<and> map fst (r_queue r) = asked_keys conn conn6 (e_visits e)
           \<and> length (r_sent r) = length (r_queue r))"
proof -
  let ?p = "p\<lparr>pg_id := e_id e mod 65535, pg_seq := e_seq e mod 65535\<rparr>"
  have eq: "run_start conn conn6 e p = and_then (send_all conn conn6 ?p (e_visits e)) (\<lambda>(queue, sent).
     Ok \<lparr>r_pinger = ?p, r_queue = queue, r_err = None, r_recv_err = None, r_recv_done = False,
           r_receivers = (if conn then 1 else 0) + (if conn6 then 1 else 0), r_looping = True, r_calls = [], r_idle = 0,
           r_sent = sent\<rparr>)"
    by (simp add: run_start_def sendICMP_def Let_def and_then_assoc case_prod_unfold)
  show ?thesis
    using send_all_panics [of ?p conn conn6 "e_visits e"] send_all_Ok [of ?p conn conn6 "e_visits e"]
    by (auto simp: eq)
qed

lemma run_start_Ok:
  assumes "run_start conn conn6 e p = Ok r"
  shows "map fst (r_queue r) = asked_keys conn conn6 (e_visits e)" "length (r_sent r) = length (r_queue r)"
    "r_calls r = []" "r_recv_done r = False" "r_looping r" "r_err r = None"
    "r_receivers r = (if conn then 1 else 0) + (if conn6 then 1 else 0)"
    "r_pinger r = p\<lparr>pg_id := e_id e mod 65535, pg_seq := e_seq e mod 65535\<rparr>"
proof -
  let ?p = "p\<lparr>pg_id := e_id e mod 65535, pg_seq := e_seq e mod 65535\<rparr>"
  show "r_calls r = []" "r_recv_done r = False" "r_looping r" "r_err r = None"
    "r_receivers r = (if conn then 1 else 0) + (if conn6 then 1 else 0)" "r_pinger r = ?p"
    using assms by (auto simp: run_start_def sendICMP_def Let_def outcome_simps)
  have s: "send_all conn conn6 ?p (e_visits e) = Ok (r_queue r, r_sent r)"
    using assms by (auto simp: run_start_def sendICMP_def Let_def outcome_simps)
  then have "8 \<le> pg_Size ?p \<or> asked_keys conn conn6 (e_visits e) = []"
    using send_all_panics [of ?p conn conn6 "e_visits e"] by fastforce
  from send_all_Ok [OF this] s
  show "map fst (r_queue r) = asked_keys conn conn6 (e_visits e)" "length (r_sent r) = length (r_queue r)" by auto
qed

lemma run_start_inv:
  assumes "run_start conn conn6 e p = Ok r" and "distinct (map fst (e_visits e))"
  shows "run_inv (asked_keys conn conn6 (e_visits e)) (r_pinger r) r"
  using run_start_Ok [OF assms(1)] assms(2)
  by (simp add: run_inv_def reported_def asked_keys_def distinct_map_filter)

text \<open>C23: In a run that sends once, the addresses reported so far and those still waited for are exactly the addresses a
  packet was sent to, each once: no address is reported twice, none that was not asked, and none is lost.\<close>

theorem run_reports_once:
  assumes "run_start conn conn6 e p = Ok r0" and "distinct (map fst (e_visits e))"
    and "run_all True conn conn6 es r0 = Some (Ok r)"
  shows "mset (reported r) + mset (map fst (r_queue r)) = mset (asked_keys conn conn6 (e_visits e)) \<and> distinct (reported r)"
proof -
  have inv: "run_inv (asked_keys conn conn6 (e_visits e)) (r_pinger r0) r"
    by (rule run_all_inv [OF assms(3) run_start_inv [OF assms(1,2)]])
  have "distinct (asked_keys conn conn6 (e_visits e))"
    using assms(2) by (simp add: asked_keys_def distinct_map_filter)
  with inv have "distinct (reported r @ map fst (r_queue r))"
    by (metis mset_append mset_eq_imp_distinct_iff run_inv_def)
  with inv show ?thesis by (auto simp: run_inv_def)
qed

text \<open>The run that the witnesses use: one address, whose reply arrives twice.\<close>

definition sample_env :: send_env where
  "sample_env = \<lparr>e_id = 4660, e_seq = 77, e_visits = [(key_of sample_addr, sample_addr, 1000)]\<rparr>"

definition sample_reply :: bytes where
  "sample_reply = recv_buffer ([0, 0, 0, 0] @ put16 4660 @ put16 77 @ timeToBytes 1000)"

definition sample_events :: "run_event list" where
  "sample_events = [PacketEvent sample_reply (AddrIP sample_addr) 4000, PacketEvent sample_reply (AddrIP sample_addr) 5000,
     TickEvent sample_env, ReceiverStops]"

lemma sample_start: "\<exists>r. run_start True False sample_env sample_pinger = Ok r \<and> r_queue r = [(key_of sample_addr, sample_addr)]"
  by (auto simp: run_start_def sendICMP_def Let_def sample_env_def send_one_cases asked_def isIPv4_def sample_addr_v4
      sample_pinger_def NewPinger_def TimeSliceLength_def)

text \<open>The first reply is reported and the second is not.\<close>

lemma sample_run:
  assumes "run_start True False sample_env sample_pinger = Ok r0"
  shows "\<exists>r. run_all True True False sample_events r0 = Some (Ok r) \<and> run_finished r \<and> r_err r = None \<and>
    r_calls r = [(sample_addr, 3000)]"
proof -
  note r0 = run_start_Ok [OF assms]
  have q: "r_queue r0 = [(key_of sample_addr, sample_addr)]" using sample_start assms by auto
  obtain b where send: "send_one True False 1000 sample_pinger sample_addr = Ok (Some (AddrIP sample_addr, b))"
    using sample_send by blast
  have b: "drop 4 b = put16 4660 @ put16 77 @ timeToBytes 1000"
    using send by (auto simp: send_one_cases asked_def isIPv4_def sample_addr_v4 sample_pinger_def NewPinger_def
        TimeSliceLength_def icmp_bytes_def Let_def Echo_Marshal_def split: if_splits)
  have p: "r_pinger r0 = sample_pinger"
    using r0(8) by (simp add: sample_pinger_def sample_env_def NewPinger_def AddIPAddr_def Let_def)
  have first: "procRecv sample_pinger sample_reply (AddrIP sample_addr) 4000 [(key_of sample_addr, sample_addr)] =
    Ok ([], Some (sample_addr, 3000))"
    using reply_reported_raw [OF send, of "[]" "AddrIP sample_addr" "[(key_of sample_addr, sample_addr)]" 0 0 4000]
    by (simp add: sample_reply_def b reply_type_def isIPv4_def sample_addr_v4 in_int64_def sample_pinger_def NewPinger_def
        ip_header_def sender_of_def update_conv' Since_def)
  then have "procRecv sample_pinger sample_reply (AddrIP sample_addr) 5000 [] = Ok ([], None)"
    by (auto simp: procRecv_def outcome_simps echo_rtt_def split: option.splits outcome.splits message_body.splits if_splits)
  with first show ?thesis
    by (simp add: sample_events_def r0(1-7) q p run_finished_def Let_def)
qed

theorem run_reports_once_witness:
  "\<exists>r. reported r = [key_of sample_addr] \<and> mset (reported r) + mset (map fst (r_queue r)) = {#key_of sample_addr#}"
proof -
  obtain r0 where r0: "run_start True False sample_env sample_pinger = Ok r0" using sample_start by blast
  then obtain r where r: "run_all True True False sample_events r0 = Some (Ok r)" "r_calls r = [(sample_addr, 3000)]"
    using sample_run by blast
  from run_reports_once [OF r0 _ r(1)] have "mset (reported r) + mset (map fst (r_queue r)) = {#key_of sample_addr#}"
    by (simp add: sample_env_def asked_keys_def asked_def isIPv4_def sample_addr_v4)
  with r(2) show ?thesis by (intro exI [of _ r]) (simp add: reported_def)
qed

section \<open>Failing reads\<close>

definition read_fails :: "run_event list \<Rightarrow> nat" where
  "read_fails es = length (filter (\<lambda>e. case e of ReadFails _ \<Rightarrow> True | _ \<Rightarrow> False) es)"

definition from_buffer :: "run_event list \<Rightarrow> bool" where
  "from_buffer es = list_all (\<lambda>e. case e of PacketEvent b _ _ \<Rightarrow> length b = 512 | _ \<Rightarrow> True) es"

lemma procRecv_not_Err: "procRecv p b src now q \<noteq> Err e"
  by (auto simp: procRecv_def outcome_simps echo_rtt_def slice_def split: option.splits outcome.splits message_body.splits if_splits)

lemma run_all_fails:
  assumes "run_all True conn conn6 es r = Some x" and "from_buffer es"
  shows "(\<exists>r'. x = Ok r' \<and> read_fails es < (if r_recv_done r then 1 else 2)) \<or>
    panics x \<and> (if r_recv_done r then 1 else 2) \<le> read_fails es"
  using assms
proof (induction es arbitrary: r)
  case Nil
  then show ?case by (auto simp: read_fails_def)
next
  case (Cons e es)
  from Cons.prems(1) obtain y where y: "run_step True conn conn6 e r = Some y" by (auto split: option.splits)
  have buf: "from_buffer es" using Cons.prems(2) by (simp add: from_buffer_def)
  show ?case
  proof (cases y)
    case (Ok s)
    with y have step: "run_step True conn conn6 e r = Some (Ok s)" by simp
    have rest: "run_all True conn conn6 es s = Some x" using Cons.prems(1) step by simp
    from step show ?thesis
    proof (cases rule: once_step_cases)
      case Stops
      then have "read_fails (e # es) = read_fails es" by (auto simp: read_fails_def split: run_event.split)
      with Cons.IH [OF rest buf] Stops show ?thesis by simp
    next
      case Receives
      with Cons.IH [OF rest buf] show ?thesis by (simp add: read_fails_def)
    next
      case Fails
      with Cons.IH [OF rest buf] show ?thesis by (auto simp: read_fails_def)
    qed
  next
    case (Err x')
    with y show ?thesis
      by (cases e) (auto simp: outcome_simps procRecv_not_Err Let_def split: if_splits)
  next
    case (Panic x')
    have "\<exists>g. e = ReadFails g \<and> r_recv_done r"
    proof (cases e)
      case (PacketEvent b src now)
      then have "\<not> panics (procRecv (r_pinger r) b src now (r_queue r))"
        using Cons.prems(2) by (intro procRecv_safe) (simp add: from_buffer_def)
      with y Panic PacketEvent show ?thesis by (auto simp: outcome_simps split: if_splits)
    qed (use y Panic in \<open>auto simp: Let_def outcome_simps split: if_splits\<close>)
    moreover have "x = Panic x'" using Cons.prems(1) y Panic by simp
    ultimately show ?thesis by (auto simp: read_fails_def)
  qed
qed

text \<open>With one connection, a receiver that has closed the channel was the only one.\<close>

lemma run_all_single:
  assumes "run_all True conn conn6 es r = Some x" and "from_buffer es"
    and "r_receivers r + (if r_recv_done r then 1 else 0) \<le> 1"
  shows "\<not> panics x"
  using assms
proof (induction es arbitrary: r)
  case (Cons e es)
  from Cons.prems(1) obtain y where y: "run_step True conn conn6 e r = Some y" by (auto split: option.splits)
  have buf: "from_buffer es" using Cons.prems(2) by (simp add: from_buffer_def)
  show ?case
  proof (cases y)
    case (Ok s)
    with y have step: "run_step True conn conn6 e r = Some (Ok s)" by simp
    have rest: "run_all True conn conn6 es s = Some x" using Cons.prems(1) step by simp
    from step have "r_receivers s + (if r_recv_done s then 1 else 0) \<le> 1"
      by (cases rule: once_step_cases) (use Cons.prems(3) in \<open>auto split: if_splits\<close>)
    with Cons.IH rest buf show ?thesis by blast
  next
    case (Err x')
    with Cons.prems(1) y show ?thesis by auto
  next
    case (Panic x')
    from y Panic Cons.prems(2,3) show ?thesis
    proof (cases e)
      case (PacketEvent b src now)
      then have "\<not> panics (procRecv (r_pinger r) b src now (r_queue r))"
        using Cons.prems(2) by (intro procRecv_safe) (simp add: from_buffer_def)
      with y Panic PacketEvent show ?thesis by (auto simp: outcome_simps split: if_splits)
    qed (auto simp: Let_def outcome_simps split: if_splits)
  qed
qed auto

text \<open>The rest of a run that nobody disturbs: the idle timer fires, and the receivers see that they are to stop.\<close>

definition to_the_end :: "send_env \<Rightarrow> run_state \<Rightarrow> run_event list" where
  "to_the_end e r = (if r_looping r then [TickEvent e] else []) @ replicate (r_receivers r) ReceiverStops"

lemma receivers_stop:
  "\<not> r_looping r \<Longrightarrow> r_receivers r = n \<Longrightarrow>
    run_all True conn conn6 (replicate n ReceiverStops) r = Some (Ok (r\<lparr>r_receivers := 0\<rparr>))"
  by (induction n arbitrary: r) simp_all

lemma run_can_finish:
  "\<exists>r'. run_all True conn conn6 (to_the_end e r) r = Some (Ok r') \<and> run_finished r' \<and> r_calls r' = r_calls r \<and> r_err r' = r_err r"
proof (cases "r_looping r")
  case True
  then show ?thesis
    using receivers_stop [of "r\<lparr>r_idle := Suc (r_idle r), r_looping := False\<rparr>" "r_receivers r" conn conn6]
    by (simp add: to_the_end_def Let_def run_finished_def)
next
  case False
  then show ?thesis
    using receivers_stop [OF False refl, of conn conn6] by (simp add: to_the_end_def run_finished_def)
qed



section \<open>The ping of the request\<close>

text \<open>
  One run of the pinger that \<open>ping\<close> sets up: the draws of \<open>NewPinger\<close> and of \<open>sendICMP\<close>, the clock when the packet is
  sent, the refusals of \<open>listen\<close> and the events of the run; \<open>show\<close> is \<open>Duration.String\<close>. Only whole runs without a
  panic have a result.
\<close>

record ping_world =
  w_seed :: "int \<times> int"
  w_draws :: "int \<times> int"
  w_sent_at :: int
  w_listen :: "string \<Rightarrow> string \<Rightarrow> go_error option"
  w_events :: "run_event list"
  w_show :: "int \<Rightarrow> string"

definition run_pinger :: "ping_world \<Rightarrow> IPAddr \<Rightarrow> ((IPAddr \<times> int) list \<times> go_error option) outcome option" where
  "run_pinger w ra =
     Pinger_Run (w_listen w)
       \<lparr>e_id = fst (w_draws w), e_seq = snd (w_draws w), e_visits = [(key_of ra, ra, w_sent_at w)]\<rparr>
       (w_events w) (AddIPAddr ra (NewPinger (fst (w_seed w)) (snd (w_seed w))))"

definition pinger_netenv :: "(string \<Rightarrow> string \<Rightarrow> IPAddr option) \<Rightarrow> ping_world \<Rightarrow> IPAddr netenv" where
  "pinger_netenv resolve w =
     \<lparr>ResolveIPAddr = resolve,
      Run = (\<lambda>ra. case run_pinger w ra of
               Some (Ok (calls, err)) \<Rightarrow> (map (\<lambda>(_, rtt). w_show w rtt) calls, err \<noteq> None)
             | _ \<Rightarrow> ([], True))\<rparr>"

text \<open>A packet the receiver takes for the echo reply of \<open>ra\<close>.\<close>

definition reply_of :: "IPAddr \<Rightarrow> run_event \<Rightarrow> bool" where
  "reply_of ra e = (case e of
     PacketEvent b src now \<Rightarrow>
       (case sender_of src of
          None \<Rightarrow> False
        | Some a \<Rightarrow> key_of a = key_of ra \<and>
            (case parse_reply (NewPinger 0 0) a b of
               Ok m \<Rightarrow> (m_Type m = T4 0 \<or> m_Type m = T6 129) \<and> (case m_Body m of Echo _ _ _ \<Rightarrow> True | _ \<Rightarrow> False)
             | _ \<Rightarrow> False))
   | _ \<Rightarrow> False)"

lemma procRecv_reports:
  assumes "procRecv p b src now q = Ok (q', call)" and "pg_addrs p = [(key_of ra, ra)]" and "pg_network p = ''ip''"
  shows "call \<noteq> None \<longleftrightarrow> reply_of ra (PacketEvent b src now) \<and> map_of q (key_of ra) \<noteq> None"
proof -
  have "parse_reply p a b = parse_reply (NewPinger 0 0) a b" for a
    using assms(3) by (simp add: parse_reply_def NewPinger_def)
  with assms(1,2) show ?thesis
    by (auto simp: procRecv_def reply_of_def outcome_simps split: option.splits outcome.splits message_body.splits if_splits)
qed

lemma run_inv_waiting:
  assumes "run_inv [k] p r"
  shows "r_calls r = [] \<longleftrightarrow> map_of (r_queue r) k \<noteq> None"
proof -
  have m: "mset (reported r) + mset (map fst (r_queue r)) = {#k#}" using assms by (simp add: run_inv_def)
  show ?thesis
  proof (cases "r_calls r = []")
    case True
    with m have "mset (map fst (r_queue r)) = {#k#}" by (simp add: reported_def)
    then have "set (map fst (r_queue r)) = {k}" by (metis set_mset_mset set_mset_single)
    with True show ?thesis by (simp add: map_of_eq_None_iff)
  next
    case False
    have "size (mset (reported r) + mset (map fst (r_queue r))) = 1" unfolding m by simp
    then have "length (r_calls r) + length (r_queue r) = 1" by (simp add: reported_def)
    moreover have "1 \<le> length (r_calls r)" using False by (cases "r_calls r") simp_all
    ultimately have "length (r_queue r) = 0" by linarith
    with False show ?thesis by simp
  qed
qed

lemma run_all_answered:
  assumes "run_all True conn conn6 es r = Some (Ok r')" and "run_inv [key_of ra] p r"
    and "pg_addrs p = [(key_of ra, ra)]" and "pg_network p = ''ip''"
  shows "r_calls r' \<noteq> [] \<longleftrightarrow> r_calls r \<noteq> [] \<or> (\<exists>e \<in> set es. reply_of ra e)"
  using assms(1,2)
proof (induction es arbitrary: r)
  case (Cons e es)
  then obtain s where s: "run_step True conn conn6 e r = Some (Ok s)" "run_all True conn conn6 es s = Some (Ok r')"
    by (auto simp only: run_all_Cons)
  have inv: "run_inv [key_of ra] p s" by (rule run_inv_step [OF s(1) Cons.prems(2)])
  note waiting = run_inv_waiting [OF Cons.prems(2)]
  from s(1) have "r_calls s \<noteq> [] \<longleftrightarrow> r_calls r \<noteq> [] \<or> reply_of ra e"
  proof (cases rule: once_step_cases)
    case Stops
    then have "\<not> reply_of ra e" by (simp add: reply_of_def split: run_event.split)
    with Stops show ?thesis by auto
  next
    case (Receives b src now q call)
    have "pg_addrs (r_pinger r) = [(key_of ra, ra)]" "pg_network (r_pinger r) = ''ip''"
      using Cons.prems(2) assms(3,4) by (simp_all add: run_inv_def)
    from procRecv_reports [OF Receives(2) this] waiting Receives(1,3) show ?thesis
      by (auto split: option.splits)
  next
    case Fails
    then show ?thesis by (simp add: reply_of_def)
  qed
  with Cons.IH [OF s(2) inv] show ?case by auto
qed simp

lemma run_all_err:
  assumes "run_all True conn conn6 es r = Some (Ok r')" and "r_recv_done r \<longrightarrow> r_recv_err r \<noteq> None"
  shows "r_err r' \<noteq> None \<longleftrightarrow> r_err r \<noteq> None \<or> RecvDoneEvent \<in> set es"
  using assms
proof (induction es arbitrary: r)
  case (Cons e es)
  then obtain s where s: "run_step True conn conn6 e r = Some (Ok s)" "run_all True conn conn6 es s = Some (Ok r')"
    by (auto simp only: run_all_Cons)
  have "(r_recv_done s \<longrightarrow> r_recv_err s \<noteq> None) \<and> (r_err s \<noteq> None \<longleftrightarrow> r_err r \<noteq> None \<or> e = RecvDoneEvent)"
    using s(1) Cons.prems(2) by (cases e) (auto simp: Let_def outcome_simps split: if_splits)
  with Cons.IH [OF s(2)] show ?case by auto
qed simp

definition endpoint :: "IPAddr \<Rightarrow> string" where
  "endpoint ra = (if isIPv4 (ip_IP ra) then ''ip4:icmp'' else ''ip6:ipv6-icmp'')"

lemma run_pinger_result:
  assumes "run_pinger w ra = Some (Ok (calls, err))" and "isIPv4 (ip_IP ra) \<or> isIPv6 (ip_IP ra)"
  shows "(w_listen w (endpoint ra) [] \<noteq> None \<and> err = w_listen w (endpoint ra) [] \<and> calls = []) \<or>
    (w_listen w (endpoint ra) [] = None \<and> (err \<noteq> None \<longleftrightarrow> RecvDoneEvent \<in> set (w_events w))
      \<and> (calls \<noteq> [] \<longleftrightarrow> (\<exists>e \<in> set (w_events w). reply_of ra e)) \<and> length calls \<le> 1)"
proof -
  define p where "p = AddIPAddr ra (NewPinger (fst (w_seed w)) (snd (w_seed w)))"
  define e where "e = \<lparr>e_id = fst (w_draws w), e_seq = snd (w_draws w), e_visits = [(key_of ra, ra, w_sent_at w)]\<rparr>"
  have fam: "hasIPv4 p = isIPv4 (ip_IP ra)" "hasIPv6 p = (\<not> isIPv4 (ip_IP ra))"
    using assms(2) by (auto simp: p_def AddIPAddr_def Let_def NewPinger_def)
  have p: "pg_network p = ''ip''" "pg_source p = []" "pg_source6 p = []" "pg_addrs p = [(key_of ra, ra)]"
    by (simp_all add: p_def NewPinger_def)
  have proto: "(if isIPv4 (ip_IP ra) then ipv4Proto ''ip'' else ipv6Proto ''ip'') = endpoint ra"
    by (simp add: endpoint_def ipv4Proto_def ipv6Proto_def)
  show ?thesis
  proof (cases "w_listen w (endpoint ra) []")
    case (Some x)
    with assms(1) proto show ?thesis
      by (cases "isIPv4 (ip_IP ra)") (auto simp: run_pinger_def Pinger_Run_def Let_def fam p p_def [symmetric])
  next
    case None
    then obtain r0 r where r0: "run_start (hasIPv4 p) (hasIPv6 p) e p = Ok r0"
      and r: "run_all True (hasIPv4 p) (hasIPv6 p) (w_events w) r0 = Some (Ok r)" "calls = r_calls r" "err = r_err r"
      using assms(1) proto
      by (cases "isIPv4 (ip_IP ra)")
        (auto simp: run_pinger_def Pinger_Run_def Let_def fam p p_def [symmetric] e_def [symmetric]
          split: outcome.splits option.splits if_splits)
    note start = run_start_Ok [OF r0]
    have "asked_keys (hasIPv4 p) (hasIPv6 p) (e_visits e) = [key_of ra]" "distinct (map fst (e_visits e))"
      using assms(2) unfolding fam by (auto simp: e_def asked_keys_def asked_def)
    then have inv: "run_inv [key_of ra] (r_pinger r0) r0" using run_start_inv [OF r0] by simp
    have "pg_addrs (r_pinger r0) = [(key_of ra, ra)]" "pg_network (r_pinger r0) = ''ip''"
      using start(8) by (simp_all add: p)
    from run_all_answered [OF r(1) inv this] start(3)
    have "calls \<noteq> [] \<longleftrightarrow> (\<exists>e \<in> set (w_events w). reply_of ra e)" by (simp add: r(2))
    moreover have "err \<noteq> None \<longleftrightarrow> RecvDoneEvent \<in> set (w_events w)"
      using run_all_err [OF r(1)] start(4,6) by (simp add: r(3))
    moreover have "length calls \<le> 1"
    proof -
      have "mset (reported r) + mset (map fst (r_queue r)) = {#key_of ra#}"
        using run_all_inv [OF r(1) inv] by (simp add: run_inv_def)
      then have "size (mset (reported r) + mset (map fst (r_queue r))) = 1" by simp
      then show ?thesis by (simp add: reported_def r(2))
    qed
    ultimately show ?thesis using None by blast
  qed
qed

text \<open>C21: What the agent reports of a host: after a whole run the host is alive exactly if the socket could be opened, no
  read failed with an error that ended the run, and some packet of the run was an echo reply from the host's address, of
  whatever request; the time is then that of the one call of \<open>OnRecv\<close>, and \<open>-1\<close> without a reply.\<close>

theorem ping_alive:
  assumes "resolve (if CHR '':'' \<in> set ip then ''ip6:ipv6-icmp'' else ''ip4:icmp'') ip = Some ra"
    and "isIPv4 (ip_IP ra) \<or> isIPv6 (ip_IP ra)" and "run_pinger w ra = Some (Ok (calls, err))"
  shows "(fst (ping (pinger_netenv resolve w) ip) = 1 \<longleftrightarrow>
      w_listen w (endpoint ra) [] = None \<and> RecvDoneEvent \<notin> set (w_events w) \<and> (\<exists>e \<in> set (w_events w). reply_of ra e))
    \<and> snd (ping (pinger_netenv resolve w) ip) = (case calls of [] \<Rightarrow> ''-1'' | (_, rtt) # _ \<Rightarrow> w_show w rtt)"
proof -
  have *: "ping (pinger_netenv resolve w) ip =
    (let (alive, lag) = foldl (\<lambda>_ rtt. (1, rtt)) (0, ''-1'') (map (\<lambda>(_, rtt). w_show w rtt) calls)
     in if err \<noteq> None then (0, lag) else (alive, lag))"
    using assms(1,3) by (simp add: ping_def pinger_netenv_def Let_def)
  consider "calls = []" | a rtt where "calls = [(a, rtt)]"
    using run_pinger_result [OF assms(3,2)] by (cases calls) auto
  then show ?thesis
    using run_pinger_result [OF assms(3,2)] unfolding * by cases auto
qed

text \<open>A reply to somebody else's request (identifier 4660, while this run drew 9) makes the host alive, with the time 0.\<close>

definition sample_world :: ping_world where
  "sample_world = \<lparr>w_seed = (1, 2), w_draws = (9, 9), w_sent_at = 1000, w_listen = (\<lambda>_ _. None),
     w_events = [PacketEvent sample_reply (AddrIP sample_addr) 4000, TickEvent sample_env, ReceiverStops], w_show = itoa\<rparr>"

lemma sample_reply_parse:
  assumes "pg_network p = ''ip''"
  shows "\<exists>m D. parse_reply p sample_addr sample_reply = Ok m \<and> (m_Type m = T4 0 \<or> m_Type m = T6 129) \<and>
    m_Body m = Echo 4660 77 D"
proof -
  obtain Y where Y: "sample_reply = [] @ ([0, 0, 0, 0] @ put16 4660 @ put16 77 @ timeToBytes 1000) @ Y"
    using recv_buffer_prefix [of "[]" "[0, 0, 0, 0] @ put16 4660 @ put16 77 @ timeToBytes 1000" "[]"]
    by (auto simp: sample_reply_def put16_def)
  then have Y': "sample_reply = [] @ [reply_type sample_addr, 0, 0, 0] @ put16 4660 @ put16 77 @ timeToBytes 1000 @ Y"
    by (simp add: reply_type_def isIPv4_def sample_addr_v4)
  have v4: "isIPv4 (ip_IP sample_addr)" by (simp add: isIPv4_def sample_addr_v4)
  have "parse_reply p sample_addr sample_reply =
    ParseMessage ProtocolICMP ([reply_type sample_addr, 0, 0, 0] @ put16 4660 @ put16 77 @ timeToBytes 1000 @ Y)"
    unfolding Y' using parse_reply_buffer [of p sample_addr "[]" 0 0] v4 by (simp add: ip_header_def)
  with parse_echo_reply [of sample_addr 4660 77 0 0 "timeToBytes 1000 @ Y"] v4 show ?thesis by auto
qed

lemma sample_world_run: "run_pinger sample_world sample_addr = Some (Ok ([(sample_addr, 0)], None))"
proof -
  have v4: "isIPv4 (ip_IP sample_addr)" by (simp add: isIPv4_def sample_addr_v4)
  let ?p = "AddIPAddr sample_addr (NewPinger 1 2)"
  let ?e = "\<lparr>e_id = 9, e_seq = 9, e_visits = [(key_of sample_addr, sample_addr, 1000)]\<rparr>"
  have fam: "hasIPv4 ?p" "\<not> hasIPv6 ?p" using v4 by (simp_all add: AddIPAddr_def Let_def NewPinger_def)
  obtain r0 where r0: "run_start True False ?e ?p = Ok r0"
    using run_start_total [of ?p True False ?e] by (auto simp: NewPinger_def TimeSliceLength_def split: if_splits)
  have "\<exists>a. r_queue r0 = [(key_of sample_addr, a)]"
    using run_start_Ok(1) [OF r0] v4 by (auto simp: asked_keys_def asked_def)
  then obtain a where q: "r_queue r0 = [(key_of sample_addr, a)]" by blast
  have p: "pg_network (r_pinger r0) = ''ip''" "pg_id (r_pinger r0) = 9" "map_of (pg_addrs (r_pinger r0)) (key_of sample_addr) \<noteq> None"
    using run_start_Ok(8) [OF r0] by (simp_all add: NewPinger_def)
  have "procRecv (r_pinger r0) sample_reply (AddrIP sample_addr) 4000 (r_queue r0) = Ok ([], Some (sample_addr, 0))"
    using sample_reply_parse [OF p(1)] p(2,3) by (auto simp: procRecv_def sender_of_def echo_rtt_def q)
  then show ?thesis
    using r0 fam run_start_Ok(2-7) [OF r0]
    by (simp add: run_pinger_def Pinger_Run_def sample_world_def run_finished_def Let_def)
qed

theorem ping_alive_witness: "ping (pinger_netenv (\<lambda>_ _. Some sample_addr) sample_world) ''10.0.0.9'' = (1, itoa 0)"
proof -
  have "isIPv4 (ip_IP sample_addr) \<or> isIPv6 (ip_IP sample_addr)" by (simp add: isIPv4_def sample_addr_v4)
  note * = ping_alive [where resolve = "\<lambda>_ _. Some sample_addr" and ip = "''10.0.0.9''", OF refl this sample_world_run]
  have "\<exists>e \<in> set (w_events sample_world). reply_of sample_addr e"
    using sample_reply_parse [of "NewPinger 0 0"] by (auto simp: sample_world_def reply_of_def sender_of_def NewPinger_def)
  with * have "fst (ping (pinger_netenv (\<lambda>_ _. Some sample_addr) sample_world) ''10.0.0.9'') = 1"
    by (simp add: sample_world_def)
  moreover have "snd (ping (pinger_netenv (\<lambda>_ _. Some sample_addr) sample_world) ''10.0.0.9'') = itoa 0"
    using * by (simp add: sample_world_def)
  ultimately show ?thesis by (simp add: prod_eq_iff)
qed

end
