(* ===== verification/Logger.thy ===== *)
theory Logger
  imports Config GoPath "HOL-Library.AList"
begin

text \<open>
  \<open>httpagent/util/logger.go\<close>: the log file, its opening and its rotation. The files are inodes with the records
  written to them and the names that lead to them; an open file is a handle on an inode. Loggers and the goroutine
  \<open>logmonitor\<close> interleave as a list of events. The time stamp of a line is part of the line. Ownership and permissions
  (\<open>Chown\<close>) are not modelled: no error of \<open>Chown\<close> is looked at.
\<close>

section \<open>Files\<close>

record filesystem =
  fs_dirs :: "string list"
  fs_names :: "(string \<times> nat) list"
  fs_data :: "string list list"
  fs_handles :: "(nat \<times> bool) list"

text \<open>What the system answers: the platform, whether \<open>mkdir\<close> works, the error of \<open>os.OpenFile\<close> if it fails.\<close>

record os_env =
  windows :: bool
  mkdir_works :: bool
  open_error :: "go_error option"

definition CheckFileIsExist :: "string \<Rightarrow> filesystem \<Rightarrow> bool" where
  "CheckFileIsExist filename fs \<longleftrightarrow> filename \<in> set (fs_dirs fs) \<or> map_of (fs_names fs) filename \<noteq> None"

definition Dir :: "bool \<Rightarrow> string \<Rightarrow> string outcome" where
  "Dir win filename =
     (if win then
        (if CHR 0x5C \<in> set filename then Ok (butlast (up_to_last CHR 0x5C filename)) else Panic SliceBounds)
      else Ok (path_Dir filename))"

text \<open>\<open>os.OpenFile\<close> with \<open>O_CREATE\<close>; the directory must exist.\<close>

definition open_file :: "os_env \<Rightarrow> bool \<Rightarrow> string \<Rightarrow> string \<Rightarrow> filesystem \<Rightarrow> filesystem \<times> (go_error + nat)" where
  "open_file e trunc dir filename fs =
     (case open_error e of
        Some err \<Rightarrow> (fs, Inl err)
      | None \<Rightarrow>
          if dir \<notin> set (fs_dirs fs) then (fs, Inl (PlainError ''no such file or directory''))
          else
            let h = length (fs_handles fs) in
            (case map_of (fs_names fs) filename of
               Some i \<Rightarrow>
                 (fs\<lparr>fs_handles := fs_handles fs @ [(i, True)],
                     fs_data := (if trunc then (fs_data fs)[i := []] else fs_data fs)\<rparr>, Inr h)
             | None \<Rightarrow>
                 (fs\<lparr>fs_handles := fs_handles fs @ [(length (fs_data fs), True)], fs_data := fs_data fs @ [[]],
                     fs_names := (filename, length (fs_data fs)) # fs_names fs\<rparr>, Inr h)))"

text \<open>\<open>OpenFile\<close>: the files afterwards and the handle or the error.\<close>

definition OpenFile :: "os_env \<Rightarrow> string \<Rightarrow> string \<Rightarrow> filesystem \<Rightarrow> (filesystem \<times> (go_error + nat)) outcome" where
  "OpenFile e filename flag fs =
     and_then (Dir (windows e) filename) (\<lambda>filedir.
       let fs = (if \<not> CheckFileIsExist filedir fs \<and> mkdir_works e then fs\<lparr>fs_dirs := filedir # fs_dirs fs\<rparr> else fs)
       in Ok (if flag = ''>'' then open_file e True filedir filename fs
              else if flag = ''>>'' then open_file e False filedir filename fs
              else (fs, Inl (PlainError (''unknown flag:'' @ flag)))))"

definition filesize :: "string \<Rightarrow> filesystem \<Rightarrow> int" where
  "filesize file fs =
     (case map_of (fs_names fs) file of None \<Rightarrow> 0 | Some i \<Rightarrow> int (sum_list (map length (fs_data fs ! i))))"

section \<open>The logger\<close>

text \<open>
  The process: \<open>Applog\<close>, where the package \<open>log\<close> writes to (\<open>None\<close> before \<open>logformat\<close> is the standard error), and the
  place of \<open>logmonitor\<close> in its loop. A handle is \<open>None\<close> for a nil \<open>*os.File\<close>.
\<close>

datatype monitor_pc = Sleeping | Closing | Renaming | Opening | Formatting

record log_state =
  files :: filesystem
  Logfile :: string
  Loghandle :: "nat option"
  log_output :: "nat option option"
  monitor :: monitor_pc

definition is_open :: "nat option \<Rightarrow> log_state \<Rightarrow> bool" where
  "is_open h st =
     (case h of None \<Rightarrow> False | Some k \<Rightarrow> k < length (fs_handles (files st)) \<and> snd (fs_handles (files st) ! k))"

text \<open>A write to a handle; writing to a nil or closed file is an error that the package \<open>log\<close> ignores.\<close>

definition write_to :: "nat option \<Rightarrow> string \<Rightarrow> log_state \<Rightarrow> log_state" where
  "write_to h line st =
     (if is_open h st then
        let i = fst (fs_handles (files st) ! the h)
        in st\<lparr>files := (files st)\<lparr>fs_data := (fs_data (files st))[i := fs_data (files st) ! i @ [line]]\<rparr>\<rparr>
      else st)"

text \<open>\<open>Debug\<close>, \<open>Info\<close>, \<open>Warn\<close> and \<open>Error\<close> differ in the text of the line only.\<close>

definition Println :: "string \<Rightarrow> log_state \<Rightarrow> log_state" where
  "Println line st = (case log_output st of None \<Rightarrow> st | Some h \<Rightarrow> write_to h line st)"

text \<open>\<open>GetLogger\<close>: a logger writes to the handle of the moment it is made.\<close>

definition GetLogger :: "log_state \<Rightarrow> nat option" where
  "GetLogger st = Loghandle st"

definition logformat :: "log_state \<Rightarrow> log_state" where
  "logformat st = st\<lparr>log_output := Some (Loghandle st)\<rparr>"

text \<open>The file of \<open>Applog\<close>, from the path of the executable.\<close>

definition Applog_file :: "string \<Rightarrow> string" where
  "Applog_file arg0 = path_Dir arg0 @ ''/../logs/'' @ TrimSuffix (path_Base arg0) (path_Ext arg0) @ ''.log''"

text \<open>\<open>SetLogfile\<close> up to \<open>logformat\<close>; \<open>line\<close> is the line that reports a failure.\<close>

definition set_handle :: "os_env \<Rightarrow> string \<Rightarrow> log_state \<Rightarrow> log_state outcome" where
  "set_handle e line st =
     and_then (OpenFile e (Logfile st) ''>>'' (files st)) (\<lambda>(fs, r).
       let st = st\<lparr>files := fs\<rparr> in
       case r of
         Inl err \<Rightarrow> Ok ((Println line st)\<lparr>Loghandle := None\<rparr>)
       | Inr h \<Rightarrow> Ok (st\<lparr>Loghandle := Some h\<rparr>))"

definition SetLogfile :: "os_env \<Rightarrow> string \<Rightarrow> log_state \<Rightarrow> log_state outcome" where
  "SetLogfile e line st = and_then (set_handle e line st) (\<lambda>st. Ok (logformat st))"

definition fileswitch :: "config \<Rightarrow> log_state \<Rightarrow> bool" where
  "fileswitch cfg st \<longleftrightarrow> filesize (Logfile st) (files st) \<ge> Logarchsize cfg"

text \<open>\<open>Close\<close> of \<open>Loghandle\<close>: whether it succeeds, which it does once for a file.\<close>

definition close_handle :: "log_state \<Rightarrow> log_state \<times> bool" where
  "close_handle st =
     (if is_open (Loghandle st) st then
        let k = the (Loghandle st); hs = fs_handles (files st)
        in (st\<lparr>files := (files st)\<lparr>fs_handles := hs[k := (fst (hs ! k), False)]\<rparr>\<rparr>, True)
      else (st, False))"

text \<open>\<open>os.Rename\<close>: the old name must exist, and a file that has the new name loses it.\<close>

definition rename_file :: "go_error option \<Rightarrow> string \<Rightarrow> string \<Rightarrow> filesystem \<Rightarrow> filesystem \<times> bool" where
  "rename_file err old new fs =
     (case (err, map_of (fs_names fs) old) of
        (None, Some i) \<Rightarrow> (fs\<lparr>fs_names := (new, i) # AList.delete old (AList.delete new (fs_names fs))\<rparr>, True)
      | _ \<Rightarrow> (fs, False))"

section \<open>Interleavings\<close>

text \<open>
  The events: a goroutine logs a line; a logger made earlier on a handle writes one; the timer of \<open>logmonitor\<close> fires;
  and the four steps of a rotation, between which others log, since only \<open>logmonitor\<close> takes the lock. \<open>None\<close>: the event
  cannot happen.
\<close>

datatype log_event =
    LogLine string
  | LoggerLine "nat option" string
  | TimerFires
  | CloseStep
  | RenameStep string "go_error option"
  | OpenStep os_env string
  | FormatStep

fun log_step :: "config \<Rightarrow> log_event \<Rightarrow> log_state \<Rightarrow> log_state outcome option" where
  "log_step cfg (LogLine l) st = Some (Ok (Println l st))"
| "log_step cfg (LoggerLine h l) st = Some (Ok (write_to h l st))"
| "log_step cfg TimerFires st =
     (if monitor st = Sleeping then Some (Ok (if fileswitch cfg st then st\<lparr>monitor := Closing\<rparr> else st)) else None)"
| "log_step cfg CloseStep st =
     (if monitor st = Closing then
        let (st, ok) = close_handle st in Some (Ok (st\<lparr>monitor := (if ok then Renaming else Sleeping)\<rparr>))
      else None)"
| "log_step cfg (RenameStep now err) st =
     (if monitor st = Renaming then
        let (fs, ok) = rename_file err (Logfile st) (Logfile st @ ''.'' @ now) (files st)
        in Some (Ok (st\<lparr>files := fs, monitor := (if ok then Opening else Sleeping)\<rparr>))
      else None)"
| "log_step cfg (OpenStep e line) st =
     (if monitor st = Opening then Some (and_then (set_handle e line st) (\<lambda>st. Ok (st\<lparr>monitor := Formatting\<rparr>))) else None)"
| "log_step cfg FormatStep st =
     (if monitor st = Formatting then Some (Ok ((logformat st)\<lparr>monitor := Sleeping\<rparr>)) else None)"

fun log_run :: "config \<Rightarrow> log_event list \<Rightarrow> log_state \<Rightarrow> log_state outcome option" where
  "log_run cfg [] st = Some (Ok st)"
| "log_run cfg (e # es) st =
     (case log_step cfg e st of
        None \<Rightarrow> None
      | Some (Ok st') \<Rightarrow> log_run cfg es st'
      | Some x \<Rightarrow> Some x)"

end
