(* ===== verification/LoggerFacts.thy ===== *)
theory LoggerFacts
  imports Logger
begin

text \<open>
  What the log keeps and what it loses: a rotation drops the lines logged while it is under way and no others, as long
  as nothing fails; after one failed rename or opening no line is written any more; and a logger made before a rotation
  writes nothing after it.
\<close>

section \<open>Files only grow\<close>

text \<open>Every inode has a name, and handles lead to inodes.\<close>

definition files_ok :: "filesystem \<Rightarrow> bool" where
  "files_ok fs \<longleftrightarrow>
     (\<forall>i < length (fs_data fs). \<exists>n. map_of (fs_names fs) n = Some i) \<and>
     (\<forall>n i. map_of (fs_names fs) n = Some i \<longrightarrow> i < length (fs_data fs)) \<and>
     (\<forall>h < length (fs_handles fs). fst (fs_handles fs ! h) < length (fs_data fs))"

definition holds :: "filesystem \<Rightarrow> nat \<Rightarrow> string \<Rightarrow> bool" where
  "holds fs i l \<longleftrightarrow> i < length (fs_data fs) \<and> l \<in> set (fs_data fs ! i)"

definition grows :: "filesystem \<Rightarrow> filesystem \<Rightarrow> bool" where
  "grows fs fs' \<longleftrightarrow> (\<forall>i l. holds fs i l \<longrightarrow> holds fs' i l)"

lemma grows_refl [simp]: "grows fs fs" by (simp add: grows_def)

lemma grows_trans: "grows a b \<Longrightarrow> grows b c \<Longrightarrow> grows a c" by (simp add: grows_def)

lemma write_to_fields [simp]:
  "Logfile (write_to h l st) = Logfile st" "Loghandle (write_to h l st) = Loghandle st"
  "log_output (write_to h l st) = log_output st" "monitor (write_to h l st) = monitor st"
  "fs_handles (files (write_to h l st)) = fs_handles (files st)" "fs_names (files (write_to h l st)) = fs_names (files st)"
  "fs_dirs (files (write_to h l st)) = fs_dirs (files st)"
  "length (fs_data (files (write_to h l st))) = length (fs_data (files st))"
  by (simp_all add: write_to_def Let_def)

lemma Println_fields [simp]:
  "Logfile (Println l st) = Logfile st" "Loghandle (Println l st) = Loghandle st"
  "log_output (Println l st) = log_output st" "monitor (Println l st) = monitor st"
  "fs_handles (files (Println l st)) = fs_handles (files st)" "fs_names (files (Println l st)) = fs_names (files st)"
  "fs_dirs (files (Println l st)) = fs_dirs (files st)"
  "length (fs_data (files (Println l st))) = length (fs_data (files st))"
  by (simp_all add: Println_def split: option.split)

lemma is_open_fields: "fs_handles (files st') = fs_handles (files st) \<Longrightarrow> is_open h st' = is_open h st"
  by (simp add: is_open_def split: option.split)

lemma write_to_grows: "grows (files st) (files (write_to h l st))"
  by (auto simp: grows_def holds_def write_to_def Let_def) (metis Un_iff nth_list_update_eq nth_list_update_neq set_append)

lemma Println_grows: "grows (files st) (files (Println l st))"
  by (simp add: Println_def write_to_grows split: option.split)

lemma Println_ok: "files_ok (files st) \<Longrightarrow> files_ok (files (Println l st))"
  by (simp add: files_ok_def)

lemma write_to_ok: "files_ok (files st) \<Longrightarrow> files_ok (files (write_to h l st))"
  by (simp add: files_ok_def)

text \<open>A line that reaches an open file is in it.\<close>

lemma write_to_holds:
  "files_ok (files st) \<Longrightarrow> is_open h st \<Longrightarrow> \<exists>i. holds (files (write_to h l st)) i l"
  by (cases h) (auto simp: is_open_def files_ok_def holds_def write_to_def Let_def)

text \<open>Opening for appending: a new name for a new inode, or a further handle on an old one.\<close>

lemma open_file_ok:
  assumes "files_ok fs" and "open_file e False d f fs = (fs', r)"
  shows "files_ok fs' \<and> grows fs fs'"
proof (cases "open_error e = None \<and> d \<in> set (fs_dirs fs)")
  case True
  show ?thesis
  proof (cases "map_of (fs_names fs) f")
    case None
    with assms(2) True have fs': "fs' = fs\<lparr>fs_handles := fs_handles fs @ [(length (fs_data fs), True)],
        fs_data := fs_data fs @ [[]], fs_names := (f, length (fs_data fs)) # fs_names fs\<rparr>"
      by (auto simp: open_file_def Let_def)
    have "\<exists>n. map_of (fs_names fs') n = Some i" if "i < Suc (length (fs_data fs))" for i
    proof (cases "i = length (fs_data fs)")
      case False
      with that assms(1) obtain n where n: "map_of (fs_names fs) n = Some i" by (auto simp: files_ok_def less_Suc_eq)
      with None have "n \<noteq> f" by auto
      with n show ?thesis by (auto simp: fs')
    qed (auto simp: fs')
    moreover have "i < Suc (length (fs_data fs))" if "map_of (fs_names fs') n = Some i" for n i
      using that assms(1) by (auto simp: fs' files_ok_def less_Suc_eq split: if_splits)
    ultimately show ?thesis
      using assms(1) by (auto simp: fs' files_ok_def grows_def holds_def nth_append less_Suc_eq)
  next
    case (Some i)
    with assms True show ?thesis by (auto simp: open_file_def files_ok_def grows_def holds_def Let_def nth_append less_Suc_eq)
  qed
next
  case False
  with assms show ?thesis by (auto simp: open_file_def split: option.splits)
qed

lemma OpenFile_ok:
  assumes "files_ok fs" and "OpenFile e f ''>>'' fs = Ok (fs', r)"
  shows "files_ok fs' \<and> grows fs fs'"
proof -
  have dirs: "files_ok (fs\<lparr>fs_dirs := ds\<rparr>)" "grows (fs\<lparr>fs_dirs := ds\<rparr>) fs' = grows fs fs'" for ds
    using assms(1) by (simp_all add: files_ok_def grows_def holds_def)
  obtain d where "open_file e False d f fs = (fs', r) \<or> open_file e False d f (fs\<lparr>fs_dirs := d # fs_dirs fs\<rparr>) = (fs', r)"
    using assms(2) by (auto simp: OpenFile_def Let_def outcome_simps split: if_splits)
  with open_file_ok [OF assms(1)] open_file_ok [OF dirs(1)] dirs(2) show ?thesis by blast
qed

lemma rename_file_ok:
  assumes "files_ok fs" and "rename_file err old new fs = (fs', ok)" and "map_of (fs_names fs) new = None"
  shows "files_ok fs' \<and> grows fs fs'"
proof (cases "err = None \<and> map_of (fs_names fs) old \<noteq> None")
  case True
  then obtain i where i: "map_of (fs_names fs) old = Some i" by blast
  have names: "map_of (fs_names fs') n = (if n = new then Some i else if n = old then None else map_of (fs_names fs) n)" for n
    using assms(2) True i by (auto simp: rename_file_def delete_conv')
  have rest: "fs_data fs' = fs_data fs" "fs_handles fs' = fs_handles fs"
    using assms(2) True i by (auto simp: rename_file_def)
  have "\<exists>n. map_of (fs_names fs') n = Some j" if lt: "j < length (fs_data fs)" for j
  proof -
    obtain n where n: "map_of (fs_names fs) n = Some j" using assms(1) lt unfolding files_ok_def by blast
    show ?thesis
    proof (cases "n = old")
      case True
      with n i show ?thesis by (intro exI [of _ new]) (simp add: names)
    next
      case False
      moreover from n assms(3) have "n \<noteq> new" by auto
      ultimately show ?thesis using n by (intro exI [of _ n]) (simp add: names)
    qed
  qed
  moreover have "j < length (fs_data fs)" if "map_of (fs_names fs') n = Some j" for n j
    using that assms(1) i by (auto simp: names files_ok_def split: if_splits)
  ultimately show ?thesis using assms(1) by (simp add: files_ok_def grows_def holds_def rest)
next
  case False
  then have "fs' = fs" using assms(2) by (auto simp: rename_file_def split: option.splits)
  with assms(1) show ?thesis by simp
qed

section \<open>Steps\<close>

fun archive_times :: "log_event list \<Rightarrow> string list" where
  "archive_times [] = []"
| "archive_times (RenameStep t err # es) = t # archive_times es"
| "archive_times (_ # es) = archive_times es"

definition archive_name :: "log_state \<Rightarrow> string \<Rightarrow> string" where
  "archive_name st t = Logfile st @ ''.'' @ t"

text \<open>The rotations take place at different times, and no file has the name of an archive yet.\<close>

definition fresh_archives :: "string list \<Rightarrow> log_state \<Rightarrow> bool" where
  "fresh_archives ts st \<longleftrightarrow> distinct ts \<and> (\<forall>t \<in> set ts. map_of (fs_names (files st)) (archive_name st t) = None)"

lemma set_handle_cases:
  assumes "set_handle e line st = Ok st'"
  obtains fs r where "OpenFile e (Logfile st) ''>>'' (files st) = Ok (fs, r)"
    "files_ok fs \<Longrightarrow> files_ok (files st')" "grows fs (files st')" "fs_names (files st') = fs_names fs"
    "Logfile st' = Logfile st" "log_output st' = log_output st" "monitor st' = monitor st"
    "fs_handles (files st') = fs_handles fs" "Loghandle st' = (case r of Inl _ \<Rightarrow> None | Inr h \<Rightarrow> Some h)"
    "fs_dirs (files st') = fs_dirs fs"
proof -
  obtain fs r where opened: "OpenFile e (Logfile st) ''>>'' (files st) = Ok (fs, r)"
    and st': "st' = (case r of Inl err \<Rightarrow> (Println line (st\<lparr>files := fs\<rparr>))\<lparr>Loghandle := None\<rparr> | Inr h \<Rightarrow> st\<lparr>files := fs, Loghandle := Some h\<rparr>)"
  proof -
    obtain p where "OpenFile e (Logfile st) ''>>'' (files st) = Ok p"
      using assms by (cases "OpenFile e (Logfile st) ''>>'' (files st)") (auto simp: set_handle_def)
    moreover obtain fs r where "p = (fs, r)" by fastforce
    ultimately show ?thesis using assms that by (cases r) (auto simp: set_handle_def Let_def)
  qed
  show thesis
    by (rule that [OF opened]) (use Println_ok [of "st\<lparr>files := fs\<rparr>" line] Println_grows [of "st\<lparr>files := fs\<rparr>" line] in
      \<open>auto simp: st' split: sum.split\<close>)
qed

lemma OpenFile_names:
  "OpenFile e f flag fs = Ok (fs', r) \<Longrightarrow> map_of (fs_names fs) n = None \<Longrightarrow> n \<noteq> f \<Longrightarrow> map_of (fs_names fs') n = None"
  by (auto simp: OpenFile_def open_file_def Let_def outcome_simps split: if_splits option.splits)

lemma close_handle_fields [simp]:
  "Logfile (fst (close_handle st)) = Logfile st" "Loghandle (fst (close_handle st)) = Loghandle st"
  "log_output (fst (close_handle st)) = log_output st" "monitor (fst (close_handle st)) = monitor st"
  "fs_names (files (fst (close_handle st))) = fs_names (files st)" "fs_data (files (fst (close_handle st))) = fs_data (files st)"
  "fs_dirs (files (fst (close_handle st))) = fs_dirs (files st)"
  by (simp_all add: close_handle_def Let_def)

lemma close_handle_ok [simp]: "files_ok (files st) \<Longrightarrow> files_ok (files (fst (close_handle st)))"
proof -
  have "fst (hs[k := (fst (hs ! k), False)] ! h) = fst (hs ! h)" for hs :: "(nat \<times> bool) list" and k h
    by (cases "h = k"; cases "k < length hs") (simp_all add: list_update_beyond)
  then show "files_ok (files st) \<Longrightarrow> files_ok (files (fst (close_handle st)))"
    by (simp add: close_handle_def Let_def files_ok_def)
qed

lemma log_step_ok:
  assumes "log_step cfg e st = Some (Ok st')" and "files_ok (files st)" and "fresh_archives (archive_times (e # es)) st"
  shows "files_ok (files st') \<and> grows (files st) (files st') \<and> Logfile st' = Logfile st \<and> fresh_archives (archive_times es) st'"
proof (cases e)
  case (LogLine l)
  with assms show ?thesis
    by (auto simp: Println_ok Println_grows fresh_archives_def archive_name_def)
next
  case (LoggerLine h l)
  with assms show ?thesis
    by (auto simp: write_to_ok write_to_grows fresh_archives_def archive_name_def)
next
  case CloseStep
  with assms show ?thesis
    by (auto simp: fresh_archives_def archive_name_def grows_def holds_def case_prod_beta Let_def split: if_splits)
next
  case (RenameStep t err)
  let ?new = "archive_name st t"
  obtain fs ok where r: "rename_file err (Logfile st) ?new (files st) = (fs, ok)" by fastforce
  with assms(1) RenameStep have st': "Logfile st' = Logfile st" "files st' = fs"
    by (auto simp: archive_name_def Let_def split: if_splits)
  have "map_of (fs_names (files st)) ?new = None" using assms(3) RenameStep by (simp add: fresh_archives_def)
  note ok = rename_file_ok [OF assms(2) r this]
  have "map_of (fs_names fs) (archive_name st u) = None" if "u \<in> set (archive_times es)" for u
    using r that assms(3) RenameStep
    by (auto simp: rename_file_def fresh_archives_def archive_name_def delete_conv' split: option.splits)
  with ok assms(3) RenameStep show ?thesis by (simp add: st' fresh_archives_def archive_name_def)
next
  case (OpenStep env line)
  then obtain st1 where st1: "set_handle env line st = Ok st1" "st' = st1\<lparr>monitor := Formatting\<rparr>"
    using assms(1) by (auto simp: outcome_simps split: if_splits)
  from st1(1) show ?thesis
  proof (cases rule: set_handle_cases)
    case (1 fs r)
    note ok = OpenFile_ok [OF assms(2) 1(1)]
    have "archive_name st t \<noteq> Logfile st" for t by (simp add: archive_name_def)
    then have "fresh_archives (archive_times es) st'"
      using assms(3) OpenStep OpenFile_names [OF 1(1)] 1 st1(2) by (simp add: fresh_archives_def archive_name_def)
    with ok 1 st1(2) show ?thesis by (auto intro: grows_trans)
  qed
qed (use assms in \<open>auto simp: fresh_archives_def archive_name_def logformat_def split: if_splits\<close>)

lemma log_run_Cons:
  "log_run cfg (e # es) st = Some (Ok st') \<longleftrightarrow> (\<exists>st1. log_step cfg e st = Some (Ok st1) \<and> log_run cfg es st1 = Some (Ok st'))"
  by (auto split: option.split outcome.split)

lemma log_run_ok:
  "log_run cfg es st = Some (Ok st') \<Longrightarrow> files_ok (files st) \<Longrightarrow> fresh_archives (archive_times (es @ es')) st \<Longrightarrow>
     files_ok (files st') \<and> grows (files st) (files st') \<and> fresh_archives (archive_times es') st'"
proof (induction es arbitrary: st)
  case (Cons e es)
  from Cons.prems(1) obtain st1 where "log_step cfg e st = Some (Ok st1)" "log_run cfg es st1 = Some (Ok st')"
    by (subst (asm) log_run_Cons) blast
  with Cons.IH [of st1] log_step_ok [of cfg e st st1 "es @ es'"] Cons.prems(2,3) show ?case by (auto intro: grows_trans)
qed simp

section \<open>Rotations that work\<close>

definition rotating :: "log_state \<Rightarrow> bool" where
  "rotating st \<longleftrightarrow> monitor st \<in> {Renaming, Opening, Formatting}"

text \<open>As long as nothing has failed: the log goes to the handle of the logger, which is open except during a rotation.\<close>

definition healthy :: "log_state \<Rightarrow> bool" where
  "healthy st \<longleftrightarrow> path_Dir (Logfile st) \<in> set (fs_dirs (files st)) \<and>
     (\<exists>k. log_output st = Some (Some k) \<and> k < length (fs_handles (files st)) \<and> (is_open (Some k) st \<longleftrightarrow> \<not> rotating st) \<and>
        (monitor st \<in> {Sleeping, Closing, Renaming} \<longrightarrow> Loghandle st = Some k) \<and>
        (monitor st = Formatting \<longrightarrow> is_open (Loghandle st) st) \<and>
        (monitor st \<noteq> Opening \<longrightarrow> map_of (fs_names (files st)) (Logfile st) \<noteq> None))"

fun no_fault :: "log_event \<Rightarrow> bool" where
  "no_fault (RenameStep _ err) \<longleftrightarrow> err = None"
| "no_fault (OpenStep e _) \<longleftrightarrow> \<not> windows e \<and> open_error e = None"
| "no_fault _ \<longleftrightarrow> True"

lemma healthy_fields:
  assumes "monitor st' = monitor st" "Logfile st' = Logfile st" "Loghandle st' = Loghandle st" "log_output st' = log_output st"
    "fs_handles (files st') = fs_handles (files st)" "fs_names (files st') = fs_names (files st)" "fs_dirs (files st') = fs_dirs (files st)"
  shows "healthy st' = healthy st"
  using is_open_fields [OF assms(5)] by (simp add: healthy_def rotating_def assms)

lemma close_handle_closes:
  "is_open (Loghandle st) st \<Longrightarrow> snd (close_handle st) \<and> \<not> is_open (Loghandle st) (fst (close_handle st)) \<and>
     length (fs_handles (files (fst (close_handle st)))) = length (fs_handles (files st))"
  by (cases "Loghandle st") (auto simp: close_handle_def is_open_def Let_def)

lemma OpenFile_works:
  assumes "\<not> windows e" "open_error e = None" "path_Dir f \<in> set (fs_dirs fs)"
  obtains fs' i where "OpenFile e f ''>>'' fs = Ok (fs', Inr (length (fs_handles fs)))" "fs_dirs fs' = fs_dirs fs"
    "map_of (fs_names fs') f \<noteq> None" "fs_handles fs' = fs_handles fs @ [(i, True)]"
proof (cases "map_of (fs_names fs) f")
  case None
  show thesis
    by (rule that [of "fs\<lparr>fs_handles := fs_handles fs @ [(length (fs_data fs), True)], fs_data := fs_data fs @ [[]],
      fs_names := (f, length (fs_data fs)) # fs_names fs\<rparr>"])
      (use assms None in \<open>simp_all add: OpenFile_def Dir_def CheckFileIsExist_def open_file_def Let_def\<close>)
next
  case (Some i)
  show thesis
    by (rule that [of "fs\<lparr>fs_handles := fs_handles fs @ [(i, True)]\<rparr>"])
      (use assms Some in \<open>simp_all add: OpenFile_def Dir_def CheckFileIsExist_def open_file_def Let_def\<close>)
qed

lemma healthy_step:
  assumes "log_step cfg e st = Some (Ok st')" and "healthy st" and "no_fault e"
  shows "healthy st'"
proof -
  obtain k where k: "log_output st = Some (Some k)" "k < length (fs_handles (files st))" "is_open (Some k) st \<longleftrightarrow> \<not> rotating st"
      "monitor st \<in> {Sleeping, Closing, Renaming} \<Longrightarrow> Loghandle st = Some k"
      "monitor st = Formatting \<Longrightarrow> is_open (Loghandle st) st"
      "monitor st \<noteq> Opening \<Longrightarrow> map_of (fs_names (files st)) (Logfile st) \<noteq> None"
    and d: "path_Dir (Logfile st) \<in> set (fs_dirs (files st))"
    using assms(2) unfolding healthy_def by blast
  show ?thesis
  proof (cases e)
    case (LogLine l)
    with assms show ?thesis by (auto simp: healthy_fields [of "Println l st" st])
  next
    case (LoggerLine h l)
    with assms show ?thesis by (auto simp: healthy_fields [of "write_to h l st" st])
  next
    case TimerFires
    with assms(1) k d show ?thesis by (auto simp: healthy_def rotating_def is_open_def split: if_splits)
  next
    case CloseStep
    then have m: "monitor st = Closing" using assms(1) by (auto split: if_splits)
    with k have h: "Loghandle st = Some k" "is_open (Some k) st" by (simp_all add: rotating_def)
    with close_handle_closes [of st] have c: "snd (close_handle st)" "\<not> is_open (Some k) (fst (close_handle st))"
      "length (fs_handles (files (fst (close_handle st)))) = length (fs_handles (files st))" by simp_all
    have "st' = (fst (close_handle st))\<lparr>monitor := Renaming\<rparr>"
      using assms(1) CloseStep m c(1) by (simp add: case_prod_beta Let_def)
    with c(2,3) k m d h show ?thesis by (simp add: healthy_def rotating_def is_open_def)
  next
    case (RenameStep t err)
    then have m: "monitor st = Renaming" using assms(1) by (auto split: if_splits)
    with k(6) obtain i where "map_of (fs_names (files st)) (Logfile st) = Some i" by auto
    with m assms(1,3) RenameStep k d show ?thesis
      by (auto simp: healthy_def rotating_def rename_file_def Let_def is_open_def)
  next
    case (OpenStep env line)
    then have m: "monitor st = Opening" and env: "\<not> windows env" "open_error env = None" using assms(1,3) by (auto split: if_splits)
    obtain fs i where opened: "OpenFile env (Logfile st) ''>>'' (files st) = Ok (fs, Inr (length (fs_handles (files st))))"
      "fs_dirs fs = fs_dirs (files st)" "map_of (fs_names fs) (Logfile st) \<noteq> None" "fs_handles fs = fs_handles (files st) @ [(i, True)]"
      using OpenFile_works [OF env d] by metis
    have st': "st' = st\<lparr>files := fs, Loghandle := Some (length (fs_handles (files st))), monitor := Formatting\<rparr>"
      using assms(1) OpenStep m opened(1) by (auto simp: set_handle_def Let_def)
    show ?thesis using k m d opened(2-4) by (simp add: healthy_def rotating_def st' is_open_def nth_append)
  next
    case FormatStep
    then have m: "monitor st = Formatting" and st': "st' = (logformat st)\<lparr>monitor := Sleeping\<rparr>" using assms(1) by (auto split: if_splits)
    with k(5) obtain k' where "Loghandle st = Some k'" "is_open (Some k') st" by (cases "Loghandle st") (auto simp: is_open_def)
    with k m d show ?thesis by (simp add: healthy_def rotating_def st' logformat_def is_open_def)
  qed
qed

lemma healthy_run:
  "log_run cfg es st = Some (Ok st') \<Longrightarrow> healthy st \<Longrightarrow> list_all no_fault es \<Longrightarrow> healthy st'"
proof (induction es arbitrary: st)
  case (Cons e es)
  from Cons.prems(1) obtain st1 where "log_step cfg e st = Some (Ok st1)" "log_run cfg es st1 = Some (Ok st')"
    by (subst (asm) log_run_Cons) blast
  with Cons healthy_step show ?case by auto
qed simp

lemma fresh_split: "fresh_archives (archive_times (es @ es')) st \<Longrightarrow> fresh_archives (archive_times es) st"
proof -
  have "archive_times (es @ es') = archive_times es @ archive_times es'" by (induction es rule: archive_times.induct) auto
  then show "fresh_archives (archive_times (es @ es')) st \<Longrightarrow> fresh_archives (archive_times es) st" by (auto simp: fresh_archives_def)
qed

lemma Println_kept:
  assumes "files_ok (files st)" and "log_output st = Some h" and "is_open h st"
    and "fresh_archives (archive_times es) st" and "log_run cfg es (Println l st) = Some (Ok st')"
  shows "\<exists>n i. map_of (fs_names (files st')) n = Some i \<and> l \<in> set (fs_data (files st') ! i)"
proof -
  obtain i where i: "holds (files (Println l st)) i l" using write_to_holds [OF assms(1,3)] assms(2) by (auto simp: Println_def)
  have "fresh_archives (archive_times (es @ [])) (Println l st)" using assms(4) by (simp add: fresh_archives_def archive_name_def)
  from log_run_ok [OF assms(5) Println_ok [OF assms(1)] this]
  have "files_ok (files st')" "holds (files st') i l" using i by (auto simp: grows_def)
  then show ?thesis unfolding files_ok_def holds_def by blast
qed

text \<open>C34: What a log with working rotations keeps: as long as no renaming and no opening fails, a line is written if it is
  logged at any time but between the closing of the full file and the switch to the new one, and then it is in a file that
  still has a name, whatever rotations follow at different times; a line logged in between is dropped.\<close>

theorem rotation_keeps_lines:
  assumes "files_ok (files st)" and "healthy st" and "list_all no_fault (es @ es')"
    and "fresh_archives (archive_times (es @ es')) st"
    and "log_run cfg es st = Some (Ok st1)" and "log_run cfg es' (Println l st1) = Some (Ok st2)"
  shows "if rotating st1 then Println l st1 = st1
    else \<exists>n i. map_of (fs_names (files st2)) n = Some i \<and> l \<in> set (fs_data (files st2) ! i)"
proof -
  have "healthy st1" using healthy_run [OF assms(5,2)] assms(3) by simp
  then obtain k where k: "log_output st1 = Some (Some k)" "is_open (Some k) st1 \<longleftrightarrow> \<not> rotating st1"
    unfolding healthy_def by blast
  from log_run_ok [OF assms(5,1,4)] have ok: "files_ok (files st1)" "fresh_archives (archive_times es') st1" by auto
  show ?thesis
  proof (cases "rotating st1")
    case True
    with k show ?thesis by (simp add: Println_def write_to_def)
  next
    case False
    with k have "is_open (Some k) st1" by simp
    with Println_kept [OF ok(1) k(1) _ ok(2) assms(6)] False show ?thesis by simp
  qed
qed

section \<open>Rotations that fail\<close>

definition dead :: "log_state \<Rightarrow> bool" where
  "dead st \<longleftrightarrow> monitor st \<in> {Sleeping, Closing} \<and> log_output st = Some (Loghandle st) \<and> \<not> is_open (Loghandle st) st"

lemma dead_Println: "dead st \<Longrightarrow> Println l st = st"
  by (simp add: dead_def Println_def write_to_def)

lemma dead_step: "dead st \<Longrightarrow> log_step cfg e st = Some r \<Longrightarrow> \<exists>st'. r = Ok st' \<and> dead st'"
proof (cases e)
  case (LoggerLine h l)
  assume "dead st" "log_step cfg e st = Some r"
  with LoggerLine is_open_fields [of "write_to h l st" st] show ?thesis by (auto simp: dead_def)
qed (auto simp: dead_Println, auto simp: dead_def close_handle_def is_open_def split: if_splits option.splits)

lemma dead_run: "log_run cfg es st = Some r \<Longrightarrow> dead st \<Longrightarrow> \<exists>st'. r = Ok st' \<and> dead st'"
proof (induction es arbitrary: st)
  case (Cons e es)
  then obtain y where "log_step cfg e st = Some y" by (auto split: option.splits)
  with dead_step [OF Cons.prems(2)] Cons show ?case by fastforce
qed auto

lemma OpenFile_fails:
  "\<not> windows e \<Longrightarrow> open_error e = Some x \<Longrightarrow>
    \<exists>fs. OpenFile e f ''>>'' fs0 = Ok (fs, Inl x) \<and> fs_handles fs = fs_handles fs0"
  by (auto simp: OpenFile_def Dir_def open_file_def Let_def)

lemma failure_dead:
  assumes "healthy st"
    and "log_step cfg (RenameStep t (Some x)) st = Some (Ok st1) \<or>
      \<not> windows e \<and> open_error e = Some x \<and> log_run cfg [OpenStep e line, FormatStep] st = Some (Ok st1)"
  shows "dead st1"
  using assms(2)
proof (elim disjE conjE)
  assume step: "log_step cfg (RenameStep t (Some x)) st = Some (Ok st1)"
  then have m: "monitor st = Renaming" by (auto split: if_splits)
  with step have "st1 = st\<lparr>monitor := Sleeping\<rparr>" by (auto simp: rename_file_def)
  with m assms(1) show ?thesis by (auto simp: healthy_def dead_def rotating_def is_open_def)
next
  assume e: "\<not> windows e" "open_error e = Some x" and run: "log_run cfg [OpenStep e line, FormatStep] st = Some (Ok st1)"
  then have m: "monitor st = Opening" by (auto split: if_splits)
  obtain fs where o: "OpenFile e (Logfile st) ''>>'' (files st) = Ok (fs, Inl x)" using OpenFile_fails [OF e] by blast
  with run m show ?thesis by (auto simp: set_handle_def Let_def logformat_def dead_def is_open_def)
qed

text \<open>C35: The log does not survive a failure: after one renaming that fails, or one opening that fails, no line is written
  ever again, whatever happens later: the handle stays closed or nil, so that every later rotation gives up at the error of
  closing it.\<close>

theorem logging_dies:
  assumes "healthy st"
    and "log_step cfg (RenameStep t (Some x)) st = Some (Ok st1) \<or>
      \<not> windows e \<and> open_error e = Some x \<and> log_run cfg [OpenStep e line, FormatStep] st = Some (Ok st1)"
    and "log_run cfg es st1 = Some r"
  shows "\<exists>st2. r = Ok st2 \<and> (\<forall>l. Println l st2 = st2) \<and> \<not> rotating st2"
proof -
  obtain st2 where "r = Ok st2" "dead st2" using dead_run [OF assms(3) failure_dead [OF assms(1,2)]] by blast
  then show ?thesis by (auto simp: dead_Println) (auto simp: dead_def rotating_def)
qed

section \<open>Loggers made earlier\<close>

definition closed_for_good :: "nat \<Rightarrow> log_state \<Rightarrow> bool" where
  "closed_for_good k st \<longleftrightarrow> k < length (fs_handles (files st)) \<and> \<not> snd (fs_handles (files st) ! k)"

lemma OpenFile_handles:
  "OpenFile e f flag fs = Ok (fs', r) \<Longrightarrow> \<exists>hs. fs_handles fs' = fs_handles fs @ hs"
  by (auto simp: OpenFile_def open_file_def Let_def outcome_simps split: if_splits option.splits)

lemma closed_step:
  assumes "log_step cfg e st = Some (Ok st')" and "closed_for_good k st"
  shows "closed_for_good k st'"
proof (cases e)
  case CloseStep
  have "\<not> snd (hs[j := (x, False)] ! k)" if "\<not> snd (hs ! k)" for hs :: "(nat \<times> bool) list" and j x
    using that by (cases "j = k"; cases "j < length hs") (simp_all add: list_update_beyond)
  with CloseStep assms show ?thesis
    by (auto simp: closed_for_good_def close_handle_def Let_def split: if_splits)
next
  case (RenameStep t err)
  with assms show ?thesis
    by (auto simp: closed_for_good_def rename_file_def Let_def split: if_splits option.splits)
next
  case (OpenStep env line)
  then obtain st1 where st1: "set_handle env line st = Ok st1" "st' = st1\<lparr>monitor := Formatting\<rparr>"
    using assms(1) by (auto simp: outcome_simps split: if_splits)
  from st1(1) show ?thesis
  proof (cases rule: set_handle_cases)
    case (1 fs r)
    with OpenFile_handles [OF 1(1)] assms(2) st1(2) show ?thesis by (auto simp: closed_for_good_def nth_append)
  qed
qed (use assms in \<open>auto simp: closed_for_good_def logformat_def split: if_splits\<close>)

lemma closed_run: "log_run cfg es st = Some (Ok st') \<Longrightarrow> closed_for_good k st \<Longrightarrow> closed_for_good k st'"
proof (induction es arbitrary: st)
  case (Cons e es)
  from Cons.prems(1) obtain st1 where "log_step cfg e st = Some (Ok st1)" "log_run cfg es st1 = Some (Ok st')"
    by (subst (asm) log_run_Cons) blast
  with Cons closed_step show ?case by blast
qed simp

text \<open>A logger that \<open>GetLogger\<close> made writes nothing after the first rotation: the web framework, which is given one
  at the start, logs no request from then on.\<close>

theorem old_logger_silent:
  assumes "healthy st" and "monitor st = Closing" and "log_run cfg (CloseStep # es) st = Some (Ok st')"
  shows "write_to (GetLogger st) l st' = st'"
proof -
  obtain k where k: "Loghandle st = Some k" "is_open (Some k) st"
    using assms(1,2) by (auto simp: healthy_def rotating_def)
  let ?st1 = "(fst (close_handle st))\<lparr>monitor := Renaming\<rparr>"
  have c: "snd (close_handle st)" "closed_for_good k ?st1"
    using close_handle_closes [of st] k by (auto simp: closed_for_good_def is_open_def)
  have "log_run cfg es ?st1 = Some (Ok st')" using assms(2,3) c(1) by (simp add: case_prod_beta Let_def)
  from closed_run [OF this c(2)] show ?thesis by (simp add: GetLogger_def k write_to_def is_open_def closed_for_good_def)
qed

section \<open>Instances\<close>

definition sample_os :: os_env where
  "sample_os = \<lparr>windows = False, mkdir_works = True, open_error = None\<rparr>"

definition empty_log :: log_state where
  "empty_log = \<lparr>files = \<lparr>fs_dirs = [], fs_names = [], fs_data = [], fs_handles = []\<rparr>, Logfile = ''/a/logs/x.log'', Loghandle = None,
     log_output = None, monitor = Sleeping\<rparr>"

definition sample_log :: log_state where
  "sample_log = \<lparr>files = \<lparr>fs_dirs = [''/a/logs''], fs_names = [(''/a/logs/x.log'', 0)], fs_data = [[]], fs_handles = [(0, True)]\<rparr>,
     Logfile = ''/a/logs/x.log'', Loghandle = Some 0, log_output = Some (Some 0), monitor = Sleeping\<rparr>"

definition rotation :: "string \<Rightarrow> log_event list" where
  "rotation t = [TimerFires, CloseStep, RenameStep t None, OpenStep sample_os [], FormatStep]"

definition small_files :: config where
  "small_files = Cfg\<lparr>Logarchsize := 1\<rparr>"

lemma sample_dir: "path_Dir ''/a/logs/x.log'' = ''/a/logs''"
  by (simp add: path_Dir_def path_Clean_def up_to_last_def clean_step_def)

lemma sample_log_start: "SetLogfile sample_os [] empty_log = Ok sample_log"
  by (simp add: SetLogfile_def set_handle_def OpenFile_def open_file_def Dir_def sample_os_def empty_log_def sample_dir
      CheckFileIsExist_def sample_log_def logformat_def Let_def)

lemma sample_healthy: "healthy sample_log" "files_ok (files sample_log)"
  by (simp_all add: healthy_def files_ok_def sample_log_def sample_dir rotating_def is_open_def)

lemmas log_defs = sample_log_def sample_os_def rotation_def small_files_def Println_def write_to_def is_open_def fileswitch_def
  filesize_def close_handle_def rename_file_def set_handle_def OpenFile_def open_file_def Dir_def CheckFileIsExist_def
  logformat_def sample_dir Let_def

theorem rotation_keeps_lines_witness:
  "\<exists>st2. log_run small_files (rotation ''1'') (Println ''b'' (Println ''a'' sample_log)) = Some (Ok st2) \<and>
    (\<exists>n i. map_of (fs_names (files st2)) n = Some i \<and> ''b'' \<in> set (fs_data (files st2) ! i))"
proof -
  obtain st2 where run: "log_run small_files (rotation ''1'') (Println ''b'' (Println ''a'' sample_log)) = Some (Ok st2)"
    by (simp add: log_defs)
  have first: "log_run small_files [LogLine ''a''] sample_log = Some (Ok (Println ''a'' sample_log))" by simp
  have "list_all no_fault ([LogLine ''a''] @ rotation ''1'')" "fresh_archives (archive_times ([LogLine ''a''] @ rotation ''1'')) sample_log"
    "\<not> rotating (Println ''a'' sample_log)"
    by (simp_all add: rotation_def fresh_archives_def archive_name_def sample_log_def sample_os_def rotating_def)
  with rotation_keeps_lines [OF sample_healthy(2,1) this(1,2) first run] run show ?thesis by auto
qed

definition full_log :: log_state where
  "full_log = (fst (close_handle (Println ''a'' sample_log)))\<lparr>monitor := Renaming\<rparr>"

lemma full_log_run: "log_run small_files [LogLine ''a'', TimerFires, CloseStep] sample_log = Some (Ok full_log)"
  by (simp add: full_log_def log_defs)

theorem logging_dies_witness:
  "\<exists>st1 st2. log_step small_files (RenameStep ''1'' (Some (PlainError ''denied''))) full_log = Some (Ok st1) \<and>
    log_run small_files [LogLine ''b'', TimerFires, CloseStep] st1 = Some (Ok st2) \<and> (\<forall>l. Println l st2 = st2)"
proof -
  have "healthy full_log" by (rule healthy_run [OF full_log_run sample_healthy(1)]) simp
  moreover obtain st1 where st1: "log_step small_files (RenameStep ''1'' (Some (PlainError ''denied''))) full_log = Some (Ok st1)"
    by (simp add: full_log_def log_defs)
  moreover obtain r where r: "log_run small_files [LogLine ''b'', TimerFires, CloseStep] st1 = Some r"
    using st1 by (auto simp: full_log_def log_defs)
  ultimately show ?thesis using logging_dies [OF _ disjI1 [OF st1] r] by auto
qed

theorem old_logger_silent_witness:
  "\<exists>st'. log_run small_files (LogLine ''a'' # rotation ''1'') sample_log = Some (Ok st') \<and>
    write_to (GetLogger sample_log) ''b'' st' = st'"
proof -
  let ?st = "(Println ''a'' sample_log)\<lparr>monitor := Closing\<rparr>"
  have start: "log_run small_files [LogLine ''a'', TimerFires] sample_log = Some (Ok ?st)" by (simp add: log_defs)
  then have h: "healthy ?st" by (rule healthy_run [OF _ sample_healthy(1)]) simp
  obtain st' where r: "log_run small_files (CloseStep # [RenameStep ''1'' None, OpenStep sample_os [], FormatStep]) ?st = Some (Ok st')"
    by (simp add: log_defs)
  have "log_run small_files (LogLine ''a'' # rotation ''1'') sample_log = Some (Ok st')"
    using start r by (simp add: rotation_def del: log_step.simps) (simp add: log_defs)
  moreover have "GetLogger ?st = GetLogger sample_log" by (simp add: GetLogger_def)
  ultimately show ?thesis using old_logger_silent [OF h _ r, of "''b''"] by auto
qed

end
