(* ===== verification/Martini.thy ===== *)
theory Martini
  imports GoPath "HOL-Library.AList"
begin

text \<open>
  The web framework \<open>martini\<close> (\<open>martini.go\<close>, \<open>router.go\<close>, \<open>response_writer.go\<close>, \<open>logger.go\<close>, \<open>recovery.go\<close>,
  \<open>static.go\<close>, \<open>return_handler.go\<close>) with the injector of \<open>inject.go\<close>: how a request goes through the middleware to the
  handler of a route. The server below it (\<open>net/http\<close>) is the writer that the first status and the bytes reach.
\<close>

section \<open>Requests\<close>

text \<open>A request as the server hands it over, with the values of its form.\<close>

record request =
  q_Method :: string
  q_Path :: string
  q_Header :: "string \<Rightarrow> string"
  q_Form :: "string \<Rightarrow> string"
  q_RemoteAddr :: string

section \<open>inject: services by type\<close>

text \<open>A Go type is its name. What the framework maps are the values it passes to handlers.\<close>

datatype service =
    SLogger string
  | SWriter
  | SRequest request
  | SContext
  | SRoutes
  | SRoute string
  | SParams "(string \<times> string) list"
  | SReturnHandler

text \<open>An injector is the list of the type maps of the injector and its parents.\<close>

type_synonym injector = "(string \<times> service) list list"

fun map_service :: "string \<Rightarrow> service \<Rightarrow> injector \<Rightarrow> injector" where
  "map_service t v [] = [[(t, v)]]"
| "map_service t v (m # parents) = AList.update t v m # parents"

text \<open>\<open>Get\<close>: \<open>is_interface\<close> and \<open>implements\<close> are those of the reflected types; the range over a map is its list.\<close>

fun Get_service :: "(string \<Rightarrow> bool) \<Rightarrow> (string \<Rightarrow> string \<Rightarrow> bool) \<Rightarrow> injector \<Rightarrow> string \<Rightarrow> service option" where
  "Get_service is_interface implements [] t = None"
| "Get_service is_interface implements (m # parents) t =
     (case map_of m t of
        Some v \<Rightarrow> Some v
      | None \<Rightarrow>
          (case (if is_interface t then find (\<lambda>(k, _). implements k t) m else None) of
             Some (_, v) \<Rightarrow> Some v
           | None \<Rightarrow> Get_service is_interface implements parents t))"

fun inject_args :: "(string \<Rightarrow> bool) \<Rightarrow> (string \<Rightarrow> string \<Rightarrow> bool) \<Rightarrow> injector \<Rightarrow> string list \<Rightarrow> service list outcome" where
  "inject_args ifc impl svc [] = Ok []"
| "inject_args ifc impl svc (t # ts) =
     (case Get_service ifc impl svc t of
        None \<Rightarrow> Err (PlainError (''Value not found for type '' @ t))
      | Some v \<Rightarrow> and_then (inject_args ifc impl svc ts) (\<lambda>vs. Ok (v # vs)))"

section \<open>Responses and handlers\<close>

datatype log_entry =
    Started string string string
  | Completed int
  | Panicked go_panic
  | Serving string

text \<open>
  What handlers share: the response writer (the status and size that \<open>responseWriter\<close> keeps, and the first status and the
  bytes that reached the server), the injector of the request, the indices of \<open>context\<close> and \<open>routeContext\<close>, and the log,
  each entry with the logger it went to.
\<close>

record web =
  rw_status :: int
  rw_size :: nat
  sent_status :: "int option"
  sent_body :: string
  web_inj :: injector
  web_index :: nat
  web_rindex :: nat
  web_log :: "(string \<times> log_entry) list"

definition Written :: "web \<Rightarrow> bool" where
  "Written w \<longleftrightarrow> rw_status w \<noteq> 0"

definition WriteHeader :: "int \<Rightarrow> web \<Rightarrow> web" where
  "WriteHeader s w = w\<lparr>sent_status := (case sent_status w of None \<Rightarrow> Some s | Some x \<Rightarrow> Some x), rw_status := s\<rparr>"

definition web_Write :: "string \<Rightarrow> web \<Rightarrow> web" where
  "web_Write b w =
     (let w = (if \<not> Written w then WriteHeader 200 w else w)
      in w\<lparr>sent_body := sent_body w @ b, rw_size := rw_size w + length b\<rparr>)"

text \<open>A value that a handler returns, and what running code ends with: \<open>None\<close> when the fuel is used up.\<close>

datatype ret = RInt int | RText string | RBytes string

type_synonym web_result = "(web \<times> ret list outcome) option"

record handler =
  h_args :: "string list"
  h_body :: "(web \<Rightarrow> web_result) \<Rightarrow> service list \<Rightarrow> web \<Rightarrow> web_result"

definition return :: "web \<Rightarrow> web_result" where
  "return w = Some (w, Ok [])"

definition log_to :: "string \<Rightarrow> log_entry \<Rightarrow> web \<Rightarrow> web" where
  "log_to n e w = w\<lparr>web_log := web_log w @ [(n, e)]\<rparr>"

text \<open>A call with arguments of other types, which the reflection of Go does not let happen.\<close>

definition bad_call :: "web \<Rightarrow> web_result" where
  "bad_call w = Some (w, Panic TypeAssertion)"

section \<open>Running handlers\<close>

text \<open>The reflected types of the process.\<close>

record types =
  is_interface :: "string \<Rightarrow> bool"
  implements :: "string \<Rightarrow> string \<Rightarrow> bool"

text \<open>
  \<open>context.run\<close> over the middleware and, behind it, the action: a handler is called with what the injector holds for its
  arguments and with \<open>Next\<close>, which runs the handlers behind it. The fuel counts the calls of handlers.
\<close>

fun context_run :: "nat \<Rightarrow> types \<Rightarrow> handler list \<Rightarrow> web \<Rightarrow> web_result" where
  "context_run 0 ty hs w = None"
| "context_run (Suc fuel) ty hs w =
     (if length hs \<le> web_index w then return w
      else (case inject_args (is_interface ty) (implements ty) (web_inj w) (h_args (hs ! web_index w)) of
              Err e \<Rightarrow> Some (w, Panic (ExplicitPanic ''Value not found''))
            | Panic p \<Rightarrow> Some (w, Panic p)
            | Ok args \<Rightarrow>
                (case h_body (hs ! web_index w) (\<lambda>w. context_run fuel ty hs (w\<lparr>web_index := Suc (web_index w)\<rparr>)) args w of
                   None \<Rightarrow> None
                 | Some (w, Panic p) \<Rightarrow> Some (w, Panic p)
                 | Some (w, _) \<Rightarrow>
                     let w = w\<lparr>web_index := Suc (web_index w)\<rparr>
                     in if Written w then return w else context_run fuel ty hs w)))"

text \<open>\<open>defaultReturnHandler\<close>; \<open>String\<close> of a reflected integer is a constant text.\<close>

definition handleReturn :: "ret list \<Rightarrow> web \<Rightarrow> web" where
  "handleReturn vals w =
     (let text = (\<lambda>v. case v of RInt _ \<Rightarrow> ''<int Value>'' | RText s \<Rightarrow> s | RBytes s \<Rightarrow> s) in
      case vals of
        RInt s # v # _ \<Rightarrow> web_Write (text v) (WriteHeader s w)
      | v # _ \<Rightarrow> web_Write (text v) w
      | [] \<Rightarrow> w)"

text \<open>\<open>routeContext.run\<close> over the handlers of a route.\<close>

fun route_run :: "nat \<Rightarrow> types \<Rightarrow> handler list \<Rightarrow> web \<Rightarrow> web_result" where
  "route_run 0 ty hs w = None"
| "route_run (Suc fuel) ty hs w =
     (if length hs \<le> web_rindex w then return w
      else (case inject_args (is_interface ty) (implements ty) (web_inj w) (h_args (hs ! web_rindex w)) of
              Err e \<Rightarrow> Some (w, Panic (ExplicitPanic ''Value not found''))
            | Panic p \<Rightarrow> Some (w, Panic p)
            | Ok args \<Rightarrow>
                (case h_body (hs ! web_rindex w) (\<lambda>w. route_run fuel ty hs (w\<lparr>web_rindex := Suc (web_rindex w)\<rparr>)) args w of
                   None \<Rightarrow> None
                 | Some (w, Panic p) \<Rightarrow> Some (w, Panic p)
                 | Some (w, Err e) \<Rightarrow> Some (w, Err e)
                 | Some (w, Ok vals) \<Rightarrow>
                     let w = w\<lparr>web_rindex := Suc (web_rindex w)\<rparr>;
                         w = (if vals \<noteq> [] then handleReturn vals w else w)
                     in if Written w then return w else route_run fuel ty hs w)))"

section \<open>Routes\<close>

text \<open>
  The regular expression that \<open>newRoute\<close> makes of a pattern, as the list of its parts: a character, a named part, a
  starred part, and the optional slash at the end. \<open>None\<close> stands for patterns with other operators of regular
  expressions, which are not modelled.
\<close>

datatype rx = RxChar char | RxParam string | RxStar string | RxSlash

definition name_char :: "char \<Rightarrow> bool" where
  "name_char c \<longleftrightarrow> c \<notin> set ''/#?().'' \<and> c \<noteq> CHR 0x5C"

definition word_char :: "char \<Rightarrow> bool" where
  "word_char c \<longleftrightarrow> is_digit c \<or> (65 \<le> (of_char c :: nat) \<and> (of_char c :: nat) \<le> 90) \<or> (97 \<le> (of_char c :: nat) \<and> (of_char c :: nat) \<le> 122)
     \<or> c = CHR ''_''"

function (sequential) compile_pattern :: "nat \<Rightarrow> string \<Rightarrow> rx list option" where
  "compile_pattern i [] = Some [RxSlash]"
| "compile_pattern i (c # cs) =
     (if c = CHR '':'' \<and> takeWhile name_char cs \<noteq> [] then
        (if list_all word_char (takeWhile name_char cs)
         then map_option (Cons (RxParam (takeWhile name_char cs))) (compile_pattern i (dropWhile name_char cs))
         else None)
      else if c = CHR ''*'' \<and> cs \<noteq> [] \<and> hd cs = CHR ''*''
        then map_option (Cons (RxStar (CHR ''_'' # itoa (int (Suc i))))) (compile_pattern (Suc i) (tl cs))
      else if word_char c \<or> c \<in> set ''/-:'' then map_option (Cons (RxChar c)) (compile_pattern i cs)
      else None)"
  by pat_completeness auto
termination
  by (relation "measure (\<lambda>(_, cs). length cs)") (auto simp: le_imp_less_Suc length_dropWhile_le)

definition param_char :: "char \<Rightarrow> bool" where "param_char c \<longleftrightarrow> c \<notin> set ''/#?''"
definition star_char :: "char \<Rightarrow> bool" where "star_char c \<longleftrightarrow> c \<notin> set ''#?''"

type_synonym captures = "(string \<times> string) list"

text \<open>Greedy repetition: the longest beginning with which the rest matches, of at least \<open>lo\<close> characters.\<close>

fun longest :: "(string \<Rightarrow> (captures \<times> string) option) \<Rightarrow> string \<Rightarrow> nat \<Rightarrow> nat \<Rightarrow> string \<Rightarrow> (captures \<times> string) option" where
  "longest f name lo k s =
     (if k < lo then None
      else (case f (drop k s) of
              Some (caps, rest) \<Rightarrow> Some ((name, take k s) # caps, rest)
            | None \<Rightarrow> (case k of 0 \<Rightarrow> None | Suc k' \<Rightarrow> longest f name lo k' s)))"

declare longest.simps [simp del]

primrec rx_match :: "rx list \<Rightarrow> string \<Rightarrow> (captures \<times> string) option" where
  "rx_match [] = (\<lambda>s. Some ([], s))"
| "rx_match (x # r) = (\<lambda>s.
     case x of
       RxChar c \<Rightarrow> (case s of [] \<Rightarrow> None | y # ys \<Rightarrow> if y = c then rx_match r ys else None)
     | RxParam name \<Rightarrow> longest (rx_match r) name 1 (length (takeWhile param_char s)) s
     | RxStar name \<Rightarrow> longest (rx_match r) name 0 (length (takeWhile star_char s)) s
     | RxSlash \<Rightarrow>
         (case s of
            y # ys \<Rightarrow> if y = CHR ''/'' then (case rx_match r ys of Some m \<Rightarrow> Some m | None \<Rightarrow> rx_match r s) else rx_match r s
          | [] \<Rightarrow> rx_match r s))"

text \<open>\<open>FindStringSubmatch\<close>: the leftmost match, with the matched text.\<close>

fun find_submatch :: "rx list \<Rightarrow> string \<Rightarrow> (string \<times> captures) option" where
  "find_submatch r s =
     (case rx_match r s of
        Some (caps, rest) \<Rightarrow> Some (take (length s - length rest) s, caps)
      | None \<Rightarrow> (case s of [] \<Rightarrow> None | _ # s' \<Rightarrow> find_submatch r s'))"

declare find_submatch.simps [simp del]

text \<open>\<open>RouteMatch\<close>, ordered by how good a match is.\<close>

datatype RouteMatch = NoMatch | StarMatch | OverloadMatch | ExactMatch

fun match_rank :: "RouteMatch \<Rightarrow> nat" where
  "match_rank NoMatch = 0" | "match_rank StarMatch = 1" | "match_rank OverloadMatch = 2" | "match_rank ExactMatch = 3"

instantiation RouteMatch :: linorder
begin

definition less_eq_RouteMatch :: "RouteMatch \<Rightarrow> RouteMatch \<Rightarrow> bool" where
  "less_eq_RouteMatch a b \<longleftrightarrow> match_rank a \<le> match_rank b"

definition less_RouteMatch :: "RouteMatch \<Rightarrow> RouteMatch \<Rightarrow> bool" where
  "less_RouteMatch a b \<longleftrightarrow> match_rank a < match_rank b"

instance
proof
  fix a b :: RouteMatch
  show "a \<le> b \<Longrightarrow> b \<le> a \<Longrightarrow> a = b"
    by (cases a; cases b) (simp_all add: less_eq_RouteMatch_def)
qed (auto simp: less_eq_RouteMatch_def less_RouteMatch_def)

end

definition BetterThan :: "RouteMatch \<Rightarrow> RouteMatch \<Rightarrow> bool" where
  "BetterThan r other \<longleftrightarrow> r > other"

record route =
  rt_method :: string
  rt_regex :: "rx list"
  rt_handlers :: "handler list"
  rt_pattern :: string
  rt_name :: string

definition newRoute :: "string \<Rightarrow> string \<Rightarrow> handler list \<Rightarrow> route option" where
  "newRoute meth pattern hs =
     map_option (\<lambda>r. \<lparr>rt_method = meth, rt_regex = r, rt_handlers = hs, rt_pattern = pattern, rt_name = []\<rparr>)
       (compile_pattern 0 pattern)"

definition MatchMethod :: "route \<Rightarrow> string \<Rightarrow> RouteMatch" where
  "MatchMethod r meth =
     (if meth = rt_method r then ExactMatch
      else if meth = ''HEAD'' \<and> rt_method r = ''GET'' then OverloadMatch
      else if rt_method r = ''*'' then StarMatch
      else NoMatch)"

definition path_params :: "route \<Rightarrow> string \<Rightarrow> captures option" where
  "path_params r path =
     (case find_submatch (rt_regex r) path of
        Some (text, caps) \<Rightarrow> if text = path then Some caps else None
      | None \<Rightarrow> None)"

definition route_Match :: "route \<Rightarrow> string \<Rightarrow> string \<Rightarrow> RouteMatch \<times> captures" where
  "route_Match r meth path =
     (if MatchMethod r meth = NoMatch then (NoMatch, [])
      else (case path_params r path of Some caps \<Rightarrow> (MatchMethod r meth, caps) | None \<Rightarrow> (NoMatch, [])))"

text \<open>\<open>MethodsFor\<close>.\<close>

fun methods_of :: "route list \<Rightarrow> string \<Rightarrow> string list \<Rightarrow> string list" where
  "methods_of [] path ms = ms"
| "methods_of (r # rs) path ms =
     methods_of rs path (if path_params r path \<noteq> None \<and> rt_method r \<notin> set ms then ms @ [rt_method r] else ms)"

definition MethodsFor :: "route list \<Rightarrow> string \<Rightarrow> string list" where
  "MethodsFor rs path = methods_of rs path []"

text \<open>The loop of \<open>Handle\<close>: the best match so far, with its parameters and route.\<close>

fun best_route :: "route list \<Rightarrow> string \<Rightarrow> string \<Rightarrow> RouteMatch \<times> captures \<times> route option \<Rightarrow> RouteMatch \<times> captures \<times> route option" where
  "best_route [] meth path best = best"
| "best_route (r # rs) meth path best =
     (let (m, vals) = route_Match r meth path in
      if BetterThan m (fst best)
      then (if m = ExactMatch then (m, vals, Some r) else best_route rs meth path (m, vals, Some r))
      else best_route rs meth path best)"

section \<open>The router\<close>

record router =
  r_routes :: "route list"
  r_notFounds :: "handler list"
  r_groups :: "(string \<times> handler list) list"

text \<open>\<open>http.NotFound\<close> of the server.\<close>

definition http_NotFound :: handler where
  "http_NotFound = \<lparr>h_args = [''http.ResponseWriter'', ''*http.Request''],
     h_body = (\<lambda>_ _ w. return (web_Write (''404 page not found'' @ [CHR 0x0A]) (WriteHeader 404 w)))\<rparr>"

definition NewRouter :: router where
  "NewRouter = \<lparr>r_routes = [], r_notFounds = [http_NotFound], r_groups = []\<rparr>"

definition addRoute :: "string \<Rightarrow> string \<Rightarrow> handler list \<Rightarrow> router \<Rightarrow> router option" where
  "addRoute meth pattern hs r =
     map_option (\<lambda>rt. r\<lparr>r_routes := r_routes r @ [rt]\<rparr>)
       (if r_groups r \<noteq> []
        then newRoute meth (concat (map fst (r_groups r)) @ pattern) (concat (map snd (r_groups r)) @ hs)
        else newRoute meth pattern hs)"

definition Group :: "string \<Rightarrow> (router \<Rightarrow> router option) \<Rightarrow> handler list \<Rightarrow> router \<Rightarrow> router option" where
  "Group pattern fn h r =
     map_option (\<lambda>r. r\<lparr>r_groups := butlast (r_groups r)\<rparr>) (fn (r\<lparr>r_groups := r_groups r @ [(pattern, h)]\<rparr>))"

definition router_Get :: "string \<Rightarrow> handler list \<Rightarrow> router \<Rightarrow> router option" where
  "router_Get = addRoute ''GET''"

definition router_Post :: "string \<Rightarrow> handler list \<Rightarrow> router \<Rightarrow> router option" where
  "router_Post = addRoute ''POST''"

definition router_Any :: "string \<Rightarrow> handler list \<Rightarrow> router \<Rightarrow> router option" where
  "router_Any = addRoute ''*''"

text \<open>\<open>Handle\<close>, the action of a classic martini.\<close>

definition route_request :: "nat \<Rightarrow> types \<Rightarrow> router \<Rightarrow> request \<Rightarrow> web \<Rightarrow> web_result" where
  "route_request fuel ty r q w =
     (case best_route (r_routes r) (q_Method q) (q_Path q) (NoMatch, [], None) of
        (m, vals, Some rt) \<Rightarrow>
          route_run fuel ty (rt_handlers rt)
            (w\<lparr>web_inj := map_service ''martini.Route'' (SRoute (rt_pattern rt))
                  (map_service ''martini.Context'' SContext (map_service ''martini.Params'' (SParams vals) (web_inj w))),
               web_rindex := 0\<rparr>)
      | (m, vals, None) \<Rightarrow>
          route_run fuel ty (r_notFounds r)
            (w\<lparr>web_inj := map_service ''martini.Context'' SContext (web_inj w), web_rindex := 0\<rparr>))"

definition router_Handle :: "nat \<Rightarrow> types \<Rightarrow> router \<Rightarrow> handler" where
  "router_Handle fuel ty r =
     \<lparr>h_args = [''http.ResponseWriter'', ''*http.Request'', ''martini.Context''],
      h_body = (\<lambda>_ args w.
        case args of
          [SWriter, SRequest q, SContext] \<Rightarrow> route_request fuel ty r q w
        | _ \<Rightarrow> bad_call w)\<rparr>"

section \<open>Middleware\<close>

definition client_addr :: "request \<Rightarrow> string" where
  "client_addr q =
     (if q_Header q ''X-Real-IP'' = []
      then (if q_Header q ''X-Forwarded-For'' = [] then q_RemoteAddr q else q_Header q ''X-Forwarded-For'')
      else q_Header q ''X-Real-IP'')"

definition Logger_handler :: handler where
  "Logger_handler =
     \<lparr>h_args = [''http.ResponseWriter'', ''*http.Request'', ''martini.Context'', ''*log.Logger''],
      h_body = (\<lambda>Next args w.
        case args of
          [SWriter, SRequest q, SContext, SLogger n] \<Rightarrow>
            (case Next (log_to n (Started (q_Method q) (q_Path q) (client_addr q)) w) of
               None \<Rightarrow> None
             | Some (w, Panic p) \<Rightarrow> Some (w, Panic p)
             | Some (w, _) \<Rightarrow> return (log_to n (Completed (rw_status w)) w))
        | _ \<Rightarrow> bad_call w)\<rparr>"

text \<open>\<open>Env\<close> is read from the environment when the package is initialized; the page shown in development has the stack.\<close>

definition Dev :: string where "Dev = ''development''"
definition Prod :: string where "Prod = ''production''"

definition setENV :: "string \<Rightarrow> string \<Rightarrow> string" where
  "setENV e env = (if length e > 0 then e else env)"

definition Recovery :: "string \<Rightarrow> (go_panic \<Rightarrow> string) \<Rightarrow> handler" where
  "Recovery env panic_page =
     \<lparr>h_args = [''martini.Context'', ''*log.Logger''],
      h_body = (\<lambda>Next args w.
        case args of
          [SContext, SLogger n] \<Rightarrow>
            (case Next w of
               None \<Rightarrow> None
             | Some (w, Panic p) \<Rightarrow>
                 let w = log_to n (Panicked p) w;
                     body = (if env = Dev then panic_page p else ''500 Internal Server Error'')
                 in return (web_Write body (WriteHeader 500 w))
             | Some (w, _) \<Rightarrow> return w)
        | _ \<Rightarrow> bad_call w)\<rparr>"

record StaticOptions =
  so_Prefix :: string
  so_SkipLogging :: bool
  so_IndexFile :: string
  so_Fallback :: string
  so_Exclude :: string

definition prepareStaticOptions :: "StaticOptions list \<Rightarrow> StaticOptions" where
  "prepareStaticOptions options =
     (let opt = (case options of \<sigma> # _ \<Rightarrow> \<sigma>
                 | [] \<Rightarrow> \<lparr>so_Prefix = [], so_SkipLogging = False, so_IndexFile = [], so_Fallback = [], so_Exclude = []\<rparr>);
          opt = (if so_IndexFile opt = [] then opt\<lparr>so_IndexFile := ''index.html''\<rparr> else opt)
      in if so_Prefix opt \<noteq> []
         then let p = (if hd (so_Prefix opt) \<noteq> CHR ''/'' then CHR ''/'' # so_Prefix opt else so_Prefix opt)
              in opt\<lparr>so_Prefix := rev (dropWhile (\<lambda>c. c = CHR ''/'') (rev p))\<rparr>
         else opt)"

definition HasPrefix :: "string \<Rightarrow> string \<Rightarrow> bool" where
  "HasPrefix s p \<longleftrightarrow> take (length p) s = p"

text \<open>
  The directory that is served, and what the server does for a redirection and for a file: the status and bytes it
  writes.
\<close>

datatype dir_entry = Directory | Regular | StatFails

record static_env =
  dir_Open :: "string \<Rightarrow> dir_entry option"
  redirect_page :: "string \<Rightarrow> string"
  ServeContent :: "request \<Rightarrow> string \<Rightarrow> int \<times> string"

text \<open>The file to serve for a path: nothing, a redirection, or the name of a file.\<close>

datatype static_choice = NothingStatic | RedirectTo string | ServeFile string

definition stripped_path :: "StaticOptions \<Rightarrow> string \<Rightarrow> string option" where
  "stripped_path opt path =
     (if so_Prefix opt \<noteq> [] then
        (if \<not> HasPrefix path (so_Prefix opt) then None
         else let file = drop (length (so_Prefix opt)) path
              in if file \<noteq> [] \<and> hd file \<noteq> CHR ''/'' then None else Some file)
      else Some path)"

definition static_choose :: "StaticOptions \<Rightarrow> static_env \<Rightarrow> request \<Rightarrow> static_choice" where
  "static_choose opt e q =
     (let path = q_Path q in
      if q_Method q \<noteq> ''GET'' \<and> q_Method q \<noteq> ''HEAD'' then NothingStatic
      else if so_Exclude opt \<noteq> [] \<and> HasPrefix path (so_Exclude opt) then NothingStatic
      else case stripped_path opt path of
             None \<Rightarrow> NothingStatic
           | Some file \<Rightarrow>
               (let (file, f) = (if dir_Open e file = None \<and> so_Fallback opt \<noteq> []
                                 then (so_Fallback opt, dir_Open e (so_Fallback opt)) else (file, dir_Open e file))
                in case f of
                     None \<Rightarrow> NothingStatic
                   | Some StatFails \<Rightarrow> NothingStatic
                   | Some Regular \<Rightarrow> ServeFile file
                   | Some Directory \<Rightarrow>
                       if path = [] \<or> last path \<noteq> CHR ''/'' then RedirectTo (path @ ''/'')
                       else let file = path_Join [file, so_IndexFile opt]
                            in if dir_Open e file = Some Regular then ServeFile file else NothingStatic))"

definition Static_handler :: "StaticOptions \<Rightarrow> static_env \<Rightarrow> handler" where
  "Static_handler opt e =
     \<lparr>h_args = [''http.ResponseWriter'', ''*http.Request'', ''*log.Logger''],
      h_body = (\<lambda>_ args w.
        case args of
          [SWriter, SRequest q, SLogger n] \<Rightarrow>
            (case static_choose opt e q of
               NothingStatic \<Rightarrow> return w
             | RedirectTo dest \<Rightarrow> return (web_Write (redirect_page e dest) (WriteHeader 302 w))
             | ServeFile file \<Rightarrow>
                 let w = (if so_SkipLogging opt then w else log_to n (Serving file) w);
                     (status, content) = ServeContent e q file
                 in return (web_Write content (WriteHeader status w)))
        | _ \<Rightarrow> bad_call w)\<rparr>"

section \<open>A martini\<close>

text \<open>
  A classic martini: the map of its injector, the environment read at the start, the files in \<open>public\<close>, the page of a
  panic, the router.
\<close>

record martini =
  m_values :: "(string \<times> service) list"
  m_env :: string
  m_static :: static_env
  m_panic_page :: "go_panic \<Rightarrow> string"
  m_router :: router

definition Classic :: "string \<Rightarrow> static_env \<Rightarrow> (go_panic \<Rightarrow> string) \<Rightarrow> martini" where
  "Classic getenv e page =
     \<lparr>m_values = [(''martini.Routes'', SRoutes), (''martini.ReturnHandler'', SReturnHandler), (''*log.Logger'', SLogger ''[martini] '')],
      m_env = setENV getenv Dev, m_static = e, m_panic_page = page, m_router = NewRouter\<rparr>"

definition martini_Map :: "string \<Rightarrow> service \<Rightarrow> martini \<Rightarrow> martini" where
  "martini_Map t v m = m\<lparr>m_values := AList.update t v (m_values m)\<rparr>"

definition createContext :: "martini \<Rightarrow> request \<Rightarrow> web" where
  "createContext m q =
     \<lparr>rw_status = 0, rw_size = 0, sent_status = None, sent_body = [],
      web_inj = [[(''*http.Request'', SRequest q), (''http.ResponseWriter'', SWriter), (''martini.Context'', SContext)], m_values m],
      web_index = 0, web_rindex = 0, web_log = []\<rparr>"

definition martini_handlers :: "nat \<Rightarrow> types \<Rightarrow> martini \<Rightarrow> handler list" where
  "martini_handlers fuel ty m =
     [Logger_handler, Recovery (m_env m) (m_panic_page m), Static_handler (prepareStaticOptions []) (m_static m),
      router_Handle fuel ty (m_router m)]"

definition ServeHTTP :: "nat \<Rightarrow> types \<Rightarrow> martini \<Rightarrow> request \<Rightarrow> web_result" where
  "ServeHTTP fuel ty m q = context_run fuel ty (martini_handlers fuel ty m) (createContext m q)"

end
