(* ===== verification/MainProgram.thy ===== *)
theory MainProgram
  imports Martini PingAgent
begin

text \<open>
  The main program \<open>httpagent.go\<close>: the web service with its routes, the signals and the start as a daemon, with the parts
  of the library \<open>go-daemon\<close> (\<open>command.go\<close>, \<open>signal.go\<close>, \<open>daemon_unix.go\<close>, \<open>lock_file.go\<close>) that it calls.
\<close>

section \<open>The web service\<close>

text \<open>\<open>RouteJson\<close>, for the result of \<open>json.MarshalIndent\<close>; \<open>http.Error\<close> writes the text of an error.\<close>

definition http_Error :: "string \<Rightarrow> int \<Rightarrow> web \<Rightarrow> web" where
  "http_Error msg code w = web_Write (msg @ [CHR 0x0A]) (WriteHeader code w)"

definition RouteJson :: "(go_error \<Rightarrow> string) \<Rightarrow> string outcome \<Rightarrow> web \<Rightarrow> web" where
  "RouteJson error_text marshalled w =
     (case marshalled of Ok content \<Rightarrow> web_Write content w | Err e \<Rightarrow> http_Error (error_text e) 500 w | Panic p \<Rightarrow> w)"

text \<open>
  A handler of the program: it computes a result from the request and hands it to \<open>RouteJson\<close>; a panic on the way is a
  panic of the handler.
\<close>

definition agent_handler :: "(go_error \<Rightarrow> string) \<Rightarrow> (request \<Rightarrow> string outcome outcome) \<Rightarrow> handler" where
  "agent_handler error_text answer =
     \<lparr>h_args = [''http.ResponseWriter'', ''*http.Request''],
      h_body = (\<lambda>_ args w.
        case args of
          [SWriter, SRequest q] \<Rightarrow>
            (case answer q of
               Panic p \<Rightarrow> Some (w, Panic p)
             | Err e \<Rightarrow> return w
             | Ok marshalled \<Rightarrow> (case marshalled of Panic p \<Rightarrow> Some (w, Panic p) | _ \<Rightarrow> return (RouteJson error_text marshalled w)))
        | _ \<Rightarrow> bad_call w)\<rparr>"

text \<open>The handler of \<open>/pingagent\<close>; \<open>json\<close> is \<open>MarshalIndent\<close> of the result.\<close>

definition ping_answer ::
  "config \<Rightarrow> 'a ping_env \<Rightarrow> ((string \<times> string) list \<Rightarrow> (string \<times> string) list) \<Rightarrow> string \<Rightarrow> string \<Rightarrow>
     (PingResult \<Rightarrow> string outcome) \<Rightarrow> request \<Rightarrow> string outcome outcome"
where
  "ping_answer cfg env visit st en json q =
     Ok (json (PingAgent cfg env visit st en (q_Form q ''seq'') (q_Form q ''ip'') (q_Form q ''retry'')))"

definition agent_routes :: "handler \<Rightarrow> handler \<Rightarrow> router option" where
  "agent_routes snmp_agent ping_agent =
     Option.bind (router_Get ''/snmpagent'' [snmp_agent] NewRouter) (\<lambda>r.
     Option.bind (router_Post ''/snmpagent'' [snmp_agent] r) (\<lambda>r.
     Option.bind (router_Get ''/pingagent'' [ping_agent] r) (\<lambda>r.
     router_Post ''/pingagent'' [ping_agent] r)))"

text \<open>
  \<open>httpservice\<close> up to \<open>Run\<close>. \<open>getenv\<close> is \<open>MARTINI_ENV\<close> when the process starts: \<open>martini\<close> has read it before
  \<open>httpservice\<close> sets it.
\<close>

definition httpservice :: "string \<Rightarrow> static_env \<Rightarrow> (go_panic \<Rightarrow> string) \<Rightarrow> handler \<Rightarrow> handler \<Rightarrow> martini option" where
  "httpservice getenv e page snmp_agent ping_agent =
     map_option (\<lambda>r. (martini_Map ''*log.Logger'' (SLogger ''Applog'') (Classic getenv e page))\<lparr>m_router := r\<rparr>)
       (agent_routes snmp_agent ping_agent)"

text \<open>The address \<open>Run\<close> listens on.\<close>

definition listen_addr :: "string \<Rightarrow> string \<Rightarrow> string" where
  "listen_addr host port = host @ '':'' @ (if length port = 0 then ''3000'' else port)"

section \<open>Signals\<close>

datatype os_signal = SIGQUIT | SIGTERM | SIGHUP | OtherSignal nat

definition ErrStop :: go_error where "ErrStop = PlainError ''stop serve signals''"

text \<open>The flags and handlers that \<open>AddCommand\<close> registers: values of the option \<open>-s\<close> with their signals.\<close>

definition commands :: "(string \<times> os_signal) list" where
  "commands = [(''quit'', SIGQUIT), (''stop'', SIGTERM), (''reload'', SIGHUP)]"

definition IsSet :: "config \<Rightarrow> string \<Rightarrow> bool" where
  "IsSet cfg v \<longleftrightarrow> Signal cfg = Some v"

definition ActiveFlags :: "config \<Rightarrow> (string \<times> os_signal) list" where
  "ActiveFlags cfg = filter (\<lambda>(v, _). IsSet cfg v) commands"

text \<open>\<open>SendCommands\<close>: the signals sent until one fails, and the error. \<open>kill\<close> is \<open>Process.Signal\<close>.\<close>

fun send_signals :: "(os_signal \<Rightarrow> go_error option) \<Rightarrow> os_signal list \<Rightarrow> os_signal list \<times> go_error option" where
  "send_signals kill [] = ([], None)"
| "send_signals kill (s # ss) =
     (case kill s of
        Some e \<Rightarrow> ([], Some e)
      | None \<Rightarrow> let (sent, err) = send_signals kill ss in (s # sent, err))"

definition SendCommands :: "(os_signal \<Rightarrow> go_error option) \<Rightarrow> config \<Rightarrow> os_signal list \<times> go_error option" where
  "SendCommands kill cfg = send_signals kill (map snd (ActiveFlags cfg))"

definition termHandler :: "go_error option" where
  "termHandler = Some ErrStop"

definition reloadHandler :: "(yaml \<times> yaml) list outcome \<Rightarrow> config \<Rightarrow> config outcome" where
  "reloadHandler cfgfile cfg = Loadconfig cfgfile cfg"

text \<open>
  \<open>ServeSignals\<close> over the signals that arrive, each with what the configuration file holds then; only signals with a
  handler are notified. The result is the configuration, and whether serving has stopped.
\<close>

fun ServeSignals :: "(os_signal \<times> (yaml \<times> yaml) list outcome) list \<Rightarrow> config \<Rightarrow> (config \<times> bool) outcome" where
  "ServeSignals [] cfg = Ok (cfg, False)"
| "ServeSignals ((SIGQUIT, f) # ss) cfg = (case termHandler of Some _ \<Rightarrow> Ok (cfg, True) | None \<Rightarrow> ServeSignals ss cfg)"
| "ServeSignals ((SIGTERM, f) # ss) cfg = (case termHandler of Some _ \<Rightarrow> Ok (cfg, True) | None \<Rightarrow> ServeSignals ss cfg)"
| "ServeSignals ((SIGHUP, f) # ss) cfg = and_then (reloadHandler f cfg) (ServeSignals ss)"
| "ServeSignals ((OtherSignal n, f) # ss) cfg = ServeSignals ss cfg"

text \<open>
  \<open>main\<close>: what the daemon library answers (a process or an error; for \<open>Reborn\<close> no process in the child), and what the
  process does.
\<close>

record main_env =
  Search_result :: "go_error + nat"
  kill :: "nat \<Rightarrow> os_signal \<Rightarrow> go_error option"
  Reborn_result :: "go_error + nat option"

datatype main_action =
    Fatal go_error
  | Sends nat "os_signal list" "go_error option"
  | ParentExits nat
  | Serves bool

definition main :: "main_env \<Rightarrow> config \<Rightarrow> main_action" where
  "main e cfg =
     (if length (ActiveFlags cfg) > 0 then
        (case Search_result e of
           Inl err \<Rightarrow> Fatal err
         | Inr d \<Rightarrow> let (sent, err) = SendCommands (kill e d) cfg in Sends d sent err)
      else if Daemon cfg then
        (case Reborn_result e of
           Inl err \<Rightarrow> Fatal err
         | Inr (Some d) \<Rightarrow> ParentExits d
         | Inr None \<Rightarrow> Serves True)
      else Serves False)"

section \<open>The pid file\<close>

text \<open>
  Processes and the pid file: which inode has its name, the locks on inodes, the process number written into them, and
  where each process is: it has opened the file, runs as a daemon, has unlocked the file on its way out. A daemon is the
  child that \<open>Reborn\<close> starts; it inherits the open and locked file.
\<close>

datatype daemon_pc = PidOpened nat | DaemonRuns nat | PidUnlocked nat

record pid_state =
  pid_link :: "nat option"
  pid_inodes :: nat
  pid_locks :: "(nat \<times> nat) list"
  pid_text :: "(nat \<times> nat) list"
  daemons :: "(nat \<times> daemon_pc) list"

definition no_daemon :: pid_state where
  "no_daemon = \<lparr>pid_link = None, pid_inodes = 0, pid_locks = [], pid_text = [], daemons = []\<rparr>"

datatype pid_event = OpensPid nat | LocksPid nat | WritesPid nat | UnlocksPid nat | UnlinksPid nat | Killed nat

fun pid_step :: "pid_event \<Rightarrow> pid_state \<Rightarrow> pid_state option" where
  "pid_step (OpensPid p) s =
     (if map_of (daemons s) p \<noteq> None then None
      else case pid_link s of
             Some i \<Rightarrow> Some (s\<lparr>daemons := AList.update p (PidOpened i) (daemons s)\<rparr>)
           | None \<Rightarrow> Some (s\<lparr>pid_link := Some (pid_inodes s), pid_inodes := Suc (pid_inodes s),
                           daemons := AList.update p (PidOpened (pid_inodes s)) (daemons s)\<rparr>))"
| "pid_step (LocksPid p) s =
     (case map_of (daemons s) p of
        Some (PidOpened i) \<Rightarrow>
          if map_of (pid_locks s) i \<noteq> None then Some (s\<lparr>daemons := AList.delete p (daemons s)\<rparr>)
          else Some (s\<lparr>pid_locks := AList.update i p (pid_locks s), daemons := AList.update p (DaemonRuns i) (daemons s)\<rparr>)
      | _ \<Rightarrow> None)"
| "pid_step (WritesPid p) s =
     (case map_of (daemons s) p of
        Some (DaemonRuns i) \<Rightarrow> Some (s\<lparr>pid_text := AList.update i p (pid_text s)\<rparr>)
      | _ \<Rightarrow> None)"
| "pid_step (UnlocksPid p) s =
     (case map_of (daemons s) p of
        Some (DaemonRuns i) \<Rightarrow>
          Some (s\<lparr>pid_locks := AList.delete i (pid_locks s), daemons := AList.update p (PidUnlocked i) (daemons s)\<rparr>)
      | _ \<Rightarrow> None)"
| "pid_step (UnlinksPid p) s =
     (case map_of (daemons s) p of
        Some (PidUnlocked i) \<Rightarrow>
          Some (s\<lparr>pid_link := (if pid_link s = Some i then None else pid_link s), daemons := AList.delete p (daemons s)\<rparr>)
      | _ \<Rightarrow> None)"
| "pid_step (Killed p) s =
     (case map_of (daemons s) p of
        Some (DaemonRuns i) \<Rightarrow> Some (s\<lparr>pid_locks := AList.delete i (pid_locks s), daemons := AList.delete p (daemons s)\<rparr>)
      | Some _ \<Rightarrow> Some (s\<lparr>daemons := AList.delete p (daemons s)\<rparr>)
      | None \<Rightarrow> None)"

fun pid_run :: "pid_event list \<Rightarrow> pid_state \<Rightarrow> pid_state option" where
  "pid_run [] s = Some s"
| "pid_run (e # es) s = (case pid_step e s of None \<Rightarrow> None | Some s' \<Rightarrow> pid_run es s')"

text \<open>\<open>ReadPidFile\<close>, by which \<open>Search\<close> finds the process to signal.\<close>

definition ReadPidFile :: "pid_state \<Rightarrow> nat option" where
  "ReadPidFile s = (case pid_link s of None \<Rightarrow> None | Some i \<Rightarrow> map_of (pid_text s) i)"

definition running :: "pid_state \<Rightarrow> nat set" where
  "running s = {p. \<exists>i. map_of (daemons s) p = Some (DaemonRuns i)}"

end
