(* ===== verification/MartiniFacts.thy ===== *)
theory MartiniFacts
  imports Martini
begin

text \<open>
  What the web framework guarantees: a route without named parts matches its path, with or without a slash at the end,
  and nothing else; and every request runs to its end through the middleware, whatever the handler does.
\<close>

section \<open>Routes\<close>

lemma longest_take: "longest f name lo k s = Some (caps, rest) \<Longrightarrow> (\<And>t caps rest. f t = Some (caps, rest) \<Longrightarrow> \<exists>p. t = p @ rest) \<Longrightarrow>
    \<exists>p. s = p @ rest"
proof (induction k)
  case 0
  then show ?case by (auto simp: longest.simps split: if_splits option.splits)
next
  case (Suc k)
  show ?case
  proof (cases "f (drop (Suc k) s)")
    case None
    with Suc show ?thesis by (subst (asm) (1) longest.simps) (auto split: if_splits)
  next
    case (Some m)
    obtain caps' rest' where m: "m = (caps', rest')" by (cases m)
    with Some Suc.prems(1) have "rest' = rest" by (subst (asm) longest.simps) (auto split: if_splits)
    with Suc.prems(2) [of "drop (Suc k) s"] Some m obtain p where "drop (Suc k) s = p @ rest" by blast
    then have "s = (take (Suc k) s @ p) @ rest" by (metis append_take_drop_id append_assoc)
    then show ?thesis by blast
  qed
qed

text \<open>What a match leaves is an end of the text.\<close>

lemma rx_match_suffix: "rx_match r s = Some (caps, rest) \<Longrightarrow> \<exists>p. s = p @ rest"
proof (induction r arbitrary: s caps rest)
  case (Cons x r)
  note IH = Cons.IH
  show ?case
  proof (cases x)
    case (RxChar c)
    with Cons.prems obtain ys where "s = c # ys" "rx_match r ys = Some (caps, rest)"
      by (auto split: list.splits if_splits)
    with IH [of ys caps rest] show ?thesis by (metis append_Cons)
  next
    case (RxParam n)
    with Cons.prems have "longest (rx_match r) n 1 (length (takeWhile param_char s)) s = Some (caps, rest)" by simp
    from longest_take [OF this IH] show ?thesis .
  next
    case (RxStar n)
    with Cons.prems have "longest (rx_match r) n 0 (length (takeWhile star_char s)) s = Some (caps, rest)" by simp
    from longest_take [OF this IH] show ?thesis .
  next
    case RxSlash
    show ?thesis
    proof (cases "rx_match r s = Some (caps, rest)")
      case True
      then show ?thesis by (rule IH)
    next
      case False
      with Cons.prems RxSlash obtain y ys where s: "s = y # ys" "rx_match r ys = Some (caps, rest)"
        by (auto split: list.splits if_splits option.splits)
      then show ?thesis using IH [of ys caps rest] by (metis append_Cons)
    qed
  qed
qed simp

text \<open>The match is the whole path exactly if a match at its beginning leaves nothing.\<close>

lemma find_submatch_length: "find_submatch r s = Some (text, caps) \<Longrightarrow> length text \<le> length s"
proof (induction s rule: length_induct)
  case (1 s)
  show ?case
  proof (cases "rx_match r s")
    case None
    with "1.prems" obtain y s' where s: "s = y # s'" "find_submatch r s' = Some (text, caps)"
      by (subst (asm) find_submatch.simps) (auto split: list.splits)
    with "1.IH" have "length text \<le> length s'" by simp
    with s show ?thesis by simp
  next
    case (Some m)
    with "1.prems" show ?thesis by (subst (asm) find_submatch.simps) (cases m, auto)
  qed
qed

lemma path_params_iff:
  "path_params rt path = Some caps \<longleftrightarrow> rx_match (rt_regex rt) path = Some (caps, [])"
proof (cases "rx_match (rt_regex rt) path")
  case None
  have "u \<noteq> path" if "find_submatch (rt_regex rt) path = Some (u, c)" for u c
  proof (cases path)
    case Nil
    with that None show ?thesis by (subst (asm) find_submatch.simps) simp
  next
    case (Cons y s')
    with that None have "find_submatch (rt_regex rt) s' = Some (u, c)" by (subst (asm) find_submatch.simps) simp
    from find_submatch_length [OF this] Cons show ?thesis by auto
  qed
  with None show ?thesis by (auto simp: path_params_def split: option.splits)
next
  case (Some m)
  obtain c rest where m: "m = (c, rest)" by (cases m)
  from rx_match_suffix [OF Some [unfolded m]] obtain p where p: "path = p @ rest" by blast
  have "take (length path - length rest) path = p" by (simp add: p)
  then have "find_submatch (rt_regex rt) path = Some (p, c)" by (subst find_submatch.simps) (simp add: Some m)
  with Some m p show ?thesis by (auto simp: path_params_def)
qed

text \<open>A pattern of plain characters.\<close>

definition plain_text :: "string \<Rightarrow> bool" where
  "plain_text pattern \<longleftrightarrow> list_all (\<lambda>c. word_char c \<or> c \<in> set ''/-'') pattern"

lemma word_char_not [simp]: "\<not> word_char CHR '':''" "\<not> word_char CHR ''*''"
  by (simp_all add: word_char_def is_digit_def)

lemma compile_plain: "plain_text pattern \<Longrightarrow> compile_pattern i pattern = Some (map RxChar pattern @ [RxSlash])"
proof (induction pattern)
  case (Cons c cs)
  then have c: "word_char c \<or> c \<in> set ''/-''" "plain_text cs" by (simp_all add: plain_text_def)
  moreover have "c \<noteq> CHR '':''" "c \<noteq> CHR ''*''" using c by auto
  ultimately show ?case using Cons.IH by auto
qed simp

lemma plain_match:
  "rx_match (map RxChar p @ [RxSlash]) s = (if s = p \<or> s = p @ ''/'' then Some ([], []) else
     (if take (length p) s = p then Some ([], (if drop (length p) s \<noteq> [] \<and> hd (drop (length p) s) = CHR ''/'' then drop (Suc (length p)) s else drop (length p) s)) else None))"
proof (induction p arbitrary: s)
  case Nil
  show ?case by (cases s) auto
next
  case (Cons c p)
  show ?case
  proof (cases s)
    case (Cons y ys)
    then show ?thesis using Cons.IH [of ys] by auto
  qed simp
qed

lemma plain_params:
  assumes "plain_text pattern" and "newRoute meth pattern hs = Some rt"
  shows "path_params rt path = (if path = pattern \<or> path = pattern @ ''/'' then Some [] else None)"
proof -
  have rx: "rt_regex rt = map RxChar pattern @ [RxSlash]" using assms by (auto simp: newRoute_def compile_plain)
  have "path_params rt path = Some caps \<longleftrightarrow> (path = pattern \<or> path = pattern @ ''/'') \<and> caps = []" for caps
  proof -
    have "drop (length pattern) path = [] \<Longrightarrow> take (length pattern) path = pattern \<Longrightarrow> path = pattern" by simp
    moreover have "drop (Suc (length pattern)) path = [] \<Longrightarrow> drop (length pattern) path \<noteq> [] \<Longrightarrow>
      hd (drop (length pattern) path) = CHR ''/'' \<Longrightarrow> take (length pattern) path = pattern \<Longrightarrow> path = pattern @ ''/''"
      by (metis append_take_drop_id drop_Suc list.exhaust_sel tl_drop)
    ultimately show ?thesis unfolding path_params_iff rx plain_match by (auto split: if_splits)
  qed
  then show ?thesis by (cases "path_params rt path") auto
qed

lemma match_least [simp]: "NoMatch \<le> m" "m \<le> ExactMatch"
  by (cases m; simp add: less_eq_RouteMatch_def)+

lemma best_route_from:
  assumes "best_route rs meth path (m0, v0, ort0) = (m, vals, ort)"
  shows "m0 \<le> m \<and> (\<forall>r \<in> set rs. fst (route_Match r meth path) \<le> m) \<and>
    ((m = m0 \<and> vals = v0 \<and> ort = ort0) \<or> (m0 < m \<and> (\<exists>r \<in> set rs. ort = Some r \<and> route_Match r meth path = (m, vals))))"
  using assms
proof (induction rs arbitrary: m0 v0 ort0)
  case (Cons r rs)
  obtain m1 v1 where r: "route_Match r meth path = (m1, v1)" by fastforce
  show ?case
  proof (cases "m0 < m1")
    case True
    show ?thesis
    proof (cases "m1 = ExactMatch")
      case True
      with r \<open>m0 < m1\<close> Cons.prems show ?thesis by (auto simp: BetterThan_def)
    next
      case False
      with r \<open>m0 < m1\<close> Cons.prems have "best_route rs meth path (m1, v1, Some r) = (m, vals, ort)" by (simp add: BetterThan_def)
      from Cons.IH [OF this] r \<open>m0 < m1\<close> show ?thesis by auto
    qed
  next
    case False
    with r Cons.prems have "best_route rs meth path (m0, v0, ort0) = (m, vals, ort)" by (simp add: BetterThan_def)
    from Cons.IH [OF this] r False show ?thesis by auto
  qed
qed simp

lemma best_route_cases:
  obtains (None) vals where "best_route rs meth path (NoMatch, [], None) = (NoMatch, vals, None)"
      "\<forall>r \<in> set rs. fst (route_Match r meth path) = NoMatch"
  | (Some) m vals r where "best_route rs meth path (NoMatch, [], None) = (m, vals, Some r)" "r \<in> set rs"
      "route_Match r meth path = (m, vals)" "m \<noteq> NoMatch" "\<forall>r' \<in> set rs. fst (route_Match r' meth path) \<le> m"
proof -
  obtain m vals ort where b: "best_route rs meth path (NoMatch, [], None) = (m, vals, ort)" by (metis prod_cases3)
  show thesis
  proof (cases "ort = None")
    case True
    with best_route_from [OF b] have "m = NoMatch" "\<forall>r \<in> set rs. fst (route_Match r meth path) \<le> NoMatch" by auto
    moreover from this have "\<forall>r \<in> set rs. fst (route_Match r meth path) = NoMatch" by (metis antisym match_least(1))
    ultimately show thesis using that(1) b True by blast
  next
    case False
    with best_route_from [OF b] that(2) b show thesis by auto
  qed
qed

text \<open>The best kind of match that any of the routes has.\<close>

definition best_match :: "route list \<Rightarrow> string \<Rightarrow> string \<Rightarrow> RouteMatch" where
  "best_match rs meth path = foldr max (map (\<lambda>r. fst (route_Match r meth path)) rs) NoMatch"

definition first_match :: "RouteMatch \<Rightarrow> route list \<Rightarrow> string \<Rightarrow> string \<Rightarrow> RouteMatch \<times> captures \<times> route option" where
  "first_match m rs meth path =
     (let r = find (\<lambda>r. fst (route_Match r meth path) = m) rs
      in (m, (case r of Some r \<Rightarrow> snd (route_Match r meth path) | None \<Rightarrow> []), r))"

lemma exact_greatest: "m \<le> ExactMatch"
  by (cases m) (simp_all add: less_eq_RouteMatch_def)

lemma nomatch_least: "NoMatch < m \<longleftrightarrow> m \<noteq> NoMatch" "\<not> m < NoMatch"
  by (cases m; simp add: less_RouteMatch_def)+

lemma first_match_Cons:
  "first_match m (r # rs) meth path =
     (if fst (route_Match r meth path) = m then (m, snd (route_Match r meth path), Some r) else first_match m rs meth path)"
  by (simp add: first_match_def)

lemma best_route_acc:
  "best_route rs meth path (m0, vals, ort) =
     (if m0 < best_match rs meth path then first_match (best_match rs meth path) rs meth path else (m0, vals, ort))"
proof (induction rs arbitrary: m0 vals ort)
  case Nil
  then show ?case by (simp add: best_match_def nomatch_least)
next
  case (Cons r rs)
  obtain m v where r: "route_Match r meth path = (m, v)" by (cases "route_Match r meth path")
  have B: "best_match (r # rs) meth path = max m (best_match rs meth path)" by (simp add: best_match_def r)
  show ?case
  proof (cases "m0 < m")
    case True
    show ?thesis
    proof (cases "m = ExactMatch")
      case exact: True
      then have "best_match (r # rs) meth path = m" using B exact_greatest [of "best_match rs meth path"] by (simp add: max_absorb1)
      with True exact r show ?thesis by (simp add: first_match_Cons BetterThan_def)
    next
      case False
      with True r have "best_route (r # rs) meth path (m0, vals, ort) = best_route rs meth path (m, v, Some r)"
        by (simp add: BetterThan_def)
      then show ?thesis using True r B by (cases "m < best_match rs meth path") (auto simp: Cons.IH first_match_Cons max_def)
    qed
  next
    case False
    with r have "best_route (r # rs) meth path (m0, vals, ort) = best_route rs meth path (m0, vals, ort)"
      by (simp add: BetterThan_def)
    then show ?thesis using False r B by (cases "m0 < best_match rs meth path") (auto simp: Cons.IH first_match_Cons max_def)
  qed
qed

text \<open>C33: The router gives a request to the first route whose match is the best of all routes (the same method before
  \<open>HEAD\<close> on a \<open>GET\<close> route before any method), with the parameters of that match, and to the handlers for unknown paths
  exactly if no route matches.\<close>

theorem best_route_best:
  "best_route rs meth path (NoMatch, [], None) =
     (if best_match rs meth path = NoMatch then (NoMatch, [], None) else first_match (best_match rs meth path) rs meth path)"
  by (simp add: best_route_acc nomatch_least)

section \<open>Handlers\<close>

text \<open>
  What the framework relies on of a handler of a route: it takes the writer and the request, ends (or panics), and
  leaves the injector, the indices and the request log alone.
\<close>

definition same_frame :: "web \<Rightarrow> web \<Rightarrow> bool" where
  "same_frame w w' \<longleftrightarrow> web_inj w' = web_inj w \<and> web_index w' = web_index w \<and> web_rindex w' = web_rindex w \<and> web_log w' = web_log w"

locale endpoint =
  fixes h :: handler
  assumes args: "h_args h = [''http.ResponseWriter'', ''*http.Request'']"
    and ends: "\<exists>w' r. h_body h Next xs w = Some (w', r) \<and> (r = Ok [] \<or> panics r) \<and> same_frame w w'"

interpretation not_found: endpoint http_NotFound
  by unfold_locales (auto simp: http_NotFound_def return_def same_frame_def web_Write_def WriteHeader_def Let_def)

text \<open>The services of a request: its own, and the logger of the martini.\<close>

definition injected :: "request \<Rightarrow> string \<Rightarrow> web \<Rightarrow> bool" where
  "injected q n w \<longleftrightarrow> (\<exists>m0 m1. web_inj w = [m0, m1] \<and> map_of m0 ''*http.Request'' = Some (SRequest q) \<and>
     map_of m0 ''http.ResponseWriter'' = Some SWriter \<and> map_of m0 ''martini.Context'' = Some SContext \<and>
     map_of m0 ''*log.Logger'' = None \<and> map_of m1 ''*log.Logger'' = Some (SLogger n))"

lemma injected_args:
  assumes "injected q n w" and "\<not> is_interface ty ''*log.Logger''"
  shows "inject_args (is_interface ty) (implements ty) (web_inj w) [''http.ResponseWriter'', ''*http.Request''] = Ok [SWriter, SRequest q]"
    "inject_args (is_interface ty) (implements ty) (web_inj w) [''http.ResponseWriter'', ''*http.Request'', ''martini.Context''] =
      Ok [SWriter, SRequest q, SContext]"
    "inject_args (is_interface ty) (implements ty) (web_inj w) [''http.ResponseWriter'', ''*http.Request'', ''martini.Context'', ''*log.Logger''] =
      Ok [SWriter, SRequest q, SContext, SLogger n]"
    "inject_args (is_interface ty) (implements ty) (web_inj w) [''martini.Context'', ''*log.Logger''] = Ok [SContext, SLogger n]"
    "inject_args (is_interface ty) (implements ty) (web_inj w) [''http.ResponseWriter'', ''*http.Request'', ''*log.Logger''] =
      Ok [SWriter, SRequest q, SLogger n]"
  using assms by (auto simp: injected_def)

lemma injected_map:
  "injected q n w \<Longrightarrow> injected q n (w\<lparr>web_inj := map_service ''martini.Context'' SContext (web_inj w), web_rindex := 0\<rparr>)"
  "injected q n w \<Longrightarrow> injected q n (w\<lparr>web_inj := map_service ''martini.Route'' x (map_service ''martini.Context'' SContext
     (map_service ''martini.Params'' y (web_inj w))), web_rindex := 0\<rparr>)"
  by (auto simp: injected_def update_conv')

lemma injected_inj: "web_inj w' = web_inj w \<Longrightarrow> injected q n w' = injected q n w"
  by (simp add: injected_def)

lemma route_run_ends:
  assumes "\<forall>h \<in> set hs. endpoint h" and ty: "\<not> is_interface ty ''*log.Logger''"
  shows "injected q n w \<Longrightarrow> length hs < fuel + web_rindex w \<Longrightarrow> 0 < fuel \<Longrightarrow>
    \<exists>w' r. route_run fuel ty hs w = Some (w', r) \<and> (r = Ok [] \<or> panics r) \<and> web_index w' = web_index w \<and> web_log w' = web_log w
      \<and> injected q n w'"
proof (induction fuel arbitrary: w)
  case (Suc fuel)
  show ?case
  proof (cases "length hs \<le> web_rindex w")
    case True
    with Suc.prems show ?thesis by (simp add: return_def)
  next
    case False
    let ?h = "hs ! web_rindex w"
    have h: "endpoint ?h" using False assms(1) by simp
    let ?Next = "\<lambda>w. route_run fuel ty hs (w\<lparr>web_rindex := Suc (web_rindex w)\<rparr>)"
    obtain w1 r where run: "h_body ?h ?Next [SWriter, SRequest q] w = Some (w1, r)" "r = Ok [] \<or> panics r" "same_frame w w1"
      using endpoint.ends [OF h] by blast
    have inj1: "injected q n w1" using injected_inj [of w1 w] run(3) Suc.prems(1) by (simp add: same_frame_def)
    have step: "route_run (Suc fuel) ty hs w = (case r of Panic p \<Rightarrow> Some (w1, Panic p) | Err e \<Rightarrow> Some (w1, Err e)
        | Ok vals \<Rightarrow> let w = w1\<lparr>web_rindex := Suc (web_rindex w1)\<rparr>; w = (if vals \<noteq> [] then handleReturn vals w else w)
            in if Written w then return w else route_run fuel ty hs w)"
      using False run(1) injected_args(1) [OF Suc.prems(1) ty] endpoint.args [OF h] by (simp split: outcome.split)
    show ?thesis
    proof (cases "panics r")
      case True
      then obtain p where "r = Panic p" by (auto simp: panics_iff)
      with step run(3) inj1 show ?thesis by (simp add: same_frame_def)
    next
      case False
      with run(2) have r: "r = Ok []" by simp
      let ?w = "w1\<lparr>web_rindex := Suc (web_rindex w1)\<rparr>"
      have w: "injected q n ?w" "web_index ?w = web_index w" "web_log ?w = web_log w" "web_rindex ?w = Suc (web_rindex w)"
        using inj1 injected_inj [of ?w w1] run(3) by (simp_all add: same_frame_def)
      show ?thesis
      proof (cases "Written ?w")
        case True
        with step r w show ?thesis by (simp add: return_def)
      next
        case False
        have "0 < fuel" using Suc.prems(2) \<open>\<not> length hs \<le> web_rindex w\<close> by linarith
        with Suc.IH [OF w(1)] Suc.prems(2) w step r False show ?thesis by simp
      qed
    qed
  qed
qed simp

definition router_ok :: "nat \<Rightarrow> router \<Rightarrow> bool" where
  "router_ok fuel r \<longleftrightarrow> 0 < fuel \<and> (\<forall>rt \<in> set (r_routes r). length (rt_handlers rt) < fuel \<and> (\<forall>h \<in> set (rt_handlers rt). endpoint h)) \<and>
     length (r_notFounds r) < fuel \<and> (\<forall>h \<in> set (r_notFounds r). endpoint h)"

lemma router_body: "h_body (router_Handle fuel ty r) Next [SWriter, SRequest q, SContext] w = route_request fuel ty r q w"
  by (simp add: router_Handle_def)

lemma routed_ends:
  assumes ok: "router_ok fuel r" and ty: "\<not> is_interface ty ''*log.Logger''" and "injected q n w"
  shows "\<exists>w' res. route_request fuel ty r q w = Some (w', res) \<and> (res = Ok [] \<or> panics res) \<and> web_index w' = web_index w
    \<and> web_log w' = web_log w \<and> injected q n w'"
proof (cases rule: best_route_cases [of "r_routes r" "q_Method q" "q_Path q"])
  case (None vals)
  let ?w = "w\<lparr>web_inj := map_service ''martini.Context'' SContext (web_inj w), web_rindex := 0\<rparr>"
  have w: "injected q n ?w" by (rule injected_map(1) [OF assms(3)])
  have "\<forall>h \<in> set (r_notFounds r). endpoint h" using ok by (simp add: router_ok_def)
  from route_run_ends [OF this ty w, of fuel] ok None show ?thesis by (simp add: route_request_def router_ok_def)
next
  case (Some m vals rt)
  let ?i = "map_service ''martini.Route'' (SRoute (rt_pattern rt)) (map_service ''martini.Context'' SContext
    (map_service ''martini.Params'' (SParams vals) (web_inj w)))"
  let ?w = "w\<lparr>web_inj := ?i, web_rindex := 0\<rparr>"
  have w: "injected q n ?w" by (rule injected_map(2) [OF assms(3)])
  have "\<forall>h \<in> set (rt_handlers rt). endpoint h" using ok Some(2) by (simp add: router_ok_def)
  from route_run_ends [OF this ty w, of fuel] ok Some(1,2) show ?thesis by (simp add: route_request_def router_ok_def)
qed

section \<open>The way of a request\<close>

text \<open>One call of a handler by \<open>context.run\<close>, its arguments being there.\<close>

lemma context_run_call:
  assumes "web_index w < length hs"
    and "inject_args (is_interface ty) (implements ty) (web_inj w) (h_args (hs ! web_index w)) = Ok args"
    and "h_body (hs ! web_index w) (\<lambda>w. context_run fuel ty hs (w\<lparr>web_index := Suc (web_index w)\<rparr>)) args w = Some (w', r)"
    and "r = Ok [] \<or> panics r"
  shows "context_run (Suc fuel) ty hs w =
    (if panics r then Some (w', r)
     else if Written w' then Some (w'\<lparr>web_index := Suc (web_index w')\<rparr>, Ok [])
     else context_run fuel ty hs (w'\<lparr>web_index := Suc (web_index w')\<rparr>))"
  using assms by (auto simp: return_def Written_def panics_iff)

declare context_run.simps [simp del]

lemma context_run_end: "0 < fuel \<Longrightarrow> length hs \<le> web_index w \<Longrightarrow> context_run fuel ty hs w = Some (w, Ok [])"
  by (cases fuel) (simp_all add: return_def context_run.simps)

definition started :: "request \<Rightarrow> log_entry" where
  "started q = Started (q_Method q) (q_Path q) (client_addr q)"

text \<open>The state in which the router gets a request for which there is no file.\<close>

definition at_router :: "string \<Rightarrow> martini \<Rightarrow> request \<Rightarrow> web" where
  "at_router n m q = (createContext m q)\<lparr>web_index := 3, web_log := [(n, started q)]\<rparr>"

lemma createContext_fields [simp]:
  "rw_status (createContext m q) = 0" "sent_status (createContext m q) = None" "sent_body (createContext m q) = []"
  "web_index (createContext m q) = 0" "web_log (createContext m q) = []"
  by (simp_all add: createContext_def)

lemma createContext_injected:
  "map_of (m_values m) ''*log.Logger'' = Some (SLogger n) \<Longrightarrow> web_inj w = web_inj (createContext m q) \<Longrightarrow> injected q n w"
  by (simp add: injected_def createContext_def)

lemma handlers_simps [simp]:
  "length (martini_handlers F ty m) = 4"
  "martini_handlers F ty m ! 0 = Logger_handler"
  "martini_handlers F ty m ! Suc 0 = Recovery (m_env m) (m_panic_page m)"
  "martini_handlers F ty m ! 2 = Static_handler (prepareStaticOptions []) (m_static m)"
  "martini_handlers F ty m ! 3 = router_Handle F ty (m_router m)"
  by (simp_all add: martini_handlers_def eval_nat_numeral)

text \<open>From the router outwards: each lemma adds a handler.\<close>

lemma run_router:
  assumes "web_index w = 3" "injected q n w" "\<not> is_interface ty ''*log.Logger''"
    and "route_request F ty (m_router m) q w = Some (w1, r)" "r = Ok [] \<or> panics r" "web_index w1 = 3" "0 < fuel"
  shows "context_run (Suc fuel) ty (martini_handlers F ty m) w =
    Some (if panics r then w1 else w1\<lparr>web_index := 4\<rparr>, r)"
proof -
  have "h_args (router_Handle F ty (m_router m)) = [''http.ResponseWriter'', ''*http.Request'', ''martini.Context'']"
    by (simp add: router_Handle_def)
  then have "context_run (Suc fuel) ty (martini_handlers F ty m) w =
    (if panics r then Some (w1, r) else if Written w1 then Some (w1\<lparr>web_index := Suc (web_index w1)\<rparr>, Ok [])
     else context_run fuel ty (martini_handlers F ty m) (w1\<lparr>web_index := Suc (web_index w1)\<rparr>))"
    using assms injected_args(2) [OF assms(2,3)] by (intro context_run_call [where args = "[SWriter, SRequest q, SContext]"]) (simp_all add: router_body)
  with assms(5-7) show ?thesis by (auto simp: context_run_end)
qed

lemma run_static:
  assumes "web_index w = 2" "injected q n w" "\<not> is_interface ty ''*log.Logger''" "rw_status w = 0"
    and "static_choose (prepareStaticOptions []) (m_static m) q = NothingStatic"
  shows "context_run (Suc fuel) ty (martini_handlers F ty m) w =
    context_run fuel ty (martini_handlers F ty m) (w\<lparr>web_index := 3\<rparr>)"
proof -
  have "h_args (Static_handler (prepareStaticOptions []) (m_static m)) = [''http.ResponseWriter'', ''*http.Request'', ''*log.Logger'']"
    by (simp add: Static_handler_def)
  then have "context_run (Suc fuel) ty (martini_handlers F ty m) w =
    (if panics (Ok [] :: ret list outcome) then Some (w, Ok []) else if Written w then Some (w\<lparr>web_index := Suc (web_index w)\<rparr>, Ok [])
     else context_run fuel ty (martini_handlers F ty m) (w\<lparr>web_index := Suc (web_index w)\<rparr>))"
    using assms injected_args(5) [OF assms(2,3)]
    by (intro context_run_call [where args = "[SWriter, SRequest q, SLogger n]"]) (simp_all add: Static_handler_def return_def)
  with assms(1,4) show ?thesis by (simp add: Written_def eval_nat_numeral)
qed

text \<open>What \<open>Recovery\<close> makes of a panic.\<close>

definition recovered :: "string \<Rightarrow> martini \<Rightarrow> go_panic \<Rightarrow> web \<Rightarrow> web" where
  "recovered n m p w =
     web_Write (if m_env m = Dev then m_panic_page m p else ''500 Internal Server Error'')
       (WriteHeader 500 (w\<lparr>web_log := web_log w @ [(n, Panicked p)]\<rparr>))"

lemma run_recovery:
  assumes "web_index w = 1" "injected q n w" "\<not> is_interface ty ''*log.Logger''" "0 < fuel"
    and "context_run fuel ty (martini_handlers F ty m) (w\<lparr>web_index := 2\<rparr>) = Some (w1, r)" "r = Ok [] \<or> panics r"
    and "\<not> panics r \<Longrightarrow> Written w1 \<or> 3 \<le> web_index w1"
  shows "\<exists>i. (Written (case r of Panic p \<Rightarrow> recovered n m p w1 | _ \<Rightarrow> w1) \<or> 3 \<le> i) \<and>
    context_run (Suc fuel) ty (martini_handlers F ty m) w =
      Some ((case r of Panic p \<Rightarrow> recovered n m p w1 | _ \<Rightarrow> w1)\<lparr>web_index := i\<rparr>, Ok [])"
proof -
  let ?w = "case r of Panic p \<Rightarrow> recovered n m p w1 | _ \<Rightarrow> w1"
  have "h_args (Recovery (m_env m) (m_panic_page m)) = [''martini.Context'', ''*log.Logger'']" by (simp add: Recovery_def)
  moreover have "h_body (Recovery (m_env m) (m_panic_page m)) (\<lambda>w. context_run fuel ty (martini_handlers F ty m) (w\<lparr>web_index := Suc (web_index w)\<rparr>))
    [SContext, SLogger n] w = Some (?w, Ok [])"
    using assms(1,5,6) by (auto simp: Recovery_def return_def recovered_def log_to_def Let_def eval_nat_numeral panics_iff)
  ultimately have "context_run (Suc fuel) ty (martini_handlers F ty m) w =
    (if panics (Ok [] :: ret list outcome) then Some (?w, Ok []) else if Written ?w then Some (?w\<lparr>web_index := Suc (web_index ?w)\<rparr>, Ok [])
     else context_run fuel ty (martini_handlers F ty m) (?w\<lparr>web_index := Suc (web_index ?w)\<rparr>))"
    using assms(1) injected_args(4) [OF assms(2,3)] by (intro context_run_call [where args = "[SContext, SLogger n]"]) simp_all
  moreover have "Written ?w \<or> 3 \<le> web_index ?w"
    using assms(6,7) by (cases r) (simp_all add: recovered_def web_Write_def WriteHeader_def Written_def Let_def)
  ultimately show ?thesis
    using context_run_end [of fuel "martini_handlers F ty m" "?w\<lparr>web_index := Suc (web_index ?w)\<rparr>"] assms(4)
    by (intro exI [of _ "Suc (web_index ?w)"]) auto
qed

text \<open>The response as it leaves the framework.\<close>

definition response :: "string \<Rightarrow> martini \<Rightarrow> web \<Rightarrow> ret list outcome \<Rightarrow> web" where
  "response n m w1 r =
     (let w = (case r of Panic p \<Rightarrow> recovered n m p w1 | _ \<Rightarrow> w1)
      in w\<lparr>web_log := web_log w @ [(n, Completed (rw_status w))]\<rparr>)"

lemma serve_routed:
  assumes ty: "\<not> is_interface ty ''*log.Logger''" and logger: "map_of (m_values m) ''*log.Logger'' = Some (SLogger n)"
    and no_file: "static_choose (prepareStaticOptions []) (m_static m) q = NothingStatic"
    and routed: "route_request F ty (m_router m) q (at_router n m q) = Some (w1, r)" "r = Ok [] \<or> panics r" "web_index w1 = 3"
    and F: "5 \<le> F"
  shows "\<exists>i. ServeHTTP F ty m q = Some ((response n m w1 r)\<lparr>web_index := i\<rparr>, Ok [])"
proof -
  let ?hs = "martini_handlers F ty m"
  let ?w0 = "(createContext m q)\<lparr>web_log := [(n, started q)]\<rparr>"
  obtain k where k: "F = Suc (Suc (Suc (Suc (Suc k))))" using F by (auto simp: le_iff_add eval_nat_numeral)
  let ?w2 = "if panics r then w1 else w1\<lparr>web_index := 4\<rparr>"
  let ?R = "case r of Panic p \<Rightarrow> recovered n m p ?w2 | _ \<Rightarrow> ?w2"
  note inj = createContext_injected [OF logger]
  have "context_run (Suc (Suc k)) ty ?hs (at_router n m q) = Some (?w2, r)"
    by (rule run_router [OF _ inj ty routed]) (simp_all add: at_router_def)
  moreover have "(?w0\<lparr>web_index := 2\<rparr>)\<lparr>web_index := 3\<rparr> = at_router n m q" by (simp add: at_router_def)
  ultimately have s2: "context_run (Suc (Suc (Suc k))) ty ?hs (?w0\<lparr>web_index := 2\<rparr>) = Some (?w2, r)"
    using run_static [OF _ inj ty _ no_file, of "?w0\<lparr>web_index := 2\<rparr>"] by simp
  have "\<exists>i. (Written ?R \<or> 3 \<le> i) \<and>
    context_run (Suc (Suc (Suc (Suc k)))) ty ?hs (?w0\<lparr>web_index := 1\<rparr>) = Some (?R\<lparr>web_index := i\<rparr>, Ok [])"
  proof (rule run_recovery [OF _ inj ty])
    show "context_run (Suc (Suc (Suc k))) ty ?hs ((?w0\<lparr>web_index := 1\<rparr>)\<lparr>web_index := 2\<rparr>) = Some (?w2, r)" using s2 by simp
    show "r = Ok [] \<or> panics r" by (rule routed(2))
  qed auto
  then obtain i R where R: "R = ?R" and i: "Written R \<or> 3 \<le> i"
    "context_run (Suc (Suc (Suc (Suc k)))) ty ?hs (?w0\<lparr>web_index := 1\<rparr>) = Some (R\<lparr>web_index := i\<rparr>, Ok [])" by blast
  let ?E = "R\<lparr>web_index := i, web_log := web_log R @ [(n, Completed (rw_status R))]\<rparr>"
  have "h_args (Logger_handler) = [''http.ResponseWriter'', ''*http.Request'', ''martini.Context'', ''*log.Logger'']"
    by (simp add: Logger_handler_def)
  moreover have "h_body (Logger_handler) (\<lambda>w. context_run (Suc (Suc (Suc (Suc k)))) ty ?hs (w\<lparr>web_index := Suc (web_index w)\<rparr>))
    [SWriter, SRequest q, SContext, SLogger n] (createContext m q) = Some (?E, Ok [])"
    using i(2) by (simp add: Logger_handler_def return_def log_to_def started_def Let_def)
  ultimately have "context_run F ty ?hs (createContext m q) =
    (if panics (Ok [] :: ret list outcome) then Some (?E, Ok []) else if Written ?E then Some (?E\<lparr>web_index := Suc (web_index ?E)\<rparr>, Ok [])
     else context_run (Suc (Suc (Suc (Suc k)))) ty ?hs (?E\<lparr>web_index := Suc (web_index ?E)\<rparr>))"
    unfolding k using injected_args(3) [OF inj ty, of "createContext m q"] by (intro context_run_call [where args = "[SWriter, SRequest q, SContext, SLogger n]"]) simp_all
  also have "\<dots> = Some (?E\<lparr>web_index := Suc i\<rparr>, Ok [])"
    using i(1) context_run_end [of "Suc (Suc (Suc (Suc k)))" ?hs "?E\<lparr>web_index := Suc i\<rparr>"] by (auto simp: Written_def)
  finally have "ServeHTTP F ty m q = Some (?E\<lparr>web_index := Suc i\<rparr>, Ok [])" by (simp add: ServeHTTP_def)
  moreover have "\<exists>j. ?E\<lparr>web_index := Suc i\<rparr> = (response n m w1 r)\<lparr>web_index := j\<rparr>"
    unfolding R by (cases r) (auto simp: response_def recovered_def web_Write_def WriteHeader_def Written_def Let_def)
  ultimately show ?thesis by metis
qed

end
