(* ===== verification/MainFacts.thy ===== *)
theory MainFacts
  imports MainProgram MartiniFacts
begin

text \<open>
  What the main program guarantees: which handler answers a request and what the client gets, also when the handler
  panics; what signals do; when the process serves at all; and how far the pid file keeps a second daemon away.
\<close>

section \<open>Requests\<close>

lemma agent_handler_endpoint: "endpoint (agent_handler et answer)"
  by unfold_locales
     (auto simp: agent_handler_def return_def bad_call_def same_frame_def RouteJson_def http_Error_def web_Write_def WriteHeader_def
       Let_def split: list.split service.split outcome.split)

interpretation ping_endpoint: endpoint "agent_handler et (ping_answer cfg env visit st en json)"
  by (rule agent_handler_endpoint)

text \<open>The route of a method and a path without operators.\<close>

definition plain_route :: "string \<Rightarrow> string \<Rightarrow> handler \<Rightarrow> route" where
  "plain_route meth pattern h =
     \<lparr>rt_method = meth, rt_regex = map RxChar pattern @ [RxSlash], rt_handlers = [h], rt_pattern = pattern, rt_name = []\<rparr>"

lemma newRoute_plain: "plain_text pattern \<Longrightarrow> newRoute meth pattern [h] = Some (plain_route meth pattern h)"
  by (simp add: newRoute_def compile_plain plain_route_def)

lemma plain_route_Match:
  assumes "plain_text pattern"
  shows "route_Match (plain_route meth pattern h) m path =
    (if path = pattern \<or> path = pattern @ ''/'' then (MatchMethod (plain_route meth pattern h) m, []) else (NoMatch, []))"
  unfolding route_Match_def plain_params [OF assms newRoute_plain [OF assms]] by simp

lemma agent_paths: "plain_text ''/snmpagent''" "plain_text ''/pingagent''"
  by (simp_all add: plain_text_def word_char_def)

lemma agent_routes_eq:
  "agent_routes s p = Some (NewRouter\<lparr>r_routes := [plain_route ''GET'' ''/snmpagent'' s, plain_route ''POST'' ''/snmpagent'' s,
     plain_route ''GET'' ''/pingagent'' p, plain_route ''POST'' ''/pingagent'' p]\<rparr>)"
  by (simp add: agent_routes_def router_Get_def router_Post_def addRoute_def NewRouter_def newRoute_plain agent_paths)

text \<open>The handler a request is for.\<close>

definition target :: "handler \<Rightarrow> handler \<Rightarrow> request \<Rightarrow> handler option" where
  "target s p q =
     (if q_Method q \<notin> {''GET'', ''POST'', ''HEAD''} then None
      else if q_Path q \<in> {''/snmpagent'', ''/snmpagent/''} then Some s
      else if q_Path q \<in> {''/pingagent'', ''/pingagent/''} then Some p
      else None)"

lemma plain_route_handlers [simp]: "rt_handlers (plain_route meth pattern h) = [h]"
  by (simp add: plain_route_def)

lemma agent_best_route:
  assumes "agent_routes s p = Some r"
  shows "\<exists>m vals ort. best_route (r_routes r) (q_Method q) (q_Path q) (NoMatch, [], None) = (m, vals, ort) \<and>
    map_option rt_handlers ort = map_option (\<lambda>h. [h]) (target s p q)"
proof -
  have r: "r_routes r = [plain_route ''GET'' ''/snmpagent'' s, plain_route ''POST'' ''/snmpagent'' s,
     plain_route ''GET'' ''/pingagent'' p, plain_route ''POST'' ''/pingagent'' p]"
    using assms by (auto simp: agent_routes_eq)
  have mm: "MatchMethod (plain_route meth pat h) m' =
    (if m' = meth then ExactMatch else if m' = ''HEAD'' \<and> meth = ''GET'' then OverloadMatch else if meth = ''*'' then StarMatch else NoMatch)"
    for meth pat h m' by (simp add: MatchMethod_def plain_route_def)
  note simps = r plain_route_Match agent_paths mm BetterThan_def target_def less_RouteMatch_def Let_def
  consider "q_Path q \<in> {''/snmpagent'', ''/snmpagent/''}" | "q_Path q \<in> {''/pingagent'', ''/pingagent/''}"
    | "q_Path q \<notin> {''/snmpagent'', ''/snmpagent/'', ''/pingagent'', ''/pingagent/''}" by blast
  then show ?thesis
  proof cases
    case 1
    then show ?thesis
      by (cases "q_Method q = ''GET''"; cases "q_Method q = ''POST''"; cases "q_Method q = ''HEAD''") (auto simp: simps)
  next
    case 2
    then show ?thesis
      by (cases "q_Method q = ''GET''"; cases "q_Method q = ''POST''"; cases "q_Method q = ''HEAD''") (auto simp: simps)
  next
    case 3
    then show ?thesis by (auto simp: simps)
  qed
qed

text \<open>What the handlers of a route with one handler do to an unwritten response.\<close>

lemma route_run_single:
  assumes h: "endpoint h" and "injected q n w" "\<not> is_interface ty ''*log.Logger''" "web_rindex w = 0"
  shows "\<exists>Next w1 res. h_body h Next [SWriter, SRequest q] w = Some (w1, res) \<and> (res = Ok [] \<or> panics res) \<and> same_frame w w1 \<and>
    (\<exists>i. route_run (Suc (Suc k)) ty [h] w = Some (w1\<lparr>web_rindex := i\<rparr>, res))"
proof -
  let ?Next = "\<lambda>w. route_run (Suc k) ty [h] (w\<lparr>web_rindex := Suc (web_rindex w)\<rparr>)"
  obtain w1 res where run: "h_body h ?Next [SWriter, SRequest q] w = Some (w1, res)" "res = Ok [] \<or> panics res" "same_frame w w1"
    using endpoint.ends [OF h] by blast
  have "\<exists>i. route_run (Suc (Suc k)) ty [h] w = Some (w1\<lparr>web_rindex := i\<rparr>, res)"
  proof (cases "panics res")
    case True
    then obtain x where "res = Panic x" by (auto simp: panics_iff)
    with run assms(4) injected_args(1) [OF assms(2,3)] endpoint.args [OF h]
    show ?thesis by (intro exI [of _ "web_rindex w1"]) simp
  next
    case False
    with run(2) have "res = Ok []" by simp
    with run assms(4) injected_args(1) [OF assms(2,3)] endpoint.args [OF h]
    show ?thesis by (intro exI [of _ "Suc 0"]) (simp add: return_def same_frame_def Let_def)
  qed
  with run show ?thesis by blast
qed

definition unwritten :: "web \<Rightarrow> bool" where
  "unwritten w \<longleftrightarrow> rw_status w = 0 \<and> sent_status w = None \<and> sent_body w = []"

text \<open>The result of the handler a request is for, or of the one for unknown paths.\<close>

definition handled_as :: "handler option \<Rightarrow> request \<Rightarrow> web \<Rightarrow> web \<Rightarrow> ret list outcome \<Rightarrow> bool" where
  "handled_as h q w0 w1 r \<longleftrightarrow> unwritten w0 \<and> web_log w0 = [(''Applog'', started q)] \<and> (r = Ok [] \<or> panics r) \<and>
     (\<exists>Next. h_body (case h of Some h \<Rightarrow> h | None \<Rightarrow> http_NotFound) Next [SWriter, SRequest q] w0 = Some (w1, r))"

lemma serve_agent:
  assumes m: "httpservice getenv e page s p = Some m" and "endpoint s" "endpoint p"
    and ty: "\<not> is_interface ty ''*log.Logger''" and no_file: "static_choose (prepareStaticOptions []) e q = NothingStatic"
    and F: "5 \<le> F"
  shows "\<exists>w0 w1 r i j. handled_as (target s p q) q w0 w1 r \<and>
    ServeHTTP F ty m q = Some ((response ''Applog'' m (w1\<lparr>web_rindex := j\<rparr>) r)\<lparr>web_index := i\<rparr>, Ok [])"
proof -
  obtain r where r: "agent_routes s p = Some r"
    and meq: "m = (martini_Map ''*log.Logger'' (SLogger ''Applog'') (Classic getenv e page))\<lparr>m_router := r\<rparr>"
    using m by (auto simp: httpservice_def)
  have logger: "map_of (m_values m) ''*log.Logger'' = Some (SLogger ''Applog'')" and mr: "m_router m = r" and ms: "m_static m = e"
    by (simp_all add: meq martini_Map_def Classic_def)
  obtain k where k: "F = Suc (Suc k)" using F by (auto simp: le_iff_add)
  let ?w = "at_router ''Applog'' m q"
  have inj: "injected q ''Applog'' ?w" by (rule createContext_injected [OF logger]) (simp add: at_router_def)
  have nf: "r_notFounds r = [http_NotFound]" using r by (auto simp: agent_routes_eq NewRouter_def)
  obtain mt vals ort where best: "best_route (r_routes r) (q_Method q) (q_Path q) (NoMatch, [], None) = (mt, vals, ort)"
    and hs: "map_option rt_handlers ort = map_option (\<lambda>h. [h]) (target s p q)"
    using agent_best_route [OF r] by blast
  have "\<exists>w0. route_request F ty r q ?w = route_run F ty [case target s p q of Some h \<Rightarrow> h | None \<Rightarrow> http_NotFound] w0 \<and>
    injected q ''Applog'' w0 \<and> unwritten w0 \<and> web_index w0 = 3 \<and> web_rindex w0 = 0 \<and>
      web_log w0 = [(''Applog'', started q)]"
  proof (cases ort)
    case None
    let ?w0 = "?w\<lparr>web_inj := map_service ''martini.Context'' SContext (web_inj ?w), web_rindex := 0\<rparr>"
    have "injected q ''Applog'' ?w0" by (rule injected_map(1) [OF inj])
    with None hs best nf show ?thesis
      by (intro exI [of _ ?w0]) (auto simp: route_request_def unwritten_def at_router_def)
  next
    case (Some rt)
    let ?i = "map_service ''martini.Route'' (SRoute (rt_pattern rt)) (map_service ''martini.Context'' SContext
      (map_service ''martini.Params'' (SParams vals) (web_inj ?w)))"
    let ?w0 = "?w\<lparr>web_inj := ?i, web_rindex := 0\<rparr>"
    have "injected q ''Applog'' ?w0" by (rule injected_map(2) [OF inj])
    moreover obtain h where "target s p q = Some h" "rt_handlers rt = [h]" using hs Some by (cases "target s p q") auto
    ultimately show ?thesis
      using Some best by (intro exI [of _ ?w0]) (simp add: route_request_def unwritten_def at_router_def)
  qed
  then obtain w0 where w0: "route_request F ty r q ?w = route_run F ty [case target s p q of Some h \<Rightarrow> h | None \<Rightarrow> http_NotFound] w0"
    "injected q ''Applog'' w0" "unwritten w0" "web_index w0 = 3" "web_rindex w0 = 0" "web_log w0 = [(''Applog'', started q)]" by blast
  have "endpoint (case target s p q of Some h \<Rightarrow> h | None \<Rightarrow> http_NotFound)"
    using assms(2,3) not_found.endpoint_axioms by (auto simp: target_def)
  from route_run_single [OF this w0(2) ty w0(5), of k] obtain Next w1 res j where run:
    "h_body (case target s p q of Some h \<Rightarrow> h | None \<Rightarrow> http_NotFound) Next [SWriter, SRequest q] w0 = Some (w1, res)"
    "res = Ok [] \<or> panics res" "same_frame w0 w1" "route_request F ty r q ?w = Some (w1\<lparr>web_rindex := j\<rparr>, res)"
    unfolding w0(1) [unfolded k] k by blast
  have "\<exists>i. ServeHTTP F ty m q = Some ((response ''Applog'' m (w1\<lparr>web_rindex := j\<rparr>) res)\<lparr>web_index := i\<rparr>, Ok [])"
  proof (rule serve_routed [OF ty logger])
    show "route_request F ty (m_router m) q ?w = Some (w1\<lparr>web_rindex := j\<rparr>, res)" using run(4) mr by simp
  qed (use no_file ms run(2,3) w0(4) F in \<open>auto simp: same_frame_def\<close>)
  with run w0(3,6) show ?thesis unfolding handled_as_def by blast
qed


text \<open>A site without files, no interfaces among the types, and handlers that answer and panic.\<close>

definition no_files :: static_env where
  "no_files = \<lparr>dir_Open = (\<lambda>_. None), redirect_page = (\<lambda>_. []), ServeContent = (\<lambda>_ _. (200, []))\<rparr>"

definition plain_types :: types where
  "plain_types = \<lparr>is_interface = (\<lambda>_. False), implements = (\<lambda>_ _. False)\<rparr>"

definition panicking :: handler where
  "panicking = agent_handler (\<lambda>_. []) (\<lambda>_. Panic IndexOutOfRange)"

definition get :: "string \<Rightarrow> request" where
  "get path = \<lparr>q_Method = ''GET'', q_Path = path, q_Header = (\<lambda>_. []), q_Form = (\<lambda>_. []), q_RemoteAddr = ''::1''\<rparr>"

lemma no_files_choose: "static_choose (prepareStaticOptions []) no_files (get path) = NothingStatic"
  by (simp add: static_choose_def no_files_def get_def stripped_path_def prepareStaticOptions_def Let_def)

lemma plain_types_logger: "\<not> is_interface plain_types ''*log.Logger''"
  by (simp add: plain_types_def)



definition no_net :: "nat ping_env" where
  "no_net = \<lparr>net = undefined, arrival = undefined, keyorder = undefined\<rparr>"


text \<open>A handler that panics before it writes anything shows the client the page of the panic with its stack, as in
  development: the environment is read before \<open>httpservice\<close> sets it to production.\<close>

theorem panic_page_shown:
  assumes "httpservice [] e page s p = Some m" and "endpoint s" "endpoint p"
    and "\<not> is_interface ty ''*log.Logger''" and "static_choose (prepareStaticOptions []) e q = NothingStatic" and "5 \<le> F"
    and "target s p q = Some h" and "\<And>Next w. h_body h Next [SWriter, SRequest q] w = Some (w, Panic x)"
  shows "\<exists>w. ServeHTTP F ty m q = Some (w, Ok []) \<and> sent_status w = Some 500 \<and> sent_body w = page x"
proof -
  obtain w0 w1 r i j where h: "handled_as (target s p q) q w0 w1 r"
    and serve: "ServeHTTP F ty m q = Some ((response ''Applog'' m (w1\<lparr>web_rindex := j\<rparr>) r)\<lparr>web_index := i\<rparr>, Ok [])"
    using serve_agent [OF assms(1-6)] by blast
  have w1: "w1 = w0" "r = Panic x" "unwritten w0" using h assms(7,8) by (auto simp: handled_as_def)
  have "m_env m = Dev" "m_panic_page m = page" using assms(1) by (auto simp: httpservice_def martini_Map_def Classic_def setENV_def)
  then have "sent_status ((response ''Applog'' m (w1\<lparr>web_rindex := j\<rparr>) r)\<lparr>web_index := i\<rparr>) = Some 500 \<and>
    sent_body ((response ''Applog'' m (w1\<lparr>web_rindex := j\<rparr>) r)\<lparr>web_index := i\<rparr>) = page x"
    using w1 by (simp add: response_def recovered_def unwritten_def web_Write_def WriteHeader_def Written_def Let_def)
  with serve show ?thesis by blast
qed

theorem panic_page_shown_witness:
  "\<exists>m w. httpservice [] no_files (\<lambda>_. ''goroutine 7'') panicking panicking = Some m \<and>
     ServeHTTP 5 plain_types m (get ''/snmpagent/'') = Some (w, Ok []) \<and> sent_status w = Some 500 \<and> sent_body w = ''goroutine 7''"
proof -
  obtain m where m: "httpservice [] no_files (\<lambda>_. ''goroutine 7'') panicking panicking = Some m"
    by (simp add: httpservice_def agent_routes_eq)
  have e: "endpoint panicking" unfolding panicking_def by (rule agent_handler_endpoint)
  have t: "target panicking panicking (get ''/snmpagent/'') = Some panicking" by (simp add: target_def get_def)
  have "h_body panicking Next [SWriter, SRequest (get ''/snmpagent/'')] w = Some (w, Panic IndexOutOfRange)" for Next w
    by (simp add: panicking_def agent_handler_def)
  from panic_page_shown [OF m e e plain_types_logger no_files_choose order_refl t this] m show ?thesis by auto
qed

section \<open>Signals and the start\<close>

fun stops :: "os_signal \<Rightarrow> bool" where
  "stops SIGQUIT \<longleftrightarrow> True" | "stops SIGTERM \<longleftrightarrow> True" | "stops _ \<longleftrightarrow> False"

text \<open>What a reload makes of the settings.\<close>

definition reloaded :: "(yaml \<times> yaml) list outcome \<Rightarrow> config \<Rightarrow> config" where
  "reloaded f cfg = (case Loadconfig f cfg of Ok c \<Rightarrow> c | _ \<Rightarrow> cfg)"

lemma Loadconfig_reloaded: "\<not> panics f \<Longrightarrow> Loadconfig f c = Ok (reloaded f c)"
proof (cases f)
  case (Ok m)
  then show ?thesis by (simp add: reloaded_def Loadconfig_eq)
qed (simp_all add: reloaded_def Loadconfig_def)

text \<open>The files read while the signals are served.\<close>

definition reloads :: "(os_signal \<times> (yaml \<times> yaml) list outcome) list \<Rightarrow> (yaml \<times> yaml) list outcome list" where
  "reloads ss = map snd (filter (\<lambda>(s, _). s = SIGHUP) (takeWhile (\<lambda>(s, _). \<not> stops s) ss))"

text \<open>The process serves signals until the first \<open>SIGQUIT\<close> or \<open>SIGTERM\<close>, and until then each \<open>SIGHUP\<close> loads the
  configuration file as it is at that time, in the order of the signals; other signals change nothing.\<close>

theorem signals_served:
  assumes "\<forall>(s, f) \<in> set ss. \<not> panics f"
  shows "ServeSignals ss c = Ok (fold reloaded (reloads ss) c, \<exists>(s, _) \<in> set ss. stops s)"
  using assms
proof (induction ss c rule: ServeSignals.induct)
  case (4 f ss c)
  then show ?case by (simp add: reloadHandler_def Loadconfig_reloaded reloads_def)
qed (simp_all add: termHandler_def reloads_def)

theorem signals_served_witness:
  "ServeSignals [(OtherSignal 28, Err (PlainError ''open'')), (SIGHUP, Err (PlainError ''open'')), (SIGTERM, Err (PlainError ''open'')), (SIGHUP, Ok [])] Cfg = Ok (Cfg, True)"
  using signals_served [of "[(OtherSignal 28, Err (PlainError ''open'')), (SIGHUP, Err (PlainError ''open'')), (SIGTERM, Err (PlainError ''open'')), (SIGHUP, Ok [])]" Cfg]
  by (simp add: reloads_def reloaded_def Loadconfig_def)

text \<open>No setting is given on the command line.\<close>

definition no_settings :: "flags \<Rightarrow> bool" where
  "no_settings fl \<longleftrightarrow> f_port fl = None \<and> f_retry fl = None \<and> f_debug fl = None \<and> f_maxsesspool fl = None \<and>
     f_logarchsize fl = None \<and> f_maxlifetime fl = None \<and> f_timeout fl = None"





section \<open>The pid file\<close>

text \<open>As long as no daemon gives the file up, the file keeps its inode, every process has opened that one, and the daemon
  that runs has its lock.\<close>

definition pid_ok :: "pid_state \<Rightarrow> bool" where
  "pid_ok s \<longleftrightarrow> (\<forall>p i. map_of (daemons s) p = Some (PidOpened i) \<longrightarrow> pid_link s = Some i) \<and>
     (\<forall>p i. map_of (daemons s) p = Some (DaemonRuns i) \<longrightarrow> pid_link s = Some i \<and> map_of (pid_locks s) i = Some p) \<and>
     (\<forall>p i. map_of (daemons s) p \<noteq> Some (PidUnlocked i))"

lemma map_of_daemons [simp]:
  "map_of (AList.update p x ds) q = (if q = p then Some x else map_of ds q)"
  "map_of (AList.delete p ds) q = (if q = p then None else map_of ds q)"
  by (simp_all add: update_conv' delete_conv')

lemma pid_ok_step:
  assumes "pid_step e s = Some s'" and "pid_ok s" and "\<And>p. e \<noteq> UnlocksPid p"
  shows "pid_ok s'"
proof (cases e)
  case (OpensPid p)
  with assms(1) have new: "map_of (daemons s) p = None" by (auto split: if_splits)
  show ?thesis
  proof (cases "pid_link s")
    case None
    with assms(2) have "map_of (daemons s) q \<noteq> Some d" for q d by (cases d) (auto simp: pid_ok_def)
    with assms(1) new None show ?thesis by (auto simp: OpensPid pid_ok_def split: if_splits)
  next
    case (Some i)
    with assms(1,2) new show ?thesis by (auto simp: OpensPid pid_ok_def split: if_splits)
  qed
next
  case (LocksPid p)
  with assms(1) obtain i where i: "map_of (daemons s) p = Some (PidOpened i)" by (auto split: option.splits daemon_pc.splits)
  show ?thesis
  proof (cases "map_of (pid_locks s) i")
    case None
    with i assms(2) have "map_of (daemons s) q \<noteq> Some (DaemonRuns j)" for q j by (auto simp: pid_ok_def)
    moreover have "pid_link s = Some i" using i assms(2) by (auto simp: pid_ok_def)
    moreover have "s' = s\<lparr>pid_locks := AList.update i p (pid_locks s), daemons := AList.update p (DaemonRuns i) (daemons s)\<rparr>"
      using assms(1) i None by (simp add: LocksPid)
    ultimately show ?thesis using assms(2) by (simp add: pid_ok_def)
  next
    case (Some q)
    with assms(1) i have "s' = s\<lparr>daemons := AList.delete p (daemons s)\<rparr>" by (simp add: LocksPid)
    with assms(2) show ?thesis by (simp add: pid_ok_def)
  qed
next
  case (WritesPid p)
  with assms(1) obtain t where "s' = s\<lparr>pid_text := t\<rparr>" by (auto split: option.splits daemon_pc.splits)
  with assms(2) show ?thesis by (simp add: pid_ok_def)
next
  case (UnlinksPid p)
  with assms(1) obtain i where "map_of (daemons s) p = Some (PidUnlocked i)" by (auto split: option.splits daemon_pc.splits)
  with assms(2) show ?thesis by (simp add: pid_ok_def)
next
  case (Killed p)
  with assms(1) obtain d where d: "map_of (daemons s) p = Some d" by (auto split: option.splits)
  show ?thesis
  proof (cases d)
    case (DaemonRuns i)
    with assms(1) d have s': "s' = s\<lparr>pid_locks := AList.delete i (pid_locks s), daemons := AList.delete p (daemons s)\<rparr>"
      by (simp add: Killed)
    have "q = p" if "map_of (daemons s) q = Some (DaemonRuns i)" for q
      using that assms(2) d DaemonRuns by (simp add: pid_ok_def) (metis option.inject)
    with assms(2) s' show ?thesis by (simp add: pid_ok_def) blast
  next
    case (PidOpened i)
    with assms(1) d have "s' = s\<lparr>daemons := AList.delete p (daemons s)\<rparr>" by (simp add: Killed)
    with assms(2) show ?thesis by (simp add: pid_ok_def)
  next
    case (PidUnlocked i)
    with assms(2) d show ?thesis by (simp add: pid_ok_def)
  qed
qed (use assms(3) in simp)

lemma pid_ok_run: "pid_run es s = Some s' \<Longrightarrow> pid_ok s \<Longrightarrow> (\<And>p. UnlocksPid p \<notin> set es) \<Longrightarrow> pid_ok s'"
  by (induction es arbitrary: s) (auto split: option.splits dest: pid_ok_step)

text \<open>C30: However the starts of daemons interleave, and whichever of them are killed, at most one daemon runs at a time, as
  long as none of them has begun to remove the pid file.\<close>

theorem single_daemon:
  assumes "pid_run es no_daemon = Some s" and "\<And>p. UnlocksPid p \<notin> set es"
  shows "p \<in> running s \<Longrightarrow> q \<in> running s \<Longrightarrow> p = q"
proof -
  have "pid_ok s" by (rule pid_ok_run [OF assms(1) _ assms(2)]) (simp add: pid_ok_def no_daemon_def)
  then have "pid_link s = Some i \<and> map_of (pid_locks s) i = Some x" if "map_of (daemons s) x = Some (DaemonRuns i)" for x i
    using that by (auto simp: pid_ok_def)
  note locked = this
  assume "p \<in> running s" "q \<in> running s"
  then obtain i j where "map_of (daemons s) p = Some (DaemonRuns i)" "map_of (daemons s) q = Some (DaemonRuns j)"
    by (auto simp: running_def)
  from locked [OF this(1)] locked [OF this(2)] show "p = q" by simp
qed

theorem single_daemon_witness:
  "\<exists>s. pid_run [OpensPid 7, OpensPid 8, LocksPid 7, LocksPid 8, WritesPid 7, Killed 7, OpensPid 9, LocksPid 9] no_daemon = Some s \<and>
     9 \<in> running s \<and> (\<forall>p \<in> running s. p = 9)"
proof -
  let ?es = "[OpensPid 7, OpensPid 8, LocksPid 7, LocksPid 8, WritesPid 7, Killed 7, OpensPid 9, LocksPid 9]"
  let ?s = "\<lparr>pid_link = Some 0, pid_inodes = 1, pid_locks = [(0, 9)], pid_text = [(0, 7)], daemons = [(9, DaemonRuns 0)]\<rparr>"
  have run: "pid_run ?es no_daemon = Some ?s" by (simp add: no_daemon_def)
  have "9 \<in> running ?s" by (simp add: running_def)
  moreover from this have "\<forall>p \<in> running ?s. p = 9" using single_daemon [OF run, of _ 9] by auto
  ultimately show ?thesis using run by blast
qed

text \<open>When a daemon removes the file there may be two afterwards: another one that opens the file before it is removed
  locks an inode without a name, and the next creates a new file.\<close>

lemma pid_file_race:
  "\<exists>s. pid_run [OpensPid 7, LocksPid 7, WritesPid 7, UnlocksPid 7, OpensPid 8, LocksPid 8, UnlinksPid 7, OpensPid 9, LocksPid 9]
      no_daemon = Some s \<and> running s = {8, 9}"
  by (simp add: no_daemon_def running_def) auto

text \<open>A daemon that is killed leaves its number in the file, and the next \<open>-s\<close> signals whatever process has it then.\<close>

lemma stale_pid:
  "\<exists>s. pid_run [OpensPid 7, LocksPid 7, WritesPid 7, Killed 7] no_daemon = Some s \<and> running s = {} \<and> ReadPidFile s = Some 7"
  by (simp add: no_daemon_def running_def ReadPidFile_def)

end
