(* ===== verification/YamlParser.thy ===== *)
theory YamlParser
  imports GoLib
begin

text \<open>
  The parser of the YAML library, \<open>go-yaml/yaml/parserc.go\<close>: the state machine that makes events of tokens. The scanner
  is the list of the tokens it delivers, with the error it ends with if it fails. A mark is its line, the only part of it
  that reaches a result (in the text of an error); both stacks have their top first. The functions have the names of the
  source without \<open>yaml_parser_\<close>; an event is handed back with the parser instead of being stored.
\<close>

section \<open>Tokens and events\<close>

datatype scalar_style = PLAIN_SCALAR | SINGLE_QUOTED_SCALAR | DOUBLE_QUOTED_SCALAR | LITERAL_SCALAR | FOLDED_SCALAR

datatype token_type =
    STREAM_START_TOKEN
  | STREAM_END_TOKEN
  | VERSION_DIRECTIVE_TOKEN int int
  | TAG_DIRECTIVE_TOKEN string string
  | DOCUMENT_START_TOKEN
  | DOCUMENT_END_TOKEN
  | BLOCK_SEQUENCE_START_TOKEN
  | BLOCK_MAPPING_START_TOKEN
  | BLOCK_END_TOKEN
  | FLOW_SEQUENCE_START_TOKEN
  | FLOW_SEQUENCE_END_TOKEN
  | FLOW_MAPPING_START_TOKEN
  | FLOW_MAPPING_END_TOKEN
  | BLOCK_ENTRY_TOKEN
  | FLOW_ENTRY_TOKEN
  | KEY_TOKEN
  | VALUE_TOKEN
  | ALIAS_TOKEN string
  | ANCHOR_TOKEN string
  | TAG_TOKEN string string
  | SCALAR_TOKEN string scalar_style

record yaml_token =
  t_typ :: token_type
  t_start :: nat
  t_end :: nat

datatype collection_style = BLOCK_STYLE | FLOW_STYLE

text \<open>An anchor is \<open>None\<close> for a nil one; a tag and a value are empty for nil ones.\<close>

datatype event_type =
    NO_EVENT
  | STREAM_START_EVENT
  | STREAM_END_EVENT
  | DOCUMENT_START_EVENT "(int \<times> int) option" "(string \<times> string) list"
  | DOCUMENT_END_EVENT bool
  | ALIAS_EVENT string
  | SCALAR_EVENT "string option" string string bool bool scalar_style
  | SEQUENCE_START_EVENT "string option" string bool collection_style
  | SEQUENCE_END_EVENT
  | MAPPING_START_EVENT "string option" string bool collection_style
  | MAPPING_END_EVENT

record yaml_event =
  e_typ :: event_type
  e_start :: nat

section \<open>The parser's state\<close>

datatype parser_state =
    PARSE_STREAM_START
  | PARSE_IMPLICIT_DOCUMENT_START
  | PARSE_DOCUMENT_START
  | PARSE_DOCUMENT_CONTENT
  | PARSE_DOCUMENT_END
  | PARSE_BLOCK_NODE
  | PARSE_BLOCK_NODE_OR_INDENTLESS_SEQUENCE
  | PARSE_FLOW_NODE
  | PARSE_BLOCK_SEQUENCE_FIRST_ENTRY
  | PARSE_BLOCK_SEQUENCE_ENTRY
  | PARSE_INDENTLESS_SEQUENCE_ENTRY
  | PARSE_BLOCK_MAPPING_FIRST_KEY
  | PARSE_BLOCK_MAPPING_KEY
  | PARSE_BLOCK_MAPPING_VALUE
  | PARSE_FLOW_SEQUENCE_FIRST_ENTRY
  | PARSE_FLOW_SEQUENCE_ENTRY
  | PARSE_FLOW_SEQUENCE_ENTRY_MAPPING_KEY
  | PARSE_FLOW_SEQUENCE_ENTRY_MAPPING_VALUE
  | PARSE_FLOW_SEQUENCE_ENTRY_MAPPING_END
  | PARSE_FLOW_MAPPING_FIRST_KEY
  | PARSE_FLOW_MAPPING_KEY
  | PARSE_FLOW_MAPPING_VALUE
  | PARSE_FLOW_MAPPING_EMPTY_VALUE
  | PARSE_END

record yaml_parser =
  y_tokens :: "yaml_token list"
  y_scan_error :: go_error
  y_stream_end :: bool
  y_state :: parser_state
  y_states :: "parser_state list"
  y_marks :: "nat list"
  y_tag_directives :: "(string \<times> string) list"

type_synonym parsed = "(yaml_event \<times> yaml_parser) outcome"

definition peek_token :: "yaml_parser \<Rightarrow> yaml_token outcome" where
  "peek_token p = (case y_tokens p of [] \<Rightarrow> Err (y_scan_error p) | t # _ \<Rightarrow> Ok t)"

definition skip_token :: "yaml_parser \<Rightarrow> yaml_parser" where
  "skip_token p =
     (case y_tokens p of
        [] \<Rightarrow> p
      | t # ts \<Rightarrow> p\<lparr>y_tokens := ts, y_stream_end := (t_typ t = STREAM_END_TOKEN)\<rparr>)"

text \<open>The error of \<open>parser.fail\<close> for a problem and the lines of its mark and of the mark of its context.\<close>

definition yaml_failure :: "nat \<Rightarrow> nat \<Rightarrow> string \<Rightarrow> go_error" where
  "yaml_failure problem_line context_line problem =
     (let line = (if problem_line \<noteq> 0 then problem_line else context_line)
      in PlainError (''yaml: '' @ (if line \<noteq> 0 then ''line '' @ itoa (int line) @ '': '' else []) @
           (if length problem > 0 then problem else ''unknown problem parsing YAML content'')))"

definition set_parser_error :: "string \<Rightarrow> nat \<Rightarrow> 'a outcome" where
  "set_parser_error problem mark = Err (yaml_failure mark 0 problem)"

definition set_parser_error_context :: "string \<Rightarrow> nat \<Rightarrow> string \<Rightarrow> nat \<Rightarrow> 'a outcome" where
  "set_parser_error_context ctxt context_mark problem mark = Err (yaml_failure mark context_mark problem)"

text \<open>\<open>parser.state = parser.states[len(parser.states)-1]\<close> with the shortening of the stack, and the stack of marks.\<close>

definition pop_state :: "yaml_parser \<Rightarrow> yaml_parser outcome" where
  "pop_state p = (case y_states p of [] \<Rightarrow> Panic IndexOutOfRange | s # ss \<Rightarrow> Ok (p\<lparr>y_state := s, y_states := ss\<rparr>))"

definition push_state :: "parser_state \<Rightarrow> yaml_parser \<Rightarrow> yaml_parser" where
  "push_state s p = p\<lparr>y_states := s # y_states p\<rparr>"

definition pop_mark :: "yaml_parser \<Rightarrow> (nat \<times> yaml_parser) outcome" where
  "pop_mark p = (case y_marks p of [] \<Rightarrow> Panic IndexOutOfRange | m # ms \<Rightarrow> Ok (m, p\<lparr>y_marks := ms\<rparr>))"

text \<open>The first step into a collection: its opening token, which has been looked at before, is skipped.\<close>

definition enter_collection :: "bool \<Rightarrow> yaml_parser \<Rightarrow> yaml_parser outcome" where
  "enter_collection first p =
     (if first then
        (case y_tokens p of
           [] \<Rightarrow> Panic NilDereference
         | t # _ \<Rightarrow> Ok (skip_token (p\<lparr>y_marks := t_start t # y_marks p\<rparr>)))
      else Ok p)"

definition process_empty_scalar :: "yaml_parser \<Rightarrow> nat \<Rightarrow> parsed" where
  "process_empty_scalar p mark = Ok (\<lparr>e_typ = SCALAR_EVENT None [] [] True False PLAIN_SCALAR, e_start = mark\<rparr>, p)"

section \<open>Documents\<close>

definition append_tag_directive :: "yaml_parser \<Rightarrow> string \<times> string \<Rightarrow> bool \<Rightarrow> nat \<Rightarrow> yaml_parser outcome" where
  "append_tag_directive p v allow_duplicates mark =
     (if fst v \<in> fst ` set (y_tag_directives p)
      then (if allow_duplicates then Ok p else set_parser_error ''found duplicate %TAG directive'' mark)
      else Ok (p\<lparr>y_tag_directives := y_tag_directives p @ [v]\<rparr>))"

definition default_tag_directives :: "(string \<times> string) list" where
  "default_tag_directives = [(''!'', ''!''), (''!!'', ''tag:yaml.org,2002:'')]"

fun append_defaults :: "yaml_parser \<Rightarrow> (string \<times> string) list \<Rightarrow> nat \<Rightarrow> yaml_parser outcome" where
  "append_defaults p [] mark = Ok p"
| "append_defaults p (v # vs) mark = and_then (append_tag_directive p v True mark) (\<lambda>p. append_defaults p vs mark)"

lemma append_tag_directive_tokens: "append_tag_directive p v d m = Ok p' \<Longrightarrow> y_tokens p' = y_tokens p"
  by (auto simp: append_tag_directive_def set_parser_error_def split: if_splits)

lemma skip_token_length: "peek_token p = Ok t \<Longrightarrow> length (y_tokens (skip_token p)) < length (y_tokens p)"
  by (auto simp: peek_token_def skip_token_def split: list.splits)

function process_directives ::
  "yaml_parser \<Rightarrow> (int \<times> int) option \<Rightarrow> (string \<times> string) list \<Rightarrow> (yaml_parser \<times> (int \<times> int) option \<times> (string \<times> string) list) outcome"
where
  "process_directives p version tags =
     and_then (peek_token p) (\<lambda>token.
       case t_typ token of
         VERSION_DIRECTIVE_TOKEN major minor \<Rightarrow>
           if version \<noteq> None then set_parser_error ''found duplicate %YAML directive'' (t_start token)
           else if major \<noteq> 1 \<or> minor \<noteq> 1 then set_parser_error ''found incompatible YAML document'' (t_start token)
           else process_directives (skip_token p) (Some (major, minor)) tags
       | TAG_DIRECTIVE_TOKEN handle prefix \<Rightarrow>
           and_then (append_tag_directive p (handle, prefix) False (t_start token)) (\<lambda>p'.
             process_directives (skip_token p') version (tags @ [(handle, prefix)]))
       | _ \<Rightarrow> and_then (append_defaults p default_tag_directives (t_start token)) (\<lambda>p. Ok (p, version, tags)))"
  by pat_completeness auto
termination
proof (relation "measure (\<lambda>(p, _). length (y_tokens p))")
  fix p v tags t handle prefix p'
  assume "peek_token p = Ok t" and "append_tag_directive p (handle, prefix) False (t_start t) = Ok p'"
  then have "y_tokens p' = y_tokens p" and "peek_token p' = Ok t"
    by (auto simp: append_tag_directive_tokens peek_token_def split: list.splits)
  with skip_token_length [of p' t]
  show "((skip_token p', v, tags @ [(handle, prefix)]), p, v, tags) \<in> measure (\<lambda>(p, _). length (y_tokens p))" by simp
qed (auto simp: skip_token_length)

function skip_document_ends :: "yaml_parser \<Rightarrow> yaml_parser outcome" where
  "skip_document_ends p =
     and_then (peek_token p) (\<lambda>token. if t_typ token = DOCUMENT_END_TOKEN then skip_document_ends (skip_token p) else Ok p)"
  by pat_completeness auto
termination by (relation "measure (\<lambda>p. length (y_tokens p))") (auto simp: skip_token_length)

declare process_directives.simps [simp del] skip_document_ends.simps [simp del]

definition parse_stream_start :: "yaml_parser \<Rightarrow> parsed" where
  "parse_stream_start p =
     and_then (peek_token p) (\<lambda>token.
       if t_typ token \<noteq> STREAM_START_TOKEN then set_parser_error ''did not find expected <stream-start>'' (t_start token)
       else Ok (\<lparr>e_typ = STREAM_START_EVENT, e_start = t_start token\<rparr>, skip_token (p\<lparr>y_state := PARSE_IMPLICIT_DOCUMENT_START\<rparr>)))"

definition is_directive :: "token_type \<Rightarrow> bool" where
  "is_directive t \<longleftrightarrow> (case t of VERSION_DIRECTIVE_TOKEN _ _ \<Rightarrow> True | TAG_DIRECTIVE_TOKEN _ _ \<Rightarrow> True | _ \<Rightarrow> False)"

text \<open>The start of a document without and with a \<open>DOCUMENT-START\<close>, and what follows the extra ends of documents.\<close>

definition implicit_document :: "yaml_token \<Rightarrow> yaml_parser \<Rightarrow> parsed" where
  "implicit_document token p =
     and_then (process_directives p None []) (\<lambda>(p, _, _).
       Ok (\<lparr>e_typ = DOCUMENT_START_EVENT None [], e_start = t_start token\<rparr>,
           (push_state PARSE_DOCUMENT_END p)\<lparr>y_state := PARSE_BLOCK_NODE\<rparr>))"

definition explicit_document :: "yaml_token \<Rightarrow> yaml_parser \<Rightarrow> parsed" where
  "explicit_document token p =
     and_then (process_directives p None []) (\<lambda>(p, version, tags).
     and_then (peek_token p) (\<lambda>token'.
       if t_typ token' \<noteq> DOCUMENT_START_TOKEN then set_parser_error ''did not find expected <document start>'' (t_start token')
       else Ok (\<lparr>e_typ = DOCUMENT_START_EVENT version tags, e_start = t_start token\<rparr>,
                skip_token ((push_state PARSE_DOCUMENT_END p)\<lparr>y_state := PARSE_DOCUMENT_CONTENT\<rparr>))))"

definition document_start_at :: "bool \<Rightarrow> yaml_parser \<Rightarrow> parsed" where
  "document_start_at implicit p =
     and_then (peek_token p) (\<lambda>token.
       if implicit \<and> \<not> is_directive (t_typ token) \<and> t_typ token \<noteq> DOCUMENT_START_TOKEN \<and> t_typ token \<noteq> STREAM_END_TOKEN
       then implicit_document token p
       else if t_typ token \<noteq> STREAM_END_TOKEN then explicit_document token p
       else Ok (\<lparr>e_typ = STREAM_END_EVENT, e_start = t_start token\<rparr>, skip_token (p\<lparr>y_state := PARSE_END\<rparr>)))"

definition parse_document_start :: "yaml_parser \<Rightarrow> bool \<Rightarrow> parsed" where
  "parse_document_start p implicit =
     and_then (if implicit then Ok p else skip_document_ends p) (document_start_at implicit)"

definition parse_document_end :: "yaml_parser \<Rightarrow> parsed" where
  "parse_document_end p =
     and_then (peek_token p) (\<lambda>token.
       let found = (t_typ token = DOCUMENT_END_TOKEN);
           p = (if found then skip_token p else p)
       in Ok (\<lparr>e_typ = DOCUMENT_END_EVENT (\<not> found), e_start = t_start token\<rparr>,
              p\<lparr>y_tag_directives := [], y_state := PARSE_DOCUMENT_START\<rparr>))"

section \<open>Nodes\<close>

text \<open>The properties of a node: its anchor, its tag (handle, suffix and mark), and its start mark.\<close>

definition node_properties ::
  "yaml_parser \<Rightarrow> (string option \<times> (string \<times> string \<times> nat) option \<times> nat \<times> yaml_parser) outcome"
where
  "node_properties p =
     and_then (peek_token p) (\<lambda>token.
       case t_typ token of
         ANCHOR_TOKEN a \<Rightarrow>
           let p = skip_token p in
           and_then (peek_token p) (\<lambda>token'.
             case t_typ token' of
               TAG_TOKEN handle suffix \<Rightarrow>
                 let p = skip_token p in
                 and_then (peek_token p) (\<lambda>_. Ok (Some a, Some (handle, suffix, t_start token'), t_start token, p))
             | _ \<Rightarrow> Ok (Some a, None, t_start token, p))
       | TAG_TOKEN handle suffix \<Rightarrow>
           let p = skip_token p in
           and_then (peek_token p) (\<lambda>token'.
             case t_typ token' of
               ANCHOR_TOKEN a \<Rightarrow>
                 let p = skip_token p in
                 and_then (peek_token p) (\<lambda>_. Ok (Some a, Some (handle, suffix, t_start token), t_start token, p))
             | _ \<Rightarrow> Ok (None, Some (handle, suffix, t_start token), t_start token, p))
       | _ \<Rightarrow> Ok (None, None, t_start token, p))"

definition node_tag :: "yaml_parser \<Rightarrow> (string \<times> string \<times> nat) option \<Rightarrow> nat \<Rightarrow> string outcome" where
  "node_tag p tag_token start_mark =
     (case tag_token of
        None \<Rightarrow> Ok []
      | Some (handle, suffix, tag_mark) \<Rightarrow>
          if length handle = 0 then Ok suffix
          else
            let tag = (case map_of (y_tag_directives p) handle of Some prefix \<Rightarrow> prefix @ suffix | None \<Rightarrow> [])
            in if length tag = 0
               then set_parser_error_context ''while parsing a node'' start_mark ''found undefined tag handle'' tag_mark
               else Ok tag)"

definition node_content :: "yaml_parser \<Rightarrow> bool \<Rightarrow> bool \<Rightarrow> string option \<Rightarrow> string \<Rightarrow> nat \<Rightarrow> parsed" where
  "node_content p block indentless_sequence anchor tag start_mark =
     and_then (peek_token p) (\<lambda>token.
       let implicit = (length tag = 0);
           sequence_start = (\<lambda>style s. Ok (\<lparr>e_typ = SEQUENCE_START_EVENT anchor tag implicit style, e_start = start_mark\<rparr>, p\<lparr>y_state := s\<rparr>));
           mapping_start = (\<lambda>style s. Ok (\<lparr>e_typ = MAPPING_START_EVENT anchor tag implicit style, e_start = start_mark\<rparr>, p\<lparr>y_state := s\<rparr>));
           empty_or_fail =
             (if (case anchor of Some a \<Rightarrow> length a > 0 | None \<Rightarrow> False) \<or> length tag > 0 then
                and_then (pop_state p) (\<lambda>p.
                  Ok (\<lparr>e_typ = SCALAR_EVENT anchor tag [] implicit False PLAIN_SCALAR, e_start = start_mark\<rparr>, p))
              else set_parser_error_context (if block then ''while parsing a block node'' else ''while parsing a flow node'') start_mark
                     ''did not find expected node content'' (t_start token))
       in if indentless_sequence \<and> t_typ token = BLOCK_ENTRY_TOKEN then sequence_start BLOCK_STYLE PARSE_INDENTLESS_SEQUENCE_ENTRY
          else case t_typ token of
            SCALAR_TOKEN v style \<Rightarrow>
              let plain_implicit = (length tag = 0 \<and> style = PLAIN_SCALAR \<or> tag = ''!'');
                  quoted_implicit = (\<not> plain_implicit \<and> length tag = 0)
              in and_then (pop_state p) (\<lambda>p.
                   Ok (\<lparr>e_typ = SCALAR_EVENT anchor tag v plain_implicit quoted_implicit style, e_start = start_mark\<rparr>, skip_token p))
          | FLOW_SEQUENCE_START_TOKEN \<Rightarrow> sequence_start FLOW_STYLE PARSE_FLOW_SEQUENCE_FIRST_ENTRY
          | FLOW_MAPPING_START_TOKEN \<Rightarrow> mapping_start FLOW_STYLE PARSE_FLOW_MAPPING_FIRST_KEY
          | BLOCK_SEQUENCE_START_TOKEN \<Rightarrow>
              if block then sequence_start BLOCK_STYLE PARSE_BLOCK_SEQUENCE_FIRST_ENTRY else empty_or_fail
          | BLOCK_MAPPING_START_TOKEN \<Rightarrow>
              if block then mapping_start BLOCK_STYLE PARSE_BLOCK_MAPPING_FIRST_KEY else empty_or_fail
          | _ \<Rightarrow> empty_or_fail)"

definition parse_node :: "yaml_parser \<Rightarrow> bool \<Rightarrow> bool \<Rightarrow> parsed" where
  "parse_node p block indentless_sequence =
     and_then (peek_token p) (\<lambda>token.
       case t_typ token of
         ALIAS_TOKEN a \<Rightarrow>
           and_then (pop_state p) (\<lambda>p. Ok (\<lparr>e_typ = ALIAS_EVENT a, e_start = t_start token\<rparr>, skip_token p))
       | _ \<Rightarrow>
           and_then (node_properties p) (\<lambda>(anchor, tag_token, start_mark, p).
           and_then (node_tag p tag_token start_mark) (\<lambda>tag.
             node_content p block indentless_sequence anchor tag start_mark)))"

definition parse_document_content :: "yaml_parser \<Rightarrow> parsed" where
  "parse_document_content p =
     and_then (peek_token p) (\<lambda>token.
       if is_directive (t_typ token) \<or> t_typ token \<in> {DOCUMENT_START_TOKEN, DOCUMENT_END_TOKEN, STREAM_END_TOKEN} then
         and_then (pop_state p) (\<lambda>p. process_empty_scalar p (t_start token))
       else parse_node p True False)"

section \<open>Block collections\<close>

text \<open>The end of a collection.\<close>

definition close_collection :: "event_type \<Rightarrow> yaml_token \<Rightarrow> yaml_parser \<Rightarrow> parsed" where
  "close_collection ev token p =
     and_then (pop_state p) (\<lambda>p. and_then (pop_mark p) (\<lambda>(_, p). Ok (\<lparr>e_typ = ev, e_start = t_start token\<rparr>, skip_token p)))"

definition parse_block_sequence_entry :: "yaml_parser \<Rightarrow> bool \<Rightarrow> parsed" where
  "parse_block_sequence_entry p first =
     and_then (enter_collection first p) (\<lambda>p.
     and_then (peek_token p) (\<lambda>token.
       if t_typ token = BLOCK_ENTRY_TOKEN then
         let p = skip_token p in
         and_then (peek_token p) (\<lambda>token'.
           if t_typ token' \<notin> {BLOCK_ENTRY_TOKEN, BLOCK_END_TOKEN} then parse_node (push_state PARSE_BLOCK_SEQUENCE_ENTRY p) True False
           else process_empty_scalar (p\<lparr>y_state := PARSE_BLOCK_SEQUENCE_ENTRY\<rparr>) (t_end token))
       else if t_typ token = BLOCK_END_TOKEN then close_collection SEQUENCE_END_EVENT token p
       else and_then (pop_mark p) (\<lambda>(context_mark, p).
         set_parser_error_context ''while parsing a block collection'' context_mark (''did not find expected '' @ [CHR 0x27] @ ''-'' @ [CHR 0x27] @ '' indicator'') (t_start token))))"

definition parse_indentless_sequence_entry :: "yaml_parser \<Rightarrow> parsed" where
  "parse_indentless_sequence_entry p =
     and_then (peek_token p) (\<lambda>token.
       if t_typ token = BLOCK_ENTRY_TOKEN then
         let p = skip_token p in
         and_then (peek_token p) (\<lambda>token'.
           if t_typ token' \<notin> {BLOCK_ENTRY_TOKEN, KEY_TOKEN, VALUE_TOKEN, BLOCK_END_TOKEN}
           then parse_node (push_state PARSE_INDENTLESS_SEQUENCE_ENTRY p) True False
           else process_empty_scalar (p\<lparr>y_state := PARSE_INDENTLESS_SEQUENCE_ENTRY\<rparr>) (t_end token))
       else and_then (pop_state p) (\<lambda>p. Ok (\<lparr>e_typ = SEQUENCE_END_EVENT, e_start = t_start token\<rparr>, p)))"

definition parse_block_mapping_key :: "yaml_parser \<Rightarrow> bool \<Rightarrow> parsed" where
  "parse_block_mapping_key p first =
     and_then (enter_collection first p) (\<lambda>p.
     and_then (peek_token p) (\<lambda>token.
       if t_typ token = KEY_TOKEN then
         let p = skip_token p in
         and_then (peek_token p) (\<lambda>token'.
           if t_typ token' \<notin> {KEY_TOKEN, VALUE_TOKEN, BLOCK_END_TOKEN} then parse_node (push_state PARSE_BLOCK_MAPPING_VALUE p) True True
           else process_empty_scalar (p\<lparr>y_state := PARSE_BLOCK_MAPPING_VALUE\<rparr>) (t_end token))
       else if t_typ token = BLOCK_END_TOKEN then close_collection MAPPING_END_EVENT token p
       else and_then (pop_mark p) (\<lambda>(context_mark, p).
         set_parser_error_context ''while parsing a block mapping'' context_mark ''did not find expected key'' (t_start token))))"

definition parse_block_mapping_value :: "yaml_parser \<Rightarrow> parsed" where
  "parse_block_mapping_value p =
     and_then (peek_token p) (\<lambda>token.
       if t_typ token = VALUE_TOKEN then
         let p = skip_token p in
         and_then (peek_token p) (\<lambda>token'.
           if t_typ token' \<notin> {KEY_TOKEN, VALUE_TOKEN, BLOCK_END_TOKEN} then parse_node (push_state PARSE_BLOCK_MAPPING_KEY p) True True
           else process_empty_scalar (p\<lparr>y_state := PARSE_BLOCK_MAPPING_KEY\<rparr>) (t_end token))
       else process_empty_scalar (p\<lparr>y_state := PARSE_BLOCK_MAPPING_KEY\<rparr>) (t_start token))"

section \<open>Flow collections\<close>

text \<open>The comma before an entry that is not the first; \<open>None\<close> if there is none.\<close>

definition flow_separator :: "bool \<Rightarrow> yaml_token \<Rightarrow> yaml_parser \<Rightarrow> (yaml_token \<times> yaml_parser) option outcome" where
  "flow_separator first token p =
     (if first then Ok (Some (token, p))
      else if t_typ token = FLOW_ENTRY_TOKEN then
        let p = skip_token p in and_then (peek_token p) (\<lambda>token. Ok (Some (token, p)))
      else Ok None)"

definition parse_flow_sequence_entry :: "yaml_parser \<Rightarrow> bool \<Rightarrow> parsed" where
  "parse_flow_sequence_entry p first =
     and_then (enter_collection first p) (\<lambda>p.
     and_then (peek_token p) (\<lambda>token.
       if t_typ token \<noteq> FLOW_SEQUENCE_END_TOKEN then
         and_then (flow_separator first token p) (\<lambda>r.
           case r of
             None \<Rightarrow> and_then (pop_mark p) (\<lambda>(context_mark, p).
               set_parser_error_context ''while parsing a flow sequence'' context_mark
                 (''did not find expected '' @ [CHR 0x27] @ '','' @ [CHR 0x27] @ '' or '' @ [CHR 0x27] @ '']'' @ [CHR 0x27]) (t_start token))
           | Some (token, p) \<Rightarrow>
               if t_typ token = KEY_TOKEN then
                 Ok (\<lparr>e_typ = MAPPING_START_EVENT None [] True FLOW_STYLE, e_start = t_start token\<rparr>,
                     skip_token (p\<lparr>y_state := PARSE_FLOW_SEQUENCE_ENTRY_MAPPING_KEY\<rparr>))
               else if t_typ token \<noteq> FLOW_SEQUENCE_END_TOKEN then parse_node (push_state PARSE_FLOW_SEQUENCE_ENTRY p) False False
               else close_collection SEQUENCE_END_EVENT token p)
       else close_collection SEQUENCE_END_EVENT token p))"

definition parse_flow_sequence_entry_mapping_key :: "yaml_parser \<Rightarrow> parsed" where
  "parse_flow_sequence_entry_mapping_key p =
     and_then (peek_token p) (\<lambda>token.
       if t_typ token \<notin> {VALUE_TOKEN, FLOW_ENTRY_TOKEN, FLOW_SEQUENCE_END_TOKEN}
       then parse_node (push_state PARSE_FLOW_SEQUENCE_ENTRY_MAPPING_VALUE p) False False
       else process_empty_scalar ((skip_token p)\<lparr>y_state := PARSE_FLOW_SEQUENCE_ENTRY_MAPPING_VALUE\<rparr>) (t_end token))"

definition parse_flow_sequence_entry_mapping_value :: "yaml_parser \<Rightarrow> parsed" where
  "parse_flow_sequence_entry_mapping_value p =
     and_then (peek_token p) (\<lambda>token.
       if t_typ token = VALUE_TOKEN then
         let p = skip_token p in
         and_then (peek_token p) (\<lambda>token'.
           if t_typ token' \<notin> {FLOW_ENTRY_TOKEN, FLOW_SEQUENCE_END_TOKEN}
           then parse_node (push_state PARSE_FLOW_SEQUENCE_ENTRY_MAPPING_END p) False False
           else process_empty_scalar (p\<lparr>y_state := PARSE_FLOW_SEQUENCE_ENTRY_MAPPING_END\<rparr>) (t_start token))
       else process_empty_scalar (p\<lparr>y_state := PARSE_FLOW_SEQUENCE_ENTRY_MAPPING_END\<rparr>) (t_start token))"

definition parse_flow_sequence_entry_mapping_end :: "yaml_parser \<Rightarrow> parsed" where
  "parse_flow_sequence_entry_mapping_end p =
     and_then (peek_token p) (\<lambda>token.
       Ok (\<lparr>e_typ = MAPPING_END_EVENT, e_start = t_start token\<rparr>, p\<lparr>y_state := PARSE_FLOW_SEQUENCE_ENTRY\<rparr>))"

definition parse_flow_mapping_key :: "yaml_parser \<Rightarrow> bool \<Rightarrow> parsed" where
  "parse_flow_mapping_key p first =
     and_then (enter_collection first p) (\<lambda>p.
     and_then (peek_token p) (\<lambda>token.
       if t_typ token \<noteq> FLOW_MAPPING_END_TOKEN then
         and_then (flow_separator first token p) (\<lambda>r.
           case r of
             None \<Rightarrow> and_then (pop_mark p) (\<lambda>(context_mark, p).
               set_parser_error_context ''while parsing a flow mapping'' context_mark
                 (''did not find expected '' @ [CHR 0x27] @ '','' @ [CHR 0x27] @ '' or '' @ [CHR 0x27] @ ''}'' @ [CHR 0x27]) (t_start token))
           | Some (token, p) \<Rightarrow>
               if t_typ token = KEY_TOKEN then
                 let p = skip_token p in
                 and_then (peek_token p) (\<lambda>token'.
                   if t_typ token' \<notin> {VALUE_TOKEN, FLOW_ENTRY_TOKEN, FLOW_MAPPING_END_TOKEN}
                   then parse_node (push_state PARSE_FLOW_MAPPING_VALUE p) False False
                   else process_empty_scalar (p\<lparr>y_state := PARSE_FLOW_MAPPING_VALUE\<rparr>) (t_start token'))
               else if t_typ token \<noteq> FLOW_MAPPING_END_TOKEN
                 then parse_node (push_state PARSE_FLOW_MAPPING_EMPTY_VALUE p) False False
               else close_collection MAPPING_END_EVENT token p)
       else close_collection MAPPING_END_EVENT token p))"

definition parse_flow_mapping_value :: "yaml_parser \<Rightarrow> bool \<Rightarrow> parsed" where
  "parse_flow_mapping_value p no_value =
     and_then (peek_token p) (\<lambda>token.
       if no_value then process_empty_scalar (p\<lparr>y_state := PARSE_FLOW_MAPPING_KEY\<rparr>) (t_start token)
       else if t_typ token = VALUE_TOKEN then
         let p = skip_token p in
         and_then (peek_token p) (\<lambda>token'.
           if t_typ token' \<notin> {FLOW_ENTRY_TOKEN, FLOW_MAPPING_END_TOKEN}
           then parse_node (push_state PARSE_FLOW_MAPPING_KEY p) False False
           else process_empty_scalar (p\<lparr>y_state := PARSE_FLOW_MAPPING_KEY\<rparr>) (t_start token'))
       else process_empty_scalar (p\<lparr>y_state := PARSE_FLOW_MAPPING_KEY\<rparr>) (t_start token))"

section \<open>The machine\<close>

fun state_machine_at :: "parser_state \<Rightarrow> yaml_parser \<Rightarrow> parsed" where
  "state_machine_at PARSE_STREAM_START p = parse_stream_start p"
| "state_machine_at PARSE_IMPLICIT_DOCUMENT_START p = parse_document_start p True"
| "state_machine_at PARSE_DOCUMENT_START p = parse_document_start p False"
| "state_machine_at PARSE_DOCUMENT_CONTENT p = parse_document_content p"
| "state_machine_at PARSE_DOCUMENT_END p = parse_document_end p"
| "state_machine_at PARSE_BLOCK_NODE p = parse_node p True False"
| "state_machine_at PARSE_BLOCK_NODE_OR_INDENTLESS_SEQUENCE p = parse_node p True True"
| "state_machine_at PARSE_FLOW_NODE p = parse_node p False False"
| "state_machine_at PARSE_BLOCK_SEQUENCE_FIRST_ENTRY p = parse_block_sequence_entry p True"
| "state_machine_at PARSE_BLOCK_SEQUENCE_ENTRY p = parse_block_sequence_entry p False"
| "state_machine_at PARSE_INDENTLESS_SEQUENCE_ENTRY p = parse_indentless_sequence_entry p"
| "state_machine_at PARSE_BLOCK_MAPPING_FIRST_KEY p = parse_block_mapping_key p True"
| "state_machine_at PARSE_BLOCK_MAPPING_KEY p = parse_block_mapping_key p False"
| "state_machine_at PARSE_BLOCK_MAPPING_VALUE p = parse_block_mapping_value p"
| "state_machine_at PARSE_FLOW_SEQUENCE_FIRST_ENTRY p = parse_flow_sequence_entry p True"
| "state_machine_at PARSE_FLOW_SEQUENCE_ENTRY p = parse_flow_sequence_entry p False"
| "state_machine_at PARSE_FLOW_SEQUENCE_ENTRY_MAPPING_KEY p = parse_flow_sequence_entry_mapping_key p"
| "state_machine_at PARSE_FLOW_SEQUENCE_ENTRY_MAPPING_VALUE p = parse_flow_sequence_entry_mapping_value p"
| "state_machine_at PARSE_FLOW_SEQUENCE_ENTRY_MAPPING_END p = parse_flow_sequence_entry_mapping_end p"
| "state_machine_at PARSE_FLOW_MAPPING_FIRST_KEY p = parse_flow_mapping_key p True"
| "state_machine_at PARSE_FLOW_MAPPING_KEY p = parse_flow_mapping_key p False"
| "state_machine_at PARSE_FLOW_MAPPING_VALUE p = parse_flow_mapping_value p False"
| "state_machine_at PARSE_FLOW_MAPPING_EMPTY_VALUE p = parse_flow_mapping_value p True"
| "state_machine_at PARSE_END p = Panic (ExplicitPanic ''invalid parser state'')"

definition state_machine :: "yaml_parser \<Rightarrow> parsed" where
  "state_machine p = state_machine_at (y_state p) p"

definition parser_parse :: "yaml_parser \<Rightarrow> parsed" where
  "parser_parse p =
     (if y_stream_end p \<or> y_state p = PARSE_END then Ok (\<lparr>e_typ = NO_EVENT, e_start = 0\<rparr>, p)
      else state_machine p)"

text \<open>The parser before the first event.\<close>

definition new_parser :: "yaml_token list \<Rightarrow> go_error \<Rightarrow> yaml_parser" where
  "new_parser tokens err =
     \<lparr>y_tokens = tokens, y_scan_error = err, y_stream_end = False, y_state = PARSE_STREAM_START, y_states = [], y_marks = [],
      y_tag_directives = []\<rparr>"

end
