(* ===== verification/YamlReader.thy ===== *)
theory YamlReader
  imports YamlParser
begin

text \<open>
  The reader of the YAML library, \<open>go-yaml/yaml/readerc.go\<close>, and the steps over single characters with which
  \<open>scannerc.go\<close> is written. The working buffer from its position on is the list of the characters ahead, each as its
  UTF-8 bytes; the byte at a position is looked at only where a character starts or behind bytes that are known to be
  ASCII, so that a comparison of bytes is one of characters. A look past the end of the buffer is the panic of Go. The
  functions have the names of the source without \<open>yaml_parser_\<close>.
\<close>

section \<open>The state of reader and scanner\<close>

datatype encoding = ANY_ENCODING | UTF8_ENCODING | UTF16LE_ENCODING | UTF16BE_ENCODING

text \<open>A simple key with the line, the column and the index of its mark.\<close>

record simple_key =
  k_possible :: bool
  k_required :: bool
  k_token_number :: nat
  k_line :: nat
  k_column :: nat
  k_index :: nat

text \<open>
  \<open>yaml_parser_t\<close> up to the scanner: the input that is not read yet, the raw buffer, the characters ahead, whether the
  working buffer starts with a byte order mark, the mark, the queue of tokens from its head, and the stacks with their top
  first.
\<close>

record scanner =
  s_input :: string
  s_eof :: bool
  s_raw :: string
  s_encoding :: encoding
  s_ahead :: "string list"
  s_bom :: bool
  s_index :: nat
  s_line :: nat
  s_column :: nat
  s_started :: bool
  s_tokens :: "yaml_token list"
  s_parsed :: nat
  s_flow_level :: nat
  s_allowed :: bool
  s_keys :: "simple_key list"
  s_indent :: int
  s_indents :: "int list"

definition no_key :: simple_key where
  "no_key = \<lparr>k_possible = False, k_required = False, k_token_number = 0, k_line = 0, k_column = 0, k_index = 0\<rparr>"

definition new_scanner :: "string \<Rightarrow> scanner" where
  "new_scanner input =
     \<lparr>s_input = input, s_eof = False, s_raw = [], s_encoding = ANY_ENCODING, s_ahead = [], s_bom = False, s_index = 0,
      s_line = 0, s_column = 0, s_started = False, s_tokens = [], s_parsed = 0, s_flow_level = 0, s_allowed = False,
      s_keys = [], s_indent = 0, s_indents = []\<rparr>"

section \<open>Decoding\<close>

definition width :: "char \<Rightarrow> nat" where
  "width c =
     (let b = (of_char c :: nat) in
      if b < 128 then 1 else if b div 32 = 6 then 2 else if b div 16 = 14 then 3 else if b div 8 = 30 then 4 else 0)"

text \<open>What comes next in the raw buffer: a character with its value and width, too few bytes, or an error.\<close>

datatype decoded = Decoded nat nat | Incomplete | BadInput string

fun trailing_octets :: "nat \<Rightarrow> string \<Rightarrow> nat option" where
  "trailing_octets v [] = Some v"
| "trailing_octets v (c # cs) =
     (let b = (of_char c :: nat) in if b div 64 \<noteq> 2 then None else trailing_octets (v * 64 + b mod 64) cs)"

definition decode_utf8 :: "bool \<Rightarrow> string \<Rightarrow> decoded" where
  "decode_utf8 eof raw =
     (let octet = (of_char (hd raw) :: nat); w = width (hd raw) in
      if w = 0 then BadInput ''invalid leading UTF-8 octet''
      else if length raw < w then if eof then BadInput ''incomplete UTF-8 octet sequence'' else Incomplete
      else
        let lead = (if w = 1 then octet else if w = 2 then octet mod 32 else if w = 3 then octet mod 16 else octet mod 8) in
        case trailing_octets lead (take (w - 1) (tl raw)) of
          None \<Rightarrow> BadInput ''invalid trailing UTF-8 octet''
        | Some v \<Rightarrow>
            if \<not> (w = 1 \<or> w = 2 \<and> 0x80 \<le> v \<or> w = 3 \<and> 0x800 \<le> v \<or> w = 4 \<and> 0x10000 \<le> v)
            then BadInput ''invalid length of a UTF-8 sequence''
            else if 0xD800 \<le> v \<and> v \<le> 0xDFFF \<or> 0x10FFFF < v then BadInput ''invalid Unicode character''
            else Decoded v w)"

definition utf16_unit :: "bool \<Rightarrow> string \<Rightarrow> nat" where
  "utf16_unit little raw =
     (let a = of_char (raw ! 0); b = of_char (raw ! 1) in if little then a + 256 * b else b + 256 * a)"

definition decode_utf16 :: "bool \<Rightarrow> bool \<Rightarrow> string \<Rightarrow> decoded" where
  "decode_utf16 little eof raw =
     (if length raw < 2 then if eof then BadInput ''incomplete UTF-16 character'' else Incomplete
      else
        let v = utf16_unit little raw in
        if v div 1024 = 55 then BadInput ''unexpected low surrogate area''
        else if v div 1024 = 54 then
          if length raw < 4 then if eof then BadInput ''incomplete UTF-16 surrogate pair'' else Incomplete
          else
            let v' = utf16_unit little (drop 2 raw) in
            if v' div 1024 \<noteq> 55 then BadInput ''expected low surrogate area''
            else Decoded (0x10000 + (v mod 1024) * 1024 + v' mod 1024) 4
        else Decoded v 2)"

definition decode_next :: "encoding \<Rightarrow> bool \<Rightarrow> string \<Rightarrow> decoded outcome" where
  "decode_next enc eof raw =
     (case enc of
        UTF8_ENCODING \<Rightarrow> Ok (decode_utf8 eof raw)
      | UTF16LE_ENCODING \<Rightarrow> Ok (decode_utf16 True eof raw)
      | UTF16BE_ENCODING \<Rightarrow> Ok (decode_utf16 False eof raw)
      | ANY_ENCODING \<Rightarrow> Panic (ExplicitPanic ''impossible''))"

definition allowed_value :: "nat \<Rightarrow> bool" where
  "allowed_value v \<longleftrightarrow>
     v = 0x09 \<or> v = 0x0A \<or> v = 0x0D \<or> 0x20 \<le> v \<and> v \<le> 0x7E \<or> v = 0x85 \<or> 0xA0 \<le> v \<and> v \<le> 0xD7FF \<or>
     0xE000 \<le> v \<and> v \<le> 0xFFFD \<or> 0x10000 \<le> v \<and> v \<le> 0x10FFFF"

text \<open>A character as it is put into the buffer.\<close>

definition utf8_bytes :: "nat \<Rightarrow> string" where
  "utf8_bytes v =
     map char_of
      (if v \<le> 0x7F then [v]
       else if v \<le> 0x7FF then [0xC0 + v div 64, 0x80 + v mod 64]
       else if v \<le> 0xFFFF then [0xE0 + v div 4096, 0x80 + v div 64 mod 64, 0x80 + v mod 64]
       else [0xF0 + v div 262144, 0x80 + v div 4096 mod 64, 0x80 + v div 64 mod 64, 0x80 + v mod 64])"

definition reader_error :: "string \<Rightarrow> 'a outcome" where
  "reader_error problem = Err (yaml_failure 0 0 problem)"

lemma decode_next_width: "decode_next enc eof raw = Ok (Decoded v w) \<Longrightarrow> raw \<noteq> [] \<Longrightarrow> 0 < w \<and> w \<le> length raw"
  by (cases raw)
     (auto simp: decode_next_def decode_utf8_def decode_utf16_def width_def Let_def Suc_le_eq split: encoding.splits if_splits option.splits)

text \<open>The loop \<open>inner\<close>: every character of the raw buffer that is complete, and what is left of it.\<close>

function decode_raw :: "encoding \<Rightarrow> bool \<Rightarrow> string \<Rightarrow> (string list \<times> string) outcome" where
  "decode_raw enc eof raw =
     (if raw = [] then Ok ([], []) else
      and_then (decode_next enc eof raw) (\<lambda>d.
        case d of
          BadInput problem \<Rightarrow> reader_error problem
        | Incomplete \<Rightarrow> Ok ([], raw)
        | Decoded v w \<Rightarrow>
            if \<not> allowed_value v then reader_error ''control characters are not allowed''
            else and_then (decode_raw enc eof (drop w raw)) (\<lambda>(cs, rest). Ok (utf8_bytes v # cs, rest))))"
  by pat_completeness auto
termination by (relation "measure (\<lambda>(_, _, raw). length raw)") (auto dest: decode_next_width)

declare decode_raw.simps [simp del]

section \<open>The buffers\<close>

definition input_raw_buffer_size :: nat where "input_raw_buffer_size = 512"

text \<open>\<open>update_raw_buffer\<close> with \<open>yaml_string_read_handler\<close>.\<close>

definition update_raw_buffer :: "scanner \<Rightarrow> scanner" where
  "update_raw_buffer s =
     (let n = input_raw_buffer_size - length (s_raw s) in
      if n = 0 \<or> s_eof s then s
      else if s_input s = [] then s\<lparr>s_eof := True\<rparr>
      else s\<lparr>s_raw := s_raw s @ take n (s_input s), s_input := drop n (s_input s)\<rparr>)"

lemma update_raw_less:
  assumes "\<not> s_eof s" and "length (s_raw s) < input_raw_buffer_size" and "\<not> s_eof (update_raw_buffer s)"
  shows "length (s_input (update_raw_buffer s)) < length (s_input s)"
proof -
  from assms have "s_input s \<noteq> []" by (auto simp: update_raw_buffer_def Let_def split: if_splits)
  with assms show ?thesis by (cases "s_input s") (simp_all add: update_raw_buffer_def Let_def)
qed

function read_three :: "scanner \<Rightarrow> scanner" where
  "read_three s = (if \<not> s_eof s \<and> length (s_raw s) < 3 then read_three (update_raw_buffer s) else s)"
  by pat_completeness auto
termination
  by (relation "measure (\<lambda>s. if s_eof s then 0 else Suc (length (s_input s)))")
     (use update_raw_less in \<open>auto simp: input_raw_buffer_size_def\<close>)

declare read_three.simps [simp del]

definition determine_encoding :: "scanner \<Rightarrow> scanner" where
  "determine_encoding s =
     (let s = read_three s; raw = s_raw s in
      if take 2 raw = [CHR 0xFF, CHR 0xFE] then s\<lparr>s_encoding := UTF16LE_ENCODING, s_raw := drop 2 raw\<rparr>
      else if take 2 raw = [CHR 0xFE, CHR 0xFF] then s\<lparr>s_encoding := UTF16BE_ENCODING, s_raw := drop 2 raw\<rparr>
      else if take 3 raw = [CHR 0xEF, CHR 0xBB, CHR 0xBF] then s\<lparr>s_encoding := UTF8_ENCODING, s_raw := drop 3 raw\<rparr>
      else s\<lparr>s_encoding := UTF8_ENCODING\<rparr>)"

text \<open>The loop of \<open>update_buffer\<close>, which puts a NUL behind the last character.\<close>

definition decode_all :: "scanner \<Rightarrow> scanner outcome" where
  "decode_all s =
     and_then (decode_raw (s_encoding s) (s_eof s) (s_raw s)) (\<lambda>(cs, rest).
       Ok (s\<lparr>s_ahead := s_ahead s @ cs @ (if s_eof s then [[CHR 0x00]] else []), s_raw := rest\<rparr>))"

lemma decode_raw_rest: "decode_raw enc eof raw = Ok (cs, rest) \<Longrightarrow> length cs + length rest \<le> length raw \<and> length rest < 4"
proof (induction enc eof raw arbitrary: cs rest rule: decode_raw.induct)
  case (1 enc eof raw)
  have incomplete: "length raw < 4" if "decode_next enc eof raw = Ok Incomplete"
    using that by (auto simp: decode_next_def decode_utf8_def decode_utf16_def width_def Let_def
        split: encoding.splits if_splits option.splits)
  show ?case
  proof (cases "raw = []")
    case False
    with "1.prems" obtain d where d: "decode_next enc eof raw = Ok d" by (auto simp: decode_raw.simps [of enc eof raw] outcome_simps)
    show ?thesis
    proof (cases d)
      case (Decoded v w)
      with "1.prems" d False obtain cs' where "decode_raw enc eof (drop w raw) = Ok (cs', rest)" "cs = utf8_bytes v # cs'" "allowed_value v"
        by (auto simp: decode_raw.simps [of enc eof raw] outcome_simps reader_error_def split: if_splits)
      with "1.IH" [OF False d Decoded] decode_next_width [of enc eof raw v w] d Decoded False show ?thesis by fastforce
    qed (use "1.prems" d False incomplete in \<open>auto simp: decode_raw.simps [of enc eof raw] reader_error_def\<close>)
  qed (use "1.prems" in \<open>auto simp: decode_raw.simps [of enc eof "[]"]\<close>)
qed

lemma decode_all_fields:
  "decode_all s = Ok s' \<Longrightarrow> s_eof s' = s_eof s \<and> s_input s' = s_input s \<and> length (s_raw s') < 4 \<and>
     length (s_raw s') \<le> length (s_raw s)"
  by (auto simp: decode_all_def outcome_simps dest: decode_raw_rest)

function fill :: "nat \<Rightarrow> bool \<Rightarrow> scanner \<Rightarrow> scanner outcome" where
  "fill n first s =
     (if n \<le> length (s_ahead s) then Ok s else
      and_then (decode_all (if \<not> first \<or> s_raw s = [] then update_raw_buffer s else s)) (\<lambda>s.
        if s_eof s then Ok s else fill n False s))"
  by pat_completeness auto
termination
proof (relation "measures [\<lambda>(_, _, s). if s_eof s then 0 else 1, \<lambda>(_, _, s). length (s_input s),
    \<lambda>(_, _, s). if length (s_raw s) < 4 then 0 else 1, \<lambda>(_, first, _). if first then 1 else 0]", goal_cases)
  case (2 n first s s')
  let ?t = "if \<not> first \<or> s_raw s = [] then update_raw_buffer s else s"
  have s': "s_eof s' = s_eof ?t" "s_input s' = s_input ?t" "length (s_raw s') < 4"
    using decode_all_fields [OF 2(2)] by auto
  have "s_eof s = False" using s'(1) 2(3) by (auto simp: update_raw_buffer_def Let_def split: if_splits)
  moreover have "length (s_input s') < length (s_input s)" if "\<not> first \<or> s_raw s = []" "length (s_raw s) < 4"
    using update_raw_less [of s] that s' 2(3) calculation by (simp add: input_raw_buffer_size_def)
  moreover have "length (s_input s') \<le> length (s_input s)"
    using s'(2) by (auto simp: update_raw_buffer_def Let_def)
  ultimately show ?case using s'(3) 2(3) by (auto simp: le_less)
qed simp

declare fill.simps [simp del]

definition BOM :: string where "BOM = [CHR 0xEF, CHR 0xBB, CHR 0xBF]"

definition update_buffer :: "nat \<Rightarrow> scanner \<Rightarrow> scanner outcome" where
  "update_buffer n s =
     (if s_eof s \<and> s_raw s = [] then Ok s
      else if n \<le> length (s_ahead s) then Ok s
      else
        and_then (fill n True (if s_encoding s = ANY_ENCODING then determine_encoding s else s)) (\<lambda>s.
          Ok (s\<lparr>s_bom := (take 1 (s_ahead s) = [BOM])\<rparr>)))"

definition cache :: "nat \<Rightarrow> scanner \<Rightarrow> scanner outcome" where
  "cache n s = (if n \<le> length (s_ahead s) then Ok s else update_buffer n s)"

section \<open>Characters\<close>

definition is_alpha :: "string \<Rightarrow> bool" where
  "is_alpha c =
     (case c of [a] \<Rightarrow>
        (let n = (of_char a :: nat) in
         48 \<le> n \<and> n \<le> 57 \<or> 65 \<le> n \<and> n \<le> 90 \<or> 97 \<le> n \<and> n \<le> 122 \<or> a = CHR ''_'' \<or> a = CHR ''-'') | _ \<Rightarrow> False)"

definition is_decimal :: "string \<Rightarrow> bool" where
  "is_decimal c = (case c of [a] \<Rightarrow> is_digit a | _ \<Rightarrow> False)"

definition as_digit :: "string \<Rightarrow> nat" where
  "as_digit c = digit_val (hd c)"

definition is_hex :: "string \<Rightarrow> bool" where
  "is_hex c = (case c of [a] \<Rightarrow> hex_val a \<noteq> None | _ \<Rightarrow> False)"

definition as_hex :: "string \<Rightarrow> nat" where
  "as_hex c = (case hex_val (hd c) of Some v \<Rightarrow> v | None \<Rightarrow> 0)"

definition is_z :: "string \<Rightarrow> bool" where "is_z c \<longleftrightarrow> c = [CHR 0x00]"
definition is_tab :: "string \<Rightarrow> bool" where "is_tab c \<longleftrightarrow> c = [CHR 0x09]"
definition is_blank :: "string \<Rightarrow> bool" where "is_blank c \<longleftrightarrow> c = '' '' \<or> is_tab c"

definition is_break :: "string \<Rightarrow> bool" where
  "is_break c \<longleftrightarrow>
     c \<in> {[CHR 0x0D], [CHR 0x0A], [CHR 0xC2, CHR 0x85], [CHR 0xE2, CHR 0x80, CHR 0xA8], [CHR 0xE2, CHR 0x80, CHR 0xA9]}"

definition is_breakz :: "string \<Rightarrow> bool" where "is_breakz c \<longleftrightarrow> is_break c \<or> is_z c"
definition is_blankz :: "string \<Rightarrow> bool" where "is_blankz c \<longleftrightarrow> is_blank c \<or> is_breakz c"

section \<open>Looking and moving\<close>

type_synonym 'a scanned = "('a \<times> scanner) outcome"

definition at :: "scanner \<Rightarrow> nat \<Rightarrow> string outcome" where
  "at s k = idx (s_ahead s) k"

text \<open>A test of the character at a position, and the conjunction and disjunction that stop early.\<close>

definition test :: "(string \<Rightarrow> bool) \<Rightarrow> scanner \<Rightarrow> nat \<Rightarrow> bool outcome" where
  "test P s k = and_then (at s k) (\<lambda>c. Ok (P c))"

definition both :: "bool outcome \<Rightarrow> bool outcome \<Rightarrow> bool outcome" where
  "both x y = and_then x (\<lambda>b. if b then y else Ok False)"

definition quoted :: "string \<Rightarrow> string" where
  "quoted t = [CHR 0x27] @ t @ [CHR 0x27]"

text \<open>The scanner's error, with the line of the construct it was in.\<close>

definition scanner_error :: "nat \<Rightarrow> string \<Rightarrow> scanner \<Rightarrow> 'a outcome" where
  "scanner_error context_line problem s = Err (yaml_failure (s_line s) context_line problem)"

text \<open>The problem that is given is not the one reported.\<close>

definition scanner_tag_error :: "bool \<Rightarrow> nat \<Rightarrow> string \<Rightarrow> scanner \<Rightarrow> 'a outcome" where
  "scanner_tag_error directive context_line problem s = scanner_error context_line ''did not find URI escaped octet'' s"

definition skip :: "scanner \<Rightarrow> scanner outcome" where
  "skip s =
     (case s_ahead s of
        [] \<Rightarrow> Panic IndexOutOfRange
      | _ # cs \<Rightarrow> Ok (s\<lparr>s_ahead := cs, s_index := s_index s + 1, s_column := s_column s + 1\<rparr>))"

fun skip_n :: "nat \<Rightarrow> scanner \<Rightarrow> scanner outcome" where
  "skip_n 0 s = Ok s"
| "skip_n (Suc n) s = and_then (skip s) (skip_n n)"

definition is_crlf :: "scanner \<Rightarrow> bool outcome" where
  "is_crlf s = both (test (\<lambda>c. c = [CHR 0x0D]) s 0) (test (\<lambda>c. c = [CHR 0x0A]) s 1)"

definition next_line :: "nat \<Rightarrow> scanner \<Rightarrow> scanner" where
  "next_line n s = s\<lparr>s_ahead := drop n (s_ahead s), s_index := s_index s + n, s_column := 0, s_line := s_line s + 1\<rparr>"

definition skip_line :: "scanner \<Rightarrow> scanner outcome" where
  "skip_line s =
     and_then (is_crlf s) (\<lambda>crlf.
       if crlf then Ok (next_line 2 s)
       else and_then (at s 0) (\<lambda>c. if is_break c then Ok (next_line 1 s) else Ok s))"

text \<open>\<open>read\<close> and \<open>read_line\<close> copy a character and a line break to a string.\<close>

definition read_char :: "string \<Rightarrow> scanner \<Rightarrow> string scanned" where
  "read_char acc s = and_then (at s 0) (\<lambda>c. and_then (skip s) (\<lambda>s. Ok (acc @ c, s)))"

definition read_line :: "string \<Rightarrow> scanner \<Rightarrow> string scanned" where
  "read_line acc s =
     and_then (is_crlf s) (\<lambda>crlf.
       if crlf then Ok (acc @ [CHR 0x0A], next_line 2 s)
       else and_then (at s 0) (\<lambda>c.
         if c = [CHR 0x0D] \<or> c = [CHR 0x0A] \<or> c = [CHR 0xC2, CHR 0x85] then Ok (acc @ [CHR 0x0A], next_line 1 s)
         else if is_break c then Ok (acc @ c, next_line 1 s)
         else Ok (acc, s)))"

section \<open>Loops\<close>

text \<open>
  What is left to scan: characters and bytes, the NUL behind them until it has been put there, the stream's start, and the
  line that the end of the stream completes.
\<close>

definition left_over :: "scanner \<Rightarrow> nat" where
  "left_over s =
     2 * (length (s_ahead s) + length (s_raw s) + length (s_input s) +
       (if s_eof s \<and> s_raw s = [] then 0 else 1)) + (if s_column s = 0 then 0 else 1) + (if s_started s then 0 else 1)"

text \<open>
  A loop whose body goes round with \<open>Inl\<close> and leaves with \<open>Inr\<close>. It ends because each round lowers a measure; a round
  that does not would be repeated for ever, which is the panic \<open>no progress\<close> here and does not occur.
\<close>

function loop :: "(scanner \<Rightarrow> nat) \<Rightarrow> ('a \<Rightarrow> scanner \<Rightarrow> ('a + 'b) scanned) \<Rightarrow> 'a \<Rightarrow> scanner \<Rightarrow> 'b scanned" where
  "loop m body a s =
     and_then (body a s) (\<lambda>(r, s').
       case r of
         Inr b \<Rightarrow> Ok (b, s')
       | Inl a' \<Rightarrow> if m s' < m s then loop m body a' s' else Panic (ExplicitPanic ''no progress''))"
  by pat_completeness auto
termination by (relation "measure (\<lambda>(m, _, _, s). m s)") auto

declare loop.simps [simp del]

definition skip_while :: "(scanner \<Rightarrow> string \<Rightarrow> bool) \<Rightarrow> scanner \<Rightarrow> scanner outcome" where
  "skip_while P s =
     and_then
       (loop left_over (\<lambda>_ s. and_then (at s 0) (\<lambda>c.
          if P s c then and_then (skip s) (\<lambda>s. and_then (cache 1 s) (\<lambda>s. Ok (Inl (), s)))
          else Ok (Inr (), s))) () s)
       (\<lambda>(_, s). Ok s)"

definition read_while :: "(string \<Rightarrow> bool) \<Rightarrow> string \<Rightarrow> scanner \<Rightarrow> string scanned" where
  "read_while P acc s =
     loop left_over (\<lambda>acc s. and_then (at s 0) (\<lambda>c.
       if P c then and_then (read_char acc s) (\<lambda>(acc, s). and_then (cache 1 s) (\<lambda>s. Ok (Inl acc, s)))
       else Ok (Inr acc, s))) acc s"

text \<open>A comment up to the line break, and a line break if there is one.\<close>

definition skip_comment :: "scanner \<Rightarrow> scanner outcome" where
  "skip_comment s =
     and_then (at s 0) (\<lambda>c. if c = ''#'' then skip_while (\<lambda>_ c. \<not> is_breakz c) s else Ok s)"

definition eat_break :: "scanner \<Rightarrow> scanner outcome" where
  "eat_break s = and_then (at s 0) (\<lambda>c. if is_break c then and_then (cache 2 s) skip_line else Ok s)"

end
