(* ===== verification/YamlScanner.thy ===== *)
theory YamlScanner
  imports YamlReader
begin

text \<open>
  The scanning of single tokens in \<open>go-yaml/yaml/scannerc.go\<close>. A byte slice that is filled by a loop is the loop's state;
  the mark that an error names is the line its construct starts at. The functions have the names of the source without
  \<open>yaml_parser_\<close>.
\<close>

definition token_at :: "token_type \<Rightarrow> nat \<Rightarrow> nat \<Rightarrow> yaml_token" where
  "token_at typ start stop = \<lparr>t_typ = typ, t_start = start, t_end = stop\<rparr>"

text \<open>White space and comments up to the next token.\<close>

definition scan_to_next_token :: "scanner \<Rightarrow> scanner outcome" where
  "scan_to_next_token s =
     and_then
       (loop left_over (\<lambda>_ s.
          and_then (cache 1 s) (\<lambda>s.
          and_then (if s_column s = 0 \<and> s_bom s then skip s else Ok s) (\<lambda>s.
          and_then (cache 1 s) (\<lambda>s.
          and_then (skip_while (\<lambda>s c. c = '' '' \<or> (0 < s_flow_level s \<or> \<not> s_allowed s) \<and> is_tab c) s) (\<lambda>s.
          and_then (skip_comment s) (\<lambda>s.
          and_then (at s 0) (\<lambda>c.
            if is_break c then
              and_then (cache 2 s) (\<lambda>s.
              and_then (skip_line s) (\<lambda>s.
                Ok (Inl (), if s_flow_level s = 0 then s\<lparr>s_allowed := True\<rparr> else s)))
            else Ok (Inr (), s)))))))) () s)
       (\<lambda>(_, s). Ok s)"

section \<open>Directives\<close>

definition scan_directive_name :: "nat \<Rightarrow> scanner \<Rightarrow> string scanned" where
  "scan_directive_name start s =
     and_then (cache 1 s) (\<lambda>s.
     and_then (read_while is_alpha [] s) (\<lambda>(name, s).
       if name = [] then scanner_error start ''could not find expected directive name'' s
       else and_then (at s 0) (\<lambda>c.
         if \<not> is_blankz c then scanner_error start ''found unexpected non-alphabetical character'' s else Ok (name, s))))"

definition max_number_length :: nat where "max_number_length = 2"

definition scan_version_directive_number :: "nat \<Rightarrow> scanner \<Rightarrow> int scanned" where
  "scan_version_directive_number start s =
     and_then (cache 1 s) (\<lambda>s.
     and_then
       (loop left_over (\<lambda>(v, n) s. and_then (at s 0) (\<lambda>c.
          if is_decimal c then
            if n + 1 > max_number_length then scanner_error start ''found extremely long version number'' s
            else and_then (skip s) (\<lambda>s. and_then (cache 1 s) (\<lambda>s. Ok (Inl (v * 10 + int (as_digit c), n + 1), s)))
          else Ok (Inr (v, n), s))) (0, 0) s)
       (\<lambda>((v, n), s).
         if n = 0 then scanner_error start ''did not find expected version number'' s else Ok (v, s)))"

definition scan_version_directive_value :: "nat \<Rightarrow> scanner \<Rightarrow> (int \<times> int) scanned" where
  "scan_version_directive_value start s =
     and_then (cache 1 s) (\<lambda>s.
     and_then (skip_while (\<lambda>_. is_blank) s) (\<lambda>s.
     and_then (scan_version_directive_number start s) (\<lambda>(major, s).
     and_then (at s 0) (\<lambda>c.
       if c \<noteq> ''.'' then scanner_error start (''did not find expected digit or '' @ quoted ''.'' @ '' character'') s
       else
         and_then (skip s) (\<lambda>s.
         and_then (scan_version_directive_number start s) (\<lambda>(minor, s). Ok ((major, minor), s)))))))"

section \<open>Tags\<close>

text \<open>
  The handle of a tag. In a directive a handle without a second \<open>!\<close> has its second byte looked at, which the handle \<open>!\<close>
  does not have.
\<close>

definition scan_tag_handle :: "bool \<Rightarrow> nat \<Rightarrow> scanner \<Rightarrow> string scanned" where
  "scan_tag_handle directive start s =
     and_then (cache 1 s) (\<lambda>s.
     and_then (at s 0) (\<lambda>c.
       if c \<noteq> ''!'' then scanner_tag_error directive start (''did not find expected '' @ quoted ''!'') s
       else
         and_then (read_char [] s) (\<lambda>(h, s).
         and_then (cache 1 s) (\<lambda>s.
         and_then (read_while is_alpha h s) (\<lambda>(h, s).
         and_then (at s 0) (\<lambda>c.
           if c = ''!'' then read_char h s
           else if directive then
             and_then (idx h 0) (\<lambda>a.
             and_then (if a = CHR ''!'' then and_then (idx h 1) (\<lambda>b. Ok (b = CHR 0x00)) else Ok False) (\<lambda>bare.
               if \<not> bare then scanner_tag_error directive start (''did not find expected '' @ quoted ''!'') s
               else Ok (h, s)))
           else Ok (h, s)))))))"

text \<open>The octets of one UTF-8 character, each escaped as \<open>%xx\<close>.\<close>

definition scan_uri_escapes :: "bool \<Rightarrow> nat \<Rightarrow> string \<Rightarrow> scanner \<Rightarrow> string scanned" where
  "scan_uri_escapes directive start acc s =
     loop left_over (\<lambda>(w, acc) s.
       if w = 0 then Ok (Inr acc, s)
       else
         and_then (cache 3 s) (\<lambda>s.
         and_then (both (test (\<lambda>c. c = ''%'') s 0) (both (test is_hex s 1) (test is_hex s 2))) (\<lambda>escaped.
           if \<not> escaped then scanner_tag_error directive start ''did not find URI escaped octet'' s
           else
             and_then (at s 1) (\<lambda>c1. and_then (at s 2) (\<lambda>c2.
               let octet = as_hex c1 * 16 + as_hex c2;
                   w' = (if w = 1024 then width (char_of octet) else w) in
               if w = 1024 \<and> w' = 0 then scanner_tag_error directive start ''found an incorrect leading UTF-8 octet'' s
               else if w \<noteq> 1024 \<and> octet div 64 \<noteq> 2
               then scanner_tag_error directive start ''found an incorrect trailing UTF-8 octet'' s
               else and_then (skip_n 3 s) (\<lambda>s. Ok (Inl (w' - 1, acc @ [char_of octet]), s))))))) (1024 :: nat, acc) s"

definition is_uri_char :: "string \<Rightarrow> bool" where
  "is_uri_char c \<longleftrightarrow> is_alpha c \<or> c \<in> (\<lambda>a. [a]) ` set '';/?:@&=+$,.!~*()[]%'' \<or> c = [CHR 0x27]"

definition scan_tag_uri :: "bool \<Rightarrow> string \<Rightarrow> nat \<Rightarrow> scanner \<Rightarrow> string scanned" where
  "scan_tag_uri directive head start s =
     and_then (cache 1 s) (\<lambda>s.
     and_then
       (loop left_over (\<lambda>acc s. and_then (at s 0) (\<lambda>c.
          if is_uri_char c then
            and_then (if c = ''%'' then scan_uri_escapes directive start acc s else read_char acc s) (\<lambda>(acc, s).
            and_then (cache 1 s) (\<lambda>s. Ok (Inl acc, s)))
          else Ok (Inr acc, s))) (if length head > 1 then tl head else []) s)
       (\<lambda>(uri, s).
         if uri = [] then scanner_tag_error directive start ''did not find expected tag URI'' s else Ok (uri, s)))"

definition scan_tag_directive_value :: "nat \<Rightarrow> scanner \<Rightarrow> (string \<times> string) scanned" where
  "scan_tag_directive_value start s =
     and_then (cache 1 s) (\<lambda>s.
     and_then (skip_while (\<lambda>_. is_blank) s) (\<lambda>s.
     and_then (scan_tag_handle True start s) (\<lambda>(handle, s).
     and_then (cache 1 s) (\<lambda>s.
     and_then (at s 0) (\<lambda>c.
       if \<not> is_blank c then scanner_error start ''did not find expected whitespace'' s
       else
         and_then (skip_while (\<lambda>_. is_blank) s) (\<lambda>s.
         and_then (scan_tag_uri True [] start s) (\<lambda>(prefix, s).
         and_then (cache 1 s) (\<lambda>s.
         and_then (at s 0) (\<lambda>c.
           if \<not> is_blankz c then scanner_error start ''did not find expected whitespace or line break'' s
           else Ok ((handle, prefix), s))))))))))"

text \<open>The end of a line in a directive and behind the indicators of a block scalar.\<close>

definition rest_of_line :: "nat \<Rightarrow> scanner \<Rightarrow> scanner outcome" where
  "rest_of_line start s =
     and_then (cache 1 s) (\<lambda>s.
     and_then (skip_while (\<lambda>_. is_blank) s) (\<lambda>s.
     and_then (skip_comment s) (\<lambda>s.
     and_then (at s 0) (\<lambda>c.
       if \<not> is_breakz c then scanner_error start ''did not find expected comment or line break'' s else eat_break s))))"

definition scan_directive :: "scanner \<Rightarrow> yaml_token scanned" where
  "scan_directive s =
     (let start = s_line s in
      and_then (skip s) (\<lambda>s.
      and_then (scan_directive_name start s) (\<lambda>(name, s).
      and_then
        (if name = ''YAML'' then
           and_then (scan_version_directive_value start s) (\<lambda>((major, minor), s).
             Ok (token_at (VERSION_DIRECTIVE_TOKEN major minor) start (s_line s), s))
         else if name = ''TAG'' then
           and_then (scan_tag_directive_value start s) (\<lambda>((handle, prefix), s).
             Ok (token_at (TAG_DIRECTIVE_TOKEN handle prefix) start (s_line s), s))
         else scanner_error start ''found unknown directive name'' s)
        (\<lambda>(token, s). and_then (rest_of_line start s) (\<lambda>s. Ok (token, s))))))"

text \<open>A tag: its verbatim form, or one with a handle. The last case, the tag \<open>!\<close> alone, is never reached.\<close>

definition scan_tag_shorthand :: "nat \<Rightarrow> scanner \<Rightarrow> (string \<times> string) scanned" where
  "scan_tag_shorthand start s =
     and_then (scan_tag_handle False start s) (\<lambda>(handle, s).
     and_then (idx handle 0) (\<lambda>a.
       if a = CHR ''!'' \<and> length handle > 1 \<and> last handle = CHR ''!'' then
         and_then (scan_tag_uri False [] start s) (\<lambda>(suffix, s). Ok ((handle, suffix), s))
       else
         and_then (scan_tag_uri False handle start s) (\<lambda>(suffix, s).
           if suffix = [] then Ok (([], ''!''), s) else Ok ((''!'', suffix), s))))"

definition scan_tag :: "scanner \<Rightarrow> yaml_token scanned" where
  "scan_tag s =
     (let start = s_line s in
      and_then (cache 2 s) (\<lambda>s.
      and_then (at s 1) (\<lambda>c.
      and_then
        (if c = ''<'' then
           and_then (skip_n 2 s) (\<lambda>s.
           and_then (scan_tag_uri False [] start s) (\<lambda>(suffix, s).
           and_then (at s 0) (\<lambda>c.
             if c \<noteq> ''>'' then scanner_error start (''did not find the expected '' @ quoted ''>'') s
             else and_then (skip s) (\<lambda>s. Ok (([], suffix), s)))))
         else scan_tag_shorthand start s)
        (\<lambda>((handle, suffix), s).
          and_then (cache 1 s) (\<lambda>s.
          and_then (at s 0) (\<lambda>c.
            if \<not> is_blankz c then scanner_error start ''did not find expected whitespace or line break'' s
            else Ok (token_at (TAG_TOKEN handle suffix) start (s_line s), s)))))))"

section \<open>Anchors and aliases\<close>

definition ends_anchor :: "string \<Rightarrow> bool" where
  "ends_anchor c \<longleftrightarrow> is_blankz c \<or> c \<in> {''?'', '':'', '','', '']'', ''}'', ''%'', ''@'', ''`''}"

definition scan_anchor :: "(string \<Rightarrow> token_type) \<Rightarrow> scanner \<Rightarrow> yaml_token scanned" where
  "scan_anchor typ s =
     (let start = s_line s in
      and_then (skip s) (\<lambda>s.
      and_then (cache 1 s) (\<lambda>s.
      and_then (read_while is_alpha [] s) (\<lambda>(name, s).
      and_then (if name = [] then Ok False else test ends_anchor s 0) (\<lambda>ok.
        if \<not> ok then scanner_error start ''did not find expected alphabetic or numeric character'' s
        else Ok (token_at (typ name) start (s_line s), s))))))"

section \<open>Block scalars\<close>

datatype chomping = Strip | Clip | Keep

definition scan_chomping :: "scanner \<Rightarrow> chomping scanned" where
  "scan_chomping s =
     and_then (at s 0) (\<lambda>c.
       if c = ''+'' then and_then (skip s) (\<lambda>s. Ok (Keep, s))
       else if c = ''-'' then and_then (skip s) (\<lambda>s. Ok (Strip, s))
       else Ok (Clip, s))"

definition scan_increment :: "nat \<Rightarrow> scanner \<Rightarrow> nat scanned" where
  "scan_increment start s =
     and_then (at s 0) (\<lambda>c.
       if is_decimal c then
         if c = ''0'' then scanner_error start ''found an indentation indicator equal to 0'' s
         else and_then (skip s) (\<lambda>s. Ok (as_digit c, s))
       else Ok (0, s))"

text \<open>The indicators behind \<open>|\<close> and \<open>>\<close>: chomping and indentation, in either order.\<close>

definition scan_block_header :: "nat \<Rightarrow> scanner \<Rightarrow> (chomping \<times> nat) scanned" where
  "scan_block_header start s =
     and_then (at s 0) (\<lambda>c.
       if c = ''+'' \<or> c = ''-'' then
         and_then (scan_chomping s) (\<lambda>(chomp, s).
         and_then (cache 1 s) (\<lambda>s.
         and_then (scan_increment start s) (\<lambda>(inc, s). Ok ((chomp, inc), s))))
       else if is_decimal c then
         and_then (scan_increment start s) (\<lambda>(inc, s).
         and_then (cache 1 s) (\<lambda>s.
         and_then (scan_chomping s) (\<lambda>(chomp, s). Ok ((chomp, inc), s))))
       else Ok ((Clip, 0), s))"

text \<open>
  The indentation and the empty lines before a line of the scalar, with the line breaks behind \<open>breaks\<close>, the
  indentation that is found or given and the line at which the scalar ends so far.
\<close>

definition scan_block_scalar_breaks :: "nat \<Rightarrow> int \<Rightarrow> string \<Rightarrow> scanner \<Rightarrow> (int \<times> string \<times> nat) scanned" where
  "scan_block_scalar_breaks start indent breaks s =
     and_then
       (loop left_over (\<lambda>(breaks, stop, max_indent) s.
          and_then (cache 1 s) (\<lambda>s.
          and_then (skip_while (\<lambda>s c. (indent = 0 \<or> int (s_column s) < indent) \<and> c = '' '') s) (\<lambda>s.
            let max_indent = max max_indent (int (s_column s)) in
          and_then (if indent = 0 \<or> int (s_column s) < indent then test is_tab s 0 else Ok False) (\<lambda>tab.
            if tab then scanner_error start ''found a tab character where an indentation space is expected'' s
            else
              and_then (at s 0) (\<lambda>c.
                if \<not> is_break c then Ok (Inr (breaks, stop, max_indent), s)
                else
                  and_then (cache 2 s) (\<lambda>s.
                  and_then (read_line breaks s) (\<lambda>(breaks, s). Ok (Inl (breaks, s_line s, max_indent), s)))))))) (breaks, s_line s, 0) s)
       (\<lambda>((breaks, stop, max_indent), s).
         let indent = (if indent = 0 then max (max max_indent (s_indent s + 1)) 1 else indent)
         in Ok ((indent, breaks, stop), s))"

text \<open>What comes before a line of the scalar: the break of the line before, folded or not, and the empty lines.\<close>

definition joined_lines :: "bool \<Rightarrow> bool \<Rightarrow> bool \<Rightarrow> string \<Rightarrow> string \<Rightarrow> string" where
  "joined_lines literal leading_blank trailing_blank leading_break trailing_breaks =
     (if \<not> literal \<and> \<not> leading_blank \<and> \<not> trailing_blank \<and> take 1 leading_break = [CHR 0x0A]
      then if trailing_breaks = [] then '' '' else []
      else leading_break) @ trailing_breaks"

text \<open>The lines of the scalar: the text so far, the last line break and the empty lines behind it.\<close>

definition scan_block_lines ::
  "bool \<Rightarrow> nat \<Rightarrow> int \<Rightarrow> string \<Rightarrow> nat \<Rightarrow> scanner \<Rightarrow> (string \<times> string \<times> string \<times> nat) scanned"
where
  "scan_block_lines literal start indent trailing_breaks stop s =
     loop left_over (\<lambda>(acc, leading_break, trailing_breaks, leading_blank, stop) s.
       and_then (if int (s_column s) = indent then test (\<lambda>c. \<not> is_z c) s 0 else Ok False) (\<lambda>go.
         if \<not> go then Ok (Inr (acc, leading_break, trailing_breaks, stop), s)
         else
           and_then (at s 0) (\<lambda>c.
             let trailing_blank = is_blank c;
                 acc = acc @ joined_lines literal leading_blank trailing_blank leading_break trailing_breaks in
           and_then (read_while (\<lambda>c. \<not> is_breakz c) acc s) (\<lambda>(acc, s).
           and_then (cache 2 s) (\<lambda>s.
           and_then (read_line [] s) (\<lambda>(leading_break, s).
           and_then (scan_block_scalar_breaks start indent [] s) (\<lambda>((indent, trailing_breaks, stop), s).
             Ok (Inl (acc, leading_break, trailing_breaks, is_blank c, stop), s)))))))) ([], [], trailing_breaks, False, stop) s"

definition scan_block_scalar :: "bool \<Rightarrow> scanner \<Rightarrow> yaml_token scanned" where
  "scan_block_scalar literal s =
     (let start = s_line s in
      and_then (skip s) (\<lambda>s.
      and_then (cache 1 s) (\<lambda>s.
      and_then (scan_block_header start s) (\<lambda>((chomp, inc), s).
      and_then (rest_of_line start s) (\<lambda>s.
        let indent = (if inc > 0 then if s_indent s \<ge> 0 then s_indent s + int inc else int inc else 0) in
      and_then (scan_block_scalar_breaks start indent [] s) (\<lambda>((indent, trailing_breaks, stop), s).
      and_then (cache 1 s) (\<lambda>s.
      and_then (scan_block_lines literal start indent trailing_breaks stop s) (\<lambda>((acc, leading_break, trailing_breaks, stop), s).
        let acc = acc @ (if chomp \<noteq> Strip then leading_break else []) @ (if chomp = Keep then trailing_breaks else [])
        in Ok (token_at (SCALAR_TOKEN acc (if literal then LITERAL_SCALAR else FOLDED_SCALAR)) start stop, s)))))))))"

section \<open>Quoted scalars\<close>

definition document_indicator :: "scanner \<Rightarrow> bool outcome" where
  "document_indicator s =
     (if s_column s \<noteq> 0 then Ok False else
      and_then (both (test (\<lambda>c. c = ''-'') s 0) (both (test (\<lambda>c. c = ''-'') s 1) (test (\<lambda>c. c = ''-'') s 2))) (\<lambda>dashes.
      and_then (if dashes then Ok True
                else both (test (\<lambda>c. c = ''.'') s 0) (both (test (\<lambda>c. c = ''.'') s 1) (test (\<lambda>c. c = ''.'') s 2))) (\<lambda>found.
        if found then test is_blankz s 3 else Ok False)))"

text \<open>What an escape stands for, and how many hexadecimal digits follow it.\<close>

definition escape_text :: "string \<Rightarrow> string option" where
  "escape_text c =
     map_of [(''0'', [CHR 0x00]), (''a'', [CHR 0x07]), (''b'', [CHR 0x08]), (''t'', [CHR 0x09]), ([CHR 0x09], [CHR 0x09]),
             (''n'', [CHR 0x0A]), (''v'', [CHR 0x0B]), (''f'', [CHR 0x0C]), (''r'', [CHR 0x0D]), (''e'', [CHR 0x1B]),
             ('' '', '' ''), ([CHR 0x22], [CHR 0x22]), ([CHR 0x27], [CHR 0x27]), ([CHR 0x5C], [CHR 0x5C]),
             (''N'', [CHR 0xC2, CHR 0x85]), (''_'', [CHR 0xC2, CHR 0xA0]), (''L'', [CHR 0xE2, CHR 0x80, CHR 0xA8]),
             (''P'', [CHR 0xE2, CHR 0x80, CHR 0xA9]), (''x'', []), (''u'', []), (''U'', [])] c"

definition code_length :: "string \<Rightarrow> nat" where
  "code_length c = (if c = ''x'' then 2 else if c = ''u'' then 4 else if c = ''U'' then 8 else 0)"

fun hex_value :: "nat \<Rightarrow> nat \<Rightarrow> nat \<Rightarrow> nat \<Rightarrow> scanner \<Rightarrow> nat outcome" where
  "hex_value start 0 k v s = Ok v"
| "hex_value start (Suc n) k v s =
     and_then (at s k) (\<lambda>c.
       if \<not> is_hex c then scanner_error start ''did not find expected hexdecimal number'' s
       else hex_value start n (k + 1) (v * 16 + as_hex c) s)"

definition scan_escape :: "nat \<Rightarrow> string \<Rightarrow> scanner \<Rightarrow> string scanned" where
  "scan_escape start acc s =
     and_then (at s 1) (\<lambda>c.
       case escape_text c of
         None \<Rightarrow> scanner_error start ''found unknown escape character'' s
       | Some t \<Rightarrow>
           and_then (skip_n 2 s) (\<lambda>s.
           let n = code_length c in
             if n = 0 then Ok (acc @ t, s)
             else
               and_then (cache n s) (\<lambda>s.
               and_then (hex_value start n 0 0 s) (\<lambda>v.
                 if 0xD800 \<le> v \<and> v \<le> 0xDFFF \<or> 0x10FFFF < v
                 then scanner_error start ''found invalid Unicode character escape code'' s
                 else and_then (skip_n n s) (\<lambda>s. Ok (acc @ utf8_bytes v, s))))))"

text \<open>The characters of a quoted scalar up to a blank, a line break or the end, or up to an escaped line break.\<close>

definition scan_quoted_word :: "bool \<Rightarrow> nat \<Rightarrow> string \<Rightarrow> scanner \<Rightarrow> (string \<times> bool) scanned" where
  "scan_quoted_word single start acc s =
     loop left_over (\<lambda>acc s.
       and_then (at s 0) (\<lambda>c.
         if is_blankz c then Ok (Inr (acc, False), s) else
         and_then (if single \<and> c = [CHR 0x27] then test (\<lambda>c. c = [CHR 0x27]) s 1 else Ok False) (\<lambda>doubled.
           if doubled then
             and_then (skip_n 2 s) (\<lambda>s. and_then (cache 2 s) (\<lambda>s. Ok (Inl (acc @ [CHR 0x27]), s)))
           else if single \<and> c = [CHR 0x27] \<or> \<not> single \<and> c = [CHR 0x22] then Ok (Inr (acc, False), s)
           else
             and_then (if \<not> single \<and> c = [CHR 0x5C] then test is_break s 1 else Ok False) (\<lambda>escaped_break.
               if escaped_break then
                 and_then (cache 3 s) (\<lambda>s. and_then (skip s) (\<lambda>s. and_then (skip_line s) (\<lambda>s. Ok (Inr (acc, True), s))))
               else
                 and_then (if \<not> single \<and> c = [CHR 0x5C] then scan_escape start acc s else read_char acc s) (\<lambda>(acc, s).
                 and_then (cache 2 s) (\<lambda>s. Ok (Inl acc, s))))))) acc s"

text \<open>Blanks and line breaks inside a scalar: the blanks, the first break, the further ones, and whether there was one.\<close>

definition scan_blanks ::
  "(scanner \<Rightarrow> bool \<Rightarrow> string \<Rightarrow> unit outcome) \<Rightarrow> string \<times> string \<times> string \<times> bool \<Rightarrow> scanner \<Rightarrow>
     (string \<times> string \<times> string \<times> bool) scanned"
where
  "scan_blanks check =
     loop left_over (\<lambda>(whitespaces, leading_break, trailing_breaks, leading_blanks) s.
       and_then (at s 0) (\<lambda>c.
         if is_blank c then
           and_then (check s leading_blanks c) (\<lambda>_.
           and_then (if \<not> leading_blanks then read_char whitespaces s else and_then (skip s) (\<lambda>s. Ok (whitespaces, s))) (\<lambda>(whitespaces, s).
           and_then (cache 1 s) (\<lambda>s. Ok (Inl (whitespaces, leading_break, trailing_breaks, leading_blanks), s))))
         else if is_break c then
           and_then (cache 2 s) (\<lambda>s.
           and_then
             (if \<not> leading_blanks
              then and_then (read_line leading_break s) (\<lambda>(leading_break, s). Ok (([], leading_break, trailing_breaks, True), s))
              else and_then (read_line trailing_breaks s) (\<lambda>(trailing_breaks, s). Ok ((whitespaces, leading_break, trailing_breaks, True), s)))
             (\<lambda>(r, s). and_then (cache 1 s) (\<lambda>s. Ok (Inl r, s))))
         else Ok (Inr (whitespaces, leading_break, trailing_breaks, leading_blanks), s)))"

definition scan_flow_scalar :: "bool \<Rightarrow> scanner \<Rightarrow> yaml_token scanned" where
  "scan_flow_scalar single s =
     (let start = s_line s; quote = (if single then [CHR 0x27] else [CHR 0x22]) in
      and_then (skip s) (\<lambda>s.
      and_then
        (loop left_over (\<lambda>acc s.
           and_then (cache 4 s) (\<lambda>s.
           and_then (document_indicator s) (\<lambda>found.
             if found then scanner_error start ''found unexpected document indicator'' s else
           and_then (at s 0) (\<lambda>c.
             if is_z c then scanner_error start ''found unexpected end of stream'' s else
           and_then (scan_quoted_word single start acc s) (\<lambda>((acc, leading_blanks), s).
           and_then (at s 0) (\<lambda>c.
             if c = quote then Ok (Inr acc, s) else
           and_then (cache 1 s) (\<lambda>s.
           and_then (scan_blanks (\<lambda>_ _ _. Ok ()) ([], [], [], leading_blanks) s) (\<lambda>((whitespaces, leading_break, trailing_breaks, leading_blanks), s).
             Ok (Inl (acc @
               (if leading_blanks then
                  if take 1 leading_break = [CHR 0x0A]
                  then if trailing_breaks = [] then '' '' else trailing_breaks
                  else leading_break @ trailing_breaks
                else whitespaces)), s))))))))) [] s)
        (\<lambda>(acc, s).
          and_then (skip s) (\<lambda>s.
            Ok (token_at (SCALAR_TOKEN acc (if single then SINGLE_QUOTED_SCALAR else DOUBLE_QUOTED_SCALAR)) start (s_line s), s)))))"

section \<open>Plain scalars\<close>

definition is_flow_indicator :: "string \<Rightarrow> bool" where
  "is_flow_indicator c \<longleftrightarrow> c \<in> {'','', '':'', ''?'', ''['', '']'', ''{'', ''}''}"

text \<open>
  The state of a plain scalar: the text, the blanks and breaks behind it that are added if more text follows, whether
  there was a break, and the line where the text ends.
\<close>

type_synonym plain = "string \<times> (string \<times> string \<times> string \<times> bool) \<times> nat"

definition joined_blanks :: "string \<times> string \<times> string \<times> bool \<Rightarrow> string outcome" where
  "joined_blanks b =
     (case b of (whitespaces, leading_break, trailing_breaks, leading_blanks) \<Rightarrow>
        if leading_blanks then
          and_then (idx leading_break 0) (\<lambda>a.
            if a = CHR 0x0A then Ok (if trailing_breaks = [] then '' '' else trailing_breaks)
            else Ok (leading_break @ trailing_breaks))
        else Ok whitespaces)"

definition scan_plain_word :: "nat \<Rightarrow> plain \<Rightarrow> scanner \<Rightarrow> plain scanned" where
  "scan_plain_word start =
     loop left_over (\<lambda>(acc, blanks, stop) s.
       and_then (at s 0) (\<lambda>c.
         if is_blankz c then Ok (Inr (acc, blanks, stop), s) else
         and_then (if c = '':'' then test is_blankz s 1 else Ok False) (\<lambda>value.
           if 0 < s_flow_level s \<and> c = '':'' \<and> \<not> value then scanner_error start (''found unexpected '' @ quoted '':'') s
           else if value \<or> 0 < s_flow_level s \<and> is_flow_indicator c then Ok (Inr (acc, blanks, stop), s)
           else
             and_then (joined_blanks blanks) (\<lambda>b.
             and_then (read_char (acc @ b) s) (\<lambda>(acc, s).
             and_then (cache 2 s) (\<lambda>s'. Ok (Inl (acc, ([], [], [], False), s_line s), s')))))))"

definition scan_plain_scalar :: "scanner \<Rightarrow> yaml_token scanned" where
  "scan_plain_scalar s =
     (let start = s_line s; indent = s_indent s + 1 in
      and_then
        (loop left_over (\<lambda>(acc, blanks, stop) s.
           and_then (cache 4 s) (\<lambda>s.
           and_then (document_indicator s) (\<lambda>found.
             if found then Ok (Inr (acc, blanks, stop), s) else
           and_then (at s 0) (\<lambda>c.
             if c = ''#'' then Ok (Inr (acc, blanks, stop), s) else
           and_then (scan_plain_word start (acc, blanks, stop) s) (\<lambda>((acc, blanks, stop), s).
           and_then (at s 0) (\<lambda>c.
             if \<not> (is_blank c \<or> is_break c) then Ok (Inr (acc, blanks, stop), s) else
           and_then (cache 1 s) (\<lambda>s.
           and_then (scan_blanks (\<lambda>s leading_blanks c.
               if leading_blanks \<and> int (s_column s) < indent \<and> is_tab c
               then scanner_error start ''found a tab character that violate indentation'' s else Ok ()) blanks s) (\<lambda>(blanks, s).
             if s_flow_level s = 0 \<and> int (s_column s) < indent then Ok (Inr (acc, blanks, stop), s)
             else Ok (Inl (acc, blanks, stop), s))))))))) ([], ([], [], [], False), start) s)
        (\<lambda>((acc, (_, _, _, leading_blanks), stop), s).
          Ok (token_at (SCALAR_TOKEN acc PLAIN_SCALAR) start stop, if leading_blanks then s\<lparr>s_allowed := True\<rparr> else s)))"

end
