(* ===== verification/YamlTokens.thy ===== *)
theory YamlTokens
  imports YamlScanner
begin

text \<open>
  The other half of \<open>go-yaml/yaml/scannerc.go\<close>: the queue of tokens, the simple keys that may turn out to start a mapping,
  the indentation, and the fetching of each kind of token; then the tokens of a whole text as the parser takes them.
\<close>

section \<open>The queue\<close>

text \<open>\<open>yaml_insert_token\<close>: at the end for a negative position, else before the token at the position.\<close>

definition insert_token :: "int \<Rightarrow> yaml_token \<Rightarrow> scanner \<Rightarrow> scanner outcome" where
  "insert_token pos token s =
     (let ts = s_tokens s in
      if pos < 0 then Ok (s\<lparr>s_tokens := ts @ [token]\<rparr>)
      else if int (length ts) < pos then Panic SliceBounds
      else Ok (s\<lparr>s_tokens := take (nat pos) ts @ [token] @ drop (nat pos) ts\<rparr>))"

definition append_token :: "yaml_token \<Rightarrow> scanner \<Rightarrow> scanner" where
  "append_token token s = s\<lparr>s_tokens := s_tokens s @ [token]\<rparr>"

section \<open>Simple keys\<close>

definition key_error :: "simple_key \<Rightarrow> scanner \<Rightarrow> 'a outcome" where
  "key_error k s = scanner_error (k_line k) (''could not find expected '' @ quoted '':'') s"

definition is_stale :: "scanner \<Rightarrow> simple_key \<Rightarrow> bool" where
  "is_stale s k \<longleftrightarrow> k_possible k \<and> (k_line k < s_line s \<or> k_index k + 1024 < s_index s)"

text \<open>The keys are looked at from the outermost level; a required one that is stale is an error.\<close>

definition stale_simple_keys :: "scanner \<Rightarrow> scanner outcome" where
  "stale_simple_keys s =
     (case find (\<lambda>k. is_stale s k \<and> k_required k) (rev (s_keys s)) of
        Some k \<Rightarrow> key_error k s
      | None \<Rightarrow> Ok (s\<lparr>s_keys := map (\<lambda>k. if is_stale s k then k\<lparr>k_possible := False\<rparr> else k) (s_keys s)\<rparr>))"

definition remove_simple_key :: "scanner \<Rightarrow> scanner outcome" where
  "remove_simple_key s =
     (case s_keys s of
        [] \<Rightarrow> Panic IndexOutOfRange
      | k # ks \<Rightarrow>
          if k_possible k \<and> k_required k then key_error k s
          else Ok (s\<lparr>s_keys := k\<lparr>k_possible := False\<rparr> # ks\<rparr>))"

definition save_simple_key :: "scanner \<Rightarrow> scanner outcome" where
  "save_simple_key s =
     (let required = (s_flow_level s = 0 \<and> s_indent s = int (s_column s)) in
      if required \<and> \<not> s_allowed s then Panic (ExplicitPanic ''should not happen'')
      else if s_allowed s then
        and_then (remove_simple_key s) (\<lambda>s'.
          Ok (s'\<lparr>s_keys :=
                \<lparr>k_possible = True, k_required = required, k_token_number = s_parsed s + length (s_tokens s),
                 k_line = s_line s, k_column = s_column s, k_index = s_index s\<rparr> # tl (s_keys s')\<rparr>))
      else Ok s)"

definition increase_flow_level :: "scanner \<Rightarrow> scanner" where
  "increase_flow_level s = s\<lparr>s_keys := no_key # s_keys s, s_flow_level := s_flow_level s + 1\<rparr>"

definition decrease_flow_level :: "scanner \<Rightarrow> scanner outcome" where
  "decrease_flow_level s =
     (if s_flow_level s > 0
      then case s_keys s of
             [] \<Rightarrow> Panic SliceBounds
           | _ # ks \<Rightarrow> Ok (s\<lparr>s_keys := ks, s_flow_level := s_flow_level s - 1\<rparr>)
      else Ok s)"

section \<open>Indentation\<close>

text \<open>\<open>number\<close> is the place for the token that opens the block, counted from the first token of the text, or negative.\<close>

definition roll_indent :: "nat \<Rightarrow> int \<Rightarrow> token_type \<Rightarrow> nat \<Rightarrow> scanner \<Rightarrow> scanner outcome" where
  "roll_indent column number typ line s =
     (if s_flow_level s > 0 then Ok s
      else if s_indent s < int column then
        insert_token (if number > -1 then number - int (s_parsed s) else number) (token_at typ line line)
          (s\<lparr>s_indents := s_indent s # s_indents s, s_indent := int column\<rparr>)
      else Ok s)"

fun unroll_from :: "int \<Rightarrow> int list \<Rightarrow> scanner \<Rightarrow> scanner outcome" where
  "unroll_from column indents s =
     (if s_indent s > column then
        let s = append_token (token_at BLOCK_END_TOKEN (s_line s) (s_line s)) s in
        case indents of
          [] \<Rightarrow> Panic IndexOutOfRange
        | i # is \<Rightarrow> unroll_from column is (s\<lparr>s_indent := i, s_indents := is\<rparr>)
      else Ok s)"

declare unroll_from.simps [simp del]

definition unroll_indent :: "int \<Rightarrow> scanner \<Rightarrow> scanner outcome" where
  "unroll_indent column s = (if s_flow_level s > 0 then Ok s else unroll_from column (s_indents s) s)"

section \<open>Fetching a token\<close>

definition fetch_stream_start :: "scanner \<Rightarrow> scanner outcome" where
  "fetch_stream_start s =
     Ok (append_token (token_at STREAM_START_TOKEN (s_line s) (s_line s))
           (s\<lparr>s_indent := -1, s_keys := no_key # s_keys s, s_allowed := True, s_started := True\<rparr>))"

definition fetch_stream_end :: "scanner \<Rightarrow> scanner outcome" where
  "fetch_stream_end s =
     (let s = (if s_column s \<noteq> 0 then s\<lparr>s_column := 0, s_line := s_line s + 1\<rparr> else s) in
      and_then (unroll_indent (- 1) s) (\<lambda>s.
      and_then (remove_simple_key s) (\<lambda>s.
        Ok (append_token (token_at STREAM_END_TOKEN (s_line s) (s_line s)) (s\<lparr>s_allowed := False\<rparr>)))))"

definition fetch_directive :: "scanner \<Rightarrow> scanner outcome" where
  "fetch_directive s =
     and_then (unroll_indent (- 1) s) (\<lambda>s.
     and_then (remove_simple_key s) (\<lambda>s.
     and_then (scan_directive (s\<lparr>s_allowed := False\<rparr>)) (\<lambda>(token, s). Ok (append_token token s))))"

text \<open>An indicator of \<open>n\<close> characters and its token.\<close>

definition indicator :: "nat \<Rightarrow> token_type \<Rightarrow> scanner \<Rightarrow> scanner outcome" where
  "indicator n typ s = and_then (skip_n n s) (\<lambda>s'. Ok (append_token (token_at typ (s_line s) (s_line s')) s'))"

definition fetch_document_indicator :: "token_type \<Rightarrow> scanner \<Rightarrow> scanner outcome" where
  "fetch_document_indicator typ s =
     and_then (unroll_indent (- 1) s) (\<lambda>s.
     and_then (remove_simple_key s) (\<lambda>s. indicator 3 typ (s\<lparr>s_allowed := False\<rparr>)))"

definition fetch_flow_collection_start :: "token_type \<Rightarrow> scanner \<Rightarrow> scanner outcome" where
  "fetch_flow_collection_start typ s =
     and_then (save_simple_key s) (\<lambda>s. indicator 1 typ ((increase_flow_level s)\<lparr>s_allowed := True\<rparr>))"

definition fetch_flow_collection_end :: "token_type \<Rightarrow> scanner \<Rightarrow> scanner outcome" where
  "fetch_flow_collection_end typ s =
     and_then (remove_simple_key s) (\<lambda>s.
     and_then (decrease_flow_level s) (\<lambda>s. indicator 1 typ (s\<lparr>s_allowed := False\<rparr>)))"

definition fetch_flow_entry :: "scanner \<Rightarrow> scanner outcome" where
  "fetch_flow_entry s = and_then (remove_simple_key s) (\<lambda>s. indicator 1 FLOW_ENTRY_TOKEN (s\<lparr>s_allowed := True\<rparr>))"

text \<open>In the block context an entry, a key and a value need a place where a simple key may start, and may open a block.\<close>

definition open_block :: "string \<Rightarrow> token_type \<Rightarrow> scanner \<Rightarrow> scanner outcome" where
  "open_block problem typ s =
     (if s_flow_level s = 0
      then if \<not> s_allowed s then scanner_error (s_line s) problem s else roll_indent (s_column s) (- 1) typ (s_line s) s
      else Ok s)"

definition fetch_block_entry :: "scanner \<Rightarrow> scanner outcome" where
  "fetch_block_entry s =
     and_then (open_block ''block sequence entries are not allowed in this context'' BLOCK_SEQUENCE_START_TOKEN s) (\<lambda>s.
     and_then (remove_simple_key s) (\<lambda>s. indicator 1 BLOCK_ENTRY_TOKEN (s\<lparr>s_allowed := True\<rparr>)))"

definition fetch_key :: "scanner \<Rightarrow> scanner outcome" where
  "fetch_key s =
     and_then (open_block ''mapping keys are not allowed in this context'' BLOCK_MAPPING_START_TOKEN s) (\<lambda>s.
     and_then (remove_simple_key s) (\<lambda>s. indicator 1 KEY_TOKEN (s\<lparr>s_allowed := (s_flow_level s = 0)\<rparr>)))"

definition fetch_value :: "scanner \<Rightarrow> scanner outcome" where
  "fetch_value s =
     (case s_keys s of
        [] \<Rightarrow> Panic IndexOutOfRange
      | k # ks \<Rightarrow>
          and_then
            (if k_possible k then
               and_then (insert_token (int (k_token_number k) - int (s_parsed s)) (token_at KEY_TOKEN (k_line k) (k_line k)) s) (\<lambda>s.
               and_then (roll_indent (k_column k) (int (k_token_number k)) BLOCK_MAPPING_START_TOKEN (k_line k) s) (\<lambda>s.
                 Ok (s\<lparr>s_keys := k\<lparr>k_possible := False\<rparr> # ks, s_allowed := False\<rparr>)))
             else
               and_then (open_block ''mapping values are not allowed in this context'' BLOCK_MAPPING_START_TOKEN s) (\<lambda>s.
                 Ok (s\<lparr>s_allowed := (s_flow_level s = 0)\<rparr>)))
            (indicator 1 VALUE_TOKEN))"

text \<open>A token that may be a simple key.\<close>

definition fetch_with_key :: "(scanner \<Rightarrow> yaml_token scanned) \<Rightarrow> scanner \<Rightarrow> scanner outcome" where
  "fetch_with_key scan s =
     and_then (save_simple_key s) (\<lambda>s.
     and_then (scan (s\<lparr>s_allowed := False\<rparr>)) (\<lambda>(token, s). Ok (append_token token s)))"

definition fetch_anchor :: "(string \<Rightarrow> token_type) \<Rightarrow> scanner \<Rightarrow> scanner outcome" where
  "fetch_anchor typ = fetch_with_key (scan_anchor typ)"

definition fetch_tag :: "scanner \<Rightarrow> scanner outcome" where
  "fetch_tag = fetch_with_key scan_tag"

definition fetch_flow_scalar :: "bool \<Rightarrow> scanner \<Rightarrow> scanner outcome" where
  "fetch_flow_scalar single = fetch_with_key (scan_flow_scalar single)"

definition fetch_plain_scalar :: "scanner \<Rightarrow> scanner outcome" where
  "fetch_plain_scalar = fetch_with_key scan_plain_scalar"

definition fetch_block_scalar :: "bool \<Rightarrow> scanner \<Rightarrow> scanner outcome" where
  "fetch_block_scalar literal s =
     and_then (remove_simple_key s) (\<lambda>s.
     and_then (scan_block_scalar literal (s\<lparr>s_allowed := True\<rparr>)) (\<lambda>(token, s). Ok (append_token token s)))"

section \<open>The dispatcher\<close>

text \<open>The characters that no plain scalar starts with, but for the three that may be followed by a non-blank.\<close>

definition is_indicator :: "string \<Rightarrow> bool" where
  "is_indicator c \<longleftrightarrow>
     c \<in> {''-'', ''?'', '':'', '','', ''['', '']'', ''{'', ''}'', ''#'', ''&'', ''*'', ''!'', ''|'', ''>'', [CHR 0x27], [CHR 0x22],
          ''%'', ''@'', ''`''}"

definition starts_plain :: "scanner \<Rightarrow> string \<Rightarrow> bool outcome" where
  "starts_plain s c =
     (if \<not> (is_blankz c \<or> is_indicator c) then Ok True
      else if c = ''-'' then test (\<lambda>d. \<not> is_blank d) s 1
      else if s_flow_level s = 0 \<and> (c = ''?'' \<or> c = '':'') then test (\<lambda>d. \<not> is_blankz d) s 1
      else Ok False)"

text \<open>Three equal characters at the start of a line, with a blank or the end behind them.\<close>

definition line_indicator :: "string \<Rightarrow> scanner \<Rightarrow> bool outcome" where
  "line_indicator c s =
     (if s_column s \<noteq> 0 then Ok False
      else both (test (\<lambda>d. d = c) s 0) (both (test (\<lambda>d. d = c) s 1) (both (test (\<lambda>d. d = c) s 2) (test is_blankz s 3))))"

definition fetch_at :: "scanner \<Rightarrow> string \<Rightarrow> scanner outcome" where
  "fetch_at s c =
     (let spaced = (\<lambda>always. if always then Ok True else test is_blankz s 1) in
      if c = ''['' then fetch_flow_collection_start FLOW_SEQUENCE_START_TOKEN s
      else if c = ''{'' then fetch_flow_collection_start FLOW_MAPPING_START_TOKEN s
      else if c = '']'' then fetch_flow_collection_end FLOW_SEQUENCE_END_TOKEN s
      else if c = ''}'' then fetch_flow_collection_end FLOW_MAPPING_END_TOKEN s
      else if c = '','' then fetch_flow_entry s
      else
        and_then (if c = ''-'' then test is_blankz s 1 else Ok False) (\<lambda>entry.
        and_then (if c = ''?'' \<or> c = '':'' then spaced (0 < s_flow_level s) else Ok False) (\<lambda>spaced.
          if entry then fetch_block_entry s
          else if c = ''?'' \<and> spaced then fetch_key s
          else if c = '':'' \<and> spaced then fetch_value s
          else if c = ''*'' then fetch_anchor ALIAS_TOKEN s
          else if c = ''&'' then fetch_anchor ANCHOR_TOKEN s
          else if c = ''!'' then fetch_tag s
          else if c = ''|'' \<and> s_flow_level s = 0 then fetch_block_scalar True s
          else if c = ''>'' \<and> s_flow_level s = 0 then fetch_block_scalar False s
          else if c = [CHR 0x27] then fetch_flow_scalar True s
          else if c = [CHR 0x22] then fetch_flow_scalar False s
          else
            and_then (starts_plain s c) (\<lambda>plain.
              if plain then fetch_plain_scalar s
              else scanner_error (s_line s) ''found character that cannot start any token'' s))))"

definition fetch_next_token :: "scanner \<Rightarrow> scanner outcome" where
  "fetch_next_token s =
     and_then (cache 1 s) (\<lambda>s.
       if \<not> s_started s then fetch_stream_start s
       else
         and_then (scan_to_next_token s) (\<lambda>s.
         and_then (stale_simple_keys s) (\<lambda>s.
         and_then (unroll_indent (int (s_column s)) s) (\<lambda>s.
         and_then (cache 4 s) (\<lambda>s.
         and_then (at s 0) (\<lambda>c.
           if is_z c then fetch_stream_end s
           else if s_column s = 0 \<and> c = ''%'' then fetch_directive s
           else
             and_then (line_indicator ''-'' s) (\<lambda>start.
               if start then fetch_document_indicator DOCUMENT_START_TOKEN s
               else and_then (line_indicator ''.'' s) (\<lambda>stop.
                 if stop then fetch_document_indicator DOCUMENT_END_TOKEN s else fetch_at s c))))))))"

section \<open>The tokens of a text\<close>

text \<open>\<open>fetch_more_tokens\<close>: until the queue has a token at its head that no key can come before.\<close>

definition head_may_be_key :: "scanner \<Rightarrow> bool" where
  "head_may_be_key s \<longleftrightarrow> (\<exists>k \<in> set (s_keys s). k_possible k \<and> k_token_number k = s_parsed s)"

definition end_queued :: "scanner \<Rightarrow> bool" where
  "end_queued s \<longleftrightarrow> STREAM_END_TOKEN \<in> t_typ ` set (s_tokens s)"

text \<open>What every token that is fetched lowers: the characters count as many tokens as one of them can bring.\<close>

definition token_measure :: "scanner \<Rightarrow> nat" where
  "token_measure s =
     6 * left_over s + length (s_tokens s) + length (s_indents s) + (if end_queued s then 0 else 2)"

definition fetch_more_tokens :: "scanner \<Rightarrow> scanner outcome" where
  "fetch_more_tokens s =
     and_then
       (loop token_measure (\<lambda>_ s.
          and_then (if s_tokens s = [] then Ok s else stale_simple_keys s) (\<lambda>s.
            if s_tokens s \<noteq> [] \<and> \<not> head_may_be_key s then Ok (Inr (), s)
            else and_then (fetch_next_token s) (\<lambda>s. Ok (Inl (), s)))) () s)
       (\<lambda>(_, s). Ok s)"

text \<open>How the tokens end: with an error or a panic of the scanner, or with the end of the stream.\<close>

datatype scan_stop = ScanError go_error | ScanPanic go_panic | ScanDone

type_synonym token_stream = "yaml_token list \<times> scan_stop"

text \<open>
  The tokens in the order in which the parser takes them, up to the end of the stream or to the first that cannot be
  fetched, with what happens there.
\<close>

function scan_from :: "scanner \<Rightarrow> token_stream" where
  "scan_from s =
     (case fetch_more_tokens s of
        Err e \<Rightarrow> ([], ScanError e)
      | Panic p \<Rightarrow> ([], ScanPanic p)
      | Ok s' \<Rightarrow>
          (case s_tokens s' of
             [] \<Rightarrow> ([], ScanPanic IndexOutOfRange)
           | t # ts \<Rightarrow>
               let s'' = s'\<lparr>s_tokens := ts, s_parsed := s_parsed s' + 1\<rparr> in
               if t_typ t = STREAM_END_TOKEN then ([t], ScanDone)
               else if token_measure s'' < token_measure s
               then let (rest, e) = scan_from s'' in (t # rest, e)
               else ([t], ScanPanic (ExplicitPanic ''no progress''))))"
  by pat_completeness auto
termination by (relation "measure token_measure") auto

declare scan_from.simps [simp del]

text \<open>\<open>newParser\<close> gives an empty text a line break.\<close>

definition scan_tokens :: "string \<Rightarrow> token_stream" where
  "scan_tokens text = scan_from (new_scanner (if text = [] then [CHR 0x0A] else text))"

end
