(* ===== verification/YamlNode.thy ===== *)
theory YamlNode
  imports YamlParser
begin

text \<open>
  The first half of \<open>go-yaml/yaml/decode.go\<close>: the tree of nodes that is built from the events of a document. \<open>fetch\<close> is
  the source of the events, \<open>yaml_parser_parse\<close> in the library; the builder keeps the event it has looked at. Anchors are
  listed in the order in which the source enters them into its map, with the nodes they stand for; the last one counts.
\<close>

section \<open>Nodes\<close>

text \<open>A node with the line it starts at; a scalar with its tag, its value and whether its tag may be resolved.\<close>

datatype ynode =
    ScalarNode nat string string bool
  | AliasNode nat string
  | SequenceNode nat "ynode list"
  | MappingNode nat "ynode list"

type_synonym anchors = "(string \<times> ynode) list"
type_synonym 's fetch = "'s \<Rightarrow> (yaml_event \<times> 's) outcome"
type_synonym ('a, 's) built = "('a \<times> anchors \<times> yaml_event \<times> 's) outcome option"

text \<open>\<open>None\<close> is the end of the fuel.\<close>

fun obind :: "'a outcome option \<Rightarrow> ('a \<Rightarrow> 'b outcome option) \<Rightarrow> 'b outcome option" where
  "obind None f = None"
| "obind (Some (Ok x)) f = f x"
| "obind (Some (Err e)) f = Some (Err e)"
| "obind (Some (Panic p)) f = Some (Panic p)"

lemma obind_cong [fundef_cong]:
  assumes "x = y" and "\<And>a. y = Some (Ok a) \<Longrightarrow> f a = g a"
  shows "obind x f = obind y g"
proof (cases y)
  case (Some r)
  with assms show ?thesis by (cases r) auto
qed (use assms(1) in simp)

definition anchor :: "string option \<Rightarrow> ynode \<Rightarrow> anchors" where
  "anchor a n = (case a of None \<Rightarrow> [] | Some name \<Rightarrow> [(name, n)])"

text \<open>\<open>skip\<close>, with the event that is left behind.\<close>

definition skip_event :: "'s fetch \<Rightarrow> yaml_event \<Rightarrow> 's \<Rightarrow> (yaml_event \<times> 's) outcome" where
  "skip_event fetch ev s =
     (if e_typ ev = STREAM_END_EVENT
      then Err (PlainError ''yaml: attempted to go past the end of stream; corrupted value?'') else fetch s)"

text \<open>
  \<open>parse\<close> inside a document: a node, and the loops over the children of a sequence and of a mapping. The events that are
  left to the last case include those that start a document or end the stream, which do not come inside a document.
\<close>

fun build_node :: "'s fetch \<Rightarrow> nat \<Rightarrow> yaml_event \<Rightarrow> 's \<Rightarrow> (ynode, 's) built"
and build_sequence :: "'s fetch \<Rightarrow> nat \<Rightarrow> yaml_event \<Rightarrow> 's \<Rightarrow> (ynode list, 's) built"
and build_mapping :: "'s fetch \<Rightarrow> nat \<Rightarrow> yaml_event \<Rightarrow> 's \<Rightarrow> (ynode list, 's) built" where
  "build_node fetch 0 ev s = None"
| "build_node fetch (Suc n) ev s =
     (case e_typ ev of
        SCALAR_EVENT a tag v implicit quoted style \<Rightarrow>
          let node = ScalarNode (e_start ev) tag v implicit
          in obind (Some (skip_event fetch ev s)) (\<lambda>(ev, s). Some (Ok (node, anchor a node, ev, s)))
      | ALIAS_EVENT name \<Rightarrow>
          obind (Some (skip_event fetch ev s)) (\<lambda>(ev', s). Some (Ok (AliasNode (e_start ev) name, [], ev', s)))
      | SEQUENCE_START_EVENT a tag implicit style \<Rightarrow>
          obind (Some (skip_event fetch ev s)) (\<lambda>(ev', s).
          obind (build_sequence fetch n ev' s) (\<lambda>(children, as, ev', s).
            let node = SequenceNode (e_start ev) children in Some (Ok (node, anchor a node @ as, ev', s))))
      | MAPPING_START_EVENT a tag implicit style \<Rightarrow>
          obind (Some (skip_event fetch ev s)) (\<lambda>(ev', s).
          obind (build_mapping fetch n ev' s) (\<lambda>(children, as, ev', s).
            let node = MappingNode (e_start ev) children in Some (Ok (node, anchor a node @ as, ev', s))))
      | _ \<Rightarrow> Some (Panic (ExplicitPanic ''attempted to parse unknown event'')))"
| "build_sequence fetch 0 ev s = None"
| "build_sequence fetch (Suc n) ev s =
     (if e_typ ev = SEQUENCE_END_EVENT
      then obind (Some (skip_event fetch ev s)) (\<lambda>(ev, s). Some (Ok ([], [], ev, s)))
      else
        obind (build_node fetch n ev s) (\<lambda>(c, as, ev, s).
        obind (build_sequence fetch n ev s) (\<lambda>(cs, as', ev, s). Some (Ok (c # cs, as @ as', ev, s)))))"
| "build_mapping fetch 0 ev s = None"
| "build_mapping fetch (Suc n) ev s =
     (if e_typ ev = MAPPING_END_EVENT
      then obind (Some (skip_event fetch ev s)) (\<lambda>(ev, s). Some (Ok ([], [], ev, s)))
      else
        obind (build_node fetch n ev s) (\<lambda>(k, as, ev, s).
        obind (build_node fetch n ev s) (\<lambda>(v, as', ev, s).
        obind (build_mapping fetch n ev s) (\<lambda>(cs, as'', ev, s). Some (Ok (k # v # cs, as @ as' @ as'', ev, s))))))"

text \<open>A document: its root and its anchors.\<close>

record document =
  doc_root :: ynode
  doc_anchors :: anchors

definition build_document :: "'s fetch \<Rightarrow> nat \<Rightarrow> yaml_event \<Rightarrow> 's \<Rightarrow> (document \<times> yaml_event \<times> 's) outcome option" where
  "build_document fetch n ev s =
     obind (Some (skip_event fetch ev s)) (\<lambda>(ev, s).
     obind (build_node fetch n ev s) (\<lambda>(root, as, ev, s).
       if \<not> (\<exists>i \<in> {True, False}. e_typ ev = DOCUMENT_END_EVENT i)
       then Some (Panic (ExplicitPanic ''expected end of document event''))
       else obind (Some (skip_event fetch ev s)) (\<lambda>(ev, s). Some (Ok (\<lparr>doc_root = root, doc_anchors = as\<rparr>, ev, s)))))"

text \<open>\<open>newParser\<close> and the call of \<open>parse\<close> in \<open>Unmarshal\<close>: the first document of the stream, if it has any.\<close>

definition newParser :: "'s fetch \<Rightarrow> 's \<Rightarrow> (yaml_event \<times> 's) outcome" where
  "newParser fetch s =
     and_then (fetch s) (\<lambda>(ev, s).
       if e_typ ev \<noteq> STREAM_START_EVENT then Panic (ExplicitPanic ''expected stream start event'') else skip_event fetch ev s)"

definition first_document :: "'s fetch \<Rightarrow> nat \<Rightarrow> 's \<Rightarrow> document option outcome option" where
  "first_document fetch n s =
     obind (Some (newParser fetch s)) (\<lambda>(ev, s).
       case e_typ ev of
         STREAM_END_EVENT \<Rightarrow> Some (Ok None)
       | DOCUMENT_START_EVENT _ _ \<Rightarrow> obind (build_document fetch n ev s) (\<lambda>(d, _, _). Some (Ok (Some d)))
       | _ \<Rightarrow> obind (build_node fetch n ev s) (\<lambda>(c, as, _, _). Some (Ok (Some \<lparr>doc_root = c, doc_anchors = as\<rparr>))))"

text \<open>\<open>Unmarshal\<close> up to the tree, from the tokens of the text.\<close>

definition yaml_tree :: "nat \<Rightarrow> yaml_token list \<Rightarrow> go_error \<Rightarrow> document option outcome option" where
  "yaml_tree n tokens err = first_document parser_parse n (new_parser tokens err)"

end
