(* ===== verification/Base64.thy ===== *)
theory Base64
  imports GoLib
begin

text \<open>
  \<open>encoding/base64\<close> with the standard alphabet and padding, as \<open>go-yaml/yaml/resolve.go\<close> uses it for strings that are not
  text: \<open>encodeBase64\<close> breaks the encoding into lines and \<open>DecodeString\<close> skips the line ends.
\<close>

section \<open>The alphabet\<close>

definition sextet_char :: "nat \<Rightarrow> char" where
  "sextet_char n =
     (if n < 26 then char_of (65 + n) else if n < 52 then char_of (97 + (n - 26)) else if n < 62 then char_of (48 + (n - 52))
      else if n = 62 then CHR ''+'' else CHR ''/'')"

definition char_sextet :: "char \<Rightarrow> nat option" where
  "char_sextet c =
     (let n = (of_char c :: nat) in
      if 65 \<le> n \<and> n \<le> 90 then Some (n - 65) else if 97 \<le> n \<and> n \<le> 122 then Some (n - 97 + 26)
      else if 48 \<le> n \<and> n \<le> 57 then Some (n - 48 + 52) else if c = CHR ''+'' then Some 62 else if c = CHR ''/'' then Some 63
      else None)"

definition line_end :: "char \<Rightarrow> bool" where
  "line_end c \<longleftrightarrow> c = CHR 0x0A \<or> c = CHR 0x0D"

lemma sextet_code:
  "(of_char (sextet_char n) :: nat) = (if n < 26 then 65 + n else if n < 52 then 71 + n else if n < 62 then n - 4 else if n = 62 then 43 else 47)"
  by (auto simp: sextet_char_def)

lemma sextet_roundtrip [simp]: "n < 64 \<Longrightarrow> char_sextet (sextet_char n) = Some n"
proof -
  assume "n < 64"
  then consider "n < 26" | "26 \<le> n" "n < 52" | "52 \<le> n" "n < 62" | "n = 62" | "n = 63" by linarith
  then show ?thesis
  proof cases
    case 3
    then have "48 \<le> n - 4" "n - 4 \<le> 57" by arith+
    with 3 show ?thesis by (simp add: char_sextet_def sextet_code)
  qed (simp_all add: char_sextet_def sextet_code, simp_all add: sextet_char_def)
qed

lemma sextet_char_other [simp]: "sextet_char n \<noteq> CHR ''=''" "\<not> line_end (sextet_char n)"
proof -
  have "(of_char (sextet_char n) :: nat) \<notin> {61, 10, 13}" by (auto simp: sextet_code)
  then show "sextet_char n \<noteq> CHR ''=''" "\<not> line_end (sextet_char n)" by (auto simp: line_end_def)
qed

section \<open>Encoding and decoding\<close>

fun encode_bytes :: "nat list \<Rightarrow> string" where
  "encode_bytes [] = []"
| "encode_bytes [a] = [sextet_char (a div 4), sextet_char (a mod 4 * 16), CHR ''='', CHR ''='']"
| "encode_bytes [a, b] =
     [sextet_char (a div 4), sextet_char (a mod 4 * 16 + b div 16), sextet_char (b mod 16 * 4), CHR ''='']"
| "encode_bytes (a # b # c # bs) =
     sextet_char (a div 4) # sextet_char (a mod 4 * 16 + b div 16) # sextet_char (b mod 16 * 4 + c div 64) # sextet_char (c mod 64) #
     encode_bytes bs"

definition encode :: "string \<Rightarrow> string" where
  "encode s = encode_bytes (map of_char s)"

text \<open>The characters of a group of four; what the bits of a padded group hold below the last byte is not looked at.\<close>

fun decode_groups :: "string \<Rightarrow> nat list option" where
  "decode_groups [] = Some []"
| "decode_groups (a # b # c # d # cs) =
     (case (char_sextet a, char_sextet b, char_sextet c, char_sextet d) of
        (Some w, Some x, Some y, Some z) \<Rightarrow>
          map_option (\<lambda>bs. (w * 4 + x div 16) # (x mod 16 * 16 + y div 4) # (y mod 4 * 64 + z) # bs) (decode_groups cs)
      | (Some w, Some x, Some y, None) \<Rightarrow>
          if d = CHR ''='' \<and> cs = [] then Some [w * 4 + x div 16, x mod 16 * 16 + y div 4] else None
      | (Some w, Some x, None, None) \<Rightarrow>
          if c = CHR ''='' \<and> d = CHR ''='' \<and> cs = [] then Some [w * 4 + x div 16] else None
      | _ \<Rightarrow> None)"
| "decode_groups _ = None"

definition DecodeString :: "string \<Rightarrow> string option" where
  "DecodeString s = map_option (map char_of) (decode_groups (filter (\<lambda>c. \<not> line_end c) s))"

text \<open>The lines of \<open>encodeBase64\<close>: pieces of 70 characters, each ended if there is more than one or one that is full.\<close>

function break_lines :: "nat \<Rightarrow> string \<Rightarrow> string" where
  "break_lines n s = (if s = [] then [] else if n = 0 then s else take n s @ [CHR 0x0A] @ break_lines n (drop n s))"
  by pat_completeness auto
termination by (relation "measure (\<lambda>(_, s). length s)") auto

declare break_lines.simps [simp del]

definition encodeBase64 :: "string \<Rightarrow> string" where
  "encodeBase64 s = (let e = encode s in if length e div 70 + 1 > 1 then break_lines 70 e else e)"

section \<open>The round trip\<close>

lemma equals_sextet [simp]: "char_sextet CHR ''='' = None"
  by (simp add: char_sextet_def)

lemma byte_parts:
  fixes a :: nat
  assumes "a < 256"
  shows "a div 4 < 64" "a div 16 < 16" "a div 64 < 4"
  using assms by (auto intro: less_mult_imp_div_less)

lemma joined_less:
  fixes x y :: nat
  shows "x < 16 \<Longrightarrow> a mod 4 * 16 + x < 64" and "y < 4 \<Longrightarrow> b mod 16 * 4 + y < 64" and "c mod 64 < (64 :: nat)"
  using mod_less_divisor [of 4 a] mod_less_divisor [of 16 b] by simp_all

lemma decode_encode_bytes: "\<forall>b \<in> set bs. b < 256 \<Longrightarrow> decode_groups (encode_bytes bs) = Some bs"
proof (induction bs rule: encode_bytes.induct)
  case (2 a)
  then show ?case using byte_parts [of a] joined_less(1) [of 0 a] by simp
next
  case (3 a b)
  then show ?case using byte_parts [of a] byte_parts [of b] joined_less(1) [of "b div 16" a] joined_less(2) [of 0 b] by simp
next
  case (4 a b c bs)
  then show ?case
    using byte_parts [of a] byte_parts [of b] byte_parts [of c] joined_less(1) [of "b div 16" a] joined_less(2) [of "c div 64" b]
      joined_less(3) [of c] by simp
qed simp

lemma encode_no_line_end: "c \<in> set (encode_bytes bs) \<Longrightarrow> \<not> line_end c"
proof -
  have "\<not> line_end CHR ''=''" by (simp add: line_end_def)
  then show "c \<in> set (encode_bytes bs) \<Longrightarrow> \<not> line_end c" by (induction bs rule: encode_bytes.induct) auto
qed

lemma filter_encode [simp]: "filter (\<lambda>c. \<not> line_end c) (encode_bytes bs) = encode_bytes bs"
  by (simp add: filter_id_conv encode_no_line_end)

lemma filter_break_lines: "filter (\<lambda>c. \<not> line_end c) (break_lines n s) = filter (\<lambda>c. \<not> line_end c) s"
proof (induction n s rule: break_lines.induct)
  case (1 n s)
  show ?case
  proof (cases "s = [] \<or> n = 0")
    case False
    have "filter (\<lambda>c. \<not> line_end c) (take n s) @ filter (\<lambda>c. \<not> line_end c) (drop n s) = filter (\<lambda>c. \<not> line_end c) s"
      by (metis append_take_drop_id filter_append)
    with False 1 show ?thesis by (simp add: break_lines.simps [of n s] line_end_def [of "CHR 0x0A"])
  qed (auto simp: break_lines.simps [of n s])
qed

lemma DecodeString_encodeBase64: "DecodeString (encodeBase64 s) = Some s"
proof -
  have "decode_groups (encode s) = Some (map of_char s)"
    unfolding encode_def by (rule decode_encode_bytes) auto
  then show ?thesis
    by (simp add: DecodeString_def encodeBase64_def Let_def filter_break_lines comp_def encode_def)
qed

end
