(* ===== verification/GoNumber.thy ===== *)
theory GoNumber
  imports GoLib
begin

text \<open>
  What the YAML library uses of \<open>strconv\<close> and \<open>fmt\<close> for numbers: \<open>ParseInt\<close> and \<open>ParseUint\<close> with a base, \<open>ParseFloat\<close> to 64
  bits and the text of a float. The base 0 is that of the Go releases the library was written for, before 1.13: \<open>0x\<close> and a
  leading \<open>0\<close>.
\<close>

section \<open>Integers\<close>

definition base_digit :: "char \<Rightarrow> nat option" where
  "base_digit c =
     (let n = (of_char c :: nat) in
      if 48 \<le> n \<and> n \<le> 57 then Some (n - 48)
      else if 97 \<le> n \<and> n \<le> 122 then Some (n - 97 + 10)
      else if 65 \<le> n \<and> n \<le> 90 then Some (n - 65 + 10)
      else None)"

fun base_digits :: "nat \<Rightarrow> string \<Rightarrow> nat \<Rightarrow> nat option" where
  "base_digits base [] acc = Some acc"
| "base_digits base (c # cs) acc =
     (case base_digit c of
        None \<Rightarrow> None
      | Some d \<Rightarrow> if d < base then base_digits base cs (acc * base + d) else None)"

text \<open>An unsigned number in a base, before the range check; the base 0 is read off the prefix.\<close>

definition base_nat :: "nat \<Rightarrow> string \<Rightarrow> nat option" where
  "base_nat base s =
     (if s = [] then None
      else if base \<noteq> 0 then base_digits base s 0
      else if hd s = CHR ''0'' \<and> length s > 1 \<and> s ! 1 \<in> {CHR ''x'', CHR ''X''}
           then if length s < 3 then None else base_digits 16 (drop 2 s) 0
      else if hd s = CHR ''0'' then base_digits 8 (tl s) 0
      else base_digits 10 s 0)"

definition ParseUint :: "string \<Rightarrow> nat \<Rightarrow> int option" where
  "ParseUint s base =
     (case base_nat base s of None \<Rightarrow> None | Some n \<Rightarrow> if n < 2 ^ 64 then Some (int n) else None)"

definition ParseInt :: "string \<Rightarrow> nat \<Rightarrow> int option" where
  "ParseInt s base =
     (case s of
        [] \<Rightarrow> None
      | c # cs \<Rightarrow>
          (case base_nat base (if c = CHR ''-'' \<or> c = CHR ''+'' then cs else s) of
             None \<Rightarrow> None
           | Some n \<Rightarrow>
               (let v = (if c = CHR ''-'' then - int n else int n)
                in if in_int64 v then Some v else None)))"

lemma ParseInt_range: "ParseInt s base = Some v \<Longrightarrow> in_int64 v"
  by (auto simp: ParseInt_def Let_def split: list.splits option.splits if_splits)

lemma base_digit_digit: "is_digit c \<Longrightarrow> base_digit c = Some (digit_val c)"
  by (simp add: base_digit_def is_digit_def digit_val_def)

lemma base_digits_ten: "list_all is_digit s \<Longrightarrow> base_digits 10 s acc = parse_digits s acc"
proof (induction s arbitrary: acc)
  case (Cons c cs)
  have "digit_val c < 10" using Cons.prems by (auto simp: is_digit_def digit_val_def)
  with Cons show ?case by (simp add: base_digit_digit mult.commute)
qed simp

section \<open>Floats\<close>

text \<open>A \<open>float64\<close>: not a number, an infinity, or a sign with a mantissa below \<open>2 ^ 53\<close> and an exponent of two.\<close>

datatype float64 = NaN | Inf bool | Fin bool nat int

fun bit_len :: "nat \<Rightarrow> nat" where
  "bit_len n = (if n = 0 then 0 else Suc (bit_len (n div 2)))"

declare bit_len.simps [simp del]

text \<open>The quotient rounded to the nearest integer, to the even one between two.\<close>

definition div_even :: "nat \<Rightarrow> nat \<Rightarrow> nat" where
  "div_even n d =
     (let q = n div d; r = n mod d in if 2 * r < d \<or> 2 * r = d \<and> even q then q else q + 1)"

text \<open>\<open>n / d * 2 ^ - e\<close> as a fraction.\<close>

definition scaled :: "nat \<Rightarrow> nat \<Rightarrow> int \<Rightarrow> nat \<times> nat" where
  "scaled n d e = (if 0 \<le> e then (n, d * 2 ^ nat e) else (n * 2 ^ nat (- e), d))"

text \<open>The float nearest to \<open>n / d\<close>; \<open>None\<close> is the overflow.\<close>

definition nearest_float :: "bool \<Rightarrow> nat \<Rightarrow> nat \<Rightarrow> float64 option" where
  "nearest_float neg n d =
     (if n = 0 then Some (Fin neg 0 0) else
      let e0 = int (bit_len n) - int (bit_len d) - 53;
          (a0, b0) = scaled n d e0;
          e = max (- 1074) (if b0 * 2 ^ 53 \<le> a0 then e0 + 1 else e0);
          (a, b) = scaled n d e;
          m = div_even a b;
          (m, e) = (if m = 2 ^ 53 then (2 ^ 52, e + 1) else (m, e))
      in if m = 0 then Some (Fin neg 0 0) else if e > 971 then None else Some (Fin neg m e))"

text \<open>\<open>d * 10 ^ k\<close> as a float, with the shortcuts of \<open>decimal.floatBits\<close> for exponents far out of range.\<close>

definition decimal_float :: "bool \<Rightarrow> nat \<Rightarrow> int \<Rightarrow> float64 option" where
  "decimal_float neg d k =
     (let dp = int (length (show_nat d)) + k in
      if d = 0 \<or> dp < - 330 then Some (Fin neg 0 0)
      else if dp > 310 then None
      else if 0 \<le> k then nearest_float neg (d * 10 ^ nat k) 1
      else nearest_float neg d (10 ^ nat (- k)))"

text \<open>
  \<open>ParseFloat(s, 64)\<close> for a decimal number; \<open>None\<close> is its error. The names of the infinities and of not-a-number, which it
  also takes, do not come from the callers: what they pass starts with a dot or has the form of a number.
\<close>

definition split_sign :: "string \<Rightarrow> bool \<times> string" where
  "split_sign s =
     (case s of [] \<Rightarrow> (False, s)
      | c # cs \<Rightarrow> if c = CHR ''-'' then (True, cs) else if c = CHR ''+'' then (False, cs) else (False, s))"

definition exponent :: "string \<Rightarrow> int option" where
  "exponent s =
     (case s of
        [] \<Rightarrow> Some 0
      | c # cs \<Rightarrow>
          if c \<noteq> CHR ''e'' \<and> c \<noteq> CHR ''E'' then None
          else (let (neg, ds) = split_sign cs in
            map_option (\<lambda>n. let n = int (min n 10000) in if neg then - n else n) (parse_nat ds)))"

definition ParseFloat :: "string \<Rightarrow> float64 option" where
  "ParseFloat s =
     (let (neg, s) = split_sign s;
          whole = takeWhile is_digit s;
          s = dropWhile is_digit s;
          (frac, s) = (case s of [] \<Rightarrow> ([], s) | c # cs \<Rightarrow>
            if c = CHR ''.'' then (takeWhile is_digit cs, dropWhile is_digit cs) else ([], s))
      in if whole @ frac = [] then None else
         Option.bind (exponent s) (\<lambda>e.
         Option.bind (parse_digits (whole @ frac) 0) (\<lambda>d. decimal_float neg d (e - int (length frac)))))"

section \<open>The text of a float\<close>

text \<open>Where the decimal point of \<open>n / d\<close> is: the \<open>dp\<close> with \<open>10 ^ (dp - 1) \<le> n / d < 10 ^ dp\<close>, within 400 zeros.\<close>

fun leading_zeros :: "nat \<Rightarrow> nat \<Rightarrow> nat \<Rightarrow> nat" where
  "leading_zeros 0 n d = 0"
| "leading_zeros (Suc k) n d = (if d \<le> 10 * n then 0 else Suc (leading_zeros k (10 * n) d))"

definition decimal_point :: "nat \<Rightarrow> nat \<Rightarrow> int" where
  "decimal_point n d = (if d \<le> n then int (length (show_nat (n div d))) else - int (leading_zeros 400 n d))"

text \<open>\<open>roundShortest\<close>: the fewest digits that still give the same float, and their decimal point.\<close>

definition cut :: "nat \<Rightarrow> nat \<Rightarrow> int \<Rightarrow> nat \<times> nat" where
  "cut n d k = (if 0 \<le> k then (n * 10 ^ nat k, d) else (n, d * 10 ^ nat (- k)))"

fun shortest_from :: "nat \<Rightarrow> nat \<Rightarrow> float64 \<Rightarrow> nat \<Rightarrow> nat \<Rightarrow> int \<Rightarrow> nat \<times> int" where
  "shortest_from 0 i x n d dp = (0, 0)"
| "shortest_from (Suc fuel) i x n d dp =
     (let k = int i - dp;
          (a, b) = cut n d k;
          down = a div b;
          okdown = (decimal_float False down (- k) = Some x);
          okup = (decimal_float False (down + 1) (- k) = Some x)
      in if okdown \<and> okup then (div_even a b, - k)
         else if okdown then (down, - k)
         else if okup then (down + 1, - k)
         else shortest_from fuel (Suc i) x n d dp)"

definition shortest :: "nat \<Rightarrow> int \<Rightarrow> nat \<times> int" where
  "shortest m e =
     (let (n, d) = (if 0 \<le> e then (m * 2 ^ nat e, 1) else (m, 2 ^ nat (- e)))
      in shortest_from 18 1 (Fin False m e) n d (decimal_point n d))"

text \<open>The digits without the zeros at the end, and the exponent of ten that goes with them.\<close>

fun strip_zeros :: "nat \<Rightarrow> string \<Rightarrow> int \<Rightarrow> string \<times> int" where
  "strip_zeros 0 s k = (s, k)"
| "strip_zeros (Suc n) s k = (if s \<noteq> [] \<and> last s = CHR ''0'' then strip_zeros n (butlast s) (k + 1) else (s, k))"

definition pad2 :: "string \<Rightarrow> string" where
  "pad2 s = (if length s < 2 then CHR ''0'' # s else s)"

text \<open>The verb \<open>%v\<close>: \<open>%g\<close> with the shortest digits, in exponent form below -4 and from 6 on.\<close>

definition float_text :: "float64 \<Rightarrow> string" where
  "float_text x =
     (case x of
        NaN \<Rightarrow> ''NaN''
      | Inf neg \<Rightarrow> (if neg then ''-Inf'' else ''+Inf'')
      | Fin neg m e \<Rightarrow>
          (let sign = (if neg then ''-'' else []) in
           if m = 0 then sign @ ''0'' else
           let (dg, k) = shortest m e;
               (ds, k) = strip_zeros 20 (show_nat dg) k;
               dp = int (length ds) + k;
               x = dp - 1
           in sign @
             (if x < - 4 \<or> 6 \<le> x
              then hd ds # (if tl ds = [] then [] else CHR ''.'' # tl ds) @
                   (if x < 0 then ''e-'' else ''e+'') @ pad2 (itoa \<bar>x\<bar>)
              else if dp \<le> 0 then ''0.'' @ replicate (nat (- dp)) CHR ''0'' @ ds
              else if int (length ds) \<le> dp then ds @ replicate (nat k) CHR ''0''
              else take (nat dp) ds @ ''.'' @ drop (nat dp) ds)))"

end
