(* ===== verification/YamlResolve.thy ===== *)
theory YamlResolve
  imports YamlNode Base64 GoNumber Ber
begin

text \<open>
  \<open>go-yaml/yaml/resolve.go\<close>: what an untyped scalar stands for. A panic with a \<open>yamlError\<close>, which \<open>Unmarshal\<close> recovers and
  hands back, is an \<open>Err\<close>; \<open>int\<close> has 64 bits, so that a value of \<open>ParseInt\<close> is an \<open>int\<close>.
\<close>

section \<open>Values and tags\<close>

text \<open>The dynamic types of a decoded document.\<close>

datatype yval =
    VNil
  | VBool bool
  | VInt int
  | VUint int
  | VFloat float64
  | VStr string
  | VMap "(yval \<times> yval) list"
  | VSeq "yval list"

definition longTagPrefix :: string where "longTagPrefix = ''tag:yaml.org,2002:''"
definition NULL_TAG :: string where "NULL_TAG = ''tag:yaml.org,2002:null''"
definition BOOL_TAG :: string where "BOOL_TAG = ''tag:yaml.org,2002:bool''"
definition STR_TAG :: string where "STR_TAG = ''tag:yaml.org,2002:str''"
definition INT_TAG :: string where "INT_TAG = ''tag:yaml.org,2002:int''"
definition FLOAT_TAG :: string where "FLOAT_TAG = ''tag:yaml.org,2002:float''"
definition SEQ_TAG :: string where "SEQ_TAG = ''tag:yaml.org,2002:seq''"
definition MAP_TAG :: string where "MAP_TAG = ''tag:yaml.org,2002:map''"
definition BINARY_TAG :: string where "BINARY_TAG = ''tag:yaml.org,2002:binary''"
definition MERGE_TAG :: string where "MERGE_TAG = ''tag:yaml.org,2002:merge''"

lemmas yaml_tags =
  NULL_TAG_def BOOL_TAG_def STR_TAG_def INT_TAG_def FLOAT_TAG_def SEQ_TAG_def MAP_TAG_def BINARY_TAG_def MERGE_TAG_def

definition has_prefix :: "string \<Rightarrow> string \<Rightarrow> bool" where
  "has_prefix p s \<longleftrightarrow> take (length p) s = p"

definition shortTag :: "string \<Rightarrow> string" where
  "shortTag tag = (if has_prefix longTagPrefix tag then ''!!'' @ drop (length longTagPrefix) tag else tag)"

definition longTag :: "string \<Rightarrow> string" where
  "longTag tag = (if has_prefix ''!!'' tag then longTagPrefix @ drop 2 tag else tag)"

definition resolvableTag :: "string \<Rightarrow> bool" where
  "resolvableTag tag \<longleftrightarrow> tag \<in> {[], STR_TAG, BOOL_TAG, INT_TAG, FLOAT_TAG, NULL_TAG}"

section \<open>The tables\<close>

datatype hint = NoHint | HintMap | HintDigit | HintSign | HintDot | HintOther

definition resolveTable :: "char \<Rightarrow> hint" where
  "resolveTable c =
     (if c \<in> set ''+-'' then HintSign
      else if c \<in> set ''0123456789'' then HintDigit
      else if c \<in> set ''yYnNtTfFoO~'' then HintMap
      else if c = CHR ''.'' then HintDot
      else NoHint)"

definition resolveMapList :: "(yval \<times> string \<times> string list) list" where
  "resolveMapList =
     [(VBool True, BOOL_TAG, [''y'', ''Y'', ''yes'', ''Yes'', ''YES'']),
      (VBool True, BOOL_TAG, [''true'', ''True'', ''TRUE'']),
      (VBool True, BOOL_TAG, [''on'', ''On'', ''ON'']),
      (VBool False, BOOL_TAG, [''n'', ''N'', ''no'', ''No'', ''NO'']),
      (VBool False, BOOL_TAG, [''false'', ''False'', ''FALSE'']),
      (VBool False, BOOL_TAG, [''off'', ''Off'', ''OFF'']),
      (VNil, NULL_TAG, [[], ''~'', ''null'', ''Null'', ''NULL'']),
      (VFloat NaN, FLOAT_TAG, [''.nan'', ''.NaN'', ''.NAN'']),
      (VFloat (Inf False), FLOAT_TAG, [''.inf'', ''.Inf'', ''.INF'']),
      (VFloat (Inf False), FLOAT_TAG, [''+.inf'', ''+.Inf'', ''+.INF'']),
      (VFloat (Inf True), FLOAT_TAG, [''-.inf'', ''-.Inf'', ''-.INF'']),
      (VStr ''<<'', MERGE_TAG, [''<<''])]"

definition resolveMap :: "string \<Rightarrow> (string \<times> yval) option" where
  "resolveMap s = map_of (concat (map (\<lambda>(v, tag, l). map (\<lambda>s. (s, tag, v)) l) resolveMapList)) s"

section \<open>Numbers\<close>

text \<open>The expression \<open>yamlStyleFloat\<close>: \<open>^[-+]?[0-9]*\.?[0-9]+([eE][-+][0-9]+)?$\<close>.\<close>

definition all_digits :: "string \<Rightarrow> bool" where
  "all_digits s \<longleftrightarrow> s \<noteq> [] \<and> list_all is_digit s"

definition style_exponent :: "string \<Rightarrow> bool" where
  "style_exponent s = (case s of [] \<Rightarrow> True | [c] \<Rightarrow> False
     | c # d # ds \<Rightarrow> c \<in> set ''eE'' \<and> d \<in> set ''-+'' \<and> all_digits ds)"

definition yamlStyleFloat :: "string \<Rightarrow> bool" where
  "yamlStyleFloat s =
     (let s = snd (split_sign s); whole = takeWhile is_digit s; rest = dropWhile is_digit s in
      case rest of
        [] \<Rightarrow> whole \<noteq> []
      | c # cs \<Rightarrow>
          if c = CHR ''.'' then takeWhile is_digit cs \<noteq> [] \<and> style_exponent (dropWhile is_digit cs)
          else whole \<noteq> [] \<and> style_exponent rest)"

text \<open>The case of a digit or a sign: the first of the readings that succeeds.\<close>

definition binary_number :: "string \<Rightarrow> (string \<times> yval) option" where
  "binary_number plain =
     (if has_prefix ''0b'' plain then
        (case ParseInt (drop 2 plain) 2 of
           Some v \<Rightarrow> Some (INT_TAG, VInt v)
         | None \<Rightarrow> map_option (\<lambda>v. (INT_TAG, VUint v)) (ParseUint (drop 2 plain) 2))
      else if has_prefix ''-0b'' plain then map_option (\<lambda>v. (INT_TAG, VInt (wrap64 (- v)))) (ParseInt (drop 3 plain) 2)
      else None)"

definition number :: "string \<Rightarrow> (string \<times> yval) option" where
  "number s =
     (let plain = filter (\<lambda>c. c \<noteq> CHR ''_'') s in
      case ParseInt plain 0 of
        Some v \<Rightarrow> Some (INT_TAG, VInt v)
      | None \<Rightarrow>
          (case ParseUint plain 0 of
             Some v \<Rightarrow> Some (INT_TAG, VUint v)
           | None \<Rightarrow>
               (case if yamlStyleFloat plain then ParseFloat plain else None of
                  Some v \<Rightarrow> Some (FLOAT_TAG, VFloat v)
                | None \<Rightarrow> binary_number plain)))"

section \<open>resolve\<close>

text \<open>The body, before the check of the tag that is deferred. A string that is not UTF-8 is handed on in base 64.\<close>

definition plain_string :: "string \<Rightarrow> string \<Rightarrow> string \<times> yval" where
  "plain_string tag s =
     (if tag = BINARY_TAG then (BINARY_TAG, VStr s)
      else if utf8_valid (bytes_of_string s) then (STR_TAG, VStr s)
      else (BINARY_TAG, VStr (encodeBase64 s)))"

definition resolve_hint :: "string \<Rightarrow> string \<Rightarrow> (string \<times> yval) outcome" where
  "resolve_hint tag s =
     (let hint = (if s = [] then HintOther else resolveTable (hd s)) in
      if hint = NoHint \<or> tag = STR_TAG \<or> tag = BINARY_TAG then Ok (plain_string tag s)
      else case resolveMap s of
        Some item \<Rightarrow> Ok item
      | None \<Rightarrow>
          (case hint of
             HintOther \<Rightarrow> Panic (ExplicitPanic ''resolveTable item not yet handled'')
           | HintDot \<Rightarrow> (case ParseFloat s of Some v \<Rightarrow> Ok (FLOAT_TAG, VFloat v) | None \<Rightarrow> Ok (plain_string tag s))
           | HintMap \<Rightarrow> Ok (plain_string tag s)
           | _ \<Rightarrow> (case number s of Some r \<Rightarrow> Ok r | None \<Rightarrow> Ok (plain_string tag s))))"

definition resolve :: "string \<Rightarrow> string \<Rightarrow> (string \<times> yval) outcome" where
  "resolve tag s =
     (if \<not> resolvableTag tag then Ok (tag, VStr s) else
      and_then (resolve_hint tag s) (\<lambda>(rtag, v).
        if tag \<in> {[], rtag, STR_TAG, BINARY_TAG} then Ok (rtag, v)
        else Err (PlainError (''yaml: cannot decode '' @ shortTag rtag @ '' `'' @ s @ ''` as a '' @ shortTag tag))))"

text \<open>The first half of \<open>decoder.scalar\<close>: the tag and the value of a scalar node.\<close>

definition scalar_value :: "string \<Rightarrow> string \<Rightarrow> bool \<Rightarrow> (string \<times> yval) outcome" where
  "scalar_value tag s implicit =
     (if tag = [] \<and> \<not> implicit then Ok (STR_TAG, VStr s) else
      and_then (resolve tag s) (\<lambda>(tag, v).
        if tag = BINARY_TAG then
          (case v of
             VStr t \<Rightarrow> (case DecodeString t of
                Some data \<Rightarrow> Ok (tag, VStr data)
              | None \<Rightarrow> Err (PlainError ''yaml: !!binary value contains invalid base64 data''))
           | _ \<Rightarrow> Panic TypeAssertion)
        else Ok (tag, v)))"

section \<open>Facts\<close>

lemma resolveMap_empty [simp]: "resolveMap [] = Some (NULL_TAG, VNil)"
  by (simp add: resolveMap_def resolveMapList_def)

text \<open>No entry of the map carries the tag of binary data, and what carries it is a string.\<close>

lemma resolveMap_tag: "resolveMap s = Some (tag, v) \<Longrightarrow> tag \<noteq> BINARY_TAG"
proof -
  have "\<forall>(v, tag, l) \<in> set resolveMapList. tag \<noteq> BINARY_TAG" by (simp add: resolveMapList_def yaml_tags)
  then show "resolveMap s = Some (tag, v) \<Longrightarrow> tag \<noteq> BINARY_TAG" by (auto simp: resolveMap_def dest!: map_of_SomeD)
qed

lemma number_tag: "number s = Some (tag, v) \<Longrightarrow> tag \<noteq> BINARY_TAG"
  by (auto simp: number_def binary_number_def Let_def yaml_tags split: option.splits if_splits)

lemma plain_string_binary: "plain_string tag s = (BINARY_TAG, v) \<Longrightarrow> \<exists>t. v = VStr t"
  by (auto simp: plain_string_def yaml_tags split: if_splits)

lemma resolve_hint_safe: "\<not> panics (resolve_hint tag s)"
  by (auto simp: resolve_hint_def Let_def resolveTable_def split: hint.splits option.splits)

lemma resolve_hint_binary: "resolve_hint tag s = Ok (BINARY_TAG, v) \<Longrightarrow> \<exists>t. v = VStr t"
  by (auto simp: resolve_hint_def Let_def yaml_tags [symmetric] dest: resolveMap_tag number_tag plain_string_binary
      split: if_splits hint.splits option.splits) (simp_all add: yaml_tags)

lemma resolve_safe: "\<not> panics (resolve tag s)"
  using resolve_hint_safe [of tag s] by (auto simp: resolve_def)

lemma resolve_binary: "resolve tag s = Ok (BINARY_TAG, v) \<Longrightarrow> \<exists>t. v = VStr t"
  by (auto simp: resolve_def outcome_simps dest: resolve_hint_binary split: if_splits)

lemma scalar_value_safe: "\<not> panics (scalar_value tag s implicit)"
  using resolve_safe [of tag s] resolve_binary [of tag s]
  by (auto simp: scalar_value_def split: yval.splits option.splits)

end
