(* ===== verification/YamlDecode.thy ===== *)
theory YamlDecode
  imports YamlResolve Config
begin

text \<open>
  The second half of \<open>go-yaml/yaml/decode.go\<close>: the decoder for the target that the configuration gives it, a
  \<open>map[interface{}]interface{}\<close> whose keys and values are \<open>interface{}\<close>, and \<open>Unmarshal\<close>. A value of that kind has no type
  of its own, so that decoding into it never reports a type error; the map itself may, and its functions hand back the
  reports (\<open>terrors\<close>) with the map. The branches for structs, slices, numbers, pointers and \<open>Unmarshaler\<close> are not reached
  from this target.
\<close>

section \<open>Maps\<close>

text \<open>The equality of interface values: of the same dynamic type, and the one of floats for floats.\<close>

definition float_eq :: "float64 \<Rightarrow> float64 \<Rightarrow> bool" where
  "float_eq x y =
     (case (x, y) of
        (Fin s m e, Fin s' m' e') \<Rightarrow> m = 0 \<and> m' = 0 \<or> s = s' \<and> m = m' \<and> e = e'
      | (Inf s, Inf s') \<Rightarrow> s = s'
      | _ \<Rightarrow> False)"

fun key_eq :: "yval \<Rightarrow> yval \<Rightarrow> bool" where
  "key_eq (VFloat x) (VFloat y) \<longleftrightarrow> float_eq x y"
| "key_eq x y \<longleftrightarrow> x = y"

text \<open>\<open>SetMapIndex\<close>: the entry of an equal key is replaced, the key with it.\<close>

fun SetMapIndex :: "yval \<Rightarrow> yval \<Rightarrow> (yval \<times> yval) list \<Rightarrow> (yval \<times> yval) list" where
  "SetMapIndex k v [] = [(k, v)]"
| "SetMapIndex k v ((k', v') # m) = (if key_eq k k' then (k, v) # m else (k', v') # SetMapIndex k v m)"

text \<open>\<open>resetMap\<close>: every key is deleted, which a key that does not equal itself outlives.\<close>

definition resetMap :: "(yval \<times> yval) list \<Rightarrow> (yval \<times> yval) list" where
  "resetMap m = filter (\<lambda>(k, _). \<not> key_eq k k) m"

section \<open>Nodes\<close>

definition isMerge :: "ynode \<Rightarrow> bool" where
  "isMerge n =
     (case n of ScalarNode _ tag v implicit \<Rightarrow> v = ''<<'' \<and> (implicit \<or> tag = MERGE_TAG) | _ \<Rightarrow> False)"

fun is_mapping :: "ynode \<Rightarrow> bool" where
  "is_mapping (MappingNode _ _) \<longleftrightarrow> True"
| "is_mapping _ \<longleftrightarrow> False"

definition failWantMap :: "'a outcome" where
  "failWantMap = Err (PlainError ''yaml: map merge requires map or sequence of maps as the value'')"

text \<open>The map of the anchors of a document, to which every definition of a name has been assigned in turn.\<close>

definition anchored :: "anchors \<Rightarrow> string \<Rightarrow> ynode option" where
  "anchored as name = map_of (rev as) name"

text \<open>An anchor of something else than a mapping.\<close>

definition anchors_other :: "anchors \<Rightarrow> string \<Rightarrow> bool" where
  "anchors_other as name = (case anchored as name of Some n \<Rightarrow> \<not> is_mapping n | None \<Rightarrow> False)"

text \<open>\<open>alias\<close> up to the recursive call: the node an alias stands for.\<close>

definition alias_target :: "anchors \<Rightarrow> string list \<Rightarrow> string \<Rightarrow> ynode outcome" where
  "alias_target as open name =
     (case anchored as name of
        None \<Rightarrow> Err (PlainError (''yaml: unknown anchor '' @ [CHR 0x27] @ name @ [CHR 0x27] @ '' referenced''))
      | Some n \<Rightarrow>
          if name \<in> set open
          then Err (PlainError (''yaml: anchor '' @ [CHR 0x27] @ name @ [CHR 0x27] @ '' value contains itself''))
          else Ok n)"

text \<open>\<open>terror\<close> for the map: the line counts from one here.\<close>

definition terror :: "nat \<Rightarrow> string \<Rightarrow> string \<Rightarrow> string \<Rightarrow> string" where
  "terror line ntag v tag =
     (let tag = (if ntag \<noteq> [] then ntag else tag);
          v = (if tag \<noteq> SEQ_TAG \<and> tag \<noteq> MAP_TAG
               then if length v > 10 then '' `'' @ take 7 v @ ''...`'' else '' `'' @ v @ ''`''
               else v)
      in ''line '' @ itoa (int (line + 1)) @ '': cannot unmarshal '' @ shortTag tag @ v @ '' into map[interface {}]interface {}'')"

text \<open>A key that is a map or a slice is refused. The message goes on with the key, which is left out here.\<close>

definition map_key :: "yval \<Rightarrow> yval outcome" where
  "map_key k =
     (case k of
        VMap _ \<Rightarrow> Err (PlainError ''yaml: invalid map key: '')
      | VSeq _ \<Rightarrow> Err (PlainError ''yaml: invalid map key: '')
      | _ \<Rightarrow> Ok k)"

section \<open>The decoder\<close>

text \<open>
  \<open>as\<close> holds the anchors of the document and \<open>open\<close> the aliases that are being followed. \<open>unmarshal\<close> decodes into an
  \<open>interface{}\<close>, \<open>unmarshal_map\<close> into a map, which may be addressable, and \<open>fill\<close> is the loop of \<open>mapping\<close>.
\<close>

type_synonym entries = "(yval \<times> yval) list"
type_synonym filled = "(entries \<times> string list) outcome"

lemma anchored_mem: "anchored as name = Some n \<Longrightarrow> name \<in> fst ` set as"
  by (auto simp: anchored_def dest!: map_of_SomeD intro: rev_image_eqI)

lemma alias_closer:
  assumes "alias_target as open name = Ok n"
  shows "card (fst ` set as - set (name # open)) < card (fst ` set as - set open)"
proof -
  have "name \<in> fst ` set as" "name \<notin> set open"
    using assms anchored_mem [of as name] by (auto simp: alias_target_def split: option.splits if_splits)
  then show ?thesis by (intro psubset_card_mono) auto
qed

lemma size_list_rev [simp]: "size_list f (rev xs) = size_list f xs"
  by (induction xs) (simp_all add: size_list_append)

function unmarshal :: "anchors \<Rightarrow> string list \<Rightarrow> ynode \<Rightarrow> yval outcome"
and unmarshal_all :: "anchors \<Rightarrow> string list \<Rightarrow> ynode list \<Rightarrow> yval list outcome"
and unmarshal_map :: "anchors \<Rightarrow> string list \<Rightarrow> bool \<Rightarrow> ynode \<Rightarrow> entries \<Rightarrow> filled"
and fill :: "anchors \<Rightarrow> string list \<Rightarrow> bool \<Rightarrow> ynode list \<Rightarrow> entries \<Rightarrow> filled"
and merge :: "anchors \<Rightarrow> string list \<Rightarrow> bool \<Rightarrow> ynode \<Rightarrow> entries \<Rightarrow> filled"
and merge_all :: "anchors \<Rightarrow> string list \<Rightarrow> bool \<Rightarrow> ynode list \<Rightarrow> entries \<Rightarrow> filled" where
  "unmarshal as open (AliasNode line name) =
     and_then (alias_target as open name) (unmarshal as (name # open))"
| "unmarshal as open (ScalarNode line tag v implicit) =
     and_then (scalar_value tag v implicit) (\<lambda>(_, r). Ok r)"
| "unmarshal as open (SequenceNode line children) = and_then (unmarshal_all as open children) (\<lambda>vs. Ok (VSeq vs))"
| "unmarshal as open (MappingNode line children) = and_then (fill as open False children []) (\<lambda>(m, _). Ok (VMap m))"
| "unmarshal_all as open [] = Ok []"
| "unmarshal_all as open (n # ns) =
     and_then (unmarshal as open n) (\<lambda>v. and_then (unmarshal_all as open ns) (\<lambda>vs. Ok (v # vs)))"
| "unmarshal_map as open addr (AliasNode line name) m =
     and_then (alias_target as open name) (\<lambda>n. unmarshal_map as (name # open) addr n m)"
| "unmarshal_map as open addr (ScalarNode line tag v implicit) m =
     and_then (scalar_value tag v implicit) (\<lambda>(rtag, r).
       if r = VNil then Ok (if addr then [] else resetMap m, []) else Ok (m, [terror line tag v rtag]))"
| "unmarshal_map as open addr (SequenceNode line children) m = Ok (m, [terror line [] [] SEQ_TAG])"
| "unmarshal_map as open addr (MappingNode line children) m = fill as open addr children m"
| "fill as open addr [] m = Ok (m, [])"
| "fill as open addr [k] m =
     and_then (if isMerge k then Ok VNil else and_then (unmarshal as open k) map_key) (\<lambda>_. Panic IndexOutOfRange)"
| "fill as open addr (k # v # children) m =
     and_then
       (if isMerge k then merge as open addr v m
        else
          and_then (unmarshal as open k) (\<lambda>r. and_then (map_key r) (\<lambda>k.
          and_then (unmarshal as open v) (\<lambda>e. Ok (SetMapIndex k e m, [])))))
       (\<lambda>(m, errs). and_then (fill as open addr children m) (\<lambda>(m, errs'). Ok (m, errs @ errs')))"
| "merge as open addr (ScalarNode line tag v implicit) m = failWantMap"
| "merge as open addr (MappingNode line children) m = unmarshal_map as open addr (MappingNode line children) m"
| "merge as open addr (AliasNode line name) m =
     (if anchors_other as name then failWantMap
      else unmarshal_map as open addr (AliasNode line name) m)"
| "merge as open addr (SequenceNode line children) m = merge_all as open addr (rev children) m"
| "merge_all as open addr [] m = Ok (m, [])"
| "merge_all as open addr (n # ns) m =
     (if (case n of AliasNode _ name \<Rightarrow> anchors_other as name | _ \<Rightarrow> \<not> is_mapping n) then failWantMap
      else and_then (unmarshal_map as open addr n m) (\<lambda>(m, errs).
           and_then (merge_all as open addr ns m) (\<lambda>(m, errs'). Ok (m, errs @ errs'))))"
  by pat_completeness auto
termination
proof (relation "measures
    [case_sum (case_sum (\<lambda>(as, open, _). card (fst ` set as - set open)) (case_sum (\<lambda>(as, open, _). card (fst ` set as - set open)) (\<lambda>(as, open, _). card (fst ` set as - set open))))
       (case_sum (\<lambda>(as, open, _). card (fst ` set as - set open)) (case_sum (\<lambda>(as, open, _). card (fst ` set as - set open)) (\<lambda>(as, open, _). card (fst ` set as - set open)))),
     case_sum (case_sum (\<lambda>(_, _, n). 2 * size n) (case_sum (\<lambda>(_, _, ns). 2 * size_list size ns) (\<lambda>(_, _, _, n, _). 2 * size n)))
       (case_sum (\<lambda>(_, _, _, ns, _). 2 * size_list size ns) (case_sum (\<lambda>(_, _, _, n, _). 2 * size n + 1) (\<lambda>(_, _, _, ns, _). 2 * size_list size ns)))]",
    goal_cases)
  case 1 show ?case by simp
qed (auto dest: alias_closer)


text \<open>
  \<open>Unmarshal\<close> into the nil map of \<open>GetConfig\<close>, from the tree of the first document: without one the map stays as it is. The
  errors of the types are one error, and what it hands back with them is not used.
\<close>

definition TypeError :: "string list \<Rightarrow> go_error" where
  "TypeError errors = PlainError (''yaml: unmarshal errors:'' @ [CHR 0x0A] @ ''  '' @ join ([CHR 0x0A] @ ''  '') errors)"

definition unmarshal_document :: "document option \<Rightarrow> entries outcome" where
  "unmarshal_document d =
     (case d of
        None \<Rightarrow> Ok []
      | Some d \<Rightarrow>
          and_then (unmarshal_map (doc_anchors d) [] True (doc_root d) []) (\<lambda>(m, errs).
            if errs \<noteq> [] then Err (TypeError errs) else Ok m))"

definition unmarshal_tokens :: "nat \<Rightarrow> yaml_token list \<Rightarrow> go_error \<Rightarrow> entries outcome option" where
  "unmarshal_tokens n tokens err = obind (yaml_tree n tokens err) (\<lambda>d. Some (unmarshal_document d))"

section \<open>The configuration's view of a value\<close>

text \<open>
  The values as \<open>GetKey\<close> and \<open>fmt.Sprint\<close> look at them. \<open>order\<close> is the order in which the entries of a map are printed,
  which depends on the run time.
\<close>

fun yaml_of :: "((yaml \<times> yaml) list \<Rightarrow> (yaml \<times> yaml) list) \<Rightarrow> yval \<Rightarrow> yaml" where
  "yaml_of order VNil = YNil"
| "yaml_of order (VBool b) = YScalar (if b then ''true'' else ''false'')"
| "yaml_of order (VInt i) = YScalar (itoa i)"
| "yaml_of order (VUint i) = YScalar (itoa i)"
| "yaml_of order (VFloat x) = YScalar (float_text x)"
| "yaml_of order (VStr s) = YStr s"
| "yaml_of order (VMap m) = YMap (order (map (\<lambda>(k, v). (yaml_of order k, yaml_of order v)) m))"
| "yaml_of order (VSeq vs) = YSeq (map (yaml_of order) vs)"

definition yaml_entries :: "((yaml \<times> yaml) list \<Rightarrow> (yaml \<times> yaml) list) \<Rightarrow> entries \<Rightarrow> (yaml \<times> yaml) list" where
  "yaml_entries order m = order (map (\<lambda>(k, v). (yaml_of order k, yaml_of order v)) m)"

end
