(* ===== verification/YamlParserFacts.thy ===== *)
theory YamlParserFacts
  imports YamlParser
begin

text \<open>
  The parser against its grammar: each step of the machine emits an event that the grammar allows where the parser is, it
  never panics, and it uses up a measure of what is left.
\<close>

section \<open>The grammar of events\<close>

text \<open>What is still to come of the constructs around the current position, the innermost first. The three \<open>XPair\<close> places
  are those of a single pair in a flow sequence.\<close>

datatype expect = XStream | XDocs | XDocEnd | XNode | XSeq | XMapKey | XMapValue | XPairKey | XPairValue | XPairEnd

text \<open>The first event of a node before the rest \<open>st\<close>.\<close>

inductive node_event :: "expect list \<Rightarrow> event_type \<Rightarrow> expect list \<Rightarrow> bool" where
  node_scalar: "node_event st (SCALAR_EVENT a t v i q s) st"
| node_alias: "node_event st (ALIAS_EVENT a) st"
| node_sequence: "node_event st (SEQUENCE_START_EVENT a t i s) (XSeq # st)"
| node_mapping: "node_event st (MAPPING_START_EVENT a t i s) (XMapKey # st)"

inductive emits :: "expect list \<Rightarrow> event_type \<Rightarrow> expect list \<Rightarrow> bool" where
  emits_start: "emits [XStream] STREAM_START_EVENT [XDocs]"
| emits_document: "emits [XDocs] (DOCUMENT_START_EVENT v t) [XNode, XDocEnd]"
| emits_end: "emits [XDocs] STREAM_END_EVENT []"
| emits_document_end: "emits [XDocEnd] (DOCUMENT_END_EVENT i) [XDocs]"
| emits_node: "node_event st e st' \<Longrightarrow> emits (XNode # st) e st'"
| emits_entry: "node_event (XSeq # st) e st' \<Longrightarrow> emits (XSeq # st) e st'"
| emits_pair: "emits (XSeq # st) (MAPPING_START_EVENT a t i s) (XPairKey # XSeq # st)"
| emits_sequence_end: "emits (XSeq # st) SEQUENCE_END_EVENT st"
| emits_key: "node_event (XMapValue # st) e st' \<Longrightarrow> emits (XMapKey # st) e st'"
| emits_mapping_end: "emits (XMapKey # st) MAPPING_END_EVENT st"
| emits_value: "node_event (XMapKey # st) e st' \<Longrightarrow> emits (XMapValue # st) e st'"
| emits_pair_key: "node_event (XPairValue # st) e st' \<Longrightarrow> emits (XPairKey # st) e st'"
| emits_pair_value: "node_event (XPairEnd # st) e st' \<Longrightarrow> emits (XPairValue # st) e st'"
| emits_pair_end: "emits (XPairEnd # st) MAPPING_END_EVENT st"
| emits_none: "emits [] NO_EVENT []"

inductive_cases node_eventE: "node_event st e st'"
inductive_cases emits_seqE: "emits (XSeq # st) e st'"
inductive_cases emits_mapE: "emits (XMapKey # st) e st'"
inductive_cases emits_valueE: "emits (XMapValue # st) e st'"
inductive_cases emits_pairE: "emits (XPairKey # st) e st'" "emits (XPairValue # st) e st'" "emits (XPairEnd # st) e st'"
inductive_cases emits_docE: "emits [XDocs] e st'" "emits [XDocEnd] e st'" "emits (XNode # st) e st'" "emits [XStream] e st'"

lemmas grammar = node_event.intros emits.intros

section \<open>Where the parser is\<close>

fun expect_of :: "parser_state \<Rightarrow> expect list" where
  "expect_of PARSE_STREAM_START = [XStream]"
| "expect_of PARSE_IMPLICIT_DOCUMENT_START = [XDocs]"
| "expect_of PARSE_DOCUMENT_START = [XDocs]"
| "expect_of PARSE_DOCUMENT_CONTENT = [XNode]"
| "expect_of PARSE_DOCUMENT_END = [XDocEnd]"
| "expect_of PARSE_BLOCK_NODE = [XNode]"
| "expect_of PARSE_BLOCK_NODE_OR_INDENTLESS_SEQUENCE = [XNode]"
| "expect_of PARSE_FLOW_NODE = [XNode]"
| "expect_of PARSE_BLOCK_SEQUENCE_FIRST_ENTRY = [XSeq]"
| "expect_of PARSE_BLOCK_SEQUENCE_ENTRY = [XSeq]"
| "expect_of PARSE_INDENTLESS_SEQUENCE_ENTRY = [XSeq]"
| "expect_of PARSE_BLOCK_MAPPING_FIRST_KEY = [XMapKey]"
| "expect_of PARSE_BLOCK_MAPPING_KEY = [XMapKey]"
| "expect_of PARSE_BLOCK_MAPPING_VALUE = [XMapValue]"
| "expect_of PARSE_FLOW_SEQUENCE_FIRST_ENTRY = [XSeq]"
| "expect_of PARSE_FLOW_SEQUENCE_ENTRY = [XSeq]"
| "expect_of PARSE_FLOW_SEQUENCE_ENTRY_MAPPING_KEY = [XPairKey, XSeq]"
| "expect_of PARSE_FLOW_SEQUENCE_ENTRY_MAPPING_VALUE = [XPairValue, XSeq]"
| "expect_of PARSE_FLOW_SEQUENCE_ENTRY_MAPPING_END = [XPairEnd, XSeq]"
| "expect_of PARSE_FLOW_MAPPING_FIRST_KEY = [XMapKey]"
| "expect_of PARSE_FLOW_MAPPING_KEY = [XMapKey]"
| "expect_of PARSE_FLOW_MAPPING_VALUE = [XMapValue]"
| "expect_of PARSE_FLOW_MAPPING_EMPTY_VALUE = [XMapValue]"
| "expect_of PARSE_END = []"

definition expects_of :: "parser_state list \<Rightarrow> expect list" where
  "expects_of ss = concat (map expect_of ss)"

definition expects :: "yaml_parser \<Rightarrow> expect list" where
  "expects p = expects_of (y_state p # y_states p)"

text \<open>How much work a state has left beside that of the tokens, of which each counts six.\<close>

fun weight :: "parser_state \<Rightarrow> nat" where
  "weight PARSE_IMPLICIT_DOCUMENT_START = 5"
| "weight PARSE_DOCUMENT_CONTENT = 2"
| "weight PARSE_DOCUMENT_END = 2"
| "weight PARSE_BLOCK_NODE = 2"
| "weight PARSE_BLOCK_NODE_OR_INDENTLESS_SEQUENCE = 2"
| "weight PARSE_FLOW_NODE = 2"
| "weight PARSE_BLOCK_MAPPING_VALUE = 2"
| "weight PARSE_FLOW_SEQUENCE_ENTRY_MAPPING_KEY = 5"
| "weight PARSE_FLOW_SEQUENCE_ENTRY_MAPPING_VALUE = 3"
| "weight PARSE_FLOW_SEQUENCE_ENTRY_MAPPING_END = 2"
| "weight PARSE_FLOW_MAPPING_VALUE = 2"
| "weight PARSE_FLOW_MAPPING_EMPTY_VALUE = 2"
| "weight PARSE_END = 0"
| "weight _ = 1"

definition y_size :: "yaml_parser \<Rightarrow> nat" where
  "y_size p = 6 * length (y_tokens p) + weight (y_state p) + sum_list (map weight (y_states p))"

text \<open>The marks that a state accounts for, and the states that may be pushed.\<close>

fun marks_of :: "parser_state \<Rightarrow> nat" where
  "marks_of PARSE_BLOCK_SEQUENCE_ENTRY = 1"
| "marks_of PARSE_BLOCK_MAPPING_KEY = 1"
| "marks_of PARSE_BLOCK_MAPPING_VALUE = 1"
| "marks_of PARSE_FLOW_SEQUENCE_ENTRY = 1"
| "marks_of PARSE_FLOW_SEQUENCE_ENTRY_MAPPING_KEY = 1"
| "marks_of PARSE_FLOW_SEQUENCE_ENTRY_MAPPING_VALUE = 1"
| "marks_of PARSE_FLOW_SEQUENCE_ENTRY_MAPPING_END = 1"
| "marks_of PARSE_FLOW_MAPPING_KEY = 1"
| "marks_of PARSE_FLOW_MAPPING_VALUE = 1"
| "marks_of PARSE_FLOW_MAPPING_EMPTY_VALUE = 1"
| "marks_of _ = 0"

definition pushable :: "parser_state \<Rightarrow> bool" where
  "pushable s \<longleftrightarrow> s = PARSE_INDENTLESS_SEQUENCE_ENTRY \<or> marks_of s = 1"

fun stack_ok :: "parser_state list \<Rightarrow> bool" where
  "stack_ok [] \<longleftrightarrow> False"
| "stack_ok [s] \<longleftrightarrow> s = PARSE_DOCUMENT_END"
| "stack_ok (s # ss) \<longleftrightarrow> pushable s \<and> stack_ok ss"

definition outside :: "parser_state \<Rightarrow> bool" where
  "outside s \<longleftrightarrow> s \<in> {PARSE_STREAM_START, PARSE_IMPLICIT_DOCUMENT_START, PARSE_DOCUMENT_START, PARSE_DOCUMENT_END, PARSE_END}"

text \<open>The token of a collection's start, for the states before its first entry.\<close>

fun opens :: "parser_state \<Rightarrow> token_type option" where
  "opens PARSE_BLOCK_SEQUENCE_FIRST_ENTRY = Some BLOCK_SEQUENCE_START_TOKEN"
| "opens PARSE_BLOCK_MAPPING_FIRST_KEY = Some BLOCK_MAPPING_START_TOKEN"
| "opens PARSE_FLOW_SEQUENCE_FIRST_ENTRY = Some FLOW_SEQUENCE_START_TOKEN"
| "opens PARSE_FLOW_MAPPING_FIRST_KEY = Some FLOW_MAPPING_START_TOKEN"
| "opens _ = None"

definition opened :: "yaml_parser \<Rightarrow> bool" where
  "opened p \<longleftrightarrow> (case opens (y_state p) of None \<Rightarrow> True | Some k \<Rightarrow> (\<exists>t ts. y_tokens p = t # ts \<and> t_typ t = k))"

definition marks_ok :: "yaml_parser \<Rightarrow> parser_state list \<Rightarrow> bool" where
  "marks_ok p ss \<longleftrightarrow> length (y_marks p) = sum_list (map marks_of ss)"

definition parser_ok :: "yaml_parser \<Rightarrow> bool" where
  "parser_ok p \<longleftrightarrow> (if outside (y_state p) then y_states p = [] else stack_ok (y_states p)) \<and>
     marks_ok p (y_state p # y_states p) \<and> opened p \<and> (y_stream_end p \<longrightarrow> y_state p = PARSE_END)"

section \<open>Steps\<close>

text \<open>A result that is no panic and, if it is an event, is as the grammar \<open>R\<close> says and leaves less than \<open>n\<close> to do.\<close>

definition steps :: "(event_type \<Rightarrow> expect list \<Rightarrow> bool) \<Rightarrow> nat \<Rightarrow> parsed \<Rightarrow> bool" where
  "steps R n r \<longleftrightarrow> \<not> panics r \<and> (\<forall>e p. r = Ok (e, p) \<longrightarrow> parser_ok p \<and> R (e_typ e) (expects p) \<and> y_size p < n)"

named_theorems step_rules \<open>what the parts of a step do\<close>

lemma steps_simps [simp]:
  "steps R n (Err x)"
  "steps R n (Ok (e, p)) \<longleftrightarrow> parser_ok p \<and> R (e_typ e) (expects p) \<and> y_size p < n"
  "steps R n (set_parser_error problem m)"
  "steps R n (set_parser_error_context c cm problem m)"
  by (simp_all add: steps_def set_parser_error_def set_parser_error_context_def)

lemma steps_bind: "\<not> panics x \<Longrightarrow> (\<And>a. x = Ok a \<Longrightarrow> steps R n (f a)) \<Longrightarrow> steps R n (and_then x f)"
  by (cases x) (auto simp: steps_def)

lemma steps_weaken: "steps R n r \<Longrightarrow> (\<And>e st. R e st \<Longrightarrow> R' e st) \<Longrightarrow> n \<le> n' \<Longrightarrow> steps R' n' r"
  by (auto simp: steps_def)

lemma peek_no_panic [simp]: "\<not> panics (peek_token p)"
  by (simp add: peek_token_def split: list.split)

lemma peek_Ok: "peek_token p = Ok t \<longleftrightarrow> (\<exists>ts. y_tokens p = t # ts)"
  by (auto simp: peek_token_def split: list.splits)

text \<open>A parser inside a document, before the state: the stack and the marks that \<open>parse_node\<close> relies on.\<close>

definition inside :: "yaml_parser \<Rightarrow> bool" where
  "inside p \<longleftrightarrow> stack_ok (y_states p) \<and> marks_ok p (y_states p) \<and> \<not> y_stream_end p"

definition rest_size :: "yaml_parser \<Rightarrow> nat" where
  "rest_size p = 6 * length (y_tokens p) + sum_list (map weight (y_states p))"

lemma skip_fields [simp]:
  "y_state (skip_token p) = y_state p" "y_states (skip_token p) = y_states p" "y_marks (skip_token p) = y_marks p"
  "y_tag_directives (skip_token p) = y_tag_directives p" "y_tokens (skip_token p) = tl (y_tokens p)"
  by (auto simp: skip_token_def split: list.split)

lemma skip_stream_end: "y_tokens p = t # ts \<Longrightarrow> y_stream_end (skip_token p) \<longleftrightarrow> t_typ t = STREAM_END_TOKEN"
  by (simp add: skip_token_def)

lemma skip_not_end: "y_tokens p = t # ts \<Longrightarrow> t_typ t = k \<Longrightarrow> k \<noteq> STREAM_END_TOKEN \<Longrightarrow> \<not> y_stream_end (skip_token p)"
  by (simp add: skip_stream_end)

lemma stack_ok_Cons: "stack_ok (s # ss) \<longleftrightarrow> (if ss = [] then s = PARSE_DOCUMENT_END else pushable s \<and> stack_ok ss)"
  by (cases ss) simp_all

lemma stack_ok_push [simp]: "stack_ok ss \<Longrightarrow> stack_ok (s # ss) \<longleftrightarrow> pushable s"
  by (auto simp: stack_ok_Cons)

lemma pushable_simps [simp]:
  "pushable PARSE_INDENTLESS_SEQUENCE_ENTRY" "pushable PARSE_BLOCK_SEQUENCE_ENTRY" "pushable PARSE_BLOCK_MAPPING_KEY"
  "pushable PARSE_BLOCK_MAPPING_VALUE" "pushable PARSE_FLOW_SEQUENCE_ENTRY" "pushable PARSE_FLOW_SEQUENCE_ENTRY_MAPPING_VALUE"
  "pushable PARSE_FLOW_SEQUENCE_ENTRY_MAPPING_END" "pushable PARSE_FLOW_MAPPING_KEY" "pushable PARSE_FLOW_MAPPING_VALUE"
  "pushable PARSE_FLOW_MAPPING_EMPTY_VALUE"
  by (simp_all add: pushable_def)

lemma pushable_inside: "pushable s \<Longrightarrow> \<not> outside s \<and> opens s = None"
  by (cases s) (simp_all add: pushable_def outside_def)

text \<open>Back in the state on top of the stack.\<close>

lemma popped:
  assumes "inside p" and "pop_state p = Ok p'"
  shows "parser_ok p' \<and> expects p' = expects_of (y_states p) \<and> y_size p' = rest_size p \<and> y_tokens p' = y_tokens p
    \<and> y_marks p' = y_marks p \<and> \<not> y_stream_end p'"
proof -
  obtain s ss where ss: "y_states p = s # ss" and p': "p' = p\<lparr>y_state := s, y_states := ss\<rparr>"
    using assms(2) by (auto simp: pop_state_def split: list.splits)
  from assms(1) ss have "if ss = [] then s = PARSE_DOCUMENT_END else pushable s \<and> stack_ok ss"
    by (simp add: inside_def stack_ok_Cons)
  with assms(1) show ?thesis using pushable_inside [of s]
    by (auto simp: p' ss parser_ok_def inside_def marks_ok_def opened_def outside_def expects_def y_size_def rest_size_def split: if_splits)
qed

lemma pop_no_panic: "inside p \<Longrightarrow> \<not> panics (pop_state p)"
  by (cases "y_states p") (auto simp: inside_def pop_state_def)

lemma parser_ok_skip:
  "parser_ok p \<Longrightarrow> y_tokens p = t # ts \<Longrightarrow> t_typ t \<noteq> STREAM_END_TOKEN \<Longrightarrow> opens (y_state p) = None \<Longrightarrow> parser_ok (skip_token p)"
  by (auto simp: parser_ok_def marks_ok_def opened_def skip_stream_end split: if_splits)

lemma inside_skip [simp]:
  "inside p \<Longrightarrow> y_tokens p = t # ts \<Longrightarrow> t_typ t \<noteq> STREAM_END_TOKEN \<Longrightarrow> inside (skip_token p)"
  by (simp add: inside_def marks_ok_def skip_stream_end)

section \<open>Nodes\<close>

lemma push_fields [simp]:
  "y_tokens (push_state s p) = y_tokens p" "y_states (push_state s p) = s # y_states p" "y_marks (push_state s p) = y_marks p"
  "y_stream_end (push_state s p) = y_stream_end p"
  by (simp_all add: push_state_def)

lemma set_parser_error_no_panic [simp]:
  "\<not> panics (set_parser_error problem m)" "\<not> panics (set_parser_error_context c cm problem m)"
  by (simp_all add: set_parser_error_def set_parser_error_context_def)

lemma node_properties_no_panic: "\<not> panics (node_properties p)"
  by (auto simp: node_properties_def Let_def split: token_type.splits)

lemma node_properties_Ok:
  assumes "inside p" and "node_properties p = Ok (anchor, tag_token, mark, p')"
  shows "inside p' \<and> y_states p' = y_states p \<and> length (y_tokens p') \<le> length (y_tokens p)"
proof -
  have "p' \<in> {p, skip_token p, skip_token (skip_token p)} \<and> (p' \<noteq> p \<longrightarrow> inside (skip_token p)) \<and>
    (p' = skip_token (skip_token p) \<longrightarrow> inside p')"
  proof (cases "y_tokens p")
    case Nil
    with assms(2) show ?thesis by (simp add: node_properties_def peek_token_def)
  next
    case (Cons t ts)
    have skip: "t_typ t \<noteq> STREAM_END_TOKEN \<Longrightarrow> inside (skip_token p)" using assms(1) Cons by simp
    show ?thesis
    proof (cases ts)
      case Nil
      with Cons assms show ?thesis
        by (cases "t_typ t") (simp_all add: node_properties_def peek_token_def)
    next
      case (Cons t' ts')
      have "t_typ t \<noteq> STREAM_END_TOKEN \<Longrightarrow> t_typ t' \<noteq> STREAM_END_TOKEN \<Longrightarrow> inside (skip_token (skip_token p))"
        using skip \<open>y_tokens p = t # ts\<close> Cons inside_skip [of "skip_token p" t' ts'] by simp
      with Cons \<open>y_tokens p = t # ts\<close> assms skip show ?thesis
        by (cases "t_typ t"; cases "t_typ t'") (auto simp: node_properties_def peek_token_def Let_def split: list.splits)
    qed
  qed
  with assms(1) show ?thesis by auto
qed

lemma node_tag_no_panic: "\<not> panics (node_tag p tag_token m)"
  by (auto simp: node_tag_def Let_def split: option.splits)

lemma rest_size_skip: "y_tokens p = t # ts \<Longrightarrow> rest_size (skip_token p) + 6 = rest_size p"
  by (simp add: rest_size_def)

lemma y_size_skip: "y_tokens p = t # ts \<Longrightarrow> y_size (skip_token p) + 6 = y_size p"
  by (simp add: y_size_def)

lemma expects_skip [simp]: "expects (skip_token p) = expects p"
  by (simp add: expects_def)

text \<open>A state of a collection that is entered, or a node that is complete.\<close>

lemma parser_ok_set:
  assumes "inside p" and "marks_of s = 0" and "\<not> outside s" and "opened (p\<lparr>y_state := s\<rparr>)"
  shows "parser_ok (p\<lparr>y_state := s\<rparr>)"
  using assms by (simp add: inside_def parser_ok_def marks_ok_def)

lemma complete_node:
  assumes "inside p" and "pop_state p = Ok p'" and "y_tokens p = t # ts" and "t_typ t \<noteq> STREAM_END_TOKEN"
  shows "parser_ok (skip_token p') \<and> expects (skip_token p') = expects_of (y_states p) \<and> y_size (skip_token p') \<le> rest_size p"
proof -
  have "opens (y_state p') = None"
    using assms(1,2) pushable_inside by (auto simp: pop_state_def inside_def stack_ok_Cons split: list.splits if_splits)
  with popped [OF assms(1,2)] parser_ok_skip [of p' t ts] y_size_skip [of p' t ts] assms(3,4) show ?thesis by simp
qed

lemma node_content_steps:
  assumes "inside p"
  shows "steps (node_event (expects_of (y_states p))) (rest_size p + 2) (node_content p block indentless anchor tag m)"
proof (cases "y_tokens p")
  case Nil
  then show ?thesis by (simp add: node_content_def peek_token_def)
next
  case (Cons t ts)
  define R where "R = node_event (expects_of (y_states p))"
  define n where "n = rest_size p + 2"
  have pop: "steps R n (and_then (pop_state p) (\<lambda>p. Ok (\<lparr>e_typ = SCALAR_EVENT anchor tag [] i j style, e_start = k\<rparr>, p)))" for i j style k
    by (rule steps_bind) (use pop_no_panic [OF assms] popped [OF assms] in \<open>auto simp: R_def n_def grammar\<close>)
  have scalar: "steps R n (and_then (pop_state p) (\<lambda>p. Ok (\<lparr>e_typ = SCALAR_EVENT anchor tag v i j style, e_start = k\<rparr>, skip_token p)))"
    if "t_typ t \<noteq> STREAM_END_TOKEN" for v i j style k
    by (rule steps_bind)
       (use pop_no_panic [OF assms] complete_node [OF assms _ Cons that] in \<open>auto simp: R_def n_def grammar less_Suc_eq_le\<close>)
  have enter: "steps R n (Ok (\<lparr>e_typ = ev, e_start = k\<rparr>, p\<lparr>y_state := s\<rparr>))"
    if "opens s = None \<and> s = PARSE_INDENTLESS_SEQUENCE_ENTRY \<or> opens s = Some (t_typ t)"
      "R ev (expect_of s @ expects_of (y_states p))" for ev k s
  proof -
    have s: "marks_of s = 0" "\<not> outside s" "weight s = 1" using that(1) by (cases s; simp add: outside_def)+
    have "opened (p\<lparr>y_state := s\<rparr>)" using that(1) Cons by (auto simp: opened_def)
    with parser_ok_set [OF assms s(1,2)] that(2) s(3) show ?thesis
      by (simp add: expects_def expects_of_def y_size_def rest_size_def n_def)
  qed
  have "R (SEQUENCE_START_EVENT a u i st) (XSeq # expects_of (y_states p))" "R (MAPPING_START_EVENT a u i st) (XMapKey # expects_of (y_states p))"
    for a u i st by (simp_all add: R_def grammar)
  with Cons have "steps R n (node_content p block indentless anchor tag m)"
    by (cases "t_typ t") (simp_all add: node_content_def peek_token_def Let_def pop scalar enter del: steps_simps(2))
  then show ?thesis by (simp only: R_def n_def)
qed

lemma parse_node_steps:
  assumes "inside p"
  shows "steps (node_event (expects_of (y_states p))) (rest_size p + 2) (parse_node p block indentless)"
proof (cases "y_tokens p")
  case Nil
  then show ?thesis by (simp add: parse_node_def peek_token_def)
next
  case (Cons t ts)
  define R where "R = node_event (expects_of (y_states p))"
  define n where "n = rest_size p + 2"
  have rest: "steps R n (and_then (node_properties p) (\<lambda>(anchor, tag_token, start_mark, p).
      and_then (node_tag p tag_token start_mark) (\<lambda>tag. node_content p block indentless anchor tag start_mark)))"
  proof (rule steps_bind, rule node_properties_no_panic)
    fix r
    assume r: "node_properties p = Ok r"
    obtain anchor tag_token mark p' where req: "r = (anchor, tag_token, mark, p')" by (cases r)
    with node_properties_Ok [OF assms] r have p': "inside p'" "y_states p' = y_states p" "rest_size p' \<le> rest_size p"
      by (auto simp: rest_size_def)
    have "steps R n (and_then (node_tag p' tag_token mark) (\<lambda>tag. node_content p' block indentless anchor tag mark))"
      by (rule steps_bind, rule node_tag_no_panic, rule steps_weaken [OF node_content_steps [OF p'(1)]]) (use p' in \<open>auto simp: R_def n_def\<close>)
    then show "steps R n (case r of (anchor, tag_token, start_mark, p) \<Rightarrow>
      and_then (node_tag p tag_token start_mark) (\<lambda>tag. node_content p block indentless anchor tag start_mark))" by (simp add: req)
  qed
  have alias_step: "steps R n (and_then (pop_state p) (\<lambda>p. Ok (\<lparr>e_typ = ALIAS_EVENT a, e_start = k\<rparr>, skip_token p)))"
    if "t_typ t \<noteq> STREAM_END_TOKEN" for a k
    by (rule steps_bind)
       (use pop_no_panic [OF assms] complete_node [OF assms _ Cons that] in \<open>auto simp: R_def n_def grammar less_Suc_eq_le\<close>)
  from Cons have "steps R n (parse_node p block indentless)"
    by (cases "t_typ t") (simp_all add: parse_node_def peek_token_def rest alias_step)
  then show ?thesis by (simp only: R_def n_def)
qed

section \<open>Collections\<close>

text \<open>A parser that is at the state \<open>s\<close> of a collection, whatever its current state is called.\<close>

definition within :: "parser_state \<Rightarrow> yaml_parser \<Rightarrow> bool" where
  "within s p \<longleftrightarrow> stack_ok (y_states p) \<and> marks_ok p (s # y_states p) \<and> \<not> y_stream_end p"

lemma within_state: "parser_ok p \<Longrightarrow> \<not> outside (y_state p) \<Longrightarrow> within (y_state p) p"
  by (auto simp: parser_ok_def within_def outside_def)

lemma within_cong: "within s p \<Longrightarrow> marks_of s' = marks_of s \<Longrightarrow> within s' p"
  by (simp add: within_def marks_ok_def)

lemma within_skip: "within s p \<Longrightarrow> y_tokens p = t # ts \<Longrightarrow> t_typ t \<noteq> STREAM_END_TOKEN \<Longrightarrow> within s (skip_token p)"
  by (simp add: within_def marks_ok_def skip_stream_end)

lemma within_push: "within s p \<Longrightarrow> pushable s \<Longrightarrow> inside (push_state s p)"
  by (simp add: within_def inside_def marks_ok_def)

lemma rest_size_push [simp]: "rest_size (push_state s p) = rest_size p + weight s"
  by (simp add: rest_size_def)

lemma expects_of_Cons [simp]: "expects_of (s # ss) = expect_of s @ expects_of ss"
  by (simp add: expects_of_def)

lemma set_state_steps:
  assumes "within s p" and "pushable s" and "rest_size p + weight s < n"
    and "\<And>e. node_event (expect_of s @ expects_of (y_states p)) e (expect_of s @ expects_of (y_states p)) \<Longrightarrow>
      R e (expect_of s @ expects_of (y_states p))"
  shows "steps R n (process_empty_scalar (p\<lparr>y_state := s\<rparr>) m)"
proof -
  have "parser_ok (p\<lparr>y_state := s\<rparr>)"
    using assms(1) pushable_inside [OF assms(2)] by (simp add: within_def parser_ok_def marks_ok_def opened_def)
  with assms(3,4) show ?thesis
    by (simp add: process_empty_scalar_def expects_def y_size_def rest_size_def grammar)
qed

text \<open>The next thing in a collection is a node, or an empty scalar, after which the state is \<open>s\<close>.\<close>

lemma entry_steps:
  assumes "within s p" and "pushable s" and "rest_size p + weight s + 2 \<le> n"
    and "\<And>e st. node_event (expect_of s @ expects_of (y_states p)) e st \<Longrightarrow> R e st"
  shows "steps R n (parse_node (push_state s p) block indentless)"
    and "steps R n (process_empty_scalar (p\<lparr>y_state := s\<rparr>) m)"
proof -
  show "steps R n (parse_node (push_state s p) block indentless)"
    by (rule steps_weaken [OF parse_node_steps [OF within_push [OF assms(1,2)]]]) (use assms(3,4) in simp_all)
  show "steps R n (process_empty_scalar (p\<lparr>y_state := s\<rparr>) m)"
    by (rule set_state_steps [OF assms(1,2)]) (use assms(3,4) in auto)
qed

lemma enter_within:
  assumes "parser_ok p" and "opens (y_state p) = Some k" and "k \<noteq> STREAM_END_TOKEN" and "marks_of s = 1"
  shows "\<exists>p'. enter_collection True p = Ok p' \<and> within s p' \<and> y_states p' = y_states p \<and> rest_size p' + 6 = rest_size p"
proof -
  from assms(1,2) obtain t ts where t: "y_tokens p = t # ts" "t_typ t = k" by (auto simp: parser_ok_def opened_def)
  from assms(2) have "marks_of (y_state p) = 0" "\<not> outside (y_state p)" by (cases "y_state p"; simp add: outside_def)+
  with assms t show ?thesis
    by (auto simp: enter_collection_def within_def parser_ok_def marks_ok_def skip_stream_end rest_size_def outside_def)
qed

lemma close_steps:
  assumes "within s p" and "marks_of s = 1" and "y_tokens p = t # ts" and "t_typ t \<noteq> STREAM_END_TOKEN"
    and "rest_size p \<le> n" and "R ev (expects_of (y_states p))"
  shows "steps R n (close_collection ev token p)"
proof -
  obtain m ms where m: "y_marks p = m # ms" using assms(1,2) by (cases "y_marks p") (auto simp: within_def marks_ok_def)
  let ?p = "p\<lparr>y_marks := ms\<rparr>"
  have i: "inside ?p" using assms(1,2) m by (simp add: within_def inside_def marks_ok_def)
  obtain p' where p': "pop_state ?p = Ok p'"
    using pop_no_panic [OF i] assms(1) by (cases "y_states p") (auto simp: within_def pop_state_def)
  have "close_collection ev token p = Ok (\<lparr>e_typ = ev, e_start = t_start token\<rparr>, skip_token p')"
    using p' m by (cases p) (auto simp: close_collection_def pop_state_def pop_mark_def split: list.splits)
  moreover have "rest_size ?p = rest_size p" by (simp add: rest_size_def)
  moreover have "y_size (skip_token p') + 6 = rest_size ?p"
    using popped [OF i p'] assms(3) y_size_skip [of p' t ts] by simp
  ultimately show ?thesis
    using complete_node [OF i p', of t ts] assms(3-6) by simp
qed

lemma pop_mark_no_panic: "within s p \<Longrightarrow> marks_of s = 1 \<Longrightarrow> \<not> panics (pop_mark p)"
  by (cases "y_marks p") (auto simp: within_def marks_ok_def pop_mark_def)

lemma no_entry:
  assumes "within s p" and "marks_of s = 1"
  shows "steps R n (and_then (pop_mark p) (\<lambda>(context_mark, p). set_parser_error_context c context_mark problem m))"
  by (rule steps_bind) (use pop_mark_no_panic [OF assms] in auto)

text \<open>A step of a collection, its opening token being skipped if it is the first.\<close>

lemma block_sequence_steps:
  assumes "enter_collection first p0 = Ok p" and "within PARSE_BLOCK_SEQUENCE_ENTRY p" and "rest_size p < n"
  shows "steps (emits (XSeq # expects_of (y_states p))) n (parse_block_sequence_entry p0 first)"
proof (cases "y_tokens p")
  case Nil
  with assms(1) show ?thesis by (simp add: parse_block_sequence_entry_def peek_token_def)
next
  case (Cons t ts)
  define R where "R = emits (XSeq # expects_of (y_states p))"
  have s: "R SEQUENCE_END_EVENT (expects_of (y_states p))"
    "t_typ t \<noteq> STREAM_END_TOKEN \<Longrightarrow> steps R n (parse_node (push_state PARSE_BLOCK_SEQUENCE_ENTRY (skip_token p)) True False)"
    "t_typ t \<noteq> STREAM_END_TOKEN \<Longrightarrow> steps R n (process_empty_scalar ((skip_token p)\<lparr>y_state := PARSE_BLOCK_SEQUENCE_ENTRY\<rparr>) m)" for m
    using entry_steps [OF within_skip [OF assms(2) Cons]] rest_size_skip [OF Cons] assms(3) by (simp_all add: R_def grammar)
  have "steps R n (parse_block_sequence_entry p0 first)"
    using assms Cons by (cases ts)
      (auto simp: parse_block_sequence_entry_def peek_token_def Let_def s intro!: close_steps no_entry)
  then show ?thesis by (simp add: R_def)
qed

lemma indentless_steps:
  assumes "within PARSE_INDENTLESS_SEQUENCE_ENTRY p" and "rest_size p < n"
  shows "steps (emits (XSeq # expects_of (y_states p))) n (parse_indentless_sequence_entry p)"
proof (cases "y_tokens p")
  case Nil
  then show ?thesis by (simp add: parse_indentless_sequence_entry_def peek_token_def)
next
  case (Cons t ts)
  define R where "R = emits (XSeq # expects_of (y_states p))"
  have i: "inside p" using assms(1) by (simp add: within_def inside_def marks_ok_def)
  have s: "t_typ t \<noteq> STREAM_END_TOKEN \<Longrightarrow> steps R n (parse_node (push_state PARSE_INDENTLESS_SEQUENCE_ENTRY (skip_token p)) True False)"
    "t_typ t \<noteq> STREAM_END_TOKEN \<Longrightarrow> steps R n (process_empty_scalar ((skip_token p)\<lparr>y_state := PARSE_INDENTLESS_SEQUENCE_ENTRY\<rparr>) m)" for m
    using entry_steps [OF within_skip [OF assms(1) Cons]] rest_size_skip [OF Cons] assms(2) by (simp_all add: R_def grammar)
  have "steps R n (and_then (pop_state p) (\<lambda>p. Ok (\<lparr>e_typ = SEQUENCE_END_EVENT, e_start = k\<rparr>, p)))" for k
    by (rule steps_bind) (use pop_no_panic [OF i] popped [OF i] assms(2) in \<open>auto simp: R_def grammar\<close>)
  with Cons s have "steps R n (parse_indentless_sequence_entry p)"
    by (cases ts) (simp_all add: parse_indentless_sequence_entry_def peek_token_def Let_def del: steps_simps(2))
  then show ?thesis by (simp add: R_def)
qed

lemma block_key_steps:
  assumes "enter_collection first p0 = Ok p" and "within PARSE_BLOCK_MAPPING_KEY p" and "rest_size p < n"
  shows "steps (emits (XMapKey # expects_of (y_states p))) n (parse_block_mapping_key p0 first)"
proof (cases "y_tokens p")
  case Nil
  with assms(1) show ?thesis by (simp add: parse_block_mapping_key_def peek_token_def)
next
  case (Cons t ts)
  define R where "R = emits (XMapKey # expects_of (y_states p))"
  have v: "within PARSE_BLOCK_MAPPING_VALUE p" by (rule within_cong [OF assms(2)]) simp
  have s: "R MAPPING_END_EVENT (expects_of (y_states p))"
    "t_typ t \<noteq> STREAM_END_TOKEN \<Longrightarrow> steps R n (parse_node (push_state PARSE_BLOCK_MAPPING_VALUE (skip_token p)) True True)"
    "t_typ t \<noteq> STREAM_END_TOKEN \<Longrightarrow> steps R n (process_empty_scalar ((skip_token p)\<lparr>y_state := PARSE_BLOCK_MAPPING_VALUE\<rparr>) m)" for m
    using entry_steps [OF within_skip [OF v Cons]] rest_size_skip [OF Cons] assms(3) by (simp_all add: R_def grammar)
  have "steps R n (parse_block_mapping_key p0 first)"
    using assms Cons by (cases ts)
      (auto simp: parse_block_mapping_key_def peek_token_def Let_def s intro!: close_steps no_entry)
  then show ?thesis by (simp add: R_def)
qed

lemma block_value_steps:
  assumes "within PARSE_BLOCK_MAPPING_VALUE p" and "rest_size p + 2 \<le> n"
  shows "steps (emits (XMapValue # expects_of (y_states p))) n (parse_block_mapping_value p)"
proof (cases "y_tokens p")
  case Nil
  then show ?thesis by (simp add: parse_block_mapping_value_def peek_token_def)
next
  case (Cons t ts)
  define R where "R = emits (XMapValue # expects_of (y_states p))"
  have k: "within PARSE_BLOCK_MAPPING_KEY p" by (rule within_cong [OF assms(1)]) simp
  have s: "t_typ t \<noteq> STREAM_END_TOKEN \<Longrightarrow> steps R n (parse_node (push_state PARSE_BLOCK_MAPPING_KEY (skip_token p)) True True)"
    "t_typ t \<noteq> STREAM_END_TOKEN \<Longrightarrow> steps R n (process_empty_scalar ((skip_token p)\<lparr>y_state := PARSE_BLOCK_MAPPING_KEY\<rparr>) m)" for m
    using entry_steps [OF within_skip [OF k Cons]] rest_size_skip [OF Cons] assms(2) by (simp_all add: R_def grammar)
  have "steps R n (process_empty_scalar (p\<lparr>y_state := PARSE_BLOCK_MAPPING_KEY\<rparr>) m)" for m
    using set_state_steps [OF k, of n R m] assms(2) by (simp add: R_def grammar)
  with Cons s have "steps R n (parse_block_mapping_value p)"
    by (cases ts) (simp_all add: parse_block_mapping_value_def peek_token_def Let_def)
  then show ?thesis by (simp add: R_def)
qed

text \<open>What comes before an entry of a flow collection.\<close>

lemma separator_cases:
  assumes "within s p" and "y_tokens p = t # ts"
  shows "\<not> panics (flow_separator first t p)"
    and "flow_separator first t p = Ok (Some (t', p')) \<Longrightarrow>
      within s p' \<and> y_states p' = y_states p \<and> (\<exists>ts'. y_tokens p' = t' # ts') \<and> rest_size p' \<le> rest_size p - (if first then 0 else 6)"
  using assms within_skip [OF assms] rest_size_skip [OF assms(2)]
  by (auto simp: flow_separator_def Let_def peek_token_def split: if_splits list.splits)

lemma separated:
  assumes "within s p" and "y_tokens p = t # ts" and "steps R n (g None)"
    and "\<And>t' p'. flow_separator first t p = Ok (Some (t', p')) \<Longrightarrow> steps R n (g (Some (t', p')))"
  shows "steps R n (and_then (flow_separator first t p) g)"
proof (rule steps_bind, rule separator_cases(1) [OF assms(1,2)])
  fix r
  assume r: "flow_separator first t p = Ok r"
  show "steps R n (g r)"
  proof (cases r)
    case None
    with assms(3) show ?thesis by simp
  next
    case (Some x)
    with assms(4) r show ?thesis by (cases x) simp
  qed
qed

lemma flow_sequence_steps:
  assumes "enter_collection first p0 = Ok p" and w: "within PARSE_FLOW_SEQUENCE_ENTRY p"
    and n: "rest_size p + (if first then 6 else 0) < n"
  shows "steps (emits (XSeq # expects_of (y_states p))) n (parse_flow_sequence_entry p0 first)"
proof (cases "y_tokens p")
  case Nil
  with assms(1) show ?thesis by (simp add: parse_flow_sequence_entry_def peek_token_def)
next
  case (Cons t ts)
  define R where "R = emits (XSeq # expects_of (y_states p))"
  have R: "R SEQUENCE_END_EVENT (expects_of (y_states p))" "R (MAPPING_START_EVENT a u i st) (XPairKey # XSeq # expects_of (y_states p))"
    "node_event (XSeq # expects_of (y_states p)) e st' \<Longrightarrow> R e st'" for a u i st e st' by (simp_all add: R_def grammar)
  have entry: "steps R n (if t_typ t' = KEY_TOKEN then
        Ok (\<lparr>e_typ = MAPPING_START_EVENT None [] True FLOW_STYLE, e_start = t_start t'\<rparr>,
            skip_token (p'\<lparr>y_state := PARSE_FLOW_SEQUENCE_ENTRY_MAPPING_KEY\<rparr>))
      else if t_typ t' \<noteq> FLOW_SEQUENCE_END_TOKEN then parse_node (push_state PARSE_FLOW_SEQUENCE_ENTRY p') False False
      else close_collection SEQUENCE_END_EVENT t' p')"
    if sep: "flow_separator first t p = Ok (Some (t', p'))" for t' p'
  proof -
    from separator_cases(2) [OF w Cons sep] obtain ts' where p': "within PARSE_FLOW_SEQUENCE_ENTRY p'" "y_states p' = y_states p"
      "y_tokens p' = t' # ts'" "rest_size p' \<le> rest_size p - (if first then 0 else 6)" by blast
    have sz: "rest_size p' + 6 < n" using p'(4) n rest_size_skip [OF Cons] by (auto split: if_splits)
    let ?k = "p'\<lparr>y_state := PARSE_FLOW_SEQUENCE_ENTRY_MAPPING_KEY\<rparr>"
    have "parser_ok ?k" using p'(1) by (simp add: within_def parser_ok_def marks_ok_def opened_def outside_def)
    then have "t_typ t' = KEY_TOKEN \<Longrightarrow> parser_ok (skip_token ?k)" using p'(3) by (intro parser_ok_skip [of _ t' ts']) simp_all
    then have "t_typ t' = KEY_TOKEN \<Longrightarrow> steps R n (Ok (\<lparr>e_typ = MAPPING_START_EVENT None [] True FLOW_STYLE, e_start = k\<rparr>, skip_token ?k))" for k
      using sz R(2) p'(2,3) by (simp add: expects_def y_size_def rest_size_def)
    moreover have "steps R n (parse_node (push_state PARSE_FLOW_SEQUENCE_ENTRY p') False False)"
      by (rule entry_steps [OF p'(1)]) (use sz R p' in auto)
    moreover have "t_typ t' = FLOW_SEQUENCE_END_TOKEN \<Longrightarrow> steps R n (close_collection SEQUENCE_END_EVENT t' p')"
      by (rule close_steps [OF p'(1) _ p'(3)]) (use sz R p' in auto)
    ultimately show ?thesis by simp
  qed
  have "t_typ t = FLOW_SEQUENCE_END_TOKEN \<Longrightarrow> steps R n (close_collection SEQUENCE_END_EVENT t p)"
    by (rule close_steps [OF w _ Cons]) (use n R in auto)
  with assms(1) Cons entry have "steps R n (parse_flow_sequence_entry p0 first)"
    by (auto simp: parse_flow_sequence_entry_def peek_token_def simp del: steps_simps(2) intro!: separated [OF w] no_entry [OF w])
  then show ?thesis by (simp add: R_def)
qed

lemma pair_steps:
  assumes "within PARSE_FLOW_SEQUENCE_ENTRY p"
  shows "rest_size p + 5 \<le> n \<Longrightarrow>
      steps (emits (XPairKey # XSeq # expects_of (y_states p))) n (parse_flow_sequence_entry_mapping_key p)"
    and "rest_size p + 3 \<le> n \<Longrightarrow>
      steps (emits (XPairValue # XSeq # expects_of (y_states p))) n (parse_flow_sequence_entry_mapping_value p)"
    and "rest_size p + 2 \<le> n \<Longrightarrow>
      steps (emits (XPairEnd # XSeq # expects_of (y_states p))) n (parse_flow_sequence_entry_mapping_end p)"
proof -
  have v: "within PARSE_FLOW_SEQUENCE_ENTRY_MAPPING_VALUE p" "within PARSE_FLOW_SEQUENCE_ENTRY_MAPPING_END p"
    by (rule within_cong [OF assms], simp)+
  show "steps (emits (XPairKey # XSeq # expects_of (y_states p))) n (parse_flow_sequence_entry_mapping_key p)"
    if n: "rest_size p + 5 \<le> n"
  proof (cases "y_tokens p")
    case Nil
    then show ?thesis by (simp add: parse_flow_sequence_entry_mapping_key_def peek_token_def)
  next
    case (Cons t ts)
    define R where "R = emits (XPairKey # XSeq # expects_of (y_states p))"
    have "steps R n (parse_node (push_state PARSE_FLOW_SEQUENCE_ENTRY_MAPPING_VALUE p) False False)"
      by (rule entry_steps [OF v(1)]) (use n in \<open>auto simp: R_def grammar\<close>)
    moreover have "t_typ t \<noteq> STREAM_END_TOKEN \<Longrightarrow>
      steps R n (process_empty_scalar ((skip_token p)\<lparr>y_state := PARSE_FLOW_SEQUENCE_ENTRY_MAPPING_VALUE\<rparr>) m)" for m
      by (rule set_state_steps [OF within_skip [OF v(1) Cons]]) (use n rest_size_skip [OF Cons] in \<open>auto simp: R_def grammar\<close>)
    ultimately have "steps R n (parse_flow_sequence_entry_mapping_key p)"
      using Cons by (auto simp: parse_flow_sequence_entry_mapping_key_def peek_token_def)
    then show ?thesis by (simp add: R_def)
  qed
  show "steps (emits (XPairValue # XSeq # expects_of (y_states p))) n (parse_flow_sequence_entry_mapping_value p)"
    if n: "rest_size p + 3 \<le> n"
  proof (cases "y_tokens p")
    case Nil
    then show ?thesis by (simp add: parse_flow_sequence_entry_mapping_value_def peek_token_def)
  next
    case (Cons t ts)
    define R where "R = emits (XPairValue # XSeq # expects_of (y_states p))"
    have s: "t_typ t \<noteq> STREAM_END_TOKEN \<Longrightarrow> steps R n (parse_node (push_state PARSE_FLOW_SEQUENCE_ENTRY_MAPPING_END (skip_token p)) False False)"
      "t_typ t \<noteq> STREAM_END_TOKEN \<Longrightarrow> steps R n (process_empty_scalar ((skip_token p)\<lparr>y_state := PARSE_FLOW_SEQUENCE_ENTRY_MAPPING_END\<rparr>) m)" for m
      using entry_steps [OF within_skip [OF v(2) Cons]] rest_size_skip [OF Cons] n by (simp_all add: R_def grammar)
    have "steps R n (process_empty_scalar (p\<lparr>y_state := PARSE_FLOW_SEQUENCE_ENTRY_MAPPING_END\<rparr>) m)" for m
      by (rule set_state_steps [OF v(2)]) (use n in \<open>auto simp: R_def grammar\<close>)
    with Cons s have "steps R n (parse_flow_sequence_entry_mapping_value p)"
      by (cases ts) (simp_all add: parse_flow_sequence_entry_mapping_value_def peek_token_def Let_def)
    then show ?thesis by (simp add: R_def)
  qed
  show "steps (emits (XPairEnd # XSeq # expects_of (y_states p))) n (parse_flow_sequence_entry_mapping_end p)"
    if n: "rest_size p + 2 \<le> n"
  proof (cases "y_tokens p")
    case Nil
    then show ?thesis by (simp add: parse_flow_sequence_entry_mapping_end_def peek_token_def)
  next
    case (Cons t ts)
    have "parser_ok (p\<lparr>y_state := PARSE_FLOW_SEQUENCE_ENTRY\<rparr>)"
      using assms by (simp add: within_def parser_ok_def marks_ok_def opened_def outside_def)
    with Cons n show ?thesis
      by (simp add: parse_flow_sequence_entry_mapping_end_def peek_token_def expects_def y_size_def rest_size_def grammar)
  qed
qed

lemma flow_key_steps:
  assumes "enter_collection first p0 = Ok p" and w: "within PARSE_FLOW_MAPPING_KEY p"
    and n: "rest_size p + (if first then 6 else 0) < n"
  shows "steps (emits (XMapKey # expects_of (y_states p))) n (parse_flow_mapping_key p0 first)"
proof (cases "y_tokens p")
  case Nil
  with assms(1) show ?thesis by (simp add: parse_flow_mapping_key_def peek_token_def)
next
  case (Cons t ts)
  define R where "R = emits (XMapKey # expects_of (y_states p))"
  have R: "R MAPPING_END_EVENT (expects_of (y_states p))"
    "node_event (XMapValue # expects_of (y_states p)) e st' \<Longrightarrow> R e st'" for e st' by (simp_all add: R_def grammar)
  have entry: "steps R n (if t_typ t' = KEY_TOKEN then
        let p = skip_token p' in
        and_then (peek_token p) (\<lambda>token'.
          if t_typ token' \<notin> {VALUE_TOKEN, FLOW_ENTRY_TOKEN, FLOW_MAPPING_END_TOKEN}
          then parse_node (push_state PARSE_FLOW_MAPPING_VALUE p) False False
          else process_empty_scalar (p\<lparr>y_state := PARSE_FLOW_MAPPING_VALUE\<rparr>) (t_start token'))
      else if t_typ t' \<noteq> FLOW_MAPPING_END_TOKEN then parse_node (push_state PARSE_FLOW_MAPPING_EMPTY_VALUE p') False False
      else close_collection MAPPING_END_EVENT t' p')"
    if sep: "flow_separator first t p = Ok (Some (t', p'))" for t' p'
  proof -
    from separator_cases(2) [OF w Cons sep] obtain ts' where p': "within PARSE_FLOW_MAPPING_KEY p'" "y_states p' = y_states p"
      "y_tokens p' = t' # ts'" "rest_size p' \<le> rest_size p - (if first then 0 else 6)" by blast
    have sz: "rest_size p' + 6 < n" using p'(4) n rest_size_skip [OF Cons] by (auto split: if_splits)
    have v: "within PARSE_FLOW_MAPPING_VALUE p'" "within PARSE_FLOW_MAPPING_EMPTY_VALUE p'" by (rule within_cong [OF p'(1)], simp)+
    have "steps R n (parse_node (push_state PARSE_FLOW_MAPPING_EMPTY_VALUE p') False False)"
      by (rule entry_steps [OF v(2)]) (use sz R p' in auto)
    moreover have "t_typ t' = FLOW_MAPPING_END_TOKEN \<Longrightarrow> steps R n (close_collection MAPPING_END_EVENT t' p')"
      by (rule close_steps [OF p'(1) _ p'(3)]) (use sz R p' in auto)
    moreover have "t_typ t' = KEY_TOKEN \<Longrightarrow> steps R n (parse_node (push_state PARSE_FLOW_MAPPING_VALUE (skip_token p')) False False)"
      "t_typ t' = KEY_TOKEN \<Longrightarrow> steps R n (process_empty_scalar ((skip_token p')\<lparr>y_state := PARSE_FLOW_MAPPING_VALUE\<rparr>) m)" for m
      using entry_steps [OF within_skip [OF v(1) p'(3)]] rest_size_skip [OF p'(3)] sz R p'(2) by simp_all
    ultimately show ?thesis by (cases ts') (simp_all add: Let_def peek_token_def p'(3))
  qed
  have "t_typ t = FLOW_MAPPING_END_TOKEN \<Longrightarrow> steps R n (close_collection MAPPING_END_EVENT t p)"
    by (rule close_steps [OF w _ Cons]) (use n R in auto)
  with assms(1) Cons entry have "steps R n (parse_flow_mapping_key p0 first)"
    by (auto simp: parse_flow_mapping_key_def peek_token_def simp del: steps_simps(2) intro!: separated [OF w] no_entry [OF w])
  then show ?thesis by (simp add: R_def)
qed

lemma flow_value_steps:
  assumes "within PARSE_FLOW_MAPPING_VALUE p" and n: "rest_size p + 2 \<le> n"
  shows "steps (emits (XMapValue # expects_of (y_states p))) n (parse_flow_mapping_value p no_value)"
proof (cases "y_tokens p")
  case Nil
  then show ?thesis by (simp add: parse_flow_mapping_value_def peek_token_def)
next
  case (Cons t ts)
  define R where "R = emits (XMapValue # expects_of (y_states p))"
  have k: "within PARSE_FLOW_MAPPING_KEY p" by (rule within_cong [OF assms(1)]) simp
  have s: "t_typ t \<noteq> STREAM_END_TOKEN \<Longrightarrow> steps R n (parse_node (push_state PARSE_FLOW_MAPPING_KEY (skip_token p)) False False)"
    "t_typ t \<noteq> STREAM_END_TOKEN \<Longrightarrow> steps R n (process_empty_scalar ((skip_token p)\<lparr>y_state := PARSE_FLOW_MAPPING_KEY\<rparr>) m)" for m
    using entry_steps [OF within_skip [OF k Cons]] rest_size_skip [OF Cons] n by (simp_all add: R_def grammar)
  have "steps R n (process_empty_scalar (p\<lparr>y_state := PARSE_FLOW_MAPPING_KEY\<rparr>) m)" for m
    by (rule set_state_steps [OF k]) (use n in \<open>auto simp: R_def grammar\<close>)
  with Cons s have "steps R n (parse_flow_mapping_value p no_value)"
    by (cases ts) (simp_all add: parse_flow_mapping_value_def peek_token_def Let_def)
  then show ?thesis by (simp add: R_def)
qed

section \<open>Documents\<close>

text \<open>Directives and the ends of earlier documents change nothing but the tokens and the tags.\<close>

definition same_place :: "yaml_parser \<Rightarrow> yaml_parser \<Rightarrow> bool" where
  "same_place p p' \<longleftrightarrow> y_state p' = y_state p \<and> y_states p' = y_states p \<and> y_marks p' = y_marks p \<and>
     (\<not> y_stream_end p \<longrightarrow> \<not> y_stream_end p') \<and> length (y_tokens p') \<le> length (y_tokens p)"

lemma same_place_refl [simp]: "same_place p p"
  by (simp add: same_place_def)

lemma same_place_trans: "same_place p q \<Longrightarrow> same_place q r \<Longrightarrow> same_place p r"
  by (auto simp: same_place_def)

lemma same_place_skip: "y_tokens p = t # ts \<Longrightarrow> t_typ t \<noteq> STREAM_END_TOKEN \<Longrightarrow> same_place p (skip_token p)"
  by (auto simp: same_place_def skip_stream_end)

lemma append_tag_directive_place:
  "\<not> panics (append_tag_directive p v d m)" "append_tag_directive p v d m = Ok p' \<Longrightarrow> same_place p p' \<and> y_tokens p' = y_tokens p"
  by (auto simp: append_tag_directive_def same_place_def split: if_splits)
     (auto simp: set_parser_error_def)

lemma append_defaults_place:
  "\<not> panics (append_defaults p vs m) \<and> (append_defaults p vs m = Ok p' \<longrightarrow> same_place p p' \<and> y_tokens p' = y_tokens p)"
proof (induction vs arbitrary: p)
  case (Cons v vs)
  show ?case
    using Cons append_tag_directive_place(1) [of p v True m]
    by (auto simp: outcome_simps dest!: append_tag_directive_place(2) dest: same_place_trans)
qed simp

lemma skip_document_ends_place:
  "\<not> panics (skip_document_ends p) \<and> (skip_document_ends p = Ok p' \<longrightarrow> same_place p p')"
proof (induction p rule: skip_document_ends.induct)
  case (1 p)
  show ?case
  proof (cases "y_tokens p")
    case Nil
    then show ?thesis by (subst (1 2) skip_document_ends.simps) (simp add: peek_token_def)
  next
    case (Cons t ts)
    then have "t_typ t = DOCUMENT_END_TOKEN \<Longrightarrow> same_place p (skip_token p)" by (simp add: same_place_skip)
    with Cons 1 show ?thesis
      by (subst (1 2) skip_document_ends.simps) (auto simp: peek_token_def dest: same_place_trans)
  qed
qed

lemma process_directives_place:
  "\<not> panics (process_directives p v tags) \<and> (process_directives p v tags = Ok (p', v', tags') \<longrightarrow> same_place p p')"
proof (induction p v tags rule: process_directives.induct)
  case (1 p v tags)
  show ?case
  proof (cases "y_tokens p")
    case Nil
    then show ?thesis by (subst (1 2) process_directives.simps) (simp add: peek_token_def)
  next
    case (Cons t ts)
    then have peek: "peek_token p = Ok t" by (simp add: peek_token_def)
    have skip: "t_typ t \<noteq> STREAM_END_TOKEN \<Longrightarrow> y_tokens q = y_tokens p \<Longrightarrow> same_place p q \<Longrightarrow> same_place p (skip_token q)" for q
      using Cons same_place_skip [of q t ts] same_place_trans [of p q "skip_token q"] by simp
    show ?thesis
    proof (cases "is_directive (t_typ t)")
      case False
      then have "process_directives p v tags =
          and_then (append_defaults p default_tag_directives (t_start t)) (\<lambda>p. Ok (p, v, tags))"
        by (subst process_directives.simps) (simp add: peek is_directive_def split: token_type.splits)
      then show ?thesis using append_defaults_place [of p default_tag_directives "t_start t"] by (auto simp: outcome_simps)
    next
      case True
      then consider (version) major minor where "t_typ t = VERSION_DIRECTIVE_TOKEN major minor"
        | (tag) h pre where "t_typ t = TAG_DIRECTIVE_TOKEN h pre" by (auto simp: is_directive_def split: token_type.splits)
      then show ?thesis
      proof cases
        case version
        with 1(1) [OF peek version] skip [of p] peek show ?thesis
          by (subst (1 2) process_directives.simps) (auto simp: set_parser_error_def dest: same_place_trans)
      next
        case tag
        have "same_place p (skip_token q)" if "append_tag_directive p (h, pre) False (t_start t) = Ok q" for q
          using skip [of q] append_tag_directive_place(2) [OF that] tag by simp
        with 1(2) [OF peek tag] append_tag_directive_place(1) [of p "(h, pre)" False "t_start t"] peek tag show ?thesis
          by (subst (1 2) process_directives.simps) (auto simp: outcome_simps dest: same_place_trans)
      qed
    qed
  qed
qed

text \<open>A parser outside documents.\<close>

definition between :: "nat \<Rightarrow> yaml_parser \<Rightarrow> bool" where
  "between n p \<longleftrightarrow> y_states p = [] \<and> y_marks p = [] \<and> \<not> y_stream_end p \<and> 6 * length (y_tokens p) \<le> n"

lemma between_place: "between n p \<Longrightarrow> same_place p q \<Longrightarrow> between n q"
  by (auto simp: between_def same_place_def)

lemma expects_of_Nil [simp]: "expects_of [] = []"
  by (simp add: expects_of_def)

lemmas outside_simps = parser_ok_def marks_ok_def opened_def outside_def expects_def y_size_def

lemma directives_cases:
  assumes "between n p" and "\<And>p' v tags. between n p' \<Longrightarrow> steps R m (f (p', v, tags))"
  shows "steps R m (and_then (process_directives p None []) f)"
proof (rule steps_bind)
  fix r
  assume "process_directives p None [] = Ok r"
  then show "steps R m (f r)"
    using process_directives_place [of p None "[]"] between_place [OF assms(1)] assms(2) by (cases r) blast
qed (use process_directives_place in blast)

lemma document_start_at_steps:
  assumes "between n p"
  shows "steps (emits [XDocs]) (n + (if implicit then 5 else 1)) (document_start_at implicit p)"
proof (cases "y_tokens p")
  case Nil
  then show ?thesis by (simp add: document_start_at_def peek_token_def)
next
  case (Cons t ts)
  define R where "R = emits [XDocs]"
  define m where "m = n + (if implicit then 5 else 1)"
  have R: "R (DOCUMENT_START_EVENT v u) [XNode, XDocEnd]" "R STREAM_END_EVENT []" for v u by (simp_all add: R_def grammar)
  have "steps R m (implicit_document t p)" if implicit
    unfolding implicit_document_def
    by (rule directives_cases [OF assms]) (use that R in \<open>auto simp: m_def between_def outside_simps\<close>)
  moreover have "steps R m (explicit_document t p)"
    unfolding explicit_document_def
  proof (rule directives_cases [OF assms], clarify)
    fix p' v tags
    assume p': "between n p'"
    let ?p = "(push_state PARSE_DOCUMENT_END p')\<lparr>y_state := PARSE_DOCUMENT_CONTENT\<rparr>"
    have "y_tokens p' = u # us \<Longrightarrow> t_typ u = DOCUMENT_START_TOKEN \<Longrightarrow> \<not> y_stream_end (skip_token ?p)" for u us
      using skip_not_end [of ?p u us DOCUMENT_START_TOKEN] by simp
    with p' R show "steps R m (and_then (peek_token p') (\<lambda>token'.
        if t_typ token' \<noteq> DOCUMENT_START_TOKEN then set_parser_error ''did not find expected <document start>'' (t_start token')
        else Ok (\<lparr>e_typ = DOCUMENT_START_EVENT v tags, e_start = t_start t\<rparr>, skip_token ?p)))"
      by (cases "y_tokens p'") (auto simp: peek_token_def m_def between_def outside_simps)
  qed
  moreover have "steps R m (Ok (\<lparr>e_typ = STREAM_END_EVENT, e_start = k\<rparr>, skip_token (p\<lparr>y_state := PARSE_END\<rparr>)))" for k
    using assms Cons R by (auto simp: m_def between_def outside_simps)
  ultimately have "steps R m (document_start_at implicit p)"
    using Cons by (simp add: document_start_at_def peek_token_def del: steps_simps(2))
  then show ?thesis by (simp only: R_def m_def)
qed

lemma document_start_steps:
  assumes "between n p"
  shows "steps (emits [XDocs]) (n + (if implicit then 5 else 1)) (parse_document_start p implicit)"
  unfolding parse_document_start_def
proof (rule steps_bind)
  show "\<not> panics (if implicit then Ok p else skip_document_ends p)" using skip_document_ends_place [of p] by simp
  fix q
  assume "(if implicit then Ok p else skip_document_ends p) = Ok q"
  then have "same_place p q" using skip_document_ends_place [of p q] by (auto split: if_splits)
  then show "steps (emits [XDocs]) (n + (if implicit then 5 else 1)) (document_start_at implicit q)"
    by (rule document_start_at_steps [OF between_place [OF assms]])
qed

lemma document_content_steps:
  assumes "inside p"
  shows "steps (emits (XNode # expects_of (y_states p))) (rest_size p + 2) (parse_document_content p)"
proof (cases "y_tokens p")
  case Nil
  then show ?thesis by (simp add: parse_document_content_def peek_token_def)
next
  case (Cons t ts)
  define R where "R = emits (XNode # expects_of (y_states p))"
  have "steps R (rest_size p + 2) (and_then (pop_state p) (\<lambda>p. process_empty_scalar p m))" for m
    by (rule steps_bind)
       (use pop_no_panic [OF assms] popped [OF assms] in \<open>auto simp: process_empty_scalar_def R_def grammar\<close>)
  moreover have "steps R (rest_size p + 2) (parse_node p True False)"
    by (rule steps_weaken [OF parse_node_steps [OF assms]]) (auto simp: R_def grammar)
  ultimately have "steps R (rest_size p + 2) (parse_document_content p)"
    using Cons by (simp add: parse_document_content_def peek_token_def)
  then show ?thesis by (simp only: R_def)
qed

lemma document_end_steps:
  assumes "between n p"
  shows "steps (emits [XDocEnd]) (n + 2) (parse_document_end p)"
proof (cases "y_tokens p")
  case Nil
  then show ?thesis by (simp add: parse_document_end_def peek_token_def)
next
  case (Cons t ts)
  then have "t_typ t = DOCUMENT_END_TOKEN \<Longrightarrow> \<not> y_stream_end (skip_token p)" by (simp add: skip_stream_end)
  with Cons assms show ?thesis
    by (auto simp: parse_document_end_def peek_token_def Let_def between_def outside_simps grammar)
qed

lemma stream_start_steps:
  assumes "between n p"
  shows "steps (emits [XStream]) (n + 1) (parse_stream_start p)"
proof (cases "y_tokens p")
  case Nil
  then show ?thesis by (simp add: parse_stream_start_def peek_token_def)
next
  case (Cons t ts)
  then have "t_typ t = STREAM_START_TOKEN \<Longrightarrow> \<not> y_stream_end (skip_token (p\<lparr>y_state := PARSE_IMPLICIT_DOCUMENT_START\<rparr>))"
    using skip_not_end [of "p\<lparr>y_state := PARSE_IMPLICIT_DOCUMENT_START\<rparr>" t ts STREAM_START_TOKEN] by simp
  with Cons assms show ?thesis
    by (auto simp: parse_stream_start_def peek_token_def between_def outside_simps grammar)
qed

section \<open>The machine\<close>

lemma outside_between: "parser_ok p \<Longrightarrow> outside (y_state p) \<Longrightarrow> y_state p \<noteq> PARSE_END \<Longrightarrow> between (6 * length (y_tokens p)) p"
  by (auto simp: parser_ok_def between_def marks_ok_def outside_def)

lemma inside_state: "parser_ok p \<Longrightarrow> \<not> outside (y_state p) \<Longrightarrow> marks_of (y_state p) = 0 \<Longrightarrow> inside p"
  by (auto simp: parser_ok_def inside_def marks_ok_def outside_def)

lemma first_steps:
  assumes "parser_ok p" and "opens (y_state p) = Some k" and "k \<noteq> STREAM_END_TOKEN" and "marks_of s = 1"
    and "\<And>p'. enter_collection True p = Ok p' \<Longrightarrow> within s p' \<Longrightarrow> y_states p' = y_states p \<Longrightarrow> rest_size p' + 6 < y_size p \<Longrightarrow>
      steps R (y_size p) r"
  shows "steps R (y_size p) r"
proof -
  obtain p' where p': "enter_collection True p = Ok p'" "within s p'" "y_states p' = y_states p" "rest_size p' + 6 = rest_size p"
    using enter_within [OF assms(1-4)] by blast
  have "rest_size p < y_size p" using assms(2) by (cases "y_state p") (auto simp: rest_size_def y_size_def)
  with p'(4) show ?thesis by (intro assms(5) [OF p'(1-3)]) simp
qed

lemma later_entry: "enter_collection False p = Ok p"
  by (simp add: enter_collection_def)

lemma state_machine_steps:
  assumes "parser_ok p" and "y_state p \<noteq> PARSE_END"
  shows "steps (emits (expects p)) (y_size p) (state_machine p)"
proof -
  note out = outside_between [OF assms(1)] and inn = inside_state [OF assms(1)] and w = within_state [OF assms(1)]
  have node: "steps (emits (XNode # expects_of (y_states p))) (rest_size p + 2) (parse_node p b i)" if "inside p" for b i
    by (rule steps_weaken [OF parse_node_steps [OF that]]) (auto simp: grammar)
  have size: "y_size p = rest_size p + weight (y_state p)" by (simp add: y_size_def rest_size_def)
  have doc: "y_states p = []" if "outside (y_state p)" using assms(1) that by (simp add: parser_ok_def)
  show ?thesis
  proof (cases "y_state p")
    case PARSE_STREAM_START
    with out stream_start_steps doc show ?thesis by (simp add: state_machine_def expects_def outside_def size rest_size_def)
  next
    case PARSE_IMPLICIT_DOCUMENT_START
    with out document_start_steps [where implicit = True] doc show ?thesis
      by (fastforce simp: state_machine_def expects_def outside_def size rest_size_def)
  next
    case PARSE_DOCUMENT_START
    with out document_start_steps [where implicit = False] doc show ?thesis
      by (fastforce simp: state_machine_def expects_def outside_def size rest_size_def)
  next
    case PARSE_DOCUMENT_CONTENT
    with inn document_content_steps show ?thesis by (simp add: state_machine_def expects_def outside_def size)
  next
    case PARSE_DOCUMENT_END
    with out document_end_steps doc show ?thesis by (fastforce simp: state_machine_def expects_def outside_def size rest_size_def)
  next
    case PARSE_BLOCK_NODE
    with inn node show ?thesis by (simp add: state_machine_def expects_def outside_def size)
  next
    case PARSE_BLOCK_NODE_OR_INDENTLESS_SEQUENCE
    with inn node show ?thesis by (simp add: state_machine_def expects_def outside_def size)
  next
    case PARSE_FLOW_NODE
    with inn node show ?thesis by (simp add: state_machine_def expects_def outside_def size)
  next
    case PARSE_BLOCK_SEQUENCE_FIRST_ENTRY
    show ?thesis
    proof (rule first_steps [OF assms(1), of BLOCK_SEQUENCE_START_TOKEN PARSE_BLOCK_SEQUENCE_ENTRY])
      fix p'
      assume p': "enter_collection True p = Ok p'" "within PARSE_BLOCK_SEQUENCE_ENTRY p'" "y_states p' = y_states p" "rest_size p' + 6 < y_size p"
      from block_sequence_steps [OF p'(1,2), of "y_size p"] p'(3,4) show "steps (emits (expects p)) (y_size p) (state_machine p)"
        by (simp add: PARSE_BLOCK_SEQUENCE_FIRST_ENTRY state_machine_def expects_def)
    qed (simp_all add: PARSE_BLOCK_SEQUENCE_FIRST_ENTRY)
  next
    case PARSE_BLOCK_SEQUENCE_ENTRY
    with w block_sequence_steps [OF later_entry] show ?thesis by (simp add: state_machine_def expects_def outside_def size)
  next
    case PARSE_INDENTLESS_SEQUENCE_ENTRY
    with w indentless_steps show ?thesis by (simp add: state_machine_def expects_def outside_def size)
  next
    case PARSE_BLOCK_MAPPING_FIRST_KEY
    show ?thesis
    proof (rule first_steps [OF assms(1), of BLOCK_MAPPING_START_TOKEN PARSE_BLOCK_MAPPING_KEY])
      fix p'
      assume p': "enter_collection True p = Ok p'" "within PARSE_BLOCK_MAPPING_KEY p'" "y_states p' = y_states p" "rest_size p' + 6 < y_size p"
      from block_key_steps [OF p'(1,2), of "y_size p"] p'(3,4) show "steps (emits (expects p)) (y_size p) (state_machine p)"
        by (simp add: PARSE_BLOCK_MAPPING_FIRST_KEY state_machine_def expects_def)
    qed (simp_all add: PARSE_BLOCK_MAPPING_FIRST_KEY)
  next
    case PARSE_BLOCK_MAPPING_KEY
    with w block_key_steps [OF later_entry] show ?thesis by (simp add: state_machine_def expects_def outside_def size)
  next
    case PARSE_BLOCK_MAPPING_VALUE
    with w block_value_steps show ?thesis by (simp add: state_machine_def expects_def outside_def size)
  next
    case PARSE_FLOW_SEQUENCE_FIRST_ENTRY
    show ?thesis
    proof (rule first_steps [OF assms(1), of FLOW_SEQUENCE_START_TOKEN PARSE_FLOW_SEQUENCE_ENTRY])
      fix p'
      assume p': "enter_collection True p = Ok p'" "within PARSE_FLOW_SEQUENCE_ENTRY p'" "y_states p' = y_states p" "rest_size p' + 6 < y_size p"
      from flow_sequence_steps [OF p'(1,2), of "y_size p"] p'(3,4) show "steps (emits (expects p)) (y_size p) (state_machine p)"
        by (simp add: PARSE_FLOW_SEQUENCE_FIRST_ENTRY state_machine_def expects_def)
    qed (simp_all add: PARSE_FLOW_SEQUENCE_FIRST_ENTRY)
  next
    case PARSE_FLOW_SEQUENCE_ENTRY
    with w flow_sequence_steps [OF later_entry] show ?thesis by (simp add: state_machine_def expects_def outside_def size)
  next
    case PARSE_FLOW_SEQUENCE_ENTRY_MAPPING_KEY
    with w within_cong [OF w, of PARSE_FLOW_SEQUENCE_ENTRY] pair_steps(1) show ?thesis
      by (simp add: state_machine_def expects_def outside_def size)
  next
    case PARSE_FLOW_SEQUENCE_ENTRY_MAPPING_VALUE
    with w within_cong [OF w, of PARSE_FLOW_SEQUENCE_ENTRY] pair_steps(2) show ?thesis
      by (simp add: state_machine_def expects_def outside_def size)
  next
    case PARSE_FLOW_SEQUENCE_ENTRY_MAPPING_END
    with w within_cong [OF w, of PARSE_FLOW_SEQUENCE_ENTRY] pair_steps(3) show ?thesis
      by (simp add: state_machine_def expects_def outside_def size)
  next
    case PARSE_FLOW_MAPPING_FIRST_KEY
    show ?thesis
    proof (rule first_steps [OF assms(1), of FLOW_MAPPING_START_TOKEN PARSE_FLOW_MAPPING_KEY])
      fix p'
      assume p': "enter_collection True p = Ok p'" "within PARSE_FLOW_MAPPING_KEY p'" "y_states p' = y_states p" "rest_size p' + 6 < y_size p"
      from flow_key_steps [OF p'(1,2), of "y_size p"] p'(3,4) show "steps (emits (expects p)) (y_size p) (state_machine p)"
        by (simp add: PARSE_FLOW_MAPPING_FIRST_KEY state_machine_def expects_def)
    qed (simp_all add: PARSE_FLOW_MAPPING_FIRST_KEY)
  next
    case PARSE_FLOW_MAPPING_KEY
    with w flow_key_steps [OF later_entry] show ?thesis by (simp add: state_machine_def expects_def outside_def size)
  next
    case PARSE_FLOW_MAPPING_VALUE
    with w flow_value_steps show ?thesis by (simp add: state_machine_def expects_def outside_def size)
  next
    case PARSE_FLOW_MAPPING_EMPTY_VALUE
    with w within_cong [OF w, of PARSE_FLOW_MAPPING_VALUE] flow_value_steps show ?thesis
      by (simp add: state_machine_def expects_def outside_def size)
  qed (use assms(2) in simp)
qed

end
