(* ===== verification/YamlNodeFacts.thy ===== *)
theory YamlNodeFacts
  imports YamlNode YamlParserFacts
begin

text \<open>
  The builder on any source of events that keeps the grammar, and so on the parser: it ends with a tree or an error,
  within a number of calls that the number of tokens bounds.
\<close>

section \<open>The interface of the parser\<close>

locale event_source =
  fixes fetch :: "'s \<Rightarrow> (yaml_event \<times> 's) outcome"
    and expecting :: "'s \<Rightarrow> expect list"
    and left :: "'s \<Rightarrow> nat"
    and good :: "'s \<Rightarrow> bool"
  assumes fetch_safe: "good s \<Longrightarrow> \<not> panics (fetch s)"
    and fetch_step: "good s \<Longrightarrow> expecting s \<noteq> [] \<Longrightarrow> fetch s = Ok (ev, s') \<Longrightarrow>
      good s' \<and> emits (expecting s) (e_typ ev) (expecting s') \<and> left s' < left s"
begin

text \<open>What a part of the builder leaves: an event that is allowed before the rest \<open>st\<close>, and less to come than \<open>n\<close>.\<close>

definition leaves :: "expect list \<Rightarrow> nat \<Rightarrow> ('a, 's) built \<Rightarrow> bool" where
  "leaves st n r \<longleftrightarrow> (\<exists>x. r = Some x \<and> \<not> panics x \<and>
     (\<forall>c as ev s. x = Ok (c, as, ev, s) \<longrightarrow> good s \<and> emits st (e_typ ev) (expecting s) \<and> left s < n))"

definition node_start :: "expect list \<Rightarrow> event_type \<Rightarrow> expect list \<Rightarrow> bool" where
  "node_start st e st' \<longleftrightarrow> node_event st e st' \<or> (\<exists>a t i y. e = MAPPING_START_EVENT a t i y \<and> st' = XPairKey # st)"

lemma leaves_obind:
  assumes "leaves st n r" and "\<And>c as ev s. good s \<Longrightarrow> emits st (e_typ ev) (expecting s) \<Longrightarrow> left s < n \<Longrightarrow> leaves st' m (f (c, as, ev, s))"
  shows "leaves st' m (obind r f)"
proof -
  obtain x where x: "r = Some x" "\<not> panics x" using assms(1) by (auto simp: leaves_def)
  show ?thesis
  proof (cases x)
    case (Ok y)
    with x assms show ?thesis by (cases y) (auto simp: leaves_def)
  qed (use x in \<open>auto simp: leaves_def\<close>)
qed

lemma leaves_skip:
  assumes "good s" and "expecting s \<noteq> []" and "e_typ ev \<noteq> STREAM_END_EVENT"
    and "\<And>ev' s'. good s' \<Longrightarrow> emits (expecting s) (e_typ ev') (expecting s') \<Longrightarrow> left s' < left s \<Longrightarrow> leaves st m (f (ev', s'))"
  shows "leaves st m (obind (Some (skip_event fetch ev s)) f)"
proof (cases "fetch s")
  case (Ok y)
  with fetch_step [OF assms(1,2)] assms show ?thesis by (cases y) (auto simp: skip_event_def)
next
  case (Panic x)
  with fetch_safe [OF assms(1)] show ?thesis by simp
qed (use assms(3) in \<open>simp add: skip_event_def leaves_def\<close>)

lemma leaves_weaken: "leaves st n r \<Longrightarrow> n \<le> m \<Longrightarrow> leaves st m r"
  by (fastforce simp: leaves_def)

text \<open>The places in a mapping: before a key, between a key and its value, and after that.\<close>

definition mapping_place :: "expect \<Rightarrow> expect \<Rightarrow> expect \<Rightarrow> bool" where
  "mapping_place k v k' \<longleftrightarrow> k = XMapKey \<and> v = XMapValue \<and> k' = XMapKey \<or> k = XPairKey \<and> v = XPairValue \<and> k' = XPairEnd"

definition key_place :: "expect \<Rightarrow> bool" where
  "key_place k \<longleftrightarrow> k \<in> {XMapKey, XPairKey, XPairEnd}"

lemma key_cases:
  assumes "key_place k" and "emits (k # st) e st'" and "e \<noteq> MAPPING_END_EVENT"
  obtains v k' where "mapping_place k v k'" "node_event (v # st) e st'"
  using assms by (auto simp: key_place_def mapping_place_def elim: emits_mapE emits_pairE)

lemma value_cases: "mapping_place k v k' \<Longrightarrow> emits (v # st) e st' \<Longrightarrow> node_event (k' # st) e st' \<and> key_place k'"
  by (auto simp: mapping_place_def key_place_def elim: emits_valueE emits_pairE)

lemma mapping_end: "key_place k \<Longrightarrow> emits (k # st) MAPPING_END_EVENT st' \<Longrightarrow> st' = st"
  by (auto simp: key_place_def elim: emits_mapE emits_pairE node_eventE)

lemma sequence_end: "emits (XSeq # st) SEQUENCE_END_EVENT st' \<Longrightarrow> st' = st"
  by (auto elim: emits_seqE node_eventE)

lemma entry_start: "emits (XSeq # st) e st' \<Longrightarrow> e \<noteq> SEQUENCE_END_EVENT \<Longrightarrow> node_start (XSeq # st) e st'"
  by (auto simp: node_start_def elim: emits_seqE)

text \<open>What the builder does with \<open>n\<close> calls, for nodes, for the rest of a sequence and for the rest of a mapping.\<close>

definition nodes_built :: "nat \<Rightarrow> bool" where
  "nodes_built n \<longleftrightarrow> (\<forall>st ev s. good s \<longrightarrow> node_start st (e_typ ev) (expecting s) \<longrightarrow> st \<noteq> [] \<longrightarrow> 2 * left s + 1 \<le> n \<longrightarrow>
     leaves st (left s) (build_node fetch n ev s))"

definition sequences_built :: "nat \<Rightarrow> bool" where
  "sequences_built n \<longleftrightarrow> (\<forall>st ev s. good s \<longrightarrow> emits (XSeq # st) (e_typ ev) (expecting s) \<longrightarrow> st \<noteq> [] \<longrightarrow> 2 * left s + 2 \<le> n \<longrightarrow>
     leaves st (left s) (build_sequence fetch n ev s))"

definition mappings_built :: "nat \<Rightarrow> bool" where
  "mappings_built n \<longleftrightarrow> (\<forall>st ev s k. good s \<longrightarrow> key_place k \<longrightarrow> emits (k # st) (e_typ ev) (expecting s) \<longrightarrow> st \<noteq> [] \<longrightarrow>
     2 * left s + 2 \<le> n \<longrightarrow> leaves st (left s) (build_mapping fetch n ev s))"

lemma mappings_builtD:
  "mappings_built n \<Longrightarrow> good s \<Longrightarrow> key_place k \<Longrightarrow> emits (k # st) (e_typ ev) (expecting s) \<Longrightarrow> st \<noteq> [] \<Longrightarrow> 2 * left s + 2 \<le> n \<Longrightarrow>
     leaves st (left s) (build_mapping fetch n ev s)"
  unfolding mappings_built_def by blast

lemma leaves_Ok [simp]: "leaves st n (Some (Ok (c, as, ev, s))) \<longleftrightarrow> good s \<and> emits st (e_typ ev) (expecting s) \<and> left s < n"
  by (simp add: leaves_def)

lemma nodes_step:
  assumes "sequences_built n" and "mappings_built n"
  shows "nodes_built (Suc n)"
  unfolding nodes_built_def
proof (intro allI impI)
  fix st and ev :: yaml_event and s
  assume s: "good s" "node_start st (e_typ ev) (expecting s)" "st \<noteq> []" "2 * left s + 1 \<le> Suc n"
  have leaf: "leaves st (left s) (obind (Some (skip_event fetch ev s)) (\<lambda>(ev', s'). Some (Ok (c, as, ev', s'))))"
    if "expecting s = st" "e_typ ev \<noteq> STREAM_END_EVENT" for c :: ynode and as
    by (rule leaves_skip) (use s that in auto)
  have sequence: "leaves st (left s) (obind (Some (skip_event fetch ev s)) (\<lambda>(ev', s').
      obind (build_sequence fetch n ev' s') (\<lambda>(cs, as, ev', s'). Some (Ok (f cs, g cs as, ev', s')))))"
    if "expecting s = XSeq # st" "e_typ ev \<noteq> STREAM_END_EVENT" for f :: "ynode list \<Rightarrow> ynode" and g
  proof (rule leaves_skip)
    fix ev' :: yaml_event and s'
    assume s': "good s'" "emits (expecting s) (e_typ ev') (expecting s')" "left s' < left s"
    then have "leaves st (left s') (build_sequence fetch n ev' s')"
      using assms(1) s that by (simp add: sequences_built_def)
    then show "leaves st (left s) (case (ev', s') of (ev', s') \<Rightarrow>
        obind (build_sequence fetch n ev' s') (\<lambda>(cs, as, ev', s'). Some (Ok (f cs, g cs as, ev', s'))))"
      unfolding prod.case by (rule leaves_obind) (use s' in auto)
  qed (use s that in auto)
  have mapping: "leaves st (left s) (obind (Some (skip_event fetch ev s)) (\<lambda>(ev', s').
      obind (build_mapping fetch n ev' s') (\<lambda>(cs, as, ev', s'). Some (Ok (f cs, g cs as, ev', s')))))"
    if "expecting s = k # st" "key_place k" "e_typ ev \<noteq> STREAM_END_EVENT" for k and f :: "ynode list \<Rightarrow> ynode" and g
  proof (rule leaves_skip)
    fix ev' :: yaml_event and s'
    assume s': "good s'" "emits (expecting s) (e_typ ev') (expecting s')" "left s' < left s"
    then have "leaves st (left s') (build_mapping fetch n ev' s')"
      using assms(2) s that by (simp add: mappings_built_def)
    then show "leaves st (left s) (case (ev', s') of (ev', s') \<Rightarrow>
        obind (build_mapping fetch n ev' s') (\<lambda>(cs, as, ev', s'). Some (Ok (f cs, g cs as, ev', s'))))"
      unfolding prod.case by (rule leaves_obind) (use s' in auto)
  qed (use s that in auto)
  show "leaves st (left s) (build_node fetch (Suc n) ev s)"
    using s(2) unfolding node_start_def
  proof (elim disjE exE conjE)
    assume "node_event st (e_typ ev) (expecting s)"
    then show ?thesis
      by (cases rule: node_event.cases)
         (use leaf sequence mapping [of XMapKey] in \<open>simp_all add: Let_def key_place_def split_def\<close>)
  next
    fix a t i y
    assume "e_typ ev = MAPPING_START_EVENT a t i y" "expecting s = XPairKey # st"
    then show ?thesis using mapping [of XPairKey] by (simp add: Let_def key_place_def split_def)
  qed
qed

lemma sequences_step:
  assumes "nodes_built n" and "sequences_built n"
  shows "sequences_built (Suc n)"
  unfolding sequences_built_def
proof (intro allI impI)
  fix st and ev :: yaml_event and s
  assume s: "good s" "emits (XSeq # st) (e_typ ev) (expecting s)" "st \<noteq> []" "2 * left s + 2 \<le> Suc n"
  show "leaves st (left s) (build_sequence fetch (Suc n) ev s)"
  proof (cases "e_typ ev = SEQUENCE_END_EVENT")
    case True
    with s sequence_end have "expecting s = st" by simp
    then have "leaves st (left s) (obind (Some (skip_event fetch ev s)) (\<lambda>(ev, s). Some (Ok ([], [], ev, s))))"
      by (intro leaves_skip) (use s True in auto)
    with True show ?thesis by simp
  next
    case False
    have "leaves (XSeq # st) (left s) (build_node fetch n ev s)"
      using assms(1) s entry_start [OF s(2) False] by (simp add: nodes_built_def)
    then have "leaves st (left s) (obind (build_node fetch n ev s) (\<lambda>(c, as, ev, s).
        obind (build_sequence fetch n ev s) (\<lambda>(cs, as', ev, s). Some (Ok (c # cs, as @ as', ev, s)))))"
    proof (rule leaves_obind)
      fix c as and ev' :: yaml_event and s'
      assume s': "good s'" "emits (XSeq # st) (e_typ ev') (expecting s')" "left s' < left s"
      then have "leaves st (left s') (build_sequence fetch n ev' s')"
        using assms(2) s by (simp add: sequences_built_def)
      then show "leaves st (left s) (case (c, as, ev', s') of (c, as, ev, s) \<Rightarrow>
          obind (build_sequence fetch n ev s) (\<lambda>(cs, as', ev, s). Some (Ok (c # cs, as @ as', ev, s))))"
        unfolding prod.case by (rule leaves_obind) (use s' in auto)
    qed
    with False show ?thesis by simp
  qed
qed

lemma mappings_step:
  assumes "nodes_built n" and "mappings_built n"
  shows "mappings_built (Suc n)"
  unfolding mappings_built_def
proof (intro allI impI)
  fix st and ev :: yaml_event and s k
  assume s: "good s" "key_place k" "emits (k # st) (e_typ ev) (expecting s)" "st \<noteq> []" "2 * left s + 2 \<le> Suc n"
  show "leaves st (left s) (build_mapping fetch (Suc n) ev s)"
  proof (cases "e_typ ev = MAPPING_END_EVENT")
    case True
    with s mapping_end [of k st] have "expecting s = st" by simp
    then have "leaves st (left s) (obind (Some (skip_event fetch ev s)) (\<lambda>(ev, s). Some (Ok ([], [], ev, s))))"
      by (intro leaves_skip) (use s True in auto)
    with True show ?thesis by simp
  next
    case False
    from key_cases [OF s(2,3) False] obtain v k' where v: "mapping_place k v k'" "node_event (v # st) (e_typ ev) (expecting s)"
      by blast
    have "leaves (v # st) (left s) (build_node fetch n ev s)"
      using assms(1) s v by (simp add: nodes_built_def node_start_def)
    then have "leaves st (left s) (obind (build_node fetch n ev s) (\<lambda>(c, as, ev, s).
        obind (build_node fetch n ev s) (\<lambda>(c', as', ev, s).
        obind (build_mapping fetch n ev s) (\<lambda>(cs, as'', ev, s). Some (Ok (c # c' # cs, as @ as' @ as'', ev, s))))))"
    proof (rule leaves_obind, unfold prod.case)
      fix c as and ev1 :: yaml_event and s1
      assume s1: "good s1" "emits (v # st) (e_typ ev1) (expecting s1)" "left s1 < left s"
      have "leaves (k' # st) (left s1) (build_node fetch n ev1 s1)"
        using assms(1) s s1 value_cases [OF v(1) s1(2)] by (simp add: nodes_built_def node_start_def)
      then show "leaves st (left s) (obind (build_node fetch n ev1 s1) (\<lambda>(c', as', ev, s).
          obind (build_mapping fetch n ev s) (\<lambda>(cs, as'', ev, s). Some (Ok (c # c' # cs, as @ as' @ as'', ev, s)))))"
      proof (rule leaves_obind, unfold prod.case)
        fix c' as' and ev2 :: yaml_event and s2
        assume s2: "good s2" "emits (k' # st) (e_typ ev2) (expecting s2)" "left s2 < left s1"
        have "leaves st (left s2) (build_mapping fetch n ev2 s2)"
          by (rule mappings_builtD [OF assms(2), where k = k']) (use s s1 s2 value_cases [OF v(1) s1(2)] in auto)
        then show "leaves st (left s) (obind (build_mapping fetch n ev2 s2)
            (\<lambda>(cs, as'', ev, s). Some (Ok (c # c' # cs, as @ as' @ as'', ev, s))))"
          by (rule leaves_obind) (use s1 s2 in auto)
      qed
    qed
    with False show ?thesis by simp
  qed
qed

lemma build_leaves: "nodes_built n \<and> sequences_built n \<and> mappings_built n"
proof (induction n)
  case 0
  show ?case by (simp add: nodes_built_def sequences_built_def mappings_built_def)
next
  case (Suc n)
  then show ?case by (simp add: nodes_step sequences_step mappings_step)
qed

text \<open>The first document of a stream: a tree, an error or nothing, and never the end of the fuel.\<close>

lemma first_document_ends:
  assumes "good s" and "expecting s = [XStream]" and "2 * left s \<le> n"
  shows "\<exists>r. first_document fetch n s = Some r \<and> \<not> panics r"
proof -
  have parts: "\<exists>r. obind (Some x) f = Some r \<and> \<not> panics r"
    if "\<not> panics x" "\<And>y. x = Ok y \<Longrightarrow> \<exists>r. f y = Some r \<and> \<not> panics r" for x :: "'x outcome" and f :: "'x \<Rightarrow> 'y outcome option"
    using that by (cases x) auto
  have skip: "\<not> panics (skip_event fetch ev s)" if "good s" for ev s
    using fetch_safe [OF that] by (simp add: skip_event_def)
  have fetched: "good s' \<and> emits (expecting s) (e_typ ev') (expecting s') \<and> left s' < left s"
    if "good s" "expecting s \<noteq> []" "skip_event fetch ev s = Ok (ev', s')" for ev s and ev' :: yaml_event and s'
    using fetch_step [OF that(1,2)] that(3) by (auto simp: skip_event_def split: if_splits)
  have document: "\<exists>r. build_document fetch n ev s' = Some r \<and> \<not> panics r"
    if s': "good s'" "expecting s' = [XNode, XDocEnd]" "left s' < left s" for ev s'
    unfolding build_document_def
  proof (rule parts [OF skip [OF s'(1)]], clarify)
    fix ev1 :: yaml_event and s1
    assume "skip_event fetch ev s' = Ok (ev1, s1)"
    from fetched [OF s'(1) _ this] s' have s1: "good s1" "emits [XNode, XDocEnd] (e_typ ev1) (expecting s1)" "left s1 < left s'" by auto
    then have "leaves [XDocEnd] (left s1) (build_node fetch n ev1 s1)"
      using build_leaves [of n] assms(3) s' unfolding nodes_built_def by (auto simp: node_start_def elim: emits_docE)
    then obtain x where x: "build_node fetch n ev1 s1 = Some x" "\<not> panics x" and
      rest: "\<And>c as ev s. x = Ok (c, as, ev, s) \<Longrightarrow> good s \<and> emits [XDocEnd] (e_typ ev) (expecting s)"
      by (auto simp: leaves_def)
    show "\<exists>r. obind (build_node fetch n ev1 s1) (\<lambda>(root, as, ev, s). if \<not> (\<exists>i \<in> {True, False}. e_typ ev = DOCUMENT_END_EVENT i)
       then Some (Panic (ExplicitPanic ''expected end of document event''))
       else obind (Some (skip_event fetch ev s)) (\<lambda>(ev, s). Some (Ok (\<lparr>doc_root = root, doc_anchors = as\<rparr>, ev, s)))) = Some r
      \<and> \<not> panics r"
      unfolding x(1)
    proof (rule parts [OF x(2)], clarify)
      fix c as and ev2 :: yaml_event and s2
      assume "x = Ok (c, as, ev2, s2)"
      with rest have "good s2" and "\<exists>i. e_typ ev2 = DOCUMENT_END_EVENT i" by (auto elim: emits_docE)
      then show "\<exists>r. (if \<not> (\<exists>i \<in> {True, False}. e_typ ev2 = DOCUMENT_END_EVENT i)
         then Some (Panic (ExplicitPanic ''expected end of document event''))
         else obind (Some (skip_event fetch ev2 s2)) (\<lambda>(ev, s). Some (Ok (\<lparr>doc_root = c, doc_anchors = as\<rparr>, ev, s)))) = Some r \<and> \<not> panics r"
        by (auto intro!: parts skip)
    qed
  qed
  have start: "\<not> panics (newParser fetch s) \<and> (\<forall>ev' s'. newParser fetch s = Ok (ev', s') \<longrightarrow>
      good s' \<and> emits [XDocs] (e_typ ev') (expecting s') \<and> left s' < left s)"
  proof (cases "fetch s")
    case (Ok y)
    obtain ev1 s1 where y: "y = (ev1, s1)" by force
    with fetch_step [OF assms(1) _ Ok [unfolded y]] assms(2) have s1: "good s1" "emits [XStream] (e_typ ev1) (expecting s1)" "left s1 < left s"
      by auto
    then have "e_typ ev1 = STREAM_START_EVENT" "expecting s1 = [XDocs]" by (auto elim: emits_docE)
    with Ok y s1 skip [OF s1(1)] fetched [OF s1(1)] show ?thesis by (fastforce simp: newParser_def)
  qed (use fetch_safe [OF assms(1)] in \<open>auto simp: newParser_def\<close>)
  show ?thesis
    unfolding first_document_def
  proof (rule parts [OF conjunct1 [OF start]], clarify)
    fix ev :: yaml_event and s'
    assume "newParser fetch s = Ok (ev, s')"
    with start have s': "good s'" "emits [XDocs] (e_typ ev) (expecting s')" "left s' < left s" by auto
    show "\<exists>r. (case e_typ ev of
         STREAM_END_EVENT \<Rightarrow> Some (Ok None)
       | DOCUMENT_START_EVENT _ _ \<Rightarrow> obind (build_document fetch n ev s') (\<lambda>(d, _, _). Some (Ok (Some d)))
       | _ \<Rightarrow> obind (build_node fetch n ev s') (\<lambda>(c, as, _, _). Some (Ok (Some \<lparr>doc_root = c, doc_anchors = as\<rparr>)))) = Some r
      \<and> \<not> panics r"
    proof (cases "\<exists>v t. e_typ ev = DOCUMENT_START_EVENT v t")
      case True
      with s'(2) have "expecting s' = [XNode, XDocEnd]" by (auto elim: emits_docE)
      with document [OF s'(1) _ s'(3), of ev] obtain r where r: "build_document fetch n ev s' = Some r" "\<not> panics r" by auto
      have "\<exists>r'. obind (Some r) (\<lambda>(d, _, _). Some (Ok (Some d))) = Some r' \<and> \<not> panics r'"
        by (rule parts [OF r(2)]) auto
      with True r show ?thesis by auto
    next
      case False
      with s'(2) have "e_typ ev = STREAM_END_EVENT" by (auto elim: emits_docE)
      then show ?thesis by simp
    qed
  qed
qed

end

section \<open>The parser as the source of events\<close>

lemma new_parser_ok: "parser_ok (new_parser tokens err) \<and> expects (new_parser tokens err) = [XStream]"
  by (simp add: parser_ok_def new_parser_def outside_def marks_ok_def opened_def expects_def expects_of_def)

lemma new_parser_size: "y_size (new_parser tokens err) = 6 * length tokens + 1"
  by (simp add: y_size_def new_parser_def)

lemma parser_parse_step:
  assumes "parser_ok p"
  shows "\<not> panics (parser_parse p)"
    and "expects p \<noteq> [] \<Longrightarrow> parser_parse p = Ok (ev, p') \<Longrightarrow>
      parser_ok p' \<and> emits (expects p) (e_typ ev) (expects p') \<and> y_size p' < y_size p"
proof -
  have over: "\<not> panics (parser_parse p) \<and> expects p = []" if "y_state p = PARSE_END"
    using assms that by (simp add: parser_ok_def outside_def expects_def expects_of_def parser_parse_def)
  have going: "parser_parse p = state_machine p" if "y_state p \<noteq> PARSE_END"
    using assms that by (simp add: parser_parse_def parser_ok_def)
  show "\<not> panics (parser_parse p)"
    using over going state_machine_steps [OF assms] unfolding steps_def by metis
  assume "expects p \<noteq> []" and ok: "parser_parse p = Ok (ev, p')"
  with over have "y_state p \<noteq> PARSE_END" by blast
  with state_machine_steps [OF assms] going ok
  show "parser_ok p' \<and> emits (expects p) (e_typ ev) (expects p') \<and> y_size p' < y_size p"
    unfolding steps_def by metis
qed

interpretation yaml_events: event_source parser_parse expects y_size parser_ok
proof unfold_locales
  fix p
  assume "parser_ok p"
  then show "\<not> panics (parser_parse p)" by (rule parser_parse_step)
next
  fix p ev p'
  assume "parser_ok p" and "expects p \<noteq> []" and "parser_parse p = Ok (ev, p')"
  then show "parser_ok p' \<and> emits (expects p) (e_typ ev) (expects p') \<and> y_size p' < y_size p" by (rule parser_parse_step)
qed

lemma yaml_tree_ends:
  "\<exists>r. yaml_tree (12 * length tokens + 2 + k) tokens err = Some r \<and> \<not> panics r"
  unfolding yaml_tree_def
  by (rule yaml_events.first_document_ends) (use new_parser_ok [of tokens err] new_parser_size [of tokens err] in auto)

end
