(* ===== verification/YamlDecodeFacts.thy ===== *)
theory YamlDecodeFacts
  imports YamlDecode YamlNodeFacts
begin

text \<open>
  The decoder on the trees of the builder: no index out of range and no other panic, whatever the tokens are, and maps whose
  keys differ.
\<close>

section \<open>The trees of the builder\<close>

text \<open>A mapping has its children in pairs.\<close>

fun paired :: "ynode \<Rightarrow> bool" where
  "paired (MappingNode _ children) \<longleftrightarrow> even (length children) \<and> list_all paired children"
| "paired (SequenceNode _ children) \<longleftrightarrow> list_all paired children"
| "paired _ \<longleftrightarrow> True"

definition anchors_paired :: "anchors \<Rightarrow> bool" where
  "anchors_paired as \<longleftrightarrow> (\<forall>n \<in> snd ` set as. paired n)"

lemma anchors_paired_simps [simp]:
  "anchors_paired []" "anchors_paired (as @ as') \<longleftrightarrow> anchors_paired as \<and> anchors_paired as'"
  "paired n \<Longrightarrow> anchors_paired (anchor a n)"
  by (auto simp: anchors_paired_def anchor_def split: option.splits)

lemma obind_Ok: "obind x f = Some (Ok b) \<longleftrightarrow> (\<exists>a. x = Some (Ok a) \<and> f a = Some (Ok b))"
  by (cases "(x, f)" rule: obind.cases) auto

lemma build_paired:
  shows "build_node fetch n ev s = Some (Ok (c, as, ev', s')) \<Longrightarrow> paired c \<and> anchors_paired as"
    and "build_sequence fetch n ev s = Some (Ok (cs, as, ev', s')) \<Longrightarrow> list_all paired cs \<and> anchors_paired as"
    and "build_mapping fetch n ev s = Some (Ok (cs, as, ev', s')) \<Longrightarrow> even (length cs) \<and> list_all paired cs \<and> anchors_paired as"
proof (induction n arbitrary: ev s c cs as ev' s')
  case (Suc n)
  {
    case 1
    then show ?case
      by (cases "e_typ ev") (auto simp: obind_Ok Let_def dest: Suc.IH)
  next
    case 2
    then show ?case
      by (auto simp: obind_Ok split: if_splits dest!: Suc.IH)
  next
    case 3
    then show ?case
      by (auto simp: obind_Ok split: if_splits dest!: Suc.IH)
  }
qed simp_all

definition document_paired :: "document \<Rightarrow> bool" where
  "document_paired d \<longleftrightarrow> paired (doc_root d) \<and> anchors_paired (doc_anchors d)"

lemma build_document_paired:
  assumes "build_document fetch n ev s = Some (Ok (d, r))"
  shows "document_paired d"
proof -
  obtain c as ev1 s1 ev2 s2 where b: "build_node fetch n ev1 s1 = Some (Ok (c, as, ev2, s2))" "d = \<lparr>doc_root = c, doc_anchors = as\<rparr>"
    using assms by (auto simp: build_document_def obind_Ok split: if_splits)
  then show ?thesis using build_paired(1) [OF b(1)] by (simp add: document_paired_def)
qed

lemma first_document_paired:
  assumes "first_document fetch n s = Some (Ok (Some d))"
  shows "document_paired d"
proof -
  obtain ev s' where r: "(case e_typ ev of
         STREAM_END_EVENT \<Rightarrow> Some (Ok None)
       | DOCUMENT_START_EVENT _ _ \<Rightarrow> obind (build_document fetch n ev s') (\<lambda>(d, _, _). Some (Ok (Some d)))
       | _ \<Rightarrow> obind (build_node fetch n ev s') (\<lambda>(c, as, _, _). Some (Ok (Some \<lparr>doc_root = c, doc_anchors = as\<rparr>)))) =
      Some (Ok (Some d))"
    using assms by (auto simp: first_document_def obind_Ok)
  have node: "document_paired d" if "obind (build_node fetch n ev s') (\<lambda>(c, as, _, _). Some (Ok (Some \<lparr>doc_root = c, doc_anchors = as\<rparr>))) =
      Some (Ok (Some d))"
    using that build_paired(1) [of fetch n ev s'] by (auto simp: obind_Ok document_paired_def)
  show ?thesis
    by (cases "e_typ ev") (use r node in \<open>auto simp: obind_Ok dest: build_document_paired\<close>)
qed

section \<open>The decoder\<close>

lemma alias_target_paired: "anchors_paired as \<Longrightarrow> alias_target as open name = Ok n \<Longrightarrow> paired n"
  by (fastforce simp: alias_target_def anchored_def anchors_paired_def dest!: map_of_SomeD split: option.splits if_splits)

lemma alias_target_safe [simp]: "\<not> panics (alias_target as open name)"
  by (simp add: alias_target_def split: option.split)

lemma map_key_safe [simp]: "\<not> panics (map_key k)"
  by (simp add: map_key_def split: yval.split)

lemma failWantMap_safe [simp]: "\<not> panics failWantMap"
  by (simp add: failWantMap_def)

lemma decode_safe:
  assumes "anchors_paired as"
  shows "paired n \<Longrightarrow> \<not> panics (unmarshal as open n)"
    and "list_all paired ns \<Longrightarrow> \<not> panics (unmarshal_all as open ns)"
    and "paired n \<Longrightarrow> \<not> panics (unmarshal_map as open addr n m)"
    and "even (length ns) \<Longrightarrow> list_all paired ns \<Longrightarrow> \<not> panics (fill as open addr ns m)"
    and "paired n \<Longrightarrow> \<not> panics (merge as open addr n m)"
    and "list_all paired ns \<Longrightarrow> \<not> panics (merge_all as open addr ns m)"
  using assms
  by (induction as "open" n and as "open" ns and as "open" addr n m and as "open" addr ns m and as "open" addr n m and as "open" addr ns m
      rule: unmarshal_unmarshal_all_unmarshal_map_fill_merge_merge_all.induct)
     (auto simp: scalar_value_safe dest: alias_target_paired)


lemma unmarshal_document_safe: "(\<And>d'. d = Some d' \<Longrightarrow> document_paired d') \<Longrightarrow> \<not> panics (unmarshal_document d)"
  by (cases d) (auto simp: unmarshal_document_def document_paired_def dest: decode_safe(3))

text \<open>Decoding a configuration always ends, with a map or an error and without a panic: for every sequence of tokens of
  the scanner, twelve builder calls per token suffice, the tree has its mappings in pairs, the parser keeps its stacks, and
  the decoder neither runs past the children nor follows an alias for ever.\<close>

lemma unmarshal_tokens_ends:
  "\<exists>r. unmarshal_tokens (12 * length tokens + 2 + k) tokens err = Some r \<and> \<not> panics r"
proof -
  obtain r where r: "yaml_tree (12 * length tokens + 2 + k) tokens err = Some r" "\<not> panics r"
    using yaml_tree_ends by blast
  then have "\<exists>x. unmarshal_tokens (12 * length tokens + 2 + k) tokens err = Some x \<and> \<not> panics x" if "r = Ok d" for d
    using that first_document_paired [of parser_parse "12 * length tokens + 2 + k"]
    by (auto simp: unmarshal_tokens_def yaml_tree_def intro!: unmarshal_document_safe)
  with r show ?thesis by (cases r) (auto simp: unmarshal_tokens_def)
qed

section \<open>The keys of a map\<close>

text \<open>No two entries of a map have equal keys.\<close>

fun distinct_keys :: "entries \<Rightarrow> bool" where
  "distinct_keys [] \<longleftrightarrow> True"
| "distinct_keys ((k, v) # m) \<longleftrightarrow> (\<forall>k' \<in> fst ` set m. \<not> key_eq k k') \<and> distinct_keys m"

fun maps_ok :: "yval \<Rightarrow> bool" where
  "maps_ok (VMap m) \<longleftrightarrow> distinct_keys m \<and> list_all (\<lambda>(k, v). maps_ok k \<and> maps_ok v) m"
| "maps_ok (VSeq vs) \<longleftrightarrow> list_all maps_ok vs"
| "maps_ok _ \<longleftrightarrow> True"

definition entries_ok :: "entries \<Rightarrow> bool" where
  "entries_ok m \<longleftrightarrow> distinct_keys m \<and> list_all (\<lambda>(k, v). maps_ok k \<and> maps_ok v) m"

lemma float_eq_sym: "float_eq x y \<longleftrightarrow> float_eq y x"
  by (auto simp: float_eq_def split: float64.splits)

lemma float_eq_trans: "float_eq x y \<Longrightarrow> float_eq y z \<Longrightarrow> float_eq x z"
  by (auto simp: float_eq_def split: float64.splits)

lemma key_eq_float [simp]: "key_eq (VFloat a) y \<longleftrightarrow> (\<exists>b. y = VFloat b \<and> float_eq a b)" "key_eq x (VFloat b) \<longleftrightarrow> (\<exists>a. x = VFloat a \<and> float_eq a b)"
  by (cases y; simp) (cases x; simp)

lemma key_eq_other: "\<nexists>a. y = VFloat a \<Longrightarrow> key_eq x y \<longleftrightarrow> x = y"
  by (cases "(x, y)" rule: key_eq.cases) auto

lemma key_eq_sym: "key_eq x y \<longleftrightarrow> key_eq y x"
proof (cases "\<exists>a. y = VFloat a")
  case True
  then show ?thesis using float_eq_sym by auto
next
  case y: False
  show ?thesis
  proof (cases "\<exists>a. x = VFloat a")
    case False
    with y show ?thesis by (auto simp: key_eq_other)
  qed (use y in auto)
qed

lemma key_eq_trans: "key_eq x y \<Longrightarrow> key_eq y z \<Longrightarrow> key_eq x z"
  by (cases "\<exists>a. y = VFloat a") (auto simp: key_eq_other, blast intro: float_eq_trans)

lemma SetMapIndex_keys: "k' \<in> fst ` set (SetMapIndex k v m) \<Longrightarrow> k' = k \<or> k' \<in> fst ` set m"
  by (induction k v m rule: SetMapIndex.induct) (auto split: if_splits)

lemma SetMapIndex_ok: "entries_ok m \<Longrightarrow> maps_ok k \<Longrightarrow> maps_ok v \<Longrightarrow> entries_ok (SetMapIndex k v m)"
proof (induction k v m rule: SetMapIndex.induct)
  case (2 k v k' v' m)
  then have m: "\<forall>x \<in> fst ` set m. \<not> key_eq k' x" "entries_ok m" by (simp_all add: entries_ok_def)
  show ?case
  proof (cases "key_eq k k'")
    case True
    then have "\<forall>x \<in> fst ` set m. \<not> key_eq k x" using m(1) by (metis key_eq_sym key_eq_trans)
    with True 2 show ?thesis by (simp add: entries_ok_def)
  next
    case False
    then have "\<forall>x \<in> fst ` set (SetMapIndex k v m). \<not> key_eq k' x" using m(1) by (metis key_eq_sym SetMapIndex_keys)
    with False 2 m show ?thesis by (simp add: entries_ok_def)
  qed
qed (simp add: entries_ok_def)

lemma resetMap_ok: "entries_ok m \<Longrightarrow> entries_ok (resetMap m)"
proof (induction m)
  case (Cons e m)
  then show ?case by (cases e) (auto simp: entries_ok_def resetMap_def)
qed (simp add: entries_ok_def resetMap_def)

lemma resolveMap_scalar: "resolveMap s = Some (tag, v) \<Longrightarrow> maps_ok v"
proof -
  have "\<forall>(v, tag, l) \<in> set resolveMapList. maps_ok v" by (simp add: resolveMapList_def)
  then show "resolveMap s = Some (tag, v) \<Longrightarrow> maps_ok v" by (auto simp: resolveMap_def dest!: map_of_SomeD)
qed

lemma scalar_value_ok: "scalar_value tag s i = Ok (t, v) \<Longrightarrow> maps_ok v"
proof -
  have number: "number s = Some (t, v) \<Longrightarrow> maps_ok v" for t v
    by (auto simp: number_def binary_number_def Let_def split: option.splits if_splits)
  have "resolve_hint tag s = Ok (t, v) \<Longrightarrow> maps_ok v" for t v
    by (auto simp: resolve_hint_def Let_def plain_string_def dest: number resolveMap_scalar
        split: if_splits hint.splits option.splits)
  then have "resolve tag s = Ok (t, v) \<Longrightarrow> maps_ok v" for t v
    by (auto simp: resolve_def outcome_simps split: if_splits)
  then show "scalar_value tag s i = Ok (t, v) \<Longrightarrow> maps_ok v"
    by (auto simp: scalar_value_def outcome_simps split: if_splits yval.splits option.splits)
qed

lemma map_key_Ok: "map_key k = Ok k' \<Longrightarrow> k' = k"
  by (auto simp: map_key_def split: yval.splits)

lemma decode_ok:
  shows "unmarshal as open n = Ok v \<Longrightarrow> maps_ok v"
    and "unmarshal_all as open ns = Ok vs \<Longrightarrow> list_all maps_ok vs"
    and "unmarshal_map as open addr n m = Ok (m', errs) \<Longrightarrow> entries_ok m \<Longrightarrow> entries_ok m'"
    and "fill as open addr ns m = Ok (m', errs) \<Longrightarrow> entries_ok m \<Longrightarrow> entries_ok m'"
    and "merge as open addr n m = Ok (m', errs) \<Longrightarrow> entries_ok m \<Longrightarrow> entries_ok m'"
    and "merge_all as open addr ns m = Ok (m', errs) \<Longrightarrow> entries_ok m \<Longrightarrow> entries_ok m'"
proof (induction as "open" n and as "open" ns and as "open" addr n m and as "open" addr ns m and as "open" addr n m and as "open" addr ns m
      arbitrary: v and vs and m' errs and m' errs and m' errs and m' errs
      rule: unmarshal_unmarshal_all_unmarshal_map_fill_merge_merge_all.induct)
  case (2 as "open" line tag v implicit)
  then show ?case by (auto simp: outcome_simps dest: scalar_value_ok)
next
  case (4 as "open" line children)
  have "entries_ok []" by (simp add: entries_ok_def)
  with 4 show ?case by (auto simp: outcome_simps entries_ok_def)
next
  case (8 as "open" addr line tag v implicit m)
  have "entries_ok []" by (simp add: entries_ok_def)
  with 8 show ?case by (auto simp: outcome_simps resetMap_ok split: if_splits)
next
  case (13 as "open" addr k v children m)
  show ?case
  proof (cases "isMerge k")
    case True
    with 13 show ?thesis by (auto simp: outcome_simps)
  next
    case False
    with "13.prems" obtain r e k' errs' where parts: "unmarshal as open k = Ok r" "map_key r = Ok k'" "unmarshal as open v = Ok e"
      "fill as open addr children (SetMapIndex k' e m) = Ok (m', errs')"
      by (auto simp: outcome_simps)
    have ok: "entries_ok (SetMapIndex k' e m)"
      using "13.prems"(2) "13.IH"(2) [OF False parts(1)] "13.IH"(3) [OF False parts(1,2,3)] map_key_Ok [OF parts(2)] SetMapIndex_ok by simp
    show ?thesis
      using "13.IH"(4) [of "(SetMapIndex k' e m, [])" "SetMapIndex k' e m" "[]" m' errs'] False parts ok by simp
  qed
qed (auto simp: outcome_simps failWantMap_def split: if_splits)

lemma decode_document_ok: "unmarshal_document d = Ok m \<Longrightarrow> entries_ok m"
  by (auto simp: unmarshal_document_def outcome_simps entries_ok_def split: option.splits if_splits dest!: decode_ok(3))


definition twice_given :: document where
  "twice_given = \<lparr>doc_root = MappingNode 0
     [ScalarNode 0 [] ''-0.0'' True, ScalarNode 0 [] ''a'' True, ScalarNode 0 [] ''0.0'' True, ScalarNode 0 [] ''b'' True],
     doc_anchors = []\<rparr>"

lemma twice_given_values:
  "scalar_value [] ''-0.0'' True = Ok (FLOAT_TAG, VFloat (Fin True 0 0))"
  "scalar_value [] ''0.0'' True = Ok (FLOAT_TAG, VFloat (Fin False 0 0))"
  "scalar_value [] ''a'' True = Ok (STR_TAG, VStr ''a'')" "scalar_value [] ''b'' True = Ok (STR_TAG, VStr ''b'')"
  by code_simp+


section \<open>Scalars\<close>

lemma resolveMap_string: "resolveMap s = Some (tag, VStr t) \<Longrightarrow> t = s"
proof -
  have "\<forall>(v, tag, l) \<in> set resolveMapList. \<forall>t. v = VStr t \<longrightarrow> l = [t]" by (simp add: resolveMapList_def)
  then show "resolveMap s = Some (tag, VStr t) \<Longrightarrow> t = s" by (fastforce simp: resolveMap_def dest!: map_of_SomeD)
qed

lemma number_no_string: "number s \<noteq> Some (tag, VStr t)"
  by (auto simp: number_def binary_number_def Let_def split: option.splits if_splits)

lemma resolve_hint_string:
  assumes "resolve_hint [] s = Ok (tag, VStr t)"
  shows "t = s \<and> tag \<noteq> BINARY_TAG \<or> plain_string [] s = (tag, VStr t)"
  using assms number_no_string
  by (auto simp: resolve_hint_def Let_def dest: resolveMap_string resolveMap_tag split: if_splits hint.splits option.splits)

text \<open>C40: a scalar without a tag is a string only as itself: quoted or not, resolved as text, as the merge key, or passed
  through base 64 because it is not UTF-8, the bytes that were written are the bytes of the string.\<close>

theorem untagged_string:
  assumes "scalar_value [] s implicit = Ok (tag, VStr t)"
  shows "t = s"
proof (cases implicit)
  case True
  with assms obtain tag' v where r: "resolve_hint [] s = Ok (tag', v)" and
    v: "(if tag' = BINARY_TAG then (case v of
             VStr t \<Rightarrow> (case DecodeString t of Some data \<Rightarrow> Ok (tag', VStr data)
              | None \<Rightarrow> Err (PlainError ''yaml: !!binary value contains invalid base64 data''))
           | _ \<Rightarrow> Panic TypeAssertion)
        else Ok (tag', v)) = Ok (tag, VStr t)"
    by (auto simp: scalar_value_def resolve_def resolvableTag_def outcome_simps)
  then obtain t' where t': "v = VStr t'" by (auto split: if_splits yval.splits)
  from resolve_hint_string [OF r [unfolded t']] consider
      "t' = s" "tag' \<noteq> BINARY_TAG" | "plain_string [] s = (tag', VStr t')" by blast
  then show ?thesis
  proof cases
    case 2
    with v t' show ?thesis
      by (auto simp: plain_string_def yaml_tags DecodeString_encodeBase64 split: if_splits)
  qed (use v t' in auto)
qed (use assms in \<open>simp add: scalar_value_def\<close>)

theorem untagged_string_witness:
  "scalar_value [] [CHR 0xFF, CHR ''a''] True = Ok (BINARY_TAG, VStr [CHR 0xFF, CHR ''a'']) \<and>
   [CHR 0xFF, CHR ''a''] = [CHR 0xFF, CHR ''a'']"
proof -
  have "scalar_value [] [CHR 0xFF, CHR ''a''] True = Ok (BINARY_TAG, VStr [CHR 0xFF, CHR ''a''])" by code_simp
  with untagged_string [OF this] show ?thesis by simp
qed

lemma show_nat_leading_zero: "hd (show_nat n) = CHR ''0'' \<Longrightarrow> n = 0"
proof (induction n rule: show_nat.induct)
  case (1 n)
  show ?case
  proof (cases "n < 10")
    case True
    have "(of_char (digit_char n) :: nat) = 48 + n" using True by (simp add: digit_char_def)
    with 1 True show ?thesis by (auto simp: show_nat.simps [of n])
  next
    case False
    with 1 have "n div 10 = 0" by (simp add: show_nat.simps [of n])
    with False show ?thesis by simp
  qed
qed

lemma show_nat_parts: obtains c cs where "show_nat n = c # cs" "is_digit c" "list_all is_digit (c # cs)" "c = CHR ''0'' \<longrightarrow> n = 0"
proof (cases "show_nat n")
  case (Cons c cs)
  with show_nat_digits [of _ n] show_nat_leading_zero [of n] show ?thesis by (intro that [OF Cons]) (auto simp: list_all_iff)
qed simp

lemma base_nat_show_nat: "base_nat 0 (show_nat n) = Some n"
proof (cases "n = 0")
  case False
  obtain c cs where "show_nat n = c # cs" "is_digit c" "list_all is_digit (c # cs)" "c = CHR ''0'' \<longrightarrow> n = 0"
    by (rule show_nat_parts [of n])
  with False parse_digits_show_nat [of n] base_digits_ten [of "c # cs" 0] show ?thesis
    by (auto simp: base_nat_def)
qed (simp add: base_nat_def show_nat.simps digit_char_def base_digit_def)

lemma resolveMap_no_number:
  assumes "s = c # cs" and "is_digit c \<or> c = CHR ''-'' \<and> is_digit (hd cs)"
  shows "resolveMap s = None"
proof -
  have "\<forall>(v, tag, l) \<in> set resolveMapList. \<forall>k \<in> set l. k = [] \<or> \<not> is_digit (hd k) \<and> \<not> (hd k = CHR ''-'' \<and> is_digit (hd (tl k)))"
    by (simp add: resolveMapList_def is_digit_def)
  with assms have "s \<notin> fst ` set (concat (map (\<lambda>(v, tag, l). map (\<lambda>s. (s, tag, v)) l) resolveMapList))"
    by fastforce
  then show ?thesis by (simp add: resolveMap_def map_of_eq_None_iff)
qed

lemma digit_hint: "is_digit c \<Longrightarrow> resolveTable c = HintDigit"
proof -
  have "list_all (\<lambda>n. resolveTable (char_of n) = HintDigit) [48..<58]" by code_simp
  moreover assume "is_digit c"
  then have "of_char c \<in> set [48..<58]" unfolding set_upt is_digit_def by simp
  ultimately have "resolveTable (char_of (of_char c :: nat)) = HintDigit" unfolding list_all_iff by blast
  then show ?thesis by simp
qed

text \<open>An integer of the configuration is read back as it is printed: the decimal text of every \<open>int\<close>, with its sign and
  without a leading zero, resolves to that \<open>int\<close>.\<close>

lemma scalar_itoa:
  assumes "in_int64 i"
  shows "scalar_value [] (itoa i) True = Ok (INT_TAG, VInt i)"
proof -
  obtain c cs where s: "show_nat (nat \<bar>i\<bar>) = c # cs" "is_digit c" "list_all is_digit (c # cs)" by (rule show_nat_parts)
  have sep: "x \<noteq> CHR ''_''" "x \<noteq> CHR ''-''" "x \<noteq> CHR ''+''" if "is_digit x" for x
    using that by (auto simp: is_digit_def)
  have filt: "filter (\<lambda>x. x \<noteq> CHR ''_'') (c # cs) = c # cs"
    using s(3) sep(1) by (auto simp: filter_id_conv list_all_iff)
  have nat: "base_nat 0 (c # cs) = Some (nat \<bar>i\<bar>)" using base_nat_show_nat [of "nat \<bar>i\<bar>"] s by simp
  have itoa: "itoa i = (if i < 0 then CHR ''-'' # c # cs else c # cs)"
    using s by (cases "i < 0") (simp_all add: itoa_def)
  have "number (itoa i) = Some (INT_TAG, VInt i)"
    using filt nat assms sep(2,3) [OF s(2)] by (auto simp: number_def itoa ParseInt_def Let_def)
  moreover have "resolveMap (itoa i) = None"
    using resolveMap_no_number [of "itoa i" "hd (itoa i)" "tl (itoa i)"] s(2) by (simp add: itoa)
  moreover have "resolveTable (hd (itoa i)) \<in> {HintSign, HintDigit}"
  proof (cases "i < 0")
    case True
    then show ?thesis by (simp add: itoa resolveTable_def)
  next
    case False
    then have "hd (itoa i) = c" by (simp add: itoa)
    with digit_hint [OF s(2)] show ?thesis by simp
  qed
  ultimately have "resolve_hint [] (itoa i) = Ok (INT_TAG, VInt i)"
    by (auto simp: resolve_hint_def itoa yaml_tags)
  then show ?thesis by (simp add: scalar_value_def resolve_def resolvableTag_def yaml_tags)
qed

end
