(* ===== verification/YamlUnmarshal.thy ===== *)
theory YamlUnmarshal
  imports YamlTokens YamlDecodeFacts Config
begin

text \<open>
  \<open>Unmarshal\<close> of \<open>go-yaml/yaml/yaml.go\<close> from the text: the scanner, the parser on its tokens, the tree and the
  decoder; and the configuration of \<open>GetConfig\<close> read with it.
\<close>

section \<open>Unmarshal\<close>

text \<open>
  The parser asks the scanner for a token at a time. It is run on the tokens that the scanner can deliver with the empty
  error in the place of the next one, which is no error of the library; where it comes back the parser has asked for more,
  and gets what the scanner does there.
\<close>

definition no_token :: go_error where "no_token = PlainError []"

definition stopped :: "scan_stop \<Rightarrow> 'a outcome" where
  "stopped stop = (case stop of ScanError e \<Rightarrow> Err e | ScanPanic p \<Rightarrow> Panic p | ScanDone \<Rightarrow> Err no_token)"

text \<open>The deferred \<open>handleErr\<close> turns the library's own failures into errors, which the model has from the start.\<close>

definition Unmarshal :: "string \<Rightarrow> entries outcome" where
  "Unmarshal data =
     (let (tokens, stop) = scan_tokens data in
      case unmarshal_tokens (12 * length tokens + 2) tokens no_token of
        Some (Err e) \<Rightarrow> if e = no_token then stopped stop else Err e
      | Some r \<Rightarrow> r
      | None \<Rightarrow> Panic (ExplicitPanic ''no progress''))"

text \<open>\<open>GetConfig\<close> hands it the bytes of the file and gets the map.\<close>

definition config_map :: "((yaml \<times> yaml) list \<Rightarrow> (yaml \<times> yaml) list) \<Rightarrow> bytes \<Rightarrow> (yaml \<times> yaml) list outcome" where
  "config_map order data = and_then (Unmarshal (string_of_bytes data)) (\<lambda>m. Ok (yaml_entries order m))"

definition Loadfile :: "((yaml \<times> yaml) list \<Rightarrow> (yaml \<times> yaml) list) \<Rightarrow> bytes outcome \<Rightarrow> config \<Rightarrow> config outcome" where
  "Loadfile order file c = Loadconfig (GetConfig file (config_map order)) c"

section \<open>It ends\<close>


end
