(* ===== verification/YamlEval.thy ===== *)
theory YamlEval
  imports YamlUnmarshal
begin

text \<open>
  The evaluation of scanner and parser on a given text by rewriting: the definitions as equations, and the congruences that
  leave the continuation of a step alone until the step has been evaluated.
\<close>

section \<open>Scanning by rewriting\<close>

text \<open>The continuation of a step is left alone until the step has been evaluated.\<close>

lemma weak_congs:
  "x = y \<Longrightarrow> and_then x f = and_then y f"
  "a = a' \<Longrightarrow> s = s' \<Longrightarrow> loop m body a s = loop m body a' s'"
  "s = s' \<Longrightarrow> skip_while P s = skip_while P s'"
  "acc = acc' \<Longrightarrow> s = s' \<Longrightarrow> read_while Q acc s = read_while Q acc' s'"
  "b = b' \<Longrightarrow> s = s' \<Longrightarrow> scan_blanks chk b s = scan_blanks chk b' s'"
  "s = s' \<Longrightarrow> fetch_with_key scan s = fetch_with_key scan s'"
  by simp_all

lemmas scan_congs = weak_congs if_weak_cong outcome.case_cong_weak option.case_cong_weak list.case_cong_weak
  prod.case_cong_weak sum.case_cong_weak let_weak_cong

lemma one_step: "skip_n 1 s = skip s" "drop 1 (x # xs) = xs" "take 1 (x # xs) = [x]" "(x # xs) ! 1 = xs ! 0"
  by (cases "skip s") simp_all

lemmas scan_evals = cache_def is_z_def is_tab_def is_blank_def is_break_def is_breakz_def is_blankz_def
  at_def idx_def test_def both_def scanner_error_def skip_def is_crlf_def next_line_def skip_line_def read_char_def read_line_def
  left_over_def loop.simps skip_while_def read_while_def skip_comment_def eat_break_def token_at_def scan_to_next_token_def
  scan_plain_word_def scan_plain_scalar_def scan_blanks_def is_flow_indicator_def joined_blanks_def document_indicator_def
  insert_token_def append_token_def is_stale_def stale_simple_keys_def remove_simple_key_def save_simple_key_def roll_indent_def
  unroll_from.simps unroll_indent_def fetch_stream_start_def fetch_stream_end_def indicator_def open_block_def
  fetch_block_entry_def fetch_key_def fetch_value_def fetch_with_key_def fetch_plain_scalar_def is_indicator_def
  starts_plain_def line_indicator_def fetch_at_def fetch_next_token_def head_may_be_key_def end_queued_def token_measure_def
  fetch_more_tokens_def scan_from.simps no_key_def update_buffer_def YamlReader.fill.simps update_raw_buffer_def
  decode_all_def decode_raw.simps input_raw_buffer_size_def BOM_def
  One_nat_def [symmetric] Suc_1 one_step

text \<open>For texts whose characters are still to be decoded, and for quoted scalars and directives.\<close>

lemma char_of_bits:
  "char_of (n :: nat) = Char (odd n) (odd (n div 2)) (odd (n div 4)) (odd (n div 8)) (odd (n div 16)) (odd (n div 32))
     (odd (n div 64)) (odd (n div 128))"
  by (simp add: char_of_def bit_iff_odd)

lemmas text_evals = width_def decode_utf8_def trailing_octets.simps decode_next_def allowed_value_def utf8_bytes_def char_of_bits
  read_three.simps determine_encoding_def is_alpha_def is_decimal_def as_digit_def is_hex_def as_hex_def quoted_def
  scan_flow_scalar_def scan_quoted_word_def fetch_flow_scalar_def new_scanner_def scan_tokens_def fetch_directive_def
  scan_directive_def scan_directive_name_def scan_tag_directive_value_def scan_tag_handle_def

section \<open>Parsing by rewriting\<close>

lemmas parse_evals = yaml_tree_def first_document_def newParser_def build_document_def skip_event_def anchor_def
  new_parser_def parser_parse_def state_machine_def parse_stream_start_def parse_document_start_def document_start_at_def
  implicit_document_def process_directives.simps skip_document_ends.simps append_tag_directive_def default_tag_directives_def is_directive_def
  parse_document_end_def parse_node_def node_properties_def node_tag_def node_content_def parse_block_sequence_entry_def
  parse_block_mapping_key_def parse_block_mapping_value_def close_collection_def enter_collection_def peek_token_def
  skip_token_def pop_state_def push_state_def pop_mark_def

lemma obind_weak: "x = y \<Longrightarrow> obind x f = obind y f"
  by simp

lemmas build_fuel =
  build_node.simps(2) [where n = "pred_numeral k" for k, folded numeral_eq_Suc]
  build_sequence.simps(2) [where n = "pred_numeral k" for k, folded numeral_eq_Suc]
  build_mapping.simps(2) [where n = "pred_numeral k" for k, folded numeral_eq_Suc]

end
