(* ===== verification/YamlShipped.thy ===== *)
theory YamlShipped
  imports YamlEval
begin

text \<open>
  The configuration file that is shipped with the program, \<open>config/httpagent.yml\<close>, from its bytes to the settings: the
  text is scanned by rewriting, a line at a time, parsed and decoded.
\<close>

section \<open>Texts of ASCII characters\<close>

lemma decode_raw_ascii:
  "list_all (\<lambda>c. (of_char c :: nat) < 127 \<and> (32 \<le> (of_char c :: nat) \<or> of_char c = (10 :: nat))) raw \<Longrightarrow>
     decode_raw UTF8_ENCODING eof raw = Ok (map (\<lambda>c. [c]) raw, [])"
proof (induction raw)
  case (Cons c raw)
  have "allowed_value (of_char c)" using Cons.prems by (auto simp: allowed_value_def)
  moreover have "width c = 1" "decode_utf8 eof (c # raw) = Decoded (of_char c) 1"
    using Cons.prems by (simp_all add: width_def decode_utf8_def Let_def)
  moreover have "utf8_bytes (of_char c) = [c]" using Cons.prems by (simp add: utf8_bytes_def)
  ultimately show ?case
    using Cons by (subst decode_raw.simps) (simp add: decode_next_def)
qed (simp add: decode_raw.simps)

section \<open>The file\<close>

definition shipped_lines :: "string list" where
  "shipped_lines =
     map (\<lambda>line. line @ [CHR 0x0A])
      [''# snmpagent config'',
       ''snmp:'', ''    - asyncnum: 10'', ''    - timeout: 2'', ''    - retry: 1'', ''    - maxsesspool: 1000'',
       ''    - maxlifetime: 30'',
       ''http:'', ''    - port: 1216'',
       ''log:'', ''    - debug: false'', ''    - logarchsize: 10485760'',
       ''ping:'', ''    - maxconcurrency: 500'']"

definition shipped_text :: string where
  "shipped_text = concat shipped_lines"

text \<open>The characters from a line on; they are written out when the scanner comes to the line.\<close>

definition lines_from :: "nat \<Rightarrow> string list" where
  "lines_from k = map (\<lambda>c. [c]) (concat (drop k shipped_lines))"

lemma lines_from_step: "k < 14 \<Longrightarrow> lines_from k = map (\<lambda>c. [c]) (shipped_lines ! k) @ lines_from (Suc k)"
  by (simp add: lines_from_def shipped_lines_def Cons_nth_drop_Suc [symmetric])

lemma lines_from_end [simp]: "lines_from 14 = []"
  by (simp add: lines_from_def shipped_lines_def)

definition line_and_rest :: "nat \<Rightarrow> string list" where
  "line_and_rest k = (if k < 14 then map (\<lambda>c. [c]) (shipped_lines ! k) @ lines_from (Suc k) else [])"

lemma lines_from_rest: "lines_from k = line_and_rest k"
  using lines_from_step [of k] by (auto simp: line_and_rest_def lines_from_def shipped_lines_def)

lemma lines_window:
  "\<lparr>s_input = i, s_eof = e, s_raw = r, s_encoding = c, s_ahead = lines_from k, s_bom = b, s_index = n, s_line = l, s_column = m,
      s_started = t, s_tokens = ts, s_parsed = p, s_flow_level = f, s_allowed = a, s_keys = ks, s_indent = j, s_indents = js\<rparr> =
    \<lparr>s_input = i, s_eof = e, s_raw = r, s_encoding = c, s_ahead = line_and_rest k, s_bom = b, s_index = n, s_line = l, s_column = m,
      s_started = t, s_tokens = ts, s_parsed = p, s_flow_level = f, s_allowed = a, s_keys = ks, s_indent = j, s_indents = js\<rparr>"
  "\<lparr>s_input = i, s_eof = e, s_raw = r, s_encoding = c, s_ahead = v # lines_from k, s_bom = b, s_index = n, s_line = l, s_column = m,
      s_started = t, s_tokens = ts, s_parsed = p, s_flow_level = f, s_allowed = a, s_keys = ks, s_indent = j, s_indents = js\<rparr> =
    \<lparr>s_input = i, s_eof = e, s_raw = r, s_encoding = c, s_ahead = v # line_and_rest k, s_bom = b, s_index = n, s_line = l, s_column = m,
      s_started = t, s_tokens = ts, s_parsed = p, s_flow_level = f, s_allowed = a, s_keys = ks, s_indent = j, s_indents = js\<rparr>"
  "\<lparr>s_input = i, s_eof = e, s_raw = r, s_encoding = c, s_ahead = v # w # lines_from k, s_bom = b, s_index = n, s_line = l, s_column = m,
      s_started = t, s_tokens = ts, s_parsed = p, s_flow_level = f, s_allowed = a, s_keys = ks, s_indent = j, s_indents = js\<rparr> =
    \<lparr>s_input = i, s_eof = e, s_raw = r, s_encoding = c, s_ahead = v # w # line_and_rest k, s_bom = b, s_index = n, s_line = l, s_column = m,
      s_started = t, s_tokens = ts, s_parsed = p, s_flow_level = f, s_allowed = a, s_keys = ks, s_indent = j, s_indents = js\<rparr>"
  "\<lparr>s_input = i, s_eof = e, s_raw = r, s_encoding = c, s_ahead = v # w # x # lines_from k, s_bom = b, s_index = n, s_line = l, s_column = m,
      s_started = t, s_tokens = ts, s_parsed = p, s_flow_level = f, s_allowed = a, s_keys = ks, s_indent = j, s_indents = js\<rparr> =
    \<lparr>s_input = i, s_eof = e, s_raw = r, s_encoding = c, s_ahead = v # w # x # line_and_rest k, s_bom = b, s_index = n, s_line = l, s_column = m,
      s_started = t, s_tokens = ts, s_parsed = p, s_flow_level = f, s_allowed = a, s_keys = ks, s_indent = j, s_indents = js\<rparr>"
  "\<lparr>s_input = i, s_eof = e, s_raw = r, s_encoding = c, s_ahead = v # w # x # y # lines_from k, s_bom = b, s_index = n, s_line = l, s_column = m,
      s_started = t, s_tokens = ts, s_parsed = p, s_flow_level = f, s_allowed = a, s_keys = ks, s_indent = j, s_indents = js\<rparr> =
    \<lparr>s_input = i, s_eof = e, s_raw = r, s_encoding = c, s_ahead = v # w # x # y # line_and_rest k, s_bom = b, s_index = n, s_line = l, s_column = m,
      s_started = t, s_tokens = ts, s_parsed = p, s_flow_level = f, s_allowed = a, s_keys = ks, s_indent = j, s_indents = js\<rparr>"
  by (simp_all add: lines_from_rest)

lemma lines_lengths [simp]:
  "length (lines_from 0) = 229"
  "length (lines_from 1) = 210"
  "length (lines_from 2) = 204"
  "length (lines_from 3) = 185"
  "length (lines_from 4) = 168"
  "length (lines_from 5) = 153"
  "length (lines_from 6) = 129"
  "length (lines_from 7) = 107"
  "length (lines_from 8) = 101"
  "length (lines_from 9) = 84"
  "length (lines_from 10) = 79"
  "length (lines_from 11) = 60"
  "length (lines_from 12) = 32"
  "length (lines_from 13) = 26"
  by (simp_all add: lines_from_def shipped_lines_def)

section \<open>Its tokens and its settings\<close>

text \<open>The tokens of an entry of a section and of a section whose name is on the given line.\<close>

definition entry_tokens :: "nat \<Rightarrow> string \<times> string \<Rightarrow> yaml_token list" where
  "entry_tokens line e =
     map (\<lambda>typ. token_at typ line line)
       [BLOCK_ENTRY_TOKEN, BLOCK_MAPPING_START_TOKEN, KEY_TOKEN, SCALAR_TOKEN (fst e) PLAIN_SCALAR, VALUE_TOKEN,
        SCALAR_TOKEN (snd e) PLAIN_SCALAR] @ [token_at BLOCK_END_TOKEN (line + 1) (line + 1)]"

fun entries_tokens :: "nat \<Rightarrow> (string \<times> string) list \<Rightarrow> yaml_token list" where
  "entries_tokens line [] = [token_at BLOCK_END_TOKEN line line]"
| "entries_tokens line (e # es) = entry_tokens line e @ entries_tokens (line + 1) es"

definition section_tokens :: "nat \<Rightarrow> string \<Rightarrow> (string \<times> string) list \<Rightarrow> yaml_token list" where
  "section_tokens line name es =
     map (\<lambda>typ. token_at typ line line) [KEY_TOKEN, SCALAR_TOKEN name PLAIN_SCALAR, VALUE_TOKEN] @
     [token_at BLOCK_SEQUENCE_START_TOKEN (line + 1) (line + 1)] @ entries_tokens (line + 1) es"

lemmas tokens_defs = entry_tokens_def entries_tokens.simps section_tokens_def token_at_def

definition shipped_tokens :: "yaml_token list" where
  "shipped_tokens =
     [token_at STREAM_START_TOKEN 0 0, token_at BLOCK_MAPPING_START_TOKEN 1 1] @
     section_tokens 1 ''snmp''
       [(''asyncnum'', ''10''), (''timeout'', ''2''), (''retry'', ''1''), (''maxsesspool'', ''1000''), (''maxlifetime'', ''30'')] @
     section_tokens 7 ''http'' [(''port'', ''1216'')] @
     section_tokens 9 ''log'' [(''debug'', ''false''), (''logarchsize'', ''10485760'')] @
     section_tokens 12 ''ping'' [(''maxconcurrency'', ''500'')] @
     [token_at BLOCK_END_TOKEN 14 14, token_at STREAM_END_TOKEN 14 14]"

definition shipped_start :: scanner where
  "shipped_start = (new_scanner shipped_text)\<lparr>s_input := [], s_encoding := UTF8_ENCODING, s_ahead := lines_from 0\<rparr>"

lemma shipped_length: "length shipped_text = 229" "shipped_text \<noteq> []"
proof -
  show "length shipped_text = 229" by (simp add: shipped_text_def shipped_lines_def)
  then show "shipped_text \<noteq> []" by auto
qed

lemma shipped_cache: "cache (Suc n) (new_scanner shipped_text) = Ok shipped_start" if "n < 200"
proof -
  note len = shipped_length
  then have raw: "update_raw_buffer (new_scanner shipped_text) = (new_scanner shipped_text)\<lparr>s_input := [], s_raw := shipped_text\<rparr>"
    by (auto simp: update_raw_buffer_def new_scanner_def input_raw_buffer_size_def)
  have "take 2 shipped_text = ''# ''" "take 3 shipped_text = ''# s''" by (simp_all add: shipped_text_def shipped_lines_def)
  then have enc: "determine_encoding (new_scanner shipped_text) =
      (new_scanner shipped_text)\<lparr>s_input := [], s_raw := shipped_text, s_encoding := UTF8_ENCODING\<rparr>"
    using len raw by (simp add: determine_encoding_def read_three.simps new_scanner_def)
  have "decode_raw UTF8_ENCODING False shipped_text = Ok (lines_from 0, [])"
    unfolding lines_from_def shipped_text_def
    by (subst decode_raw_ascii) (simp_all add: shipped_lines_def)
  then have "decode_all ((new_scanner shipped_text)\<lparr>s_input := [], s_raw := shipped_text, s_encoding := UTF8_ENCODING\<rparr>) = Ok shipped_start"
    by (simp add: decode_all_def shipped_start_def new_scanner_def)
  moreover have "take 1 (lines_from 0) = [''#'']" by (simp add: lines_from_def shipped_lines_def)
  ultimately show ?thesis
    using that enc len by (simp add: cache_def update_buffer_def YamlReader.fill.simps new_scanner_def shipped_start_def BOM_def)
qed

text \<open>The first token, and the others, by rewriting.\<close>

definition shipped_second :: scanner where
  "shipped_second =
     shipped_start\<lparr>s_started := True, s_parsed := 1, s_allowed := True, s_keys := [no_key], s_indent := -1\<rparr>"

lemma shipped_first: "scan_from (new_scanner shipped_text) =
    (let (rest, e) = scan_from shipped_second in (token_at STREAM_START_TOKEN 0 0 # rest, e))"
proof -
  let ?s = "shipped_second\<lparr>s_tokens := [token_at STREAM_START_TOKEN 0 0], s_parsed := 0\<rparr>"
  note len = shipped_length
  have "fetch_next_token (new_scanner shipped_text) = Ok ?s"
    using shipped_cache [of 0]
    by (simp add: fetch_next_token_def fetch_stream_start_def append_token_def shipped_start_def shipped_second_def new_scanner_def)
  moreover have m: "token_measure ?s < token_measure (new_scanner shipped_text)" "token_measure shipped_second < token_measure (new_scanner shipped_text)"
    using len by (simp_all add: token_measure_def left_over_def end_queued_def shipped_start_def shipped_second_def new_scanner_def token_at_def)
  moreover have "stale_simple_keys ?s = Ok ?s" "\<not> head_may_be_key ?s" "s_tokens (new_scanner shipped_text) = []"
    by (simp_all add: stale_simple_keys_def is_stale_def head_may_be_key_def shipped_start_def shipped_second_def new_scanner_def no_key_def)
  ultimately have "fetch_more_tokens (new_scanner shipped_text) = Ok ?s"
    by (simp add: fetch_more_tokens_def loop.simps cong: scan_congs)
  with m show ?thesis
    by (subst scan_from.simps) (simp add: token_at_def shipped_start_def shipped_second_def new_scanner_def Let_def)
qed

lemma shipped_scanned: "scan_tokens shipped_text = (shipped_tokens, ScanDone)"
proof -
  have "scan_from shipped_second = (tl shipped_tokens, ScanDone)"
    by (simp add: shipped_second_def shipped_start_def new_scanner_def shipped_lines_def line_and_rest_def lines_window shipped_tokens_def
        tokens_defs scan_evals del: One_nat_def cong: scan_congs)
  with shipped_length show ?thesis by (simp add: scan_tokens_def shipped_first shipped_tokens_def)
qed

section \<open>The settings\<close>

definition shipped_root :: ynode where
  "shipped_root =
     MappingNode 1
       (concat (map (\<lambda>(line, name, es). [ScalarNode line [] name True,
            SequenceNode (line + 1) (map (\<lambda>(i, k, v). MappingNode (line + i) [ScalarNode (line + i) [] k True, ScalarNode (line + i) [] v True]) es)])
        [(1, ''snmp'', [(1, ''asyncnum'', ''10''), (2, ''timeout'', ''2''), (3, ''retry'', ''1''), (4, ''maxsesspool'', ''1000''),
            (5, ''maxlifetime'', ''30'')]),
         (7, ''http'', [(1, ''port'', ''1216'')]),
         (9, ''log'', [(1, ''debug'', ''false''), (2, ''logarchsize'', ''10485760'')]),
         (12, ''ping'', [(1, ''maxconcurrency'', ''500'')])]))"

lemma shipped_tree:
  "yaml_tree (12 * length shipped_tokens + 2) shipped_tokens no_token = Some (Ok (Some \<lparr>doc_root = shipped_root, doc_anchors = []\<rparr>))"
proof -
  have "yaml_tree 1046 shipped_tokens no_token = Some (Ok (Some \<lparr>doc_root = shipped_root, doc_anchors = []\<rparr>))"
    by (simp add: shipped_tokens_def tokens_defs no_token_def parse_evals build_fuel shipped_root_def One_nat_def [symmetric] Suc_1
        del: One_nat_def cong: obind_weak scan_congs)
  moreover have "12 * length shipped_tokens + 2 = 1046" by (simp add: shipped_tokens_def tokens_defs)
  ultimately show ?thesis by (simp only:)
qed

lemma shipped_printed:
  "itoa 10 = ''10''" "itoa 2 = ''2''" "itoa 1 = ''1''" "itoa 1000 = ''1000''" "itoa 30 = ''30''" "itoa 1216 = ''1216''"
  "itoa 10485760 = ''10485760''" "itoa 500 = ''500''"
  by (simp_all add: itoa_def show_nat.simps digit_char_def char_of_bits)

lemma shipped_numbers:
  "atoi ''2'' = Some 2" "atoi ''1'' = Some 1" "atoi ''1000'' = Some 1000" "atoi ''30'' = Some 30"
  "atoi ''10485760'' = Some 10485760" "atoi ''500'' = Some 500"
  by (simp_all add: atoi_def parse_nat_def is_digit_def digit_val_def in_int64_def)

lemma shipped_ints:
  "scalar_value [] ''10'' True = Ok (INT_TAG, VInt 10)"
  "scalar_value [] ''2'' True = Ok (INT_TAG, VInt 2)"
  "scalar_value [] ''1'' True = Ok (INT_TAG, VInt 1)"
  "scalar_value [] ''1000'' True = Ok (INT_TAG, VInt 1000)"
  "scalar_value [] ''30'' True = Ok (INT_TAG, VInt 30)"
  "scalar_value [] ''1216'' True = Ok (INT_TAG, VInt 1216)"
  "scalar_value [] ''10485760'' True = Ok (INT_TAG, VInt 10485760)"
  "scalar_value [] ''500'' True = Ok (INT_TAG, VInt 500)"
  using scalar_itoa [of 10] scalar_itoa [of 2] scalar_itoa [of 1] scalar_itoa [of 1000] scalar_itoa [of 30] scalar_itoa [of 1216]
    scalar_itoa [of 10485760] scalar_itoa [of 500]
  by (simp_all add: shipped_printed in_int64_def)

lemma shipped_words:
  "scalar_value [] ''snmp'' True = Ok (STR_TAG, VStr ''snmp'')"
  "scalar_value [] ''asyncnum'' True = Ok (STR_TAG, VStr ''asyncnum'')"
  "scalar_value [] ''timeout'' True = Ok (STR_TAG, VStr ''timeout'')"
  "scalar_value [] ''retry'' True = Ok (STR_TAG, VStr ''retry'')"
  "scalar_value [] ''maxsesspool'' True = Ok (STR_TAG, VStr ''maxsesspool'')"
  "scalar_value [] ''maxlifetime'' True = Ok (STR_TAG, VStr ''maxlifetime'')"
  "scalar_value [] ''http'' True = Ok (STR_TAG, VStr ''http'')"
  "scalar_value [] ''port'' True = Ok (STR_TAG, VStr ''port'')"
  "scalar_value [] ''log'' True = Ok (STR_TAG, VStr ''log'')"
  "scalar_value [] ''debug'' True = Ok (STR_TAG, VStr ''debug'')"
  "scalar_value [] ''logarchsize'' True = Ok (STR_TAG, VStr ''logarchsize'')"
  "scalar_value [] ''ping'' True = Ok (STR_TAG, VStr ''ping'')"
  "scalar_value [] ''maxconcurrency'' True = Ok (STR_TAG, VStr ''maxconcurrency'')"
  "scalar_value [] ''false'' True = Ok (BOOL_TAG, VBool False)"
  by code_simp+

definition shipped_map :: entries where
  "shipped_map =
     map (\<lambda>(name, es). (VStr name, VSeq (map (\<lambda>(k, v). VMap [(VStr k, v)]) es)))
       [(''snmp'', [(''asyncnum'', VInt 10), (''timeout'', VInt 2), (''retry'', VInt 1), (''maxsesspool'', VInt 1000),
                    (''maxlifetime'', VInt 30)]),
        (''http'', [(''port'', VInt 1216)]),
        (''log'', [(''debug'', VBool False), (''logarchsize'', VInt 10485760)]),
        (''ping'', [(''maxconcurrency'', VInt 500)])]"

lemma shipped_unmarshal: "Unmarshal shipped_text = Ok shipped_map"
proof -
  have "unmarshal_document (Some \<lparr>doc_root = shipped_root, doc_anchors = []\<rparr>) = Ok shipped_map"
    by (simp add: unmarshal_document_def shipped_root_def shipped_map_def shipped_ints shipped_words isMerge_def map_key_def)
  with shipped_tree show ?thesis by (simp add: Unmarshal_def shipped_scanned unmarshal_tokens_def)
qed

definition shipped_sections :: "(yaml \<times> yaml) list" where
  "shipped_sections =
     [(YStr ''snmp'', section_doc shipped_snmp), (YStr ''http'', section_doc [(''port'', YScalar ''1216'')]),
      (YStr ''log'', section_doc [(''debug'', YScalar ''false''), (''logarchsize'', YScalar ''10485760'')]),
      (YStr ''ping'', section_doc [(''maxconcurrency'', YScalar ''500'')])]"

lemma map_of_permuted:
  assumes "mset xs = mset ys" and "distinct (map fst ys)"
  shows "map_of xs = map_of ys"
proof -
  have "set xs = set ys" "distinct (map fst xs)"
    using assms mset_eq_setD [OF assms(1)] by (simp_all flip: distinct_count_atmost_1 mset_map, metis mset_eq_imp_distinct_iff mset_map)
  with assms(2) show ?thesis by (intro ext map_of_eqI) auto
qed

text \<open>C38: the shipped configuration file means what it says: from its bytes, through the scanner, the parser and the decoder,
  \<open>Loadconfig\<close> sets the eight settings that the file names to the values it gives them, in whatever order the run time
  goes through the maps.\<close>

theorem Loadfile_shipped:
  assumes "\<And>m. mset (order m) = mset m"
  shows "Loadfile order (Ok (bytes_of_string shipped_text)) c =
    Ok (c\<lparr>Port := ''1216'', Timeout := seconds 2, Retry := 1, Debug := False, Maxsesspool := 1000, Maxlifetime := seconds 30,
           Maxconcurrency := 500, Logarchsize := 10485760\<rparr>)"
proof -
  have one: "order [x] = [x]" for x using assms [of "[x]"] by simp
  have m: "yaml_entries order shipped_map = order shipped_sections"
    by (simp add: yaml_entries_def shipped_map_def shipped_sections_def section_doc_def shipped_snmp_def one shipped_printed)
  have "map_of (order shipped_sections) = map_of shipped_sections"
    by (rule map_of_permuted [OF assms]) (simp add: shipped_sections_def)
  then have "GetKey k (order shipped_sections) = GetKey k shipped_sections" for k by (simp add: GetKey_def)
  then have v: "key_value k (order shipped_sections) = key_value k shipped_sections" for k by (simp add: key_value_def)
  have "key_value ''http.port'' shipped_sections = ''1216''" "key_value ''snmp.timeout'' shipped_sections = ''2''"
    "key_value ''snmp.retry'' shipped_sections = ''1''" "key_value ''log.debug'' shipped_sections = ''false''"
    "key_value ''snmp.maxsesspool'' shipped_sections = ''1000''" "key_value ''snmp.maxlifetime'' shipped_sections = ''30''"
    "key_value ''ping.maxconcurrency'' shipped_sections = ''500''" "key_value ''log.logarchsize'' shipped_sections = ''10485760''"
    by (simp_all add: key_value_def GetKey_def shipped_sections_def section_doc_def shipped_snmp_def)
  then show ?thesis
    by (simp add: Loadfile_def GetConfig_def config_map_def shipped_unmarshal m Loadconfig_eq v setting_def shipped_numbers)
qed

theorem Loadfile_shipped_witness:
  "(\<forall>m. mset (id m) = mset (m :: (yaml \<times> yaml) list)) \<and>
   (\<exists>c. Loadfile id (Ok (bytes_of_string shipped_text)) Cfg = Ok c \<and> Maxconcurrency c = 500)"
  using Loadfile_shipped [of id Cfg] by simp

end
