(* ===== verification/YamlCrash.thy ===== *)
theory YamlCrash
  imports YamlEval
begin

text \<open>
  Two configuration files that stop the program: the panics of the scanner are no \<open>yamlError\<close>, so that \<open>handleErr\<close> raises
  them again and \<open>Loadconfig\<close> does not come back.
\<close>

lemma Loadfile_panics: "Unmarshal text = Panic p \<Longrightarrow> Loadfile order (Ok (bytes_of_string text)) c = Panic p"
  by (simp add: Loadfile_def GetConfig_def config_map_def Loadconfig_def)

text \<open>A quoted scalar over two lines whose end is at the column of the mapping, with something behind it.\<close>

definition quoted_text :: string where
  "quoted_text = ''  a: '' @ [CHR 0x27] @ ''x'' @ [CHR 0x0A] @ [CHR 0x27] @ '' b''"

lemma quoted_tokens:
  "scan_tokens quoted_text =
     (map (\<lambda>typ. token_at typ 0 0)
        [STREAM_START_TOKEN, BLOCK_MAPPING_START_TOKEN, KEY_TOKEN, SCALAR_TOKEN ''a'' PLAIN_SCALAR, VALUE_TOKEN] @
      [token_at (SCALAR_TOKEN ''x '' SINGLE_QUOTED_SCALAR) 0 1],
      ScanPanic (ExplicitPanic ''should not happen''))"
  by (simp add: quoted_text_def text_evals scan_evals del: One_nat_def cong: scan_congs)

theorem quoted_crashes:
  "Loadfile order (Ok (bytes_of_string quoted_text)) c = Panic (ExplicitPanic ''should not happen'')"
proof -
  have "yaml_tree 74
      (map (\<lambda>typ. token_at typ 0 0)
        [STREAM_START_TOKEN, BLOCK_MAPPING_START_TOKEN, KEY_TOKEN, SCALAR_TOKEN ''a'' PLAIN_SCALAR, VALUE_TOKEN] @
       [token_at (SCALAR_TOKEN ''x '' SINGLE_QUOTED_SCALAR) 0 1]) no_token = Some (Err no_token)"
    by (simp add: token_at_def no_token_def parse_evals build_fuel cong: obind_weak scan_congs)
  then have "Unmarshal quoted_text = Panic (ExplicitPanic ''should not happen'')"
    by (simp add: Unmarshal_def quoted_tokens unmarshal_tokens_def stopped_def)
  then show ?thesis by (rule Loadfile_panics)
qed

text \<open>A \<open>%TAG\<close> directive for the handle \<open>!\<close>, which YAML allows.\<close>

definition tag_text :: string where
  "tag_text = ''%TAG ! tag:x'' @ [CHR 0x0A] @ ''---'' @ [CHR 0x0A] @ ''a''"

lemma tag_tokens: "scan_tokens tag_text = ([token_at STREAM_START_TOKEN 0 0], ScanPanic IndexOutOfRange)"
  by (simp add: tag_text_def text_evals scan_evals del: One_nat_def cong: scan_congs)

theorem tag_directive_crashes:
  "Loadfile order (Ok (bytes_of_string tag_text)) c = Panic IndexOutOfRange"
proof -
  have "yaml_tree 14 [token_at STREAM_START_TOKEN 0 0] no_token = Some (Err no_token)"
    by (simp add: token_at_def no_token_def parse_evals build_fuel cong: obind_weak scan_congs)
  then have "Unmarshal tag_text = Panic IndexOutOfRange"
    by (simp add: Unmarshal_def tag_tokens unmarshal_tokens_def stopped_def)
  then show ?thesis by (rule Loadfile_panics)
qed

end
